(* ===== verification/Prelude.thy ===== *)
theory Prelude
  imports Main "HOL-Library.Sublist"
begin

section \<open>Shared vocabulary of the development\<close>

text \<open>
  This theory holds what every component shares: the status values that the C++ code returns
  (\<open>absl::Status\<close>, \<open>absl::StatusOr\<close> and \<open>grpc::Status\<close>), the ASCII character
  operations, decimal rendering of integers, substring search, and the list lemmas the
  component proofs use. A \<open>std::string\<close> is a \<^typ>\<open>string\<close>, one \<^typ>\<open>char\<close> per
  byte; a failing call is \<^const>\<open>Inl\<close> of its error, a successful one \<^const>\<open>Inr\<close> of
  its value. String concatenation (\<open>absl::StrCat\<close>, \<open>absl::StrAppend\<close>) is list append,
  and prefix and substring tests are the list predicates; library routines that parse or split
  text are parameters of the model (theory \<open>Absl\<close>).
\<close>

named_theorems ascii_simps \<open>equations of the ASCII character operations\<close>

subsection \<open>Status values\<close>

text \<open>The error codes of \<open>absl::StatusCode\<close>; success is \<^const>\<open>Inr\<close>.\<close>

datatype StatusCode =
    kCancelled | kUnknownError | kInvalidArgument | kDeadlineExceeded | kNotFound
  | kAlreadyExists | kPermissionDenied | kResourceExhausted | kFailedPrecondition | kAborted
  | kOutOfRange | kUnimplemented | kInternal | kUnavailable | kDataLoss | kUnauthenticated

datatype Status = Status (status_code: StatusCode) (status_message: string)

type_synonym 'a StatusOr = "Status + 'a"

text \<open>The error codes of \<open>grpc::StatusCode\<close> that the handlers produce.\<close>

datatype GrpcCode =
    INVALID_ARGUMENT | NOT_FOUND | ALREADY_EXISTS | FAILED_PRECONDITION | ABORTED
  | UNIMPLEMENTED | INTERNAL

datatype GrpcStatus = GrpcStatus (grpc_code: GrpcCode) (grpc_message: string)

subsection \<open>ASCII characters\<close>

definition char_code :: "char \<Rightarrow> nat" where
  "char_code c = of_char c"

definition ascii_isspace :: "char \<Rightarrow> bool" where
  "ascii_isspace c \<longleftrightarrow> (9 \<le> char_code c \<and> char_code c \<le> 13) \<or> char_code c = 32"

definition ascii_isdigit :: "char \<Rightarrow> bool" where
  "ascii_isdigit c \<longleftrightarrow> 48 \<le> char_code c \<and> char_code c \<le> 57"

definition ascii_isalpha :: "char \<Rightarrow> bool" where
  "ascii_isalpha c \<longleftrightarrow>
     (65 \<le> char_code c \<and> char_code c \<le> 90) \<or> (97 \<le> char_code c \<and> char_code c \<le> 122)"

definition ascii_isalnum :: "char \<Rightarrow> bool" where
  "ascii_isalnum c \<longleftrightarrow> ascii_isalpha c \<or> ascii_isdigit c"

definition ascii_tolower :: "char \<Rightarrow> char" where
  "ascii_tolower c =
     (if 65 \<le> char_code c \<and> char_code c \<le> 90 then char_of (char_code c + 32) else c)"

definition ascii_toupper :: "char \<Rightarrow> char" where
  "ascii_toupper c =
     (if 97 \<le> char_code c \<and> char_code c \<le> 122 then char_of (char_code c - 32) else c)"

lemmas [ascii_simps] =
  char_code_def ascii_isspace_def ascii_isdigit_def ascii_isalpha_def ascii_isalnum_def
  ascii_tolower_def ascii_toupper_def

definition AsciiStrToLower :: "string \<Rightarrow> string" where
  "AsciiStrToLower s = map ascii_tolower s"

definition AsciiStrToUpper :: "string \<Rightarrow> string" where
  "AsciiStrToUpper s = map ascii_toupper s"

definition EqualsIgnoreCase :: "string \<Rightarrow> string \<Rightarrow> bool" where
  "EqualsIgnoreCase a b \<longleftrightarrow> AsciiStrToLower a = AsciiStrToLower b"

lemma char_code_less [simp]: "char_code c < 256"
  unfolding char_code_def by (metis of_char_of nat_of_char_less_256)

lemma char_code_char_of [simp]: "n < 256 \<Longrightarrow> char_code (char_of n) = n"
  by (simp add: char_code_def)

lemma char_of_char_code [simp]: "char_of (char_code c) = c"
  by (simp add: char_code_def)

lemma char_code_inj: "char_code c = char_code d \<longleftrightarrow> c = d"
  by (simp add: char_code_def)

text \<open>
  The operations read off the bits of a character: these equations evaluate them on literals
  in \<open>simp\<close> and \<open>code_simp\<close> without arithmetic on character codes.
\<close>

lemma char_code_Char:
  "char_code (Char b0 b1 b2 b3 b4 b5 b6 b7) =
     of_bool b0 + 2 * (of_bool b1 + 2 * (of_bool b2 + 2 * (of_bool b3 +
     2 * (of_bool b4 + 2 * (of_bool b5 + 2 * (of_bool b6 + 2 * of_bool b7))))))"
  by (simp add: char_code_def of_char_Char)

definition letter_bits :: "bool \<Rightarrow> bool \<Rightarrow> bool \<Rightarrow> bool \<Rightarrow> bool \<Rightarrow> bool" where
  "letter_bits b0 b1 b2 b3 b4 \<longleftrightarrow>
     (b0 \<or> b1 \<or> b2 \<or> b3 \<or> b4) \<and> \<not> (b4 \<and> b3 \<and> (b2 \<or> b1 \<and> b0))"

lemma upper_bits:
  "65 \<le> char_code (Char b0 b1 b2 b3 b4 b5 b6 b7) \<and> char_code (Char b0 b1 b2 b3 b4 b5 b6 b7) \<le> 90 \<longleftrightarrow>
     \<not> b7 \<and> b6 \<and> \<not> b5 \<and> letter_bits b0 b1 b2 b3 b4"
  by (cases b0; cases b1; cases b2; cases b3; cases b4; cases b5; cases b6; cases b7;
      simp add: char_code_Char letter_bits_def)

lemma lower_bits:
  "97 \<le> char_code (Char b0 b1 b2 b3 b4 b5 b6 b7) \<and> char_code (Char b0 b1 b2 b3 b4 b5 b6 b7) \<le> 122 \<longleftrightarrow>
     \<not> b7 \<and> b6 \<and> b5 \<and> letter_bits b0 b1 b2 b3 b4"
  by (cases b0; cases b1; cases b2; cases b3; cases b4; cases b5; cases b6; cases b7;
      simp add: char_code_Char letter_bits_def)

lemma char_of_eqI: "n < 256 \<Longrightarrow> char_code c = n \<Longrightarrow> char_of n = c"
  by auto

lemma char_shift:
  "\<not> b5 \<Longrightarrow> char_of (char_code (Char b0 b1 b2 b3 b4 b5 b6 b7) + 32) =
     Char b0 b1 b2 b3 b4 True b6 b7"
  "b5 \<Longrightarrow> char_of (char_code (Char b0 b1 b2 b3 b4 b5 b6 b7) - 32) =
     Char b0 b1 b2 b3 b4 False b6 b7"
  by (rule char_of_eqI; simp add: char_code_Char)+

lemma ascii_tolower_Char [simp, code]:
  "ascii_tolower (Char b0 b1 b2 b3 b4 b5 b6 b7) =
     (if \<not> b7 \<and> b6 \<and> \<not> b5 \<and> letter_bits b0 b1 b2 b3 b4
      then Char b0 b1 b2 b3 b4 True b6 b7 else Char b0 b1 b2 b3 b4 b5 b6 b7)"
  by (simp add: ascii_tolower_def upper_bits char_shift)

lemma ascii_toupper_Char [simp, code]:
  "ascii_toupper (Char b0 b1 b2 b3 b4 b5 b6 b7) =
     (if \<not> b7 \<and> b6 \<and> b5 \<and> letter_bits b0 b1 b2 b3 b4
      then Char b0 b1 b2 b3 b4 False b6 b7 else Char b0 b1 b2 b3 b4 b5 b6 b7)"
  by (simp add: ascii_toupper_def lower_bits char_shift)

lemma ascii_isalpha_Char [simp, code]:
  "ascii_isalpha (Char b0 b1 b2 b3 b4 b5 b6 b7) \<longleftrightarrow>
     \<not> b7 \<and> b6 \<and> letter_bits b0 b1 b2 b3 b4"
  unfolding ascii_isalpha_def upper_bits lower_bits by auto

lemma ascii_isdigit_Char [simp, code]:
  "ascii_isdigit (Char b0 b1 b2 b3 b4 b5 b6 b7) \<longleftrightarrow>
     \<not> b7 \<and> \<not> b6 \<and> b5 \<and> b4 \<and> \<not> (b3 \<and> (b2 \<or> b1))"
  by (cases b0; cases b1; cases b2; cases b3; cases b4; cases b5; cases b6; cases b7;
      simp add: char_code_Char ascii_isdigit_def)

lemma ascii_isspace_Char [simp, code]:
  "ascii_isspace (Char b0 b1 b2 b3 b4 b5 b6 b7) \<longleftrightarrow>
     \<not> b7 \<and> \<not> b6 \<and> \<not> b4 \<and>
     (b5 \<and> \<not> b3 \<and> \<not> b2 \<and> \<not> b1 \<and> \<not> b0 \<or>
      \<not> b5 \<and> b3 \<and> (b2 \<and> \<not> b1 \<or> \<not> b2 \<and> (b1 \<or> b0)))"
  by (cases b0; cases b1; cases b2; cases b3; cases b4; cases b5; cases b6; cases b7;
      simp add: char_code_Char ascii_isspace_def)

declare letter_bits_def [simp]

lemma ascii_isalnum_Char [simp]:
  "ascii_isalnum (Char b0 b1 b2 b3 b4 b5 b6 b7) \<longleftrightarrow>
     ascii_isalpha (Char b0 b1 b2 b3 b4 b5 b6 b7) \<or> ascii_isdigit (Char b0 b1 b2 b3 b4 b5 b6 b7)"
  by (rule ascii_isalnum_def)

lemma ascii_tolower_idem [simp]: "ascii_tolower (ascii_tolower c) = ascii_tolower c"
  by (simp add: ascii_tolower_def)

lemma AsciiStrToLower_idem [simp]: "AsciiStrToLower (AsciiStrToLower s) = AsciiStrToLower s"
  by (simp add: AsciiStrToLower_def o_def)

lemma EqualsIgnoreCase_refl [simp]: "EqualsIgnoreCase s s"
  by (simp add: EqualsIgnoreCase_def)

lemma length_AsciiStrToLower [simp]: "length (AsciiStrToLower s) = length s"
  by (simp add: AsciiStrToLower_def)

subsection \<open>Trimming\<close>

definition trim_left :: "string \<Rightarrow> string" where
  "trim_left s = dropWhile ascii_isspace s"

definition trim_right :: "string \<Rightarrow> string" where
  "trim_right s = rev (dropWhile ascii_isspace (rev s))"

lemma trim_left_id: "s = [] \<or> \<not> ascii_isspace (hd s) \<Longrightarrow> trim_left s = s"
  by (cases s) (auto simp: trim_left_def)

lemma trim_right_id: "s = [] \<or> \<not> ascii_isspace (last s) \<Longrightarrow> trim_right s = s"
  by (cases s rule: rev_cases) (auto simp: trim_right_def)

lemma trim_left_spaces: "\<forall>c \<in> set w. ascii_isspace c \<Longrightarrow> trim_left (w @ s) = trim_left s"
  by (simp add: trim_left_def dropWhile_append2)

lemma trim_right_spaces: "\<forall>c \<in> set w. ascii_isspace c \<Longrightarrow> trim_right (s @ w) = trim_right s"
  by (auto simp: trim_right_def intro!: dropWhile_append2)

subsection \<open>Decimal rendering\<close>

definition digit_char :: "nat \<Rightarrow> char" where
  "digit_char n = char_of (48 + n)"

definition digit_val :: "char \<Rightarrow> nat" where
  "digit_val c = char_code c - 48"

fun dec_nat :: "nat \<Rightarrow> string" where
  "dec_nat n = (if n < 10 then [digit_char n] else dec_nat (n div 10) @ [digit_char (n mod 10)])"

declare dec_nat.simps [simp del]

definition dec :: "int \<Rightarrow> string" where
  "dec i = (if i < 0 then CHR ''-'' # dec_nat (nat (- i)) else dec_nat (nat i))"

definition undec :: "string \<Rightarrow> nat" where
  "undec s = foldl (\<lambda>acc c. 10 * acc + digit_val c) 0 s"

lemma digit_char_isdigit [simp]: "n < 10 \<Longrightarrow> ascii_isdigit (digit_char n)"
  by (simp add: ascii_isdigit_def digit_char_def)

lemma digit_val_char [simp]: "n < 10 \<Longrightarrow> digit_val (digit_char n) = n"
  by (simp add: digit_val_def digit_char_def)

lemma dec_nat_digits: "c \<in> set (dec_nat n) \<Longrightarrow> ascii_isdigit c"
proof (induction n rule: dec_nat.induct)
  case (1 n)
  show ?case
  proof (cases "n < 10")
    case True
    then show ?thesis using "1.prems" by (simp add: dec_nat.simps [of n])
  next
    case False
    then have "c \<in> set (dec_nat (n div 10)) \<or> c = digit_char (n mod 10)"
      using "1.prems" by (auto simp: dec_nat.simps [of n])
    then show ?thesis using "1.IH" [OF False] by auto
  qed
qed

lemma dec_nat_not_Nil [simp]: "dec_nat n \<noteq> []"
  by (simp add: dec_nat.simps [of n])

lemma undec_snoc: "undec (s @ [c]) = 10 * undec s + digit_val c"
  by (simp add: undec_def)

lemma undec_dec_nat [simp]: "undec (dec_nat n) = n"
proof (induction n rule: dec_nat.induct)
  case (1 n)
  show ?case
  proof (cases "n < 10")
    case True
    then show ?thesis by (simp add: dec_nat.simps [of n] undec_def)
  next
    case False
    then show ?thesis using "1.IH" by (simp add: dec_nat.simps [of n] undec_snoc)
  qed
qed

lemma dec_nat_inj: "dec_nat m = dec_nat n \<longleftrightarrow> m = n"
  by (metis undec_dec_nat)

lemma dec_nat_hd_digit: "ascii_isdigit (hd (dec_nat n))"
  by (metis dec_nat_digits dec_nat_not_Nil hd_in_set)

lemma ascii_isdigit_not_sign [simp]: "\<not> ascii_isdigit CHR ''-''" "\<not> ascii_isdigit CHR ''+''"
  by (simp_all add: ascii_simps)

lemma dec_nat_not_minus: "dec_nat n \<noteq> CHR ''-'' # s"
  by (metis ascii_isdigit_not_sign(1) dec_nat_hd_digit list.sel(1))

lemma dec_inj: "dec i = dec j \<longleftrightarrow> i = j"
proof
  assume eq: "dec i = dec j"
  show "i = j"
  proof (cases "i < 0")
    case True
    with eq have "j < 0"
      by (auto simp: dec_def dec_nat_not_minus [symmetric] split: if_splits)
    with True eq show ?thesis by (simp add: dec_def dec_nat_inj)
  next
    case False
    with eq have "\<not> j < 0" by (auto simp: dec_def dec_nat_not_minus split: if_splits)
    with False eq show ?thesis by (simp add: dec_def dec_nat_inj)
  qed
qed simp

lemma dec_chars: "c \<in> set (dec i) \<Longrightarrow> ascii_isdigit c \<or> c = CHR ''-''"
  by (auto simp: dec_def dec_nat_digits split: if_splits)

lemma dec_not_Nil [simp]: "dec i \<noteq> []"
  by (simp add: dec_def)

lemma dec_no_char: "\<not> ascii_isdigit c \<Longrightarrow> c \<noteq> CHR ''-'' \<Longrightarrow> c \<notin> set (dec i)"
  using dec_chars by blast

subsection \<open>Substring search\<close>

text \<open>
  \<open>find_sub p s\<close> is \<open>s.find(p)\<close>: the least position at which \<open>p\<close> occurs, or
  \<^const>\<open>None\<close> for \<open>npos\<close>. \<open>rfind_sub\<close> is \<open>s.rfind(p)\<close>, the greatest one, and
  \<open>StrContains\<close> the substring test.
\<close>

fun find_sub :: "string \<Rightarrow> string \<Rightarrow> nat option" where
  "find_sub p [] = (if p = [] then Some 0 else None)"
| "find_sub p (c # s) =
     (if prefix p (c # s) then Some 0 else map_option Suc (find_sub p s))"

fun rfind_sub :: "string \<Rightarrow> string \<Rightarrow> nat option" where
  "rfind_sub p [] = (if p = [] then Some 0 else None)"
| "rfind_sub p (c # s) =
     (case rfind_sub p s of
        Some i \<Rightarrow> Some (Suc i)
      | None \<Rightarrow> if prefix p (c # s) then Some 0 else None)"

definition StrContains :: "string \<Rightarrow> string \<Rightarrow> bool" where
  "StrContains s p \<longleftrightarrow> find_sub p s \<noteq> None"

lemma find_sub_Some:
  "find_sub p s = Some i \<Longrightarrow>
     i + length p \<le> length s \<and> s = take i s @ p @ drop (i + length p) s"
proof (induction s arbitrary: i)
  case Nil
  then show ?case by (simp split: if_splits)
next
  case (Cons c s)
  show ?case
  proof (cases "prefix p (c # s)")
    case True
    then obtain r where r: "c # s = p @ r" by (auto simp: prefix_def)
    from True Cons.prems have "i = 0" by simp
    then show ?thesis unfolding r by simp
  next
    case False
    with Cons.prems obtain j where j: "find_sub p s = Some j" "i = Suc j"
      by (auto split: if_splits)
    with Cons.IH [OF j(1)] show ?thesis by simp
  qed
qed

lemma find_sub_prefix_hit: "find_sub p (p @ v) = Some 0"
proof (cases "p @ v")
  case (Cons c s)
  then have "prefix p (c # s)" by (metis prefixI)
  with Cons show ?thesis by simp
qed simp

lemma find_sub_append_hit: "\<exists>i \<le> length u. find_sub p (u @ p @ v) = Some i"
proof (induction u)
  case Nil
  then show ?case by (simp add: find_sub_prefix_hit)
next
  case (Cons c u)
  then obtain i where "i \<le> length u" "find_sub p (u @ p @ v) = Some i" by blast
  then show ?case by (cases "prefix p (c # u @ p @ v)") auto
qed

lemma find_sub_None_iff: "find_sub p s = None \<longleftrightarrow> \<not> (\<exists>u v. s = u @ p @ v)"
proof
  assume none: "find_sub p s = None"
  show "\<not> (\<exists>u v. s = u @ p @ v)"
  proof
    assume "\<exists>u v. s = u @ p @ v"
    then obtain u v where "s = u @ p @ v" by blast
    with none find_sub_append_hit [of u p v] show False by auto
  qed
next
  assume no: "\<not> (\<exists>u v. s = u @ p @ v)"
  show "find_sub p s = None"
  proof (cases "find_sub p s")
    case (Some i)
    from find_sub_Some [OF this] no show ?thesis by metis
  qed
qed

lemma StrContains_iff: "StrContains s p \<longleftrightarrow> (\<exists>u v. s = u @ p @ v)"
  by (auto simp: StrContains_def find_sub_None_iff)

lemma StrContains_sublist: "StrContains s p \<longleftrightarrow> sublist p s"
  by (simp add: StrContains_iff sublist_def)

lemma StrContains_singleton: "StrContains s [c] \<longleftrightarrow> c \<in> set s"
  by (auto simp: StrContains_iff in_set_conv_decomp)

text \<open>A pattern that starts with a character absent from \<open>u\<close> is first met after \<open>u\<close>.\<close>

lemma find_sub_skip:
  assumes "p = d # q" "d \<notin> set u"
  shows "find_sub p (u @ v) = map_option (\<lambda>i. length u + i) (find_sub p v)"
  using assms(2)
proof (induction u)
  case Nil
  then show ?case by (simp add: option.map_ident)
next
  case (Cons c u)
  then have "\<not> prefix p (c # u @ v)" using assms(1) by auto
  with Cons show ?case by (simp add: option.map_comp o_def)
qed

lemma rfind_sub_Some:
  "rfind_sub p s = Some i \<Longrightarrow>
     i + length p \<le> length s \<and> s = take i s @ p @ drop (i + length p) s"
proof (induction s arbitrary: i)
  case Nil
  then show ?case by (simp split: if_splits)
next
  case (Cons c s)
  show ?case
  proof (cases "rfind_sub p s")
    case None
    with Cons.prems have "prefix p (c # s)" and i: "i = 0" by (auto split: if_splits)
    then obtain r where r: "c # s = p @ r" by (auto simp: prefix_def)
    show ?thesis unfolding r i by simp
  next
    case (Some j)
    with Cons.prems have "i = Suc j" by simp
    with Cons.IH [OF Some] show ?thesis by simp
  qed
qed

subsection \<open>Lists, options and sums\<close>

lemma sum_case_Inr_iff:
  "(case r of Inl e \<Rightarrow> Inl e | Inr x \<Rightarrow> f x) = Inr y \<longleftrightarrow> (\<exists>x. r = Inr x \<and> f x = Inr y)"
  by (cases r) auto

lemma sum_case_Inl_iff:
  "(case r of Inl e \<Rightarrow> Inl e | Inr x \<Rightarrow> f x) = Inl z \<longleftrightarrow>
     r = Inl z \<or> (\<exists>x. r = Inr x \<and> f x = Inl z)"
  by (cases r) auto

lemma takeWhile_append_stop:
  "\<forall>c \<in> set u. P c \<Longrightarrow> \<not> P d \<Longrightarrow> takeWhile P (u @ d # v) = u"
  by (induction u) auto

lemma dropWhile_append_stop:
  "\<forall>c \<in> set u. P c \<Longrightarrow> \<not> P d \<Longrightarrow> dropWhile P (u @ d # v) = d # v"
  by (induction u) auto

lemma map_upt_nth: "map (\<lambda>i. xs ! i) [0..<length xs] = xs"
  by (simp add: map_nth)

end
