(* ===== verification/Absl.thy ===== *)
theory Absl
  imports Prelude
begin

section \<open>The Abseil text routines the sources call\<close>

text \<open>
  Abseil is a third-party package: the routines that split and parse text are fields of the
  record \<open>absl\<close> that the definitions using them take as an argument. The locale
  \<open>absl_api\<close> states the documented laws the components rely on: \<open>absl::StrSplit\<close> with a
  character delimiter cuts a string at every occurrence of the delimiter, and
  \<open>absl::SimpleAtoi\<close> for a 64-bit integer accepts the decimal rendering of every value in
  range and never returns a value out of range. Both are interpreted on executable reference
  routines, which the witnesses also use.
\<close>

record absl =
  StrSplit :: "string \<Rightarrow> char \<Rightarrow> string list"
  SimpleAtoi :: "string \<Rightarrow> int option"

definition int64_min :: int where
  "int64_min = - (2 ^ 63)"

definition int64_max :: int where
  "int64_max = 2 ^ 63 - 1"

definition in_int64 :: "int \<Rightarrow> bool" where
  "in_int64 i \<longleftrightarrow> int64_min \<le> i \<and> i \<le> int64_max"

lemmas int64_defs = int64_min_def int64_max_def in_int64_def

fun join :: "char \<Rightarrow> string list \<Rightarrow> string" where
  "join d [] = []"
| "join d [p] = p"
| "join d (p # q # ps) = p @ d # join d (q # ps)"

locale absl_api =
  fixes A :: absl
  assumes split_join: "join d (StrSplit A s d) = s"
    and split_pieces: "p \<in> set (StrSplit A s d) \<Longrightarrow> d \<notin> set p"
    and split_not_Nil: "StrSplit A s d \<noteq> []"
    and atoi_dec: "in_int64 i \<Longrightarrow> SimpleAtoi A (dec i) = Some i"
    and atoi_range: "SimpleAtoi A s = Some i \<Longrightarrow> in_int64 i"
    and atoi_Nil: "SimpleAtoi A [] = None"

lemma join_inj:
  assumes "ps \<noteq> []" "qs \<noteq> []" "\<forall>p \<in> set ps. d \<notin> set p" "\<forall>q \<in> set qs. d \<notin> set q"
    and "join d ps = join d qs"
  shows "ps = qs"
  using assms
proof (induction d ps arbitrary: qs rule: join.induct)
  case (2 d p)
  then obtain q qs' where qs: "qs = q # qs'" by (cases qs) auto
  with 2 show ?case by (cases qs') (auto simp: in_set_conv_decomp)
next
  case (3 d p q ps)
  then obtain r rs where qs: "qs = r # rs" by (cases qs) auto
  show ?case
  proof (cases rs)
    case Nil
    with 3 qs show ?thesis by (auto simp: in_set_conv_decomp)
  next
    case (Cons r' rs')
    with 3 qs have eq: "p @ d # join d (q # ps) = r @ d # join d (r' # rs')" by simp
    have "p = takeWhile (\<lambda>c. c \<noteq> d) (p @ d # join d (q # ps))"
      using 3 by (subst takeWhile_append_stop) auto
    also have "\<dots> = r"
      unfolding eq using 3 qs by (subst takeWhile_append_stop) auto
    finally have "p = r" .
    with eq have "join d (q # ps) = join d (r' # rs')" by simp
    moreover have "\<forall>x \<in> set (q # ps). d \<notin> set x" "\<forall>x \<in> set (r' # rs'). d \<notin> set x"
      using 3 qs Cons by auto
    ultimately have "q # ps = r' # rs'" using "3.IH" by blast
    with \<open>p = r\<close> qs Cons show ?thesis by simp
  qed
qed simp

context absl_api begin

text \<open>Splitting a string that was joined from delimiter-free pieces gives the pieces back.\<close>

lemma split_of_join:
  "ps \<noteq> [] \<Longrightarrow> \<forall>p \<in> set ps. d \<notin> set p \<Longrightarrow> StrSplit A (join d ps) d = ps"
  using join_inj [of "StrSplit A (join d ps) d" ps d] split_join split_not_Nil split_pieces
  by metis

lemma split_eq_iff:
  "StrSplit A s d = ps \<longleftrightarrow> ps \<noteq> [] \<and> (\<forall>p \<in> set ps. d \<notin> set p) \<and> s = join d ps"
  using split_join split_not_Nil split_pieces split_of_join by metis

end

subsection \<open>Reference routines\<close>

fun split_on :: "string \<Rightarrow> char \<Rightarrow> string list" where
  "split_on [] d = [[]]"
| "split_on (c # s) d =
     (if c = d then [] # split_on s d
      else (case split_on s d of [] \<Rightarrow> [[c]] | p # ps \<Rightarrow> (c # p) # ps))"

definition atoi_ref :: "string \<Rightarrow> int option" where
  "atoi_ref s =
     (let t = trim_right (trim_left s);
          neg = (t \<noteq> [] \<and> hd t = CHR ''-'');
          ds = (if t \<noteq> [] \<and> (hd t = CHR ''-'' \<or> hd t = CHR ''+'') then tl t else t);
          i = (if neg then - int (undec ds) else int (undec ds))
      in if ds \<noteq> [] \<and> list_all ascii_isdigit ds \<and> in_int64 i then Some i else None)"

definition absl_ref :: absl where
  "absl_ref = \<lparr>StrSplit = split_on, SimpleAtoi = atoi_ref\<rparr>"

lemma split_on_not_Nil: "split_on s d \<noteq> []"
  by (induction s) (auto split: list.splits)

lemma join_Cons: "ps \<noteq> [] \<Longrightarrow> join d (p # ps) = p @ d # join d ps"
  by (cases ps) auto

lemma join_cons_char: "join d ((c # p) # ps) = c # join d (p # ps)"
  by (cases ps) auto

lemma join_split_on: "join d (split_on s d) = s"
proof (induction s)
  case (Cons c s)
  then show ?case
    using split_on_not_Nil [of s d]
    by (auto simp: join_Cons join_cons_char split: list.splits)
qed simp

lemma split_on_pieces: "p \<in> set (split_on s d) \<Longrightarrow> d \<notin> set p"
  by (induction s arbitrary: p) (auto split: if_splits list.splits)

lemma digit_not_space: "ascii_isdigit c \<Longrightarrow> \<not> ascii_isspace c"
  by (auto simp: ascii_isdigit_def ascii_isspace_def)

lemma trim_dec: "trim_right (trim_left (dec i)) = dec i"
proof -
  have ns: "\<not> ascii_isspace c" if "c \<in> set (dec i)" for c
    using dec_chars [OF that] digit_not_space by (auto simp: ascii_simps)
  then have "\<not> ascii_isspace (hd (dec i))" "\<not> ascii_isspace (last (dec i))" by simp_all
  then show ?thesis by (simp add: trim_left_id trim_right_id)
qed

lemma atoi_ref_dec:
  assumes "in_int64 i"
  shows "atoi_ref (dec i) = Some i"
proof -
  have digs: "list_all ascii_isdigit (dec_nat n)" for n
    by (simp add: list_all_iff dec_nat_digits)
  have hd: "hd (dec_nat n) \<noteq> CHR ''-''" "hd (dec_nat n) \<noteq> CHR ''+''" for n
    using dec_nat_hd_digit [of n] ascii_isdigit_not_sign by metis+
  show ?thesis
    unfolding atoi_ref_def trim_dec Let_def
    using assms digs hd by (cases "i < 0") (auto simp: dec_def)
qed

interpretation absl_ref: absl_api absl_ref
proof unfold_locales
  show "join d (StrSplit absl_ref s d) = s" for d s
    by (simp add: absl_ref_def join_split_on)
  show "d \<notin> set p" if "p \<in> set (StrSplit absl_ref s d)" for p s d
    using that by (simp add: absl_ref_def split_on_pieces)
  show "StrSplit absl_ref s d \<noteq> []" for s d
    by (simp add: absl_ref_def split_on_not_Nil)
  show "SimpleAtoi absl_ref (dec i) = Some i" if "in_int64 i" for i
    using that by (simp add: absl_ref_def atoi_ref_dec)
  show "in_int64 i" if "SimpleAtoi absl_ref s = Some i" for s i
    using that by (simp add: absl_ref_def atoi_ref_def Let_def split: if_splits)
  show "SimpleAtoi absl_ref [] = None"
    by (simp add: absl_ref_def atoi_ref_def trim_left_def trim_right_def)
qed

end
