(* ===== verification/Schema.thy ===== *)
theory Schema
  imports Absl
begin

section \<open>Table schemas: \<open>backend/schema/schema.h\<close> and \<open>schema.cc\<close>\<close>

text \<open>
  The component converts column schemas between the wire message \<open>v1::FieldSchema\<close> and the
  internal \<open>ColumnSchema\<close>, and renders column types as DuckDB type expressions. The model has
  the two enumerations and the two recursive structures as datatypes, one function per C++
  function, and the helper loops as mutually recursive functions. The lemmas show that parsing
  inverts naming, that the proto conversion round-trips and fails exactly on an unnamed field
  (with its dotted path), and that a rendered DuckDB type expression reads back as the intended
  type whatever characters the field names contain.
\<close>

subsection \<open>Data\<close>

datatype ColumnType =
    kUnknown | kInt64 | kFloat64 | kBool | kString | kBytes | kDate | kTime | kDatetime
  | kTimestamp | kNumeric | kBignumeric | kJson | kGeography | kArray | kStruct

datatype ColumnMode = kNullable | kRequired | kRepeated

datatype ColumnSchema =
  ColumnSchema (col_name: string) (col_type: ColumnType) (col_mode: ColumnMode)
    (col_description: string) (col_raw_type: string) (col_fields: "ColumnSchema list")

record TableSchema =
  columns :: "ColumnSchema list"

text \<open>The messages \<open>v1.FieldSchema\<close> and \<open>v1.TableSchema\<close> of \<open>proto/emulator.proto\<close>.\<close>

datatype FieldSchema =
  FieldSchema (fs_name: string) (fs_type: string) (fs_mode: string)
    (fs_description: string) (fs_fields: "FieldSchema list")

record TableSchemaProto =
  proto_fields :: "FieldSchema list"

subsection \<open>Names of types and modes\<close>

fun ColumnTypeName :: "ColumnType \<Rightarrow> string" where
  "ColumnTypeName kInt64 = ''INT64''"
| "ColumnTypeName kFloat64 = ''FLOAT64''"
| "ColumnTypeName kBool = ''BOOL''"
| "ColumnTypeName kString = ''STRING''"
| "ColumnTypeName kBytes = ''BYTES''"
| "ColumnTypeName kDate = ''DATE''"
| "ColumnTypeName kTime = ''TIME''"
| "ColumnTypeName kDatetime = ''DATETIME''"
| "ColumnTypeName kTimestamp = ''TIMESTAMP''"
| "ColumnTypeName kNumeric = ''NUMERIC''"
| "ColumnTypeName kBignumeric = ''BIGNUMERIC''"
| "ColumnTypeName kJson = ''JSON''"
| "ColumnTypeName kGeography = ''GEOGRAPHY''"
| "ColumnTypeName kArray = ''ARRAY''"
| "ColumnTypeName kStruct = ''STRUCT''"
| "ColumnTypeName kUnknown = []"

definition ParseColumnType :: "string \<Rightarrow> ColumnType" where
  "ParseColumnType name =
     (if EqualsIgnoreCase name ''INT64'' \<or> EqualsIgnoreCase name ''INTEGER'' then kInt64
      else if EqualsIgnoreCase name ''FLOAT64'' \<or> EqualsIgnoreCase name ''FLOAT'' then kFloat64
      else if EqualsIgnoreCase name ''BOOL'' \<or> EqualsIgnoreCase name ''BOOLEAN'' then kBool
      else if EqualsIgnoreCase name ''STRING'' then kString
      else if EqualsIgnoreCase name ''BYTES'' then kBytes
      else if EqualsIgnoreCase name ''DATE'' then kDate
      else if EqualsIgnoreCase name ''TIME'' then kTime
      else if EqualsIgnoreCase name ''DATETIME'' then kDatetime
      else if EqualsIgnoreCase name ''TIMESTAMP'' then kTimestamp
      else if EqualsIgnoreCase name ''NUMERIC'' then kNumeric
      else if EqualsIgnoreCase name ''BIGNUMERIC'' \<or> EqualsIgnoreCase name ''BIGDECIMAL''
        then kBignumeric
      else if EqualsIgnoreCase name ''JSON'' then kJson
      else if EqualsIgnoreCase name ''GEOGRAPHY'' then kGeography
      else if EqualsIgnoreCase name ''ARRAY'' then kArray
      else if EqualsIgnoreCase name ''STRUCT'' \<or> EqualsIgnoreCase name ''RECORD'' then kStruct
      else kUnknown)"

fun ColumnModeName :: "ColumnMode \<Rightarrow> string" where
  "ColumnModeName kNullable = ''NULLABLE''"
| "ColumnModeName kRequired = ''REQUIRED''"
| "ColumnModeName kRepeated = ''REPEATED''"

definition ParseColumnMode :: "string \<Rightarrow> ColumnMode" where
  "ParseColumnMode name =
     (if name = [] then kNullable
      else if EqualsIgnoreCase name ''REQUIRED'' then kRequired
      else if EqualsIgnoreCase name ''REPEATED'' then kRepeated
      else kNullable)"

subsection \<open>Proto conversions\<close>

definition missing_name_message :: string where
  "missing_name_message = ''FieldSchema is missing the required `name` field''"

fun ColumnSchemaFromProto :: "FieldSchema \<Rightarrow> ColumnSchema StatusOr"
  and NestedFromProto :: "string \<Rightarrow> FieldSchema list \<Rightarrow> ColumnSchema list StatusOr" where
  "ColumnSchemaFromProto (FieldSchema name ty mode desc flds) =
     (if name = [] then Inl (Status kInvalidArgument missing_name_message)
      else case NestedFromProto name flds of
             Inl e \<Rightarrow> Inl e
           | Inr cols \<Rightarrow>
               Inr (ColumnSchema name (ParseColumnType ty) (ParseColumnMode mode) desc
                      (if ParseColumnType ty = kUnknown then ty else []) cols))"
| "NestedFromProto name [] = Inr []"
| "NestedFromProto name (nested # rest) =
     (case ColumnSchemaFromProto nested of
        Inl e \<Rightarrow> Inl (Status (status_code e) (name @ ''.'' @ status_message e))
      | Inr child \<Rightarrow>
          (case NestedFromProto name rest of
             Inl e \<Rightarrow> Inl e
           | Inr children \<Rightarrow> Inr (child # children)))"

fun ColumnsFromProto :: "FieldSchema list \<Rightarrow> ColumnSchema list StatusOr" where
  "ColumnsFromProto [] = Inr []"
| "ColumnsFromProto (field # rest) =
     (case ColumnSchemaFromProto field of
        Inl e \<Rightarrow> Inl e
      | Inr column \<Rightarrow>
          (case ColumnsFromProto rest of
             Inl e \<Rightarrow> Inl e
           | Inr cols \<Rightarrow> Inr (column # cols)))"

definition TableSchemaFromProto :: "TableSchemaProto \<Rightarrow> TableSchema StatusOr" where
  "TableSchemaFromProto proto =
     (case ColumnsFromProto (proto_fields proto) of
        Inl e \<Rightarrow> Inl e
      | Inr cols \<Rightarrow> Inr \<lparr>columns = cols\<rparr>)"

fun ColumnSchemaToProto :: "ColumnSchema \<Rightarrow> FieldSchema" where
  "ColumnSchemaToProto (ColumnSchema name ty mode desc raw flds) =
     FieldSchema name
       (if ty = kUnknown \<and> raw \<noteq> [] then raw else ColumnTypeName ty)
       (ColumnModeName mode) desc (map ColumnSchemaToProto flds)"

definition TableSchemaToProto :: "TableSchema \<Rightarrow> TableSchemaProto" where
  "TableSchemaToProto schema = \<lparr>proto_fields = map ColumnSchemaToProto (columns schema)\<rparr>"

subsection \<open>DuckDB types\<close>

fun ToDuckDBType :: "ColumnType \<Rightarrow> string" where
  "ToDuckDBType kInt64 = ''BIGINT''"
| "ToDuckDBType kFloat64 = ''DOUBLE''"
| "ToDuckDBType kBool = ''BOOLEAN''"
| "ToDuckDBType kString = ''VARCHAR''"
| "ToDuckDBType kBytes = ''BLOB''"
| "ToDuckDBType kDate = ''DATE''"
| "ToDuckDBType kTime = ''TIME''"
| "ToDuckDBType kDatetime = ''TIMESTAMP''"
| "ToDuckDBType kTimestamp = ''TIMESTAMP WITH TIME ZONE''"
| "ToDuckDBType kNumeric = ''DECIMAL(38, 9)''"
| "ToDuckDBType kBignumeric = ''DECIMAL(38, 38)''"
| "ToDuckDBType kJson = ''JSON''"
| "ToDuckDBType kGeography = ''VARCHAR''"
| "ToDuckDBType kArray = ''LIST''"
| "ToDuckDBType kStruct = ''STRUCT''"
| "ToDuckDBType kUnknown = ''VARCHAR''"

definition ToDuckDBStorageType :: "ColumnType \<Rightarrow> string" where
  "ToDuckDBStorageType ty = (if ty = kBignumeric then ''VARCHAR'' else ToDuckDBType ty)"

definition TypeHead :: "string \<Rightarrow> string" where
  "TypeHead name =
     takeWhile (\<lambda>c. \<not> (c = CHR ''('' \<or> c = CHR ''['' \<or> c = CHR '' '' \<or> c = CHR 0x09)) name"

definition DuckDBTypeAliases :: "(string \<times> ColumnType) list" where
  "DuckDBTypeAliases =
     [(''BIGINT'', kInt64), (''INT8'', kInt64), (''LONG'', kInt64), (''INT64'', kInt64),
      (''INTEGER'', kInt64), (''INT'', kInt64), (''INT4'', kInt64), (''SMALLINT'', kInt64),
      (''INT2'', kInt64), (''TINYINT'', kInt64), (''INT1'', kInt64),
      (''DOUBLE'', kFloat64), (''FLOAT8'', kFloat64), (''REAL'', kFloat64),
      (''FLOAT4'', kFloat64), (''FLOAT'', kFloat64),
      (''BOOLEAN'', kBool), (''BOOL'', kBool),
      (''VARCHAR'', kString), (''TEXT'', kString), (''STRING'', kString), (''CHAR'', kString),
      (''BLOB'', kBytes), (''BYTEA'', kBytes), (''BINARY'', kBytes), (''VARBINARY'', kBytes),
      (''BYTES'', kBytes), (''DATE'', kDate), (''TIME'', kTime),
      (''TIMESTAMPTZ'', kTimestamp), (''TIMESTAMP_TZ'', kTimestamp),
      (''DECIMAL'', kNumeric), (''NUMERIC'', kNumeric),
      (''HUGEINT'', kBignumeric), (''BIGNUMERIC'', kBignumeric), (''BIGDECIMAL'', kBignumeric),
      (''JSON'', kJson), (''GEOMETRY'', kGeography), (''GEOGRAPHY'', kGeography),
      (''STRUCT'', kStruct), (''ROW'', kStruct), (''RECORD'', kStruct),
      (''LIST'', kArray), (''ARRAY'', kArray)]"

definition StripArraySuffix :: "string \<Rightarrow> string" where
  "StripArraySuffix name =
     rev (dropWhile (\<lambda>c. c = CHR ''['') (dropWhile (\<lambda>c. c = CHR '']'') (rev name)))"

definition ResolveTimestampVariant :: "string \<Rightarrow> ColumnType" where
  "ResolveTimestampVariant name =
     (if StrContains (AsciiStrToUpper name) ''WITH TIME ZONE'' then kTimestamp else kDatetime)"

definition FromDuckDBType :: "string \<Rightarrow> ColumnType" where
  "FromDuckDBType duckdb_type =
     (let name = StripArraySuffix duckdb_type; head = TypeHead name
      in if EqualsIgnoreCase head ''TIMESTAMP'' then ResolveTimestampVariant name
         else case map_of DuckDBTypeAliases (AsciiStrToUpper head) of
                Some ty \<Rightarrow> ty
              | None \<Rightarrow> kUnknown)"

text \<open>\<open>StrReplaceAll\<close> of one character by its doubling, as the quoting helpers use it.\<close>

definition double_char :: "char \<Rightarrow> string \<Rightarrow> string" where
  "double_char q s = concat (map (\<lambda>c. if c = q then [q, q] else [c]) s)"

definition QuoteStructFieldName :: "string \<Rightarrow> string" where
  "QuoteStructFieldName name = [CHR 0x22] @ double_char (CHR 0x22) name @ [CHR 0x22]"

fun ColumnSchemaToDuckDBTypeWithFn :: "(ColumnType \<Rightarrow> string) \<Rightarrow> ColumnSchema \<Rightarrow> string"
  and StructFieldsWithFn :: "(ColumnType \<Rightarrow> string) \<Rightarrow> bool \<Rightarrow> ColumnSchema list \<Rightarrow> string" where
  "ColumnSchemaToDuckDBTypeWithFn scalar_type (ColumnSchema name ty mode desc raw flds) =
     (if ty = kStruct then
        ''STRUCT('' @ StructFieldsWithFn scalar_type True flds @ '')'' @
          (if mode = kRepeated then ''[]'' else [])
      else if ty = kArray then
        (case flds of
           [] \<Rightarrow> ''VARCHAR''
         | front # _ \<Rightarrow> ColumnSchemaToDuckDBTypeWithFn scalar_type front) @
        ''[]'' @ (if mode = kRepeated then ''[]'' else [])
      else scalar_type ty @ (if mode = kRepeated then ''[]'' else []))"
| "StructFieldsWithFn scalar_type first [] = []"
| "StructFieldsWithFn scalar_type first (f # fs) =
     (if first then [] else '', '') @ QuoteStructFieldName (col_name f) @ '' '' @
     ColumnSchemaToDuckDBTypeWithFn scalar_type f @ StructFieldsWithFn scalar_type False fs"

definition ColumnSchemaToDuckDBType :: "ColumnSchema \<Rightarrow> string" where
  "ColumnSchemaToDuckDBType column = ColumnSchemaToDuckDBTypeWithFn ToDuckDBType column"

definition ColumnSchemaToDuckDBStorageType :: "ColumnSchema \<Rightarrow> string" where
  "ColumnSchemaToDuckDBStorageType column =
     ColumnSchemaToDuckDBTypeWithFn ToDuckDBStorageType column"

subsection \<open>Specification of the proto conversion\<close>

text \<open>
  \<open>first_unnamed\<close> walks the message in the order of the code and returns the names of the
  ancestors of the first field without a name; \<open>column_of\<close> is the conversion of a message all
  of whose fields are named. \<open>canonical_column\<close> characterises the columns the conversion
  produces: named at every level, and with a raw type exactly where the type is unknown.
\<close>

fun first_unnamed :: "FieldSchema \<Rightarrow> string list option"
  and first_unnamed_in :: "FieldSchema list \<Rightarrow> string list option" where
  "first_unnamed (FieldSchema name ty mode desc flds) =
     (if name = [] then Some [] else map_option (\<lambda>path. name # path) (first_unnamed_in flds))"
| "first_unnamed_in [] = None"
| "first_unnamed_in (f # fs) =
     (case first_unnamed f of Some path \<Rightarrow> Some path | None \<Rightarrow> first_unnamed_in fs)"

fun column_of :: "FieldSchema \<Rightarrow> ColumnSchema" where
  "column_of (FieldSchema name ty mode desc flds) =
     ColumnSchema name (ParseColumnType ty) (ParseColumnMode mode) desc
       (if ParseColumnType ty = kUnknown then ty else []) (map column_of flds)"

definition unnamed_status :: "string list \<Rightarrow> Status" where
  "unnamed_status path =
     Status kInvalidArgument (concat (map (\<lambda>n. n @ ''.'') path) @ missing_name_message)"

fun canonical_column :: "ColumnSchema \<Rightarrow> bool" where
  "canonical_column (ColumnSchema name ty mode desc raw flds) \<longleftrightarrow>
     name \<noteq> [] \<and>
     (if ty = kUnknown then ParseColumnType raw = kUnknown else raw = []) \<and>
     list_all canonical_column flds"

subsection \<open>Names\<close>

lemma ParseColumnType_Name: "ParseColumnType (ColumnTypeName ty) = ty"
  by (induction ty) code_simp+

lemma ParseColumnMode_Name: "ParseColumnMode (ColumnModeName m) = m"
  by (induction m) code_simp+

lemma ParseColumnType_ignores_case:
  "EqualsIgnoreCase a b \<Longrightarrow> ParseColumnType a = ParseColumnType b"
  by (simp add: EqualsIgnoreCase_def ParseColumnType_def)

lemma ParseColumnMode_ignores_case:
  "EqualsIgnoreCase a b \<Longrightarrow> ParseColumnMode a = ParseColumnMode b"
  by (auto simp: EqualsIgnoreCase_def ParseColumnMode_def AsciiStrToLower_def)

subsection \<open>The proto round trip\<close>

lemma FromProto_spec:
  "ColumnSchemaFromProto p =
     (case first_unnamed p of
        Some path \<Rightarrow> Inl (unnamed_status path) | None \<Rightarrow> Inr (column_of p))"
  "NestedFromProto name ps =
     (case first_unnamed_in ps of
        Some path \<Rightarrow> Inl (unnamed_status (name # path)) | None \<Rightarrow> Inr (map column_of ps))"
  by (induction p and name ps rule: ColumnSchemaFromProto_NestedFromProto.induct)
     (auto simp: unnamed_status_def split: option.splits)

lemma ColumnsFromProto_spec:
  "ColumnsFromProto ps =
     (case first_unnamed_in ps of
        Some path \<Rightarrow> Inl (unnamed_status path) | None \<Rightarrow> Inr (map column_of ps))"
  by (induction ps) (auto simp: FromProto_spec split: option.splits)

lemma first_unnamed_in_None_iff:
  "first_unnamed_in ps = None \<longleftrightarrow> (\<forall>p \<in> set ps. first_unnamed p = None)"
  by (induction ps) (auto split: option.splits)

lemma column_of_canonical: "first_unnamed p = None \<Longrightarrow> canonical_column (column_of p)"
  by (induction p rule: column_of.induct)
     (auto simp: list_all_iff first_unnamed_in_None_iff split: if_splits)

lemma ToProto_named: "canonical_column c \<Longrightarrow> first_unnamed (ColumnSchemaToProto c) = None"
  by (induction c rule: ColumnSchemaToProto.induct)
     (auto simp: list_all_iff first_unnamed_in_None_iff)

lemma column_of_ToProto: "canonical_column c \<Longrightarrow> column_of (ColumnSchemaToProto c) = c"
proof (induction c rule: ColumnSchemaToProto.induct)
  case (1 name ty mode desc raw flds)
  then have "map (\<lambda>c. column_of (ColumnSchemaToProto c)) flds = flds"
    by (auto simp: list_all_iff intro: map_idI)
  moreover have "ParseColumnType [] = kUnknown" by code_simp
  ultimately show ?case
    using "1.prems" by (cases "ty = kUnknown")
      (auto simp: ParseColumnType_Name ParseColumnMode_Name o_def)
qed

lemma FromProto_ToProto:
  "canonical_column c \<Longrightarrow> ColumnSchemaFromProto (ColumnSchemaToProto c) = Inr c"
  by (simp add: FromProto_spec ToProto_named column_of_ToProto)

lemma ColumnsFromProto_ToProto:
  "list_all canonical_column cs \<Longrightarrow> ColumnsFromProto (map ColumnSchemaToProto cs) = Inr cs"
  by (induction cs) (simp_all add: FromProto_ToProto)

subsection \<open>Reading a rendered DuckDB type back\<close>

text \<open>
  \<open>DuckType\<close> is the abstract syntax of the type expressions the component emits and
  \<open>parse_type\<close> a reader of their concrete syntax: a scalar name or \<open>STRUCT(\<close> with
  double-quoted field names, followed by any number of \<open>[]\<close>. The fuel bounds the nesting.
\<close>

datatype DuckType =
    DScalar string
  | DStruct "(string \<times> DuckType) list"
  | DList DuckType

definition repeat_if :: "ColumnMode \<Rightarrow> DuckType \<Rightarrow> DuckType" where
  "repeat_if mode t = (if mode = kRepeated then DList t else t)"

fun duck_type_of :: "(ColumnType \<Rightarrow> string) \<Rightarrow> ColumnSchema \<Rightarrow> DuckType" where
  "duck_type_of scalar_type (ColumnSchema name ty mode desc raw flds) =
     repeat_if mode
       (if ty = kStruct
        then DStruct (map (\<lambda>f. (col_name f, duck_type_of scalar_type f)) flds)
        else if ty = kArray
        then DList (case flds of
                      [] \<Rightarrow> DScalar ''VARCHAR''
                    | front # _ \<Rightarrow> duck_type_of scalar_type front)
        else DScalar (scalar_type ty))"

definition duck_scalars :: "string list" where
  "duck_scalars =
     [''TIMESTAMP WITH TIME ZONE'', ''TIMESTAMP'', ''TIME'', ''DATE'', ''DECIMAL(38, 9)'',
      ''DECIMAL(38, 38)'', ''BIGINT'', ''DOUBLE'', ''BOOLEAN'', ''VARCHAR'', ''BLOB'', ''JSON'']"

definition parse_scalar :: "string \<Rightarrow> (string \<times> string) option" where
  "parse_scalar s =
     map_option (\<lambda>n. (n, drop (length n) s)) (find (\<lambda>n. prefix n s) duck_scalars)"

fun parse_quoted :: "string \<Rightarrow> (string \<times> string) option" where
  "parse_quoted [] = None"
| "parse_quoted (c # s) =
     (if c \<noteq> CHR 0x22 then map_option (\<lambda>(n, r). (c # n, r)) (parse_quoted s)
      else case s of
             [] \<Rightarrow> Some ([], [])
           | c' # s' \<Rightarrow>
               (if c' = CHR 0x22 then map_option (\<lambda>(n, r). (CHR 0x22 # n, r)) (parse_quoted s')
                else Some ([], s)))"

fun parse_suffix :: "DuckType \<Rightarrow> string \<Rightarrow> DuckType \<times> string" where
  "parse_suffix t (a # b # s) =
     (if a = CHR ''['' \<and> b = CHR '']'' then parse_suffix (DList t) s else (t, a # b # s))"
| "parse_suffix t s = (t, s)"

fun parse_type :: "nat \<Rightarrow> string \<Rightarrow> (DuckType \<times> string) option"
  and parse_fields :: "nat \<Rightarrow> string \<Rightarrow> ((string \<times> DuckType) list \<times> string) option" where
  "parse_type 0 s = None"
| "parse_type (Suc n) s =
     (if prefix ''STRUCT('' s
      then map_option (\<lambda>(fs, r). parse_suffix (DStruct fs) r) (parse_fields n (drop 7 s))
      else map_option (\<lambda>(x, r). parse_suffix (DScalar x) r) (parse_scalar s))"
| "parse_fields 0 s = None"
| "parse_fields (Suc n) s =
     (if prefix '')'' s then Some ([], drop 1 s)
      else let s' = (if prefix '', '' s then drop 2 s else s)
           in if prefix [CHR 0x22] s'
              then case parse_quoted (drop 1 s') of
                     None \<Rightarrow> None
                   | Some (name, r) \<Rightarrow>
                       (if prefix '' '' r
                        then case parse_type n (drop 1 r) of
                               None \<Rightarrow> None
                             | Some (t, r') \<Rightarrow>
                                 map_option (\<lambda>(fs, r''). ((name, t) # fs, r''))
                                   (parse_fields n r')
                        else None)
              else None)"

text \<open>The characters that may follow a type inside an expression, and the end of the text.\<close>

definition type_stop :: "string \<Rightarrow> bool" where
  "type_stop r \<longleftrightarrow> r = [] \<or> hd r \<in> {CHR '','', CHR '')'', CHR ''[''}"

lemma parse_suffix_stop: "q = [] \<or> hd q \<noteq> CHR ''['' \<Longrightarrow> parse_suffix t q = (t, q)"
  by (cases "(t, q)" rule: parse_suffix.cases) auto

lemma parse_quoted_double:
  "r \<noteq> [] \<Longrightarrow> hd r \<noteq> CHR 0x22 \<Longrightarrow>
     parse_quoted (double_char (CHR 0x22) name @ CHR 0x22 # r) = Some (name, r)"
proof (induction name)
  case Nil
  then show ?case by (cases r) (auto simp: double_char_def)
qed (auto simp: double_char_def)

definition type_stops :: string where
  "type_stops = '',)[''"

lemma duck_scalars_prefix_free:
  "list_all (\<lambda>x. find (\<lambda>n. prefix n x) duck_scalars = Some x \<and> \<not> prefix ''STRUCT('' x \<and>
     list_all (\<lambda>n. list_all (\<lambda>c. \<not> prefix (x @ [c]) n) type_stops) (''STRUCT('' # duck_scalars))
   duck_scalars"
  by code_simp

lemma prefix_append_stop:
  "prefix n (x @ r) \<Longrightarrow> prefix n x \<or> (\<exists>c s. r = c # s \<and> prefix (x @ [c]) n)"
proof (induction x arbitrary: n)
  case Nil
  then show ?case by (cases n; cases r) auto
next
  case (Cons a x)
  then show ?case by (cases n) auto
qed

lemma prefix_scalar_iff:
  assumes "x \<in> set duck_scalars" "type_stop r" "n \<in> set (''STRUCT('' # duck_scalars)"
  shows "prefix n (x @ r) \<longleftrightarrow> prefix n x"
proof
  assume "prefix n (x @ r)"
  moreover have "\<not> prefix (x @ [c]) n" if "r = c # s" for c s
  proof -
    have "c \<in> set type_stops" using assms(2) that by (auto simp: type_stop_def type_stops_def)
    with assms duck_scalars_prefix_free show ?thesis unfolding list_all_iff by blast
  qed
  ultimately show "prefix n x" using prefix_append_stop by blast
qed (rule prefix_prefix)

lemma parse_scalar_append:
  assumes "x \<in> set duck_scalars" "type_stop r"
  shows "parse_scalar (x @ r) = Some (x, r)" "\<not> prefix ''STRUCT('' (x @ r)"
proof -
  have "find (\<lambda>n. prefix n (x @ r)) duck_scalars = find (\<lambda>n. prefix n x) duck_scalars"
    using prefix_scalar_iff [OF assms] by (intro find_cong) auto
  also have "\<dots> = Some x"
    using assms(1) duck_scalars_prefix_free by (auto simp: list_all_iff)
  finally show "parse_scalar (x @ r) = Some (x, r)" by (simp add: parse_scalar_def)
  have "\<not> prefix ''STRUCT('' x"
    using assms(1) duck_scalars_prefix_free unfolding list_all_iff by blast
  moreover have "prefix ''STRUCT('' (x @ r) \<longleftrightarrow> prefix ''STRUCT('' x"
    by (rule prefix_scalar_iff [OF assms]) simp
  ultimately show "\<not> prefix ''STRUCT('' (x @ r)" by blast
qed

lemma scalar_names:
  "ty \<noteq> kStruct \<Longrightarrow> ty \<noteq> kArray \<Longrightarrow> ToDuckDBType ty \<in> set duck_scalars"
  "ty \<noteq> kStruct \<Longrightarrow> ty \<noteq> kArray \<Longrightarrow> ToDuckDBStorageType ty \<in> set duck_scalars"
  by (cases ty; simp add: duck_scalars_def ToDuckDBStorageType_def)+

lemma type_stop_suffix: "type_stop r \<Longrightarrow> type_stop (''[]'' @ r)"
  by (simp add: type_stop_def)

definition emits_scalars :: "(ColumnType \<Rightarrow> string) \<Rightarrow> bool" where
  "emits_scalars f \<longleftrightarrow> (\<forall>ty. ty \<noteq> kStruct \<longrightarrow> ty \<noteq> kArray \<longrightarrow> f ty \<in> set duck_scalars)"

lemma parse_type_scalar:
  "x \<in> set duck_scalars \<Longrightarrow> type_stop r \<Longrightarrow> 0 < n \<Longrightarrow>
     parse_type n (x @ r) = Some (parse_suffix (DScalar x) r)"
  by (cases n) (auto simp: parse_scalar_append)

lemma fields_stop:
  "type_stop (StructFieldsWithFn f False fs @ '')'' @ r)"
  by (cases fs) (auto simp: type_stop_def)

lemma parse_rendered:
  fixes f :: "ColumnType \<Rightarrow> string"
  assumes "emits_scalars f"
  shows "type_stop r \<Longrightarrow> length (ColumnSchemaToDuckDBTypeWithFn f c) \<le> n \<Longrightarrow>
           parse_type n (ColumnSchemaToDuckDBTypeWithFn f c @ r) =
           Some (parse_suffix (duck_type_of f c) r)"
    and "length (StructFieldsWithFn f first fs) < n \<Longrightarrow>
           parse_fields n (StructFieldsWithFn f first fs @ '')'' @ r) =
           Some (map (\<lambda>c. (col_name c, duck_type_of f c)) fs, r)"
  using assms
proof (induction f c and f first fs arbitrary: n r and n r
    rule: ColumnSchemaToDuckDBTypeWithFn_StructFieldsWithFn.induct)
  case (1 f name ty mode desc raw flds)
  consider (struct) "ty = kStruct" | (array) "ty = kArray"
    | (scalar) "ty \<noteq> kStruct" "ty \<noteq> kArray" by blast
  then show ?case
  proof cases
    case struct
    with "1.prems"(2) obtain m where n: "n = Suc m" by (cases n) auto
    define q where "q = (if mode = kRepeated then ''[]'' else []) @ r"
    have "parse_fields m (StructFieldsWithFn f True flds @ '')'' @ q) =
        Some (map (\<lambda>c. (col_name c, duck_type_of f c)) flds, q)"
      using 1 struct n by simp
    then show ?thesis
      using struct by (simp add: n q_def repeat_if_def)
  next
    case array
    show ?thesis
    proof (cases flds)
      case Nil
      have "''VARCHAR'' \<in> set duck_scalars" by (simp add: duck_scalars_def)
      moreover define q where "q = ''[]'' @ (if mode = kRepeated then ''[]'' else []) @ r"
      moreover from q_def have "type_stop q" by (simp add: type_stop_def)
      moreover from "1.prems"(2) array Nil have "0 < n" by simp
      ultimately have "parse_type n (''VARCHAR'' @ q) = Some (parse_suffix (DScalar ''VARCHAR'') q)"
        by (intro parse_type_scalar)
      then show ?thesis using array Nil by (simp add: q_def repeat_if_def)
    next
      case (Cons front rest)
      define q where "q = ''[]'' @ (if mode = kRepeated then ''[]'' else []) @ r"
      then have "type_stop q" by (simp add: type_stop_def)
      with 1 array Cons have
        "parse_type n (ColumnSchemaToDuckDBTypeWithFn f front @ q) =
         Some (parse_suffix (duck_type_of f front) q)"
        by simp
      then show ?thesis using array Cons by (simp add: q_def repeat_if_def)
    qed
  next
    case scalar
    define q where "q = (if mode = kRepeated then ''[]'' else []) @ r"
    then have "type_stop q" using "1.prems"(1) by (auto simp: type_stop_def)
    moreover have "f ty \<in> set duck_scalars" using "1.prems"(3) scalar by (simp add: emits_scalars_def)
    moreover from this have "0 < n"
      using "1.prems"(2) scalar by (cases n) (auto simp: duck_scalars_def)
    ultimately have "parse_type n (f ty @ q) = Some (parse_suffix (DScalar (f ty)) q)"
      by (intro parse_type_scalar)
    then show ?thesis using scalar by (simp add: q_def repeat_if_def)
  qed
next
  case (2 f first)
  then show ?case by (cases n) auto
next
  case (3 f first c fs)
  then obtain m where n: "n = Suc m" by (cases n) auto
  define q where "q = StructFieldsWithFn f False fs @ '')'' @ r"
  have ty: "parse_type m (ColumnSchemaToDuckDBTypeWithFn f c @ q) =
      Some (parse_suffix (duck_type_of f c) q)"
    using 3(1) [of q m] 3(3,4) fields_stop [of f fs r] n by (simp add: q_def)
  have "parse_suffix (duck_type_of f c) q = (duck_type_of f c, q)"
    by (rule parse_suffix_stop) (cases fs; simp add: q_def)
  moreover have "parse_fields m q = Some (map (\<lambda>c. (col_name c, duck_type_of f c)) fs, r)"
    using 3(2) [of m r] 3(3,4) n by (simp add: q_def)
  moreover have "parse_quoted (double_char (CHR 0x22) (col_name c) @
      CHR 0x22 # CHR '' '' # ColumnSchemaToDuckDBTypeWithFn f c @ q) =
      Some (col_name c, CHR '' '' # ColumnSchemaToDuckDBTypeWithFn f c @ q)"
    by (intro parse_quoted_double) auto
  ultimately show ?case
    using ty by (simp add: n QuoteStructFieldName_def q_def)
qed

subsection \<open>Reading the column type back from a DuckDB type\<close>

text \<open>
  \<open>leaf_type\<close> follows array columns to their element and maps the three types that share
  a DuckDB type with another one onto that other type.
\<close>

fun leaf_type :: "ColumnSchema \<Rightarrow> ColumnType" where
  "leaf_type (ColumnSchema name ty mode desc raw flds) =
     (if ty = kArray then (case flds of [] \<Rightarrow> kString | front # _ \<Rightarrow> leaf_type front)
      else if ty = kBignumeric then kNumeric
      else if ty = kGeography \<or> ty = kUnknown then kString
      else ty)"

lemma takeWhile_stop_hd:
  "r = [] \<or> \<not> P (hd r) \<Longrightarrow> takeWhile P (x @ r) = takeWhile P x"
  by (induction x) (auto simp: takeWhile_eq_Nil_iff)

definition list_marks :: "nat \<Rightarrow> string" where
  "list_marks k = concat (replicate k ''[]'')"

lemma list_marks_append [simp]: "list_marks k @ ''[]'' = list_marks (Suc k)"
  by (induction k) (simp_all add: list_marks_def)

lemma list_marks_last: "list_marks k \<noteq> [] \<Longrightarrow> last (list_marks k) = CHR '']''"
  by (induction k) (auto simp: list_marks_def)

lemma StripArraySuffix_marks:
  assumes "x \<noteq> []" "last x \<noteq> CHR '']''" "last x \<noteq> CHR ''[''"
  shows "StripArraySuffix (x @ list_marks k) = x @ list_marks (k - 1)"
proof (cases k)
  case 0
  with assms show ?thesis
    by (cases x rule: rev_cases) (auto simp: StripArraySuffix_def list_marks_def)
next
  case (Suc j)
  have "last (x @ list_marks j) \<noteq> CHR ''[''"
    using assms list_marks_last [of j] by (cases "list_marks j = []") auto
  moreover have "x @ list_marks j \<noteq> []" using assms by simp
  ultimately obtain u c where "x @ list_marks j = u @ [c]" "c \<noteq> CHR ''[''"
    by (metis append_butlast_last_id)
  moreover have "x @ list_marks k = (x @ list_marks j) @ ''[]''"
    by (simp add: Suc)
  ultimately show ?thesis by (simp add: StripArraySuffix_def Suc)
qed

lemma FromDuckDBType_marks:
  assumes "x \<noteq> []" "last x \<noteq> CHR '']''" "last x \<noteq> CHR ''[''"
  shows "FromDuckDBType (x @ list_marks k) =
    (if EqualsIgnoreCase (TypeHead x) ''TIMESTAMP'' then ResolveTimestampVariant (x @ list_marks (k - 1))
     else case map_of DuckDBTypeAliases (AsciiStrToUpper (TypeHead x)) of
            Some ty \<Rightarrow> ty | None \<Rightarrow> kUnknown)"
proof -
  have "list_marks j = [] \<or> hd (list_marks j) = CHR ''[''" for j
    by (cases j) (auto simp: list_marks_def)
  then have "TypeHead (x @ list_marks (k - 1)) = TypeHead x"
    unfolding TypeHead_def by (intro takeWhile_stop_hd) auto
  then show ?thesis by (simp add: FromDuckDBType_def StripArraySuffix_marks assms Let_def)
qed

lemma ResolveTimestampVariant_marks:
  "ResolveTimestampVariant (''TIMESTAMP'' @ list_marks k) = kDatetime"
  "ResolveTimestampVariant (''TIMESTAMP WITH TIME ZONE'' @ list_marks k) = kTimestamp"
proof -
  have "CHR ''W'' \<notin> set (AsciiStrToUpper (''TIMESTAMP'' @ list_marks k))"
    by (auto simp: AsciiStrToUpper_def list_marks_def)
  then show "ResolveTimestampVariant (''TIMESTAMP'' @ list_marks k) = kDatetime"
    by (auto simp: ResolveTimestampVariant_def StrContains_iff)
  have "AsciiStrToUpper (''TIMESTAMP WITH TIME ZONE'' @ list_marks k) =
      ''TIMESTAMP '' @ ''WITH TIME ZONE'' @ AsciiStrToUpper (list_marks k)"
    by (simp add: AsciiStrToUpper_def)
  then show "ResolveTimestampVariant (''TIMESTAMP WITH TIME ZONE'' @ list_marks k) = kTimestamp"
    unfolding ResolveTimestampVariant_def StrContains_iff by metis
qed

lemma FromDuckDBType_scalar_marks:
  assumes "ty \<noteq> kStruct" "ty \<noteq> kArray"
  shows "FromDuckDBType (ToDuckDBType ty @ list_marks k) = leaf_type (ColumnSchema n ty m d w fs)"
  using assms
  by (cases ty; subst FromDuckDBType_marks;
      simp add: TypeHead_def EqualsIgnoreCase_def AsciiStrToLower_def AsciiStrToUpper_def
        DuckDBTypeAliases_def ResolveTimestampVariant_marks [simplified])

lemma FromDuckDBType_struct_marks:
  "FromDuckDBType (''STRUCT('' @ s @ '')'' @ list_marks k) = kStruct"
proof -
  have "TypeHead (''STRUCT('' @ s @ '')'') = ''STRUCT''" by (simp add: TypeHead_def)
  then show ?thesis
    using FromDuckDBType_marks [of "''STRUCT('' @ s @ '')''" k]
    by (simp add: EqualsIgnoreCase_def AsciiStrToLower_def AsciiStrToUpper_def DuckDBTypeAliases_def)
qed

lemma FromDuckDBType_rendered:
  "FromDuckDBType (ColumnSchemaToDuckDBTypeWithFn ToDuckDBType c @ list_marks k) = leaf_type c"
proof (induction c arbitrary: k rule: leaf_type.induct)
  case (1 name ty mode desc raw flds)
  obtain j where j: "(if mode = kRepeated then ''[]'' else []) @ list_marks k = list_marks j"
    by (cases "mode = kRepeated") (auto simp: list_marks_def intro: that [of "Suc k"] that [of k])
  have j': "''[]'' @ list_marks j = list_marks (Suc j)" by (simp add: list_marks_def)
  consider (struct) "ty = kStruct" | (array) "ty = kArray"
    | (scalar) "ty \<noteq> kStruct" "ty \<noteq> kArray" by blast
  then show ?case
  proof cases
    case struct
    then show ?thesis
      using FromDuckDBType_struct_marks [of "StructFieldsWithFn ToDuckDBType True flds" j] j
      by simp
  next
    case array
    show ?thesis
    proof (cases flds)
      case Nil
      then show ?thesis
        using FromDuckDBType_scalar_marks [of kString "Suc j"] j j' array by simp
    next
      case (Cons front rest)
      then show ?thesis using "1.IH" [of front rest "Suc j"] j j' array by simp
    qed
  next
    case scalar
    then show ?thesis using FromDuckDBType_scalar_marks [of ty j] j by simp
  qed
qed

subsection \<open>Properties\<close>

text \<open>
  C30 (proto round trip). A table schema whose columns are canonical at every level (named, and
  with a raw type only where the type is unknown) survives \<open>TableSchemaToProto\<close> followed by
  \<open>TableSchemaFromProto\<close> unchanged; unknown type names travel through \<open>raw_type\<close>.
\<close>

theorem TableSchema_proto_roundtrip:
  assumes "list_all canonical_column (columns s)"
  shows "TableSchemaFromProto (TableSchemaToProto s) = Inr s"
  using ColumnsFromProto_ToProto [OF assms]
  by (simp add: TableSchemaFromProto_def TableSchemaToProto_def)

definition sample_schema :: TableSchema where
  "sample_schema = \<lparr>columns =
     [ColumnSchema ''id'' kInt64 kRequired ''key'' [] [],
      ColumnSchema ''o'' kStruct kRepeated [] []
        [ColumnSchema ''r'' kUnknown kNullable [] ''RANGE'' []]]\<rparr>"

theorem TableSchema_proto_roundtrip_witness:
  "list_all canonical_column (columns sample_schema) \<and>
   TableSchemaFromProto (TableSchemaToProto sample_schema) = Inr sample_schema"
proof -
  have "list_all canonical_column (columns sample_schema)" by code_simp
  with TableSchema_proto_roundtrip show ?thesis by blast
qed

text \<open>
  Functional correctness and errors of the proto conversion. \<open>TableSchemaFromProto\<close>
  succeeds exactly when every field at every level has a name, and then returns the columns
  field by field with the type and mode names parsed; otherwise it fails with
  \<open>kInvalidArgument\<close> and a message that starts with the dotted path of the ancestors of the
  first unnamed field in depth-first order. Every schema it returns is canonical.
\<close>

theorem TableSchemaFromProto_correct:
  "(case first_unnamed_in (proto_fields p) of
      Some path \<Rightarrow> TableSchemaFromProto p = Inl (unnamed_status path)
    | None \<Rightarrow> TableSchemaFromProto p = Inr \<lparr>columns = map column_of (proto_fields p)\<rparr> \<and>
              list_all canonical_column (map column_of (proto_fields p)))"
proof (cases "first_unnamed_in (proto_fields p)")
  case None
  then have "list_all canonical_column (map column_of (proto_fields p))"
    by (auto simp: list_all_iff first_unnamed_in_None_iff column_of_canonical)
  with None show ?thesis by (simp add: TableSchemaFromProto_def ColumnsFromProto_spec)
qed (simp add: TableSchemaFromProto_def ColumnsFromProto_spec)

text \<open>
  Rendered DuckDB types read back. The type expression that \<open>ColumnSchemaToDuckDBType\<close>
  and \<open>ColumnSchemaToDuckDBStorageType\<close> emit for any column is read back by the type-expression
  grammar as exactly the intended nesting of structs, lists and scalars, with every field name
  recovered verbatim: quotes, commas, parentheses or brackets in a name cannot change the type.
\<close>

theorem rendered_type_reads_back:
  "parse_type (length (ColumnSchemaToDuckDBType c)) (ColumnSchemaToDuckDBType c) =
     Some (duck_type_of ToDuckDBType c, []) \<and>
   parse_type (length (ColumnSchemaToDuckDBStorageType c)) (ColumnSchemaToDuckDBStorageType c) =
     Some (duck_type_of ToDuckDBStorageType c, [])"
  using parse_rendered(1) [of _ "[]" c]
  by (simp add: ColumnSchemaToDuckDBType_def ColumnSchemaToDuckDBStorageType_def type_stop_def
      emits_scalars_def scalar_names)

text \<open>
  Type recovered from a rendered type. \<open>FromDuckDBType\<close> applied to the full expression of
  a column returns the column's own type, looking through array markers to the element; only
  BIGNUMERIC, GEOGRAPHY and unknown types come back as the type whose DuckDB name they share.
\<close>

theorem FromDuckDBType_of_rendered:
  "FromDuckDBType (ColumnSchemaToDuckDBType c) = leaf_type c"
  using FromDuckDBType_rendered [of c 0]
  by (simp add: ColumnSchemaToDuckDBType_def list_marks_def)

end
