(* ===== verification/Storage_Value.thy ===== *)
theory Storage_Value
  imports Schema "HOL-Library.Word"
begin

section \<open>Cells, rows and the storage interface\<close>

text \<open>
  The engine-neutral data of \<open>backend/storage/storage.h\<close> and \<open>storage.cc\<close>, the conversions of
  \<open>frontend/handlers/handler_common.cc\<close> between values and wire cells and between
  \<open>absl::Status\<close> and \<open>grpc::Status\<close>, and the abstract class \<open>Storage\<close> that the RPC
  handlers call. A \<open>double\<close> is its 64-bit pattern; the decimal rendering of a double by
  \<open>absl::StrCat\<close> is a parameter. The variant of \<open>class Value\<close> is tagged by its kind, so the
  datatype has one constructor per factory function.

  The record \<open>Storage\<close> has the virtual methods the storage handlers use, each as a function on
  an abstract store state; the locale \<open>storage_contract\<close> states what the interface promises
  about the visible rows of a table, for the rows the store can take (\<open>ok_row\<close>). It is
  interpreted on the DuckDB store in theory \<open>Duckdb_Storage\<close>.
\<close>

type_synonym double = "64 word"

subsection \<open>Identifiers\<close>

record DatasetId =
  ds_project_id :: string
  ds_dataset_id :: string

record TableId =
  project_id :: string
  dataset_id :: string
  table_id :: string

subsection \<open>Values and rows\<close>

datatype Value =
    VNull
  | VBool bool
  | VInt64 int
  | VFloat64 double
  | VString string
  | VBytes string
  | VArray "Value list"
  | VStruct "Value list"

datatype Kind = KNull | KBool | KInt64 | KFloat64 | KString | KBytes | KArray | KStruct

fun kind :: "Value \<Rightarrow> Kind" where
  "kind VNull = KNull"
| "kind (VBool _) = KBool"
| "kind (VInt64 _) = KInt64"
| "kind (VFloat64 _) = KFloat64"
| "kind (VString _) = KString"
| "kind (VBytes _) = KBytes"
| "kind (VArray _) = KArray"
| "kind (VStruct _) = KStruct"

definition is_null :: "Value \<Rightarrow> bool" where
  "is_null v \<longleftrightarrow> kind v = KNull"

fun bool_value :: "Value \<Rightarrow> bool" where
  "bool_value (VBool b) = b"
| "bool_value _ = False"

fun int64_value :: "Value \<Rightarrow> int" where
  "int64_value (VInt64 i) = i"
| "int64_value _ = 0"

fun float64_value :: "Value \<Rightarrow> double" where
  "float64_value (VFloat64 d) = d"
| "float64_value _ = 0"

fun string_value :: "Value \<Rightarrow> string" where
  "string_value (VString s) = s"
| "string_value (VBytes s) = s"
| "string_value _ = []"

fun array_value :: "Value \<Rightarrow> Value list" where
  "array_value (VArray vs) = vs"
| "array_value _ = []"

fun struct_value :: "Value \<Rightarrow> Value list" where
  "struct_value (VStruct vs) = vs"
| "struct_value _ = []"

record Row =
  cells :: "Value list"

subsection \<open>Wire cells\<close>

datatype Cell =
    VALUE_NOT_SET
  | CellString string
  | CellNull bool
  | CellArray "Cell list"
  | CellStruct "Cell list"

fun ValueToCell :: "(double \<Rightarrow> string) \<Rightarrow> Value \<Rightarrow> Cell" where
  "ValueToCell StrCatDouble VNull = CellNull True"
| "ValueToCell StrCatDouble (VBool b) = CellString (if b then ''true'' else ''false'')"
| "ValueToCell StrCatDouble (VInt64 i) = CellString (dec i)"
| "ValueToCell StrCatDouble (VFloat64 d) = CellString (StrCatDouble d)"
| "ValueToCell StrCatDouble (VString s) = CellString s"
| "ValueToCell StrCatDouble (VBytes s) = CellString s"
| "ValueToCell StrCatDouble (VArray vs) = CellArray (map (ValueToCell StrCatDouble) vs)"
| "ValueToCell StrCatDouble (VStruct vs) = CellStruct (map (ValueToCell StrCatDouble) vs)"

fun CellToValue :: "Cell \<Rightarrow> Value" where
  "CellToValue (CellString s) = VString s"
| "CellToValue (CellNull b) = VNull"
| "CellToValue (CellArray cs) = VArray (map CellToValue cs)"
| "CellToValue (CellStruct cs) = VStruct (map CellToValue cs)"
| "CellToValue VALUE_NOT_SET = VNull"

subsection \<open>Status conversion\<close>

definition AbslToGrpcStatus :: "Status \<Rightarrow> GrpcStatus" where
  "AbslToGrpcStatus status =
     GrpcStatus
       (case status_code status of
          kNotFound \<Rightarrow> NOT_FOUND
        | kAlreadyExists \<Rightarrow> ALREADY_EXISTS
        | kInvalidArgument \<Rightarrow> INVALID_ARGUMENT
        | kFailedPrecondition \<Rightarrow> FAILED_PRECONDITION
        | kUnimplemented \<Rightarrow> UNIMPLEMENTED
        | _ \<Rightarrow> INTERNAL)
       (status_message status)"

subsection \<open>The storage interface\<close>

datatype PredicateKind = PInt64 | PBool | PString

record EqualityPredicate =
  ep_column :: string
  ep_kind :: PredicateKind
  ep_column_index :: nat
  ep_int64_value :: int
  ep_bool_value :: bool
  ep_string_value :: string

record ReadFilter =
  row_limit :: int
  rf_offset :: int
  selected_fields :: "string list"
  row_restriction :: string
  where_sql :: "string option"
  equality_predicate :: "EqualityPredicate option"
  row_start :: int
  row_end :: int

definition default_ReadFilter :: ReadFilter where
  "default_ReadFilter =
     \<lparr>row_limit = 0, rf_offset = 0, selected_fields = [], row_restriction = [],
      where_sql = None, equality_predicate = None, row_start = 0, row_end = -1\<rparr>"

record 'st Storage =
  GetSchema :: "'st \<Rightarrow> TableId \<Rightarrow> TableSchema StatusOr"
  StorageAppendRows :: "'st \<Rightarrow> TableId \<Rightarrow> Row list \<Rightarrow> unit StatusOr \<times> 'st"
  CreateReadStream :: "'st \<Rightarrow> TableId \<Rightarrow> ReadFilter \<Rightarrow> Row list StatusOr"
  CountRows :: "'st \<Rightarrow> TableId \<Rightarrow> int StatusOr"

locale storage_contract =
  fixes S :: "'st Storage"
    and rows_of :: "'st \<Rightarrow> TableId \<Rightarrow> Row list"
    and ok_row :: "'st \<Rightarrow> TableId \<Rightarrow> Row \<Rightarrow> bool"
  assumes append_ok:
      "\<lbrakk>\<And>r. r \<in> set rs \<Longrightarrow> ok_row st t r; StorageAppendRows S st t rs = (Inr u, st')\<rbrakk> \<Longrightarrow>
       rows_of st' = (rows_of st) (t := rows_of st t @ rs)"
    and append_error:
      "\<lbrakk>\<And>r. r \<in> set rs \<Longrightarrow> ok_row st t r; StorageAppendRows S st t rs = (Inl e, st')\<rbrakk> \<Longrightarrow>
       rows_of st' = rows_of st"
    and append_keeps_ok:
      "\<lbrakk>\<And>r. r \<in> set rs \<Longrightarrow> ok_row st t r; StorageAppendRows S st t rs = (q, st'); ok_row st t' x\<rbrakk> \<Longrightarrow>
       ok_row st' t' x"

subsection \<open>Cells carry values\<close>

text \<open>
  \<open>wire_value\<close> is what is left of a value on the wire: scalars become strings, because
  \<open>v1::Cell\<close> has no other scalar; \<open>wire_shaped\<close> are the values this does not change.
\<close>

fun wire_value :: "(double \<Rightarrow> string) \<Rightarrow> Value \<Rightarrow> Value" where
  "wire_value fmt (VBool b) = VString (if b then ''true'' else ''false'')"
| "wire_value fmt (VInt64 i) = VString (dec i)"
| "wire_value fmt (VFloat64 d) = VString (fmt d)"
| "wire_value fmt (VBytes s) = VString s"
| "wire_value fmt (VArray vs) = VArray (map (wire_value fmt) vs)"
| "wire_value fmt (VStruct vs) = VStruct (map (wire_value fmt) vs)"
| "wire_value fmt v = v"

fun wire_shaped :: "Value \<Rightarrow> bool" where
  "wire_shaped VNull = True"
| "wire_shaped (VString s) = True"
| "wire_shaped (VArray vs) = list_all wire_shaped vs"
| "wire_shaped (VStruct vs) = list_all wire_shaped vs"
| "wire_shaped v = False"

lemma CellToValue_ValueToCell: "CellToValue (ValueToCell fmt v) = wire_value fmt v"
  by (induction fmt v rule: ValueToCell.induct) auto

lemma wire_value_shaped: "wire_shaped (wire_value fmt v)"
  by (induction fmt v rule: wire_value.induct) (auto simp: list_all_iff)

lemma wire_value_id_iff: "wire_value fmt v = v \<longleftrightarrow> wire_shaped v"
proof
  assume "wire_value fmt v = v"
  then show "wire_shaped v" using wire_value_shaped [of fmt v] by simp
next
  assume "wire_shaped v"
  then show "wire_value fmt v = v"
    by (induction v rule: wire_shaped.induct) (auto simp: list_all_iff intro: map_idI)
qed

subsection \<open>Properties\<close>

text \<open>
  Cells carry values. Encoding a value as a wire cell and decoding it gives the value with
  its scalars as text; it is the same value exactly when the value is made of nulls, strings,
  arrays and structs, and a decoded value always encodes and decodes to itself.
\<close>

theorem cell_roundtrip:
  "CellToValue (ValueToCell fmt v) = wire_value fmt v \<and>
   (CellToValue (ValueToCell fmt v) = v \<longleftrightarrow> wire_shaped v) \<and>
   CellToValue (ValueToCell fmt (CellToValue (ValueToCell fmt v))) = CellToValue (ValueToCell fmt v)"
  using wire_value_id_iff [of fmt v] wire_value_id_iff [of fmt "wire_value fmt v"]
    wire_value_shaped [of fmt v]
  by (simp add: CellToValue_ValueToCell)

end
