(* ===== verification/Storage_Write.thy ===== *)
theory Storage_Write
  imports Storage_Value
begin

section \<open>The StorageWrite service\<close>

text \<open>
  The handlers of \<open>frontend/handlers/storage_write.cc\<close>, \<open>storage_write_append_rows.cc\<close>,
  \<open>storage_write_buffered.cc\<close> and \<open>storage_write_internal.cc\<close>. The record \<open>Service\<close> has
  the service's fields \<open>next_stream_id_\<close> and \<open>streams_\<close> and the state of the storage
  backend behind the pointer \<open>storage_\<close>. Each handler takes the state and returns its reply or
  its error together with the new state. The error sites of the code are the constructors of
  \<open>WriteError\<close>; \<open>write_error_status\<close> gives each its gRPC code and message text. A null
  storage pointer is \<^const>\<open>None\<close> for the storage, a null request or response pointer
  \<^const>\<open>None\<close> for the request. The clock reading is an argument, in seconds since the epoch.

  The code takes its mutex once per locked section. \<open>svc_step\<close> has one transition per locked
  section or storage call, so that its reachable states are those of every interleaving of
  concurrent handlers; the stream invariant is proved over it.
\<close>

subsection \<open>Table and stream names\<close>

definition SplitTablePath :: "absl \<Rightarrow> string \<Rightarrow> TableId option" where
  "SplitTablePath A path =
     (let parts = StrSplit A path (CHR ''/'')
      in if length parts \<noteq> 6 \<or> parts ! 0 \<noteq> ''projects'' \<or> parts ! 2 \<noteq> ''datasets'' \<or>
            parts ! 4 \<noteq> ''tables'' \<or> parts ! 1 = [] \<or> parts ! 3 = [] \<or> parts ! 5 = []
         then None
         else Some \<lparr>project_id = parts ! 1, dataset_id = parts ! 3, table_id = parts ! 5\<rparr>)"

definition TablePathFor :: "TableId \<Rightarrow> string" where
  "TablePathFor tid =
     ''projects/'' @ project_id tid @ ''/datasets/'' @ dataset_id tid @ ''/tables/'' @ table_id tid"

subsection \<open>Messages and errors\<close>

datatype WriteStreamType =
    TYPE_UNSPECIFIED | COMMITTED | PENDING | BUFFERED | UnknownStreamType int

fun stream_type_number :: "WriteStreamType \<Rightarrow> int" where
  "stream_type_number TYPE_UNSPECIFIED = 0"
| "stream_type_number COMMITTED = 1"
| "stream_type_number PENDING = 2"
| "stream_type_number BUFFERED = 3"
| "stream_type_number (UnknownStreamType n) = n"

record WriteStream =
  ws_name :: string
  ws_type :: WriteStreamType
  ws_schema :: TableSchemaProto
  ws_create_time :: string

record CreateWriteStreamRequest =
  cws_parent :: string
  cws_type :: "WriteStreamType option"

record DataRow =
  dr_cells :: "Cell list"

record AppendRowsRequest =
  ar_write_stream :: string
  ar_rows :: "DataRow list"
  ar_trace_id :: string

datatype AppendOutcome = AppendResult int | AppendErrorMessage string

record AppendRowsResponse =
  resp_outcome :: AppendOutcome
  resp_trace_id :: string
  resp_row_count :: int

record BatchCommitRequest =
  bc_parent :: string
  bc_write_streams :: "string list"

datatype Rpc = RpcCreate | RpcAppend | RpcGet | RpcFinalize | RpcBatchCommit | RpcFlush

fun rpc_name :: "Rpc \<Rightarrow> string" where
  "rpc_name RpcCreate = ''StorageWrite.CreateWriteStream''"
| "rpc_name RpcAppend = ''StorageWrite.AppendRows''"
| "rpc_name RpcGet = ''StorageWrite.GetWriteStream''"
| "rpc_name RpcFinalize = ''StorageWrite.FinalizeWriteStream''"
| "rpc_name RpcBatchCommit = ''StorageWrite.BatchCommitWriteStreams''"
| "rpc_name RpcFlush = ''StorageWrite.FlushRows''"

datatype WriteError =
    StorageNotConfigured Rpc
  | NullMessage Rpc
  | ParentRequired
  | MalformedParent string
  | WriteStreamRequired
  | MalformedStreamName string
  | MalformedTablePrefix string
  | EmptyStreamId string
  | BadStreamType WriteStreamType
  | StorageFailed Status
  | FirstMessageUnbound
  | CannotRebind string string
  | ClientCancelled
  | NoStreamForAppend string
  | NoSuchStream Rpc string
  | AppendToFinalized string
  | FlushNotBuffered
  | FlushFinalized
  | FlushOffsetOutOfRange int int
  | FlushOffsetPrecedes int int
  | FinalizeNameRequired
  | AlreadyFinalized string
  | FlushStreamRequired
  | BatchStreamsRequired
  | BatchNotPending string
  | BatchNotFinalized string
  | BatchWrongParent string

fun write_error_status :: "WriteError \<Rightarrow> GrpcStatus" where
  "write_error_status (StorageNotConfigured r) =
     GrpcStatus INTERNAL (rpc_name r @ '': storage backend is not configured'')"
| "write_error_status (NullMessage r) =
     GrpcStatus INTERNAL
       (rpc_name r @ (if r = RpcAppend then '': stream must be non-null''
                      else '': request and response must be non-null''))"
| "write_error_status ParentRequired =
     GrpcStatus INVALID_ARGUMENT
       ''StorageWrite.CreateWriteStream: parent is required (expected form projects/{p}/datasets/{d}/tables/{t})''"
| "write_error_status (MalformedParent parent) =
     GrpcStatus INVALID_ARGUMENT
       (''StorageWrite.CreateWriteStream: malformed parent (expected form projects/{p}/datasets/{d}/tables/{t}): '' @ parent)"
| "write_error_status WriteStreamRequired =
     GrpcStatus INVALID_ARGUMENT ''StorageWrite: write_stream is required''"
| "write_error_status (MalformedStreamName name) =
     GrpcStatus INVALID_ARGUMENT
       (''StorageWrite: malformed write_stream name (expected form projects/{p}/datasets/{d}/tables/{t}/streams/{id}): '' @ name)"
| "write_error_status (MalformedTablePrefix name) =
     GrpcStatus INVALID_ARGUMENT
       (''StorageWrite: malformed table prefix on write_stream name (expected projects/{p}/datasets/{d}/tables/{t} before /streams/): '' @ name)"
| "write_error_status (EmptyStreamId name) =
     GrpcStatus INVALID_ARGUMENT
       (''StorageWrite: empty stream id in write_stream name: '' @ name)"
| "write_error_status (BadStreamType ty) =
     GrpcStatus INVALID_ARGUMENT
       (''StorageWrite.CreateWriteStream: unknown stream type '' @ dec (stream_type_number ty))"
| "write_error_status (StorageFailed status) = AbslToGrpcStatus status"
| "write_error_status FirstMessageUnbound =
     GrpcStatus INVALID_ARGUMENT ''StorageWrite.AppendRows: first message must set write_stream''"
| "write_error_status (CannotRebind bound name) =
     GrpcStatus INVALID_ARGUMENT
       (''StorageWrite.AppendRows: cannot rebind stream mid-call (first message: '' @ bound @
        '', later message: '' @ name @ '')'')"
| "write_error_status ClientCancelled =
     GrpcStatus ABORTED ''StorageWrite.AppendRows: client cancelled mid-stream''"
| "write_error_status (NoStreamForAppend name) =
     GrpcStatus NOT_FOUND
       (''StorageWrite.AppendRows: no such stream (call CreateWriteStream first or use the reserved _default suffix): '' @ name)"
| "write_error_status (NoSuchStream r name) =
     GrpcStatus NOT_FOUND (rpc_name r @ '': no such stream: '' @ name)"
| "write_error_status (AppendToFinalized name) =
     GrpcStatus FAILED_PRECONDITION
       (''StorageWrite.AppendRows: stream is finalized: '' @ name)"
| "write_error_status FlushNotBuffered =
     GrpcStatus FAILED_PRECONDITION
       ''StorageWrite.FlushRows: FlushRows is only valid for BUFFERED streams''"
| "write_error_status FlushFinalized =
     GrpcStatus FAILED_PRECONDITION ''StorageWrite.FlushRows: stream is finalized''"
| "write_error_status (FlushOffsetOutOfRange offset count) =
     GrpcStatus INVALID_ARGUMENT
       (''StorageWrite.FlushRows: offset '' @ dec offset @ '' is out of range for '' @
        dec count @ '' buffered row(s)'')"
| "write_error_status (FlushOffsetPrecedes offset flushed) =
     GrpcStatus INVALID_ARGUMENT
       (''StorageWrite.FlushRows: offset '' @ dec offset @
        '' must not precede the prior flush cursor '' @ dec flushed)"
| "write_error_status FinalizeNameRequired =
     GrpcStatus INVALID_ARGUMENT ''StorageWrite.FinalizeWriteStream: name is required''"
| "write_error_status (AlreadyFinalized name) =
     GrpcStatus FAILED_PRECONDITION
       (''StorageWrite.FinalizeWriteStream: stream already finalized: '' @ name)"
| "write_error_status FlushStreamRequired =
     GrpcStatus INVALID_ARGUMENT ''StorageWrite.FlushRows: write_stream is required''"
| "write_error_status BatchStreamsRequired =
     GrpcStatus INVALID_ARGUMENT
       ''StorageWrite.BatchCommitWriteStreams: write_streams is required''"
| "write_error_status (BatchNotPending name) =
     GrpcStatus INVALID_ARGUMENT
       (''StorageWrite.BatchCommitWriteStreams: stream is not PENDING: '' @ name)"
| "write_error_status (BatchNotFinalized name) =
     GrpcStatus FAILED_PRECONDITION
       (''StorageWrite.BatchCommitWriteStreams: stream is not finalized: '' @ name)"
| "write_error_status (BatchWrongParent name) =
     GrpcStatus INVALID_ARGUMENT
       (''StorageWrite.BatchCommitWriteStreams: stream does not belong to parent table: '' @ name)"

subsection \<open>State\<close>

record StreamState =
  st_table :: TableId
  st_schema :: TableSchema
  st_type :: WriteStreamType
  st_create_time :: string
  committed_rows :: int
  buffered_rows :: "Row list"
  flushed_rows :: int
  finalized :: bool

record 'st Service =
  next_stream_id :: int
  streams :: "string \<rightharpoonup> StreamState"
  store :: 'st

definition new_StreamState :: "TableId \<Rightarrow> TableSchema \<Rightarrow> WriteStreamType \<Rightarrow> string \<Rightarrow> StreamState" where
  "new_StreamState t sch ty created =
     \<lparr>st_table = t, st_schema = sch, st_type = ty, st_create_time = created,
      committed_rows = 0, buffered_rows = [], flushed_rows = 0, finalized = False\<rparr>"

text \<open>\<open>std::map::emplace\<close>: an existing entry is kept.\<close>

definition emplace :: "string \<Rightarrow> StreamState \<Rightarrow> 'st Service \<Rightarrow> 'st Service" where
  "emplace name state svc =
     (if streams svc name = None then svc\<lparr>streams := (streams svc)(name \<mapsto> state)\<rparr> else svc)"

definition set_stream :: "string \<Rightarrow> StreamState \<Rightarrow> 'st Service \<Rightarrow> 'st Service" where
  "set_stream name state svc = svc\<lparr>streams := (streams svc)(name \<mapsto> state)\<rparr>"

subsection \<open>Parsing of names and the clock\<close>

definition ParseTableParent :: "absl \<Rightarrow> string \<Rightarrow> WriteError + TableId" where
  "ParseTableParent A parent =
     (if parent = [] then Inl ParentRequired
      else case SplitTablePath A parent of
             None \<Rightarrow> Inl (MalformedParent parent)
           | Some tid \<Rightarrow> Inr tid)"

definition ParseStreamName :: "absl \<Rightarrow> string \<Rightarrow> WriteError + TableId \<times> string" where
  "ParseStreamName A name =
     (if name = [] then Inl WriteStreamRequired
      else case find_sub ''/streams/'' name of
             None \<Rightarrow> Inl (MalformedStreamName name)
           | Some sep_pos \<Rightarrow>
               (case SplitTablePath A (take sep_pos name) of
                  None \<Rightarrow> Inl (MalformedTablePrefix name)
                | Some table \<Rightarrow>
                    let stream_id = drop (sep_pos + 9) name
                    in if stream_id = [] then Inl (EmptyStreamId name)
                       else Inr (table, stream_id)))"

definition NewStreamId :: "string \<Rightarrow> 'st Service \<Rightarrow> string \<times> 'st Service" where
  "NewStreamId table_path svc =
     (table_path @ ''/streams/s'' @ dec (next_stream_id svc),
      svc\<lparr>next_stream_id := next_stream_id svc + 1\<rparr>)"

text \<open>\<open>gmtime_r\<close>: the civil date (year, month, day) of a day number since 1970-01-01.\<close>

definition civil_from_days :: "int \<Rightarrow> int \<times> int \<times> int" where
  "civil_from_days days =
     (let z = days + 719468; era = z div 146097; doe = z mod 146097;
          yoe = (doe - doe div 1460 + doe div 36524 - doe div 146096) div 365;
          doy = doe - (365 * yoe + yoe div 4 - yoe div 100);
          mp = (5 * doy + 2) div 153;
          d = doy - (153 * mp + 2) div 5 + 1;
          m = (if mp < 10 then mp + 3 else mp - 9)
      in (yoe + era * 400 + (if m \<le> 2 then 1 else 0), m, d))"

definition pad_dec :: "nat \<Rightarrow> int \<Rightarrow> string" where
  "pad_dec w i = replicate (w - length (dec i)) (CHR ''0'') @ dec i"

definition Rfc3339Now :: "int \<Rightarrow> string" where
  "Rfc3339Now now =
     (let (y, m, d) = civil_from_days (now div 86400); s = now mod 86400
      in pad_dec 4 y @ ''-'' @ pad_dec 2 m @ ''-'' @ pad_dec 2 d @ ''T'' @
         pad_dec 2 (s div 3600) @ '':'' @ pad_dec 2 (s div 60 mod 60) @ '':'' @
         pad_dec 2 (s mod 60) @ ''Z'')"

subsection \<open>CreateWriteStream, EnsureDefaultStream and GetWriteStream\<close>

definition requested_type :: "WriteStreamType option \<Rightarrow> WriteStreamType" where
  "requested_type ty =
     (case ty of None \<Rightarrow> COMMITTED
      | Some TYPE_UNSPECIFIED \<Rightarrow> COMMITTED
      | Some t \<Rightarrow> t)"

definition CreateWriteStream ::
  "absl \<Rightarrow> 'st Storage option \<Rightarrow> int \<Rightarrow> CreateWriteStreamRequest option \<Rightarrow> 'st Service \<Rightarrow>
   (WriteError + WriteStream) \<times> 'st Service" where
  "CreateWriteStream A storage now request svc =
     (case storage of
        None \<Rightarrow> (Inl (StorageNotConfigured RpcCreate), svc)
      | Some S \<Rightarrow>
     (case request of
        None \<Rightarrow> (Inl (NullMessage RpcCreate), svc)
      | Some req \<Rightarrow>
     (case ParseTableParent A (cws_parent req) of
        Inl e \<Rightarrow> (Inl e, svc)
      | Inr tid \<Rightarrow>
     (let requested = requested_type (cws_type req)
      in if requested \<noteq> COMMITTED \<and> requested \<noteq> BUFFERED \<and> requested \<noteq> PENDING
         then (Inl (BadStreamType requested), svc)
         else case GetSchema S (store svc) tid of
                Inl status \<Rightarrow> (Inl (StorageFailed status), svc)
              | Inr sch \<Rightarrow>
                  let (stream_name, svc1) = NewStreamId (TablePathFor tid) svc;
                      create_time = Rfc3339Now now;
                      svc2 = emplace stream_name (new_StreamState tid sch requested create_time) svc1
                  in (Inr \<lparr>ws_name = stream_name, ws_type = requested,
                           ws_schema = TableSchemaToProto sch, ws_create_time = create_time\<rparr>,
                      svc2)))))"

definition EnsureDefaultStream ::
  "'st Storage \<Rightarrow> int \<Rightarrow> string \<Rightarrow> TableId \<Rightarrow> 'st Service \<Rightarrow> (WriteError + unit) \<times> 'st Service" where
  "EnsureDefaultStream S now stream_name table svc =
     (case GetSchema S (store svc) table of
        Inl status \<Rightarrow> (Inl (StorageFailed status), svc)
      | Inr sch \<Rightarrow>
          (Inr (), emplace stream_name (new_StreamState table sch COMMITTED (Rfc3339Now now)) svc))"

definition GetWriteStream ::
  "string option \<Rightarrow> 'st Service \<Rightarrow> WriteError + WriteStream" where
  "GetWriteStream request svc =
     (case request of
        None \<Rightarrow> Inl (NullMessage RpcGet)
      | Some name \<Rightarrow>
          (case streams svc name of
             None \<Rightarrow> Inl (NoSuchStream RpcGet name)
           | Some state \<Rightarrow>
               Inr \<lparr>ws_name = name, ws_type = st_type state,
                    ws_schema = TableSchemaToProto (st_schema state),
                    ws_create_time = st_create_time state\<rparr>))"

subsection \<open>AppendRows\<close>

text \<open>
  \<open>DecodeAppendRowBatch\<close> returns the decoded rows or the detail of the first row whose cell
  count differs from the pinned schema.
\<close>

definition shape_error_detail :: "nat \<Rightarrow> nat \<Rightarrow> nat \<Rightarrow> string" where
  "shape_error_detail r have_cells want_cols =
     ''AppendRows: row '' @ dec (int r) @ '' has '' @ dec (int have_cells) @
     '' cell(s) but the stream's table has '' @ dec (int want_cols) @ '' top-level column(s)''"

fun DecodeRowsFrom :: "nat \<Rightarrow> DataRow list \<Rightarrow> nat \<Rightarrow> string + Row list" where
  "DecodeRowsFrom r [] ncols = Inr []"
| "DecodeRowsFrom r (src # rest) ncols =
     (if length (dr_cells src) \<noteq> ncols
      then Inl (shape_error_detail r (length (dr_cells src)) ncols)
      else case DecodeRowsFrom (Suc r) rest ncols of
             Inl e \<Rightarrow> Inl e
           | Inr rows \<Rightarrow> Inr (\<lparr>cells = map CellToValue (dr_cells src)\<rparr> # rows))"

definition DecodeAppendRowBatch :: "AppendRowsRequest \<Rightarrow> TableSchema \<Rightarrow> string + Row list" where
  "DecodeAppendRowBatch req sch = DecodeRowsFrom 0 (ar_rows req) (length (columns sch))"

definition BindWriteStreamFromRequest ::
  "absl \<Rightarrow> 'st Storage \<Rightarrow> int \<Rightarrow> AppendRowsRequest \<Rightarrow> string \<times> TableId \<Rightarrow> 'st Service \<Rightarrow>
   (WriteError + string \<times> TableId) \<times> 'st Service" where
  "BindWriteStreamFromRequest A S now req bound svc =
     (let name = ar_write_stream req
      in if name = [] then
           (if fst bound = [] then (Inl FirstMessageUnbound, svc) else (Inr bound, svc))
         else case ParseStreamName A name of
                Inl e \<Rightarrow> (Inl e, svc)
              | Inr (table, stream_id) \<Rightarrow>
                  (if fst bound \<noteq> [] \<and> fst bound \<noteq> name
                   then (Inl (CannotRebind (fst bound) name), svc)
                   else if stream_id = ''_default''
                   then (case EnsureDefaultStream S now name table svc of
                           (Inl e, svc') \<Rightarrow> (Inl e, svc')
                         | (Inr u, svc') \<Rightarrow> (Inr (name, table), svc'))
                   else (Inr (name, table), svc)))"

record StreamSessionSnapshot =
  ss_table :: TableId
  ss_schema :: TableSchema
  ss_type :: WriteStreamType

definition LoadStreamSessionForAppend ::
  "string \<Rightarrow> 'st Service \<Rightarrow> WriteError + StreamSessionSnapshot" where
  "LoadStreamSessionForAppend bound svc =
     (case streams svc bound of
        None \<Rightarrow> Inl (NoStreamForAppend bound)
      | Some s \<Rightarrow>
          (if finalized s then Inl (AppendToFinalized bound)
           else Inr \<lparr>ss_table = st_table s, ss_schema = st_schema s, ss_type = st_type s\<rparr>))"

definition CommitBufferedAppendRows ::
  "string \<Rightarrow> Row list \<Rightarrow> 'st Service \<Rightarrow> (WriteError + int) \<times> 'st Service" where
  "CommitBufferedAppendRows bound rows svc =
     (case streams svc bound of
        None \<Rightarrow> (Inl (NoSuchStream RpcAppend bound), svc)
      | Some s \<Rightarrow>
          (Inr (committed_rows s),
           set_stream bound
             (s\<lparr>committed_rows := committed_rows s + int (length rows),
                buffered_rows := buffered_rows s @ rows\<rparr>) svc))"

text \<open>The locked tail of \<open>CommitImmediateAppendRows\<close>, after the storage call.\<close>

definition BumpCommittedRows :: "string \<Rightarrow> Row list \<Rightarrow> 'st Service \<Rightarrow> int \<times> 'st Service" where
  "BumpCommittedRows bound rows svc =
     (case streams svc bound of
        None \<Rightarrow> (0, svc)
      | Some s \<Rightarrow>
          (committed_rows s,
           set_stream bound (s\<lparr>committed_rows := committed_rows s + int (length rows)\<rparr>) svc))"

text \<open>
  The result is an error, or the recoverable error message of the response envelope, or the
  prior offset.
\<close>

definition CommitImmediateAppendRows ::
  "'st Storage \<Rightarrow> string \<Rightarrow> TableId \<Rightarrow> Row list \<Rightarrow> 'st Service \<Rightarrow>
   (WriteError + (string + int)) \<times> 'st Service" where
  "CommitImmediateAppendRows S bound table rows svc =
     (let (append_status, st') =
        (if rows = [] then (Inr (), store svc) else StorageAppendRows S (store svc) table rows);
        svc1 = svc\<lparr>store := st'\<rparr>
      in case append_status of
           Inl e \<Rightarrow>
             (if status_code e = kInvalidArgument \<or> status_code e = kFailedPrecondition
              then (Inr (Inl (status_message e)), svc1)
              else (Inl (StorageFailed e), svc1))
         | Inr u \<Rightarrow>
             (let (prior, svc2) = BumpCommittedRows bound rows svc1 in (Inr (Inr prior), svc2)))"

definition WriteAppendResponse ::
  "bool \<Rightarrow> AppendRowsResponse \<Rightarrow> (WriteError + unit) \<times> AppendRowsResponse list" where
  "WriteAppendResponse delivered resp =
     (if \<not> delivered then (Inl ClientCancelled, []) else (Inr (), [resp]))"

definition ProcessAppendRowsRequest ::
  "'st Storage \<Rightarrow> AppendRowsRequest \<Rightarrow> bool \<Rightarrow> string \<Rightarrow> 'st Service \<Rightarrow>
   ((WriteError + unit) \<times> AppendRowsResponse list) \<times> 'st Service" where
  "ProcessAppendRowsRequest S req delivered bound svc =
     (case LoadStreamSessionForAppend bound svc of
        Inl e \<Rightarrow> ((Inl e, []), svc)
      | Inr session \<Rightarrow>
     (case DecodeAppendRowBatch req (ss_schema session) of
        Inl detail \<Rightarrow>
          (WriteAppendResponse delivered
             \<lparr>resp_outcome = AppendErrorMessage detail, resp_trace_id = ar_trace_id req,
              resp_row_count = 0\<rparr>, svc)
      | Inr rows \<Rightarrow>
     (let ok_response = (\<lambda>prior. WriteAppendResponse delivered
             \<lparr>resp_outcome = AppendResult prior, resp_trace_id = ar_trace_id req,
              resp_row_count = int (length rows)\<rparr>)
      in if ss_type session = BUFFERED \<or> ss_type session = PENDING
         then (case CommitBufferedAppendRows bound rows svc of
                 (Inl e, svc') \<Rightarrow> ((Inl e, []), svc')
               | (Inr prior, svc') \<Rightarrow> (ok_response prior, svc'))
         else (case CommitImmediateAppendRows S bound (ss_table session) rows svc of
                 (Inl e, svc') \<Rightarrow> ((Inl e, []), svc')
               | (Inr (Inl message), svc') \<Rightarrow>
                   (WriteAppendResponse delivered
                      \<lparr>resp_outcome = AppendErrorMessage message, resp_trace_id = ar_trace_id req,
                       resp_row_count = 0\<rparr>, svc')
               | (Inr (Inr prior), svc') \<Rightarrow> (ok_response prior, svc')))))"

text \<open>
  A message of the client stream: the request, the clock reading while it is handled and
  whether the client is still there when its response is written.
\<close>

record ClientMessage =
  cm_request :: AppendRowsRequest
  cm_now :: int
  cm_delivered :: bool

fun AppendRowsLoop ::
  "absl \<Rightarrow> 'st Storage \<Rightarrow> ClientMessage list \<Rightarrow> string \<times> TableId \<Rightarrow> 'st Service \<Rightarrow>
   ((WriteError + unit) \<times> AppendRowsResponse list) \<times> 'st Service" where
  "AppendRowsLoop A S [] bound svc = ((Inr (), []), svc)"
| "AppendRowsLoop A S (m # ms) bound svc =
     (case BindWriteStreamFromRequest A S (cm_now m) (cm_request m) bound svc of
        (Inl e, svc1) \<Rightarrow> ((Inl e, []), svc1)
      | (Inr bound', svc1) \<Rightarrow>
          (case ProcessAppendRowsRequest S (cm_request m) (cm_delivered m) (fst bound') svc1 of
             ((Inl e, out), svc2) \<Rightarrow> ((Inl e, out), svc2)
           | ((Inr u, out), svc2) \<Rightarrow>
               (case AppendRowsLoop A S ms bound' svc2 of
                  ((r, out'), svc3) \<Rightarrow> ((r, out @ out'), svc3))))"

definition AppendRows ::
  "absl \<Rightarrow> 'st Storage option \<Rightarrow> ClientMessage list option \<Rightarrow> 'st Service \<Rightarrow>
   ((WriteError + unit) \<times> AppendRowsResponse list) \<times> 'st Service" where
  "AppendRows A storage stream svc =
     (case storage of
        None \<Rightarrow> ((Inl (StorageNotConfigured RpcAppend), []), svc)
      | Some S \<Rightarrow>
          (case stream of
             None \<Rightarrow> ((Inl (NullMessage RpcAppend), []), svc)
           | Some ms \<Rightarrow>
               AppendRowsLoop A S ms ([], \<lparr>project_id = [], dataset_id = [], table_id = []\<rparr>) svc))"

subsection \<open>FlushRows and FinalizeWriteStream\<close>

definition CommitBufferedPrefix ::
  "'st Storage \<Rightarrow> StreamState \<Rightarrow> int \<Rightarrow> 'st \<Rightarrow> (WriteError + StreamState) \<times> 'st" where
  "CommitBufferedPrefix S state offset st =
     (if st_type state \<noteq> BUFFERED then (Inl FlushNotBuffered, st)
      else if finalized state then (Inl FlushFinalized, st)
      else let buffered_count = int (length (buffered_rows state))
      in if offset < 0 \<or> offset \<ge> buffered_count
         then (Inl (FlushOffsetOutOfRange offset buffered_count), st)
      else if offset < flushed_rows state - 1
         then (Inl (FlushOffsetPrecedes offset (flushed_rows state)), st)
      else let start = flushed_rows state; stop = offset + 1
      in if start \<ge> stop then (Inr state, st)
      else let batch = map (\<lambda>i. buffered_rows state ! nat i) [start..stop - 1]
      in case StorageAppendRows S st (st_table state) batch of
           (Inl e, st') \<Rightarrow> (Inl (StorageFailed e), st')
         | (Inr u, st') \<Rightarrow> (Inr (state\<lparr>flushed_rows := stop\<rparr>), st'))"

definition FlushRows ::
  "absl \<Rightarrow> 'st Storage option \<Rightarrow> (string \<times> int) option \<Rightarrow> 'st Service \<Rightarrow>
   (WriteError + int) \<times> 'st Service" where
  "FlushRows A storage request svc =
     (case storage of
        None \<Rightarrow> (Inl (StorageNotConfigured RpcFlush), svc)
      | Some S \<Rightarrow>
     (case request of
        None \<Rightarrow> (Inl (NullMessage RpcFlush), svc)
      | Some (name, offset) \<Rightarrow>
     (if name = [] then (Inl FlushStreamRequired, svc)
      else case ParseStreamName A name of
        Inl e \<Rightarrow> (Inl e, svc)
      | Inr (table, stream_id) \<Rightarrow>
     (case streams svc name of
        None \<Rightarrow> (Inl (NoSuchStream RpcFlush name), svc)
      | Some state \<Rightarrow>
     (case CommitBufferedPrefix S state offset (store svc) of
        (Inl e, st') \<Rightarrow> (Inl e, svc\<lparr>store := st'\<rparr>)
      | (Inr state', st') \<Rightarrow> (Inr offset, set_stream name state' (svc\<lparr>store := st'\<rparr>)))))))"

definition FinalizedRowCount :: "StreamState \<Rightarrow> int" where
  "FinalizedRowCount s =
     (if st_type s = BUFFERED then flushed_rows s
      else if st_type s = PENDING then int (length (buffered_rows s))
      else committed_rows s)"

definition FinalizeWriteStream ::
  "absl \<Rightarrow> string option \<Rightarrow> 'st Service \<Rightarrow> (WriteError + int) \<times> 'st Service" where
  "FinalizeWriteStream A request svc =
     (case request of
        None \<Rightarrow> (Inl (NullMessage RpcFinalize), svc)
      | Some name \<Rightarrow>
     (if name = [] then (Inl FinalizeNameRequired, svc)
      else case ParseStreamName A name of
        Inl e \<Rightarrow> (Inl e, svc)
      | Inr (table, stream_id) \<Rightarrow>
     (case streams svc name of
        None \<Rightarrow> (Inl (NoSuchStream RpcFinalize name), svc)
      | Some s \<Rightarrow>
          (if finalized s then (Inl (AlreadyFinalized name), svc)
           else (Inr (FinalizedRowCount s),
                 set_stream name (s\<lparr>finalized := True\<rparr>) svc)))))"

subsection \<open>BatchCommitWriteStreams\<close>

text \<open>The locked section collects one commit per named stream, or stops at the first bad one.\<close>

fun CollectCommits ::
  "TableId option \<Rightarrow> string list \<Rightarrow> (string \<rightharpoonup> StreamState) \<Rightarrow> WriteError + (TableId \<times> Row list) list" where
  "CollectCommits parent [] strms = Inr []"
| "CollectCommits parent (name # names) strms =
     (case strms name of
        None \<Rightarrow> Inl (NoSuchStream RpcBatchCommit name)
      | Some s \<Rightarrow>
          (if st_type s \<noteq> PENDING then Inl (BatchNotPending name)
           else if \<not> finalized s then Inl (BatchNotFinalized name)
           else if parent \<noteq> None \<and> st_table s \<noteq> the parent then Inl (BatchWrongParent name)
           else case CollectCommits parent names strms of
                  Inl e \<Rightarrow> Inl e
                | Inr commits \<Rightarrow> Inr ((st_table s, buffered_rows s) # commits)))"

fun ApplyCommits ::
  "'st Storage \<Rightarrow> (TableId \<times> Row list) list \<Rightarrow> 'st \<Rightarrow> (WriteError + unit) \<times> 'st" where
  "ApplyCommits S [] st = (Inr (), st)"
| "ApplyCommits S ((t, rows) # commits) st =
     (if rows = [] then ApplyCommits S commits st
      else case StorageAppendRows S st t rows of
             (Inl e, st') \<Rightarrow> (Inl (StorageFailed e), st')
           | (Inr u, st') \<Rightarrow> ApplyCommits S commits st')"

definition BatchCommitWriteStreams ::
  "absl \<Rightarrow> 'st Storage option \<Rightarrow> int \<Rightarrow> BatchCommitRequest option \<Rightarrow> 'st Service \<Rightarrow>
   (WriteError + string) \<times> 'st Service" where
  "BatchCommitWriteStreams A storage now request svc =
     (case storage of
        None \<Rightarrow> (Inl (StorageNotConfigured RpcBatchCommit), svc)
      | Some S \<Rightarrow>
     (case request of
        None \<Rightarrow> (Inl (NullMessage RpcBatchCommit), svc)
      | Some req \<Rightarrow>
     (if bc_write_streams req = [] then (Inl BatchStreamsRequired, svc)
      else case (if bc_parent req = [] then Inr None
                 else map_sum (\<lambda>e. e) Some (ParseTableParent A (bc_parent req))) of
        Inl e \<Rightarrow> (Inl e, svc)
      | Inr parent \<Rightarrow>
     (case CollectCommits parent (bc_write_streams req) (streams svc) of
        Inl e \<Rightarrow> (Inl e, svc)
      | Inr commits \<Rightarrow>
     (case ApplyCommits S commits (store svc) of
        (Inl e, st') \<Rightarrow> (Inl e, svc\<lparr>store := st'\<rparr>)
      | (Inr u, st') \<Rightarrow> (Inr (Rfc3339Now now), svc\<lparr>store := st'\<rparr>))))))"

subsection \<open>The locked sections as a transition system\<close>

text \<open>
  A state is the service together with the set of append sessions that some handler has loaded.
  There is one rule per locked section of the code and one for the storage calls that the
  handlers make outside the mutex.
\<close>

type_synonym Sessions = "(string \<times> StreamSessionSnapshot) set"

inductive svc_step ::
  "absl \<Rightarrow> 'st Storage \<Rightarrow> 'st Service \<times> Sessions \<Rightarrow> 'st Service \<times> Sessions \<Rightarrow> bool"
  for A :: absl and S :: "'st Storage" where
  create:
    "ty = COMMITTED \<or> ty = BUFFERED \<or> ty = PENDING \<Longrightarrow>
     NewStreamId (TablePathFor tid) v = (name, v1) \<Longrightarrow>
     svc_step A S (v, ss) (emplace name (new_StreamState tid sch ty created) v1, ss)"
| ensure_default:
    "ParseStreamName A name = Inr (tid, ''_default'') \<Longrightarrow>
     svc_step A S (v, ss) (emplace name (new_StreamState tid sch COMMITTED created) v, ss)"
| load:
    "LoadStreamSessionForAppend name v = Inr sn \<Longrightarrow>
     svc_step A S (v, ss) (v, insert (name, sn) ss)"
| buffered_append:
    "(name, sn) \<in> ss \<Longrightarrow> ss_type sn = BUFFERED \<or> ss_type sn = PENDING \<Longrightarrow>
     CommitBufferedAppendRows name rows v = (r, v') \<Longrightarrow> svc_step A S (v, ss) (v', ss)"
| storage_append:
    "StorageAppendRows S (store v) t rows = (r, st') \<Longrightarrow>
     svc_step A S (v, ss) (v\<lparr>store := st'\<rparr>, ss)"
| bump:
    "(name, sn) \<in> ss \<Longrightarrow> ss_type sn \<noteq> BUFFERED \<Longrightarrow> ss_type sn \<noteq> PENDING \<Longrightarrow>
     BumpCommittedRows name rows v = (prior, v') \<Longrightarrow> svc_step A S (v, ss) (v', ss)"
| flush:
    "FlushRows A (Some S) (Some (name, off)) v = (r, v') \<Longrightarrow> svc_step A S (v, ss) (v', ss)"
| finalize:
    "FinalizeWriteStream A (Some name) v = (r, v') \<Longrightarrow> svc_step A S (v, ss) (v', ss)"

definition initial_service :: "'st \<Rightarrow> 'st Service" where
  "initial_service st = \<lparr>next_stream_id = 1, streams = Map.empty, store = st\<rparr>"

definition svc_reachable :: "absl \<Rightarrow> 'st Storage \<Rightarrow> 'st Service \<times> Sessions \<Rightarrow> bool" where
  "svc_reachable A S c \<longleftrightarrow> (\<exists>st. (svc_step A S)\<^sup>*\<^sup>* (initial_service st, {}) c)"

text \<open>The invariant of one stream, of the loaded sessions and of the id counter.\<close>

definition stream_inv :: "StreamState \<Rightarrow> bool" where
  "stream_inv s \<longleftrightarrow>
     (st_type s = COMMITTED \<or> st_type s = BUFFERED \<or> st_type s = PENDING) \<and>
     0 \<le> flushed_rows s \<and> flushed_rows s \<le> int (length (buffered_rows s)) \<and>
     0 \<le> committed_rows s \<and>
     (st_type s \<noteq> COMMITTED \<longrightarrow> committed_rows s = int (length (buffered_rows s))) \<and>
     (st_type s = COMMITTED \<longrightarrow> buffered_rows s = []) \<and>
     (st_type s \<noteq> BUFFERED \<longrightarrow> flushed_rows s = 0)"

definition session_of :: "StreamState \<Rightarrow> StreamSessionSnapshot" where
  "session_of s = \<lparr>ss_table = st_table s, ss_schema = st_schema s, ss_type = st_type s\<rparr>"

definition minted_name :: "TableId \<Rightarrow> int \<Rightarrow> string" where
  "minted_name tid n = TablePathFor tid @ ''/streams/s'' @ dec n"

definition service_inv :: "'st Service \<times> Sessions \<Rightarrow> bool" where
  "service_inv c \<longleftrightarrow>
     (\<forall>name s. streams (fst c) name = Some s \<longrightarrow> stream_inv s) \<and>
     (\<forall>name sn. (name, sn) \<in> snd c \<longrightarrow>
        (\<exists>s. streams (fst c) name = Some s \<and> session_of s = sn)) \<and>
     (\<forall>tid n. next_stream_id (fst c) \<le> n \<longrightarrow> streams (fst c) (minted_name tid n) = None)"

text \<open>How a stream may evolve: it never disappears, keeps its table, schema and type, only
  gains rows at the end, and never takes back a flush or a finalization.\<close>

definition stream_le :: "StreamState option \<Rightarrow> StreamState option \<Rightarrow> bool" where
  "stream_le a b \<longleftrightarrow>
     (case a of None \<Rightarrow> True
      | Some s \<Rightarrow>
          (case b of None \<Rightarrow> False
           | Some s' \<Rightarrow>
               session_of s' = session_of s \<and> st_create_time s' = st_create_time s \<and>
               prefix (buffered_rows s) (buffered_rows s') \<and>
               flushed_rows s \<le> flushed_rows s' \<and> committed_rows s \<le> committed_rows s' \<and>
               (finalized s \<longrightarrow> finalized s')))"

subsection \<open>Names\<close>

definition plain_id :: "string \<Rightarrow> bool" where
  "plain_id s \<longleftrightarrow> s \<noteq> [] \<and> CHR ''/'' \<notin> set s"

definition plain_table :: "TableId \<Rightarrow> bool" where
  "plain_table tid \<longleftrightarrow> plain_id (project_id tid) \<and> plain_id (dataset_id tid) \<and> plain_id (table_id tid)"

lemma TablePathFor_join:
  "TablePathFor tid =
     join (CHR ''/'') [''projects'', project_id tid, ''datasets'', dataset_id tid, ''tables'', table_id tid]"
  by (simp add: TablePathFor_def)

lemma find_streams_join:
  assumes "ps \<noteq> []" "\<forall>p \<in> set ps. CHR ''/'' \<notin> set p \<and> p \<noteq> ''streams''"
  shows "find_sub ''/streams/'' (join (CHR ''/'') ps @ ''/streams/'' @ x) =
    Some (length (join (CHR ''/'') ps))"
  using assms
proof (induction "CHR ''/''" ps rule: join.induct)
  case (2 p)
  then have "find_sub ''/streams/'' (p @ ''/streams/'' @ x) =
      map_option (\<lambda>i. length p + i) (find_sub ''/streams/'' (''/streams/'' @ x))"
    by (intro find_sub_skip) auto
  then show ?case by (simp add: find_sub_prefix_hit)
next
  case (3 p q ps)
  let ?rest = "join (CHR ''/'') (q # ps) @ ''/streams/'' @ x"
  have skip: "find_sub ''/streams/'' (p @ CHR ''/'' # ?rest) =
      map_option (\<lambda>i. length p + i) (find_sub ''/streams/'' (CHR ''/'' # ?rest))"
    using 3 by (intro find_sub_skip) auto
  obtain w where w: "?rest = q @ CHR ''/'' # w" by (cases ps) auto
  have "\<not> prefix ''/streams/'' (CHR ''/'' # ?rest)"
  proof
    assume "prefix ''/streams/'' (CHR ''/'' # ?rest)"
    then obtain z where z: "?rest = ''streams'' @ CHR ''/'' # z" by (auto simp: prefix_def)
    have "q = takeWhile (\<lambda>c. c \<noteq> CHR ''/'') ?rest"
      unfolding w using 3 by (subst takeWhile_append_stop) auto
    also have "\<dots> = ''streams''"
      unfolding z by (subst takeWhile_append_stop) auto
    finally show False using 3 by simp
  qed
  moreover have "find_sub ''/streams/'' ?rest = Some (length (join (CHR ''/'') (q # ps)))"
    using 3 by simp
  ultimately show ?case using skip by simp
qed simp

context absl_api begin

lemma SplitTablePath_TablePathFor:
  "plain_table tid \<Longrightarrow> SplitTablePath A (TablePathFor tid) = Some tid"
  unfolding TablePathFor_join SplitTablePath_def
  by (subst split_of_join) (auto simp: plain_table_def plain_id_def)

lemma SplitTablePath_Some:
  assumes "SplitTablePath A path = Some tid"
  shows "plain_table tid" "path = TablePathFor tid"
proof -
  let ?ps = "StrSplit A path (CHR ''/'')"
  have len: "length ?ps = 6" and parts: "?ps ! 0 = ''projects''" "?ps ! 2 = ''datasets''"
      "?ps ! 4 = ''tables''" "?ps ! 1 \<noteq> []" "?ps ! 3 \<noteq> []" "?ps ! 5 \<noteq> []"
    and tid: "tid = \<lparr>project_id = ?ps ! 1, dataset_id = ?ps ! 3, table_id = ?ps ! 5\<rparr>"
    using assms by (auto simp: SplitTablePath_def Let_def split: if_splits)
  have "CHR ''/'' \<notin> set (?ps ! i)" if "i < 6" for i
    using split_pieces [of "?ps ! i" path "CHR ''/''"] that len by simp
  then show "plain_table tid" using parts by (simp add: plain_table_def plain_id_def tid)
  have "?ps = map (\<lambda>i. ?ps ! i) [0..<length ?ps]" by (simp add: map_upt_nth)
  also have "\<dots> = [?ps ! 0, ?ps ! 1, ?ps ! 2, ?ps ! 3, ?ps ! 4, ?ps ! 5]"
    by (simp add: len upt_rec numeral_nat)
  finally have ps: "?ps = \<dots>" .
  have "path = join (CHR ''/'') ?ps" by (simp add: split_join)
  also have "\<dots> = TablePathFor tid"
    unfolding TablePathFor_join by (subst ps) (simp add: parts tid)
  finally show "path = TablePathFor tid" .
qed

text \<open>The stream name splits back into the table it was minted for, unless one of the ids is
  the word \<open>streams\<close> itself.\<close>

lemma ParseStreamName_minted:
  assumes "plain_table tid" "project_id tid \<noteq> ''streams''" "dataset_id tid \<noteq> ''streams''"
    "table_id tid \<noteq> ''streams''" "x \<noteq> []"
  shows "ParseStreamName A (TablePathFor tid @ ''/streams/'' @ x) = Inr (tid, x)"
proof -
  have "find_sub ''/streams/'' (TablePathFor tid @ ''/streams/'' @ x) =
      Some (length (TablePathFor tid))"
    unfolding TablePathFor_join
    by (rule find_streams_join) (use assms in \<open>auto simp: plain_table_def plain_id_def\<close>)
  then show ?thesis
    using assms(5) SplitTablePath_TablePathFor [OF assms(1)] by (simp add: ParseStreamName_def)
qed

lemma ParseStreamName_Inr:
  assumes "ParseStreamName A name = Inr (tid, x)"
  shows "name = TablePathFor tid @ ''/streams/'' @ x" "x \<noteq> []" "plain_table tid"
proof -
  from assms obtain i where i: "find_sub ''/streams/'' name = Some i"
    and split: "SplitTablePath A (take i name) = Some tid"
    and x: "x = drop (i + 9) name" "x \<noteq> []"
    by (auto simp: ParseStreamName_def Let_def split: if_splits option.splits)
  show "plain_table tid" by (rule SplitTablePath_Some(1) [OF split])
  show "x \<noteq> []" by (rule x)
  have len: "length ''/streams/'' = (9 :: nat)" by simp
  have "name = take i name @ ''/streams/'' @ drop (i + 9) name"
    using find_sub_Some [OF i] unfolding len by blast
  then show "name = TablePathFor tid @ ''/streams/'' @ x"
    unfolding SplitTablePath_Some(2) [OF split] x(1) [symmetric] .
qed

end

lemma minted_name_inj:
  assumes "minted_name tid m = minted_name tid' n"
  shows "m = n"
proof -
  have no_s: "CHR ''s'' \<notin> set (dec i)" for i by (rule dec_no_char) simp_all
  have "rev (dec m) = takeWhile (\<lambda>c. c \<noteq> CHR ''s'') (rev (minted_name tid m))" for tid m
    unfolding minted_name_def by (simp, subst takeWhile_append_stop) (use no_s in auto)
  then have "rev (dec m) = rev (dec n)" using assms by metis
  then show ?thesis by (simp add: dec_inj)
qed

lemma minted_name_not_default:
  "TablePathFor tid @ ''/streams/'' @ ''_default'' \<noteq> minted_name tid' n"
proof
  assume eq: "TablePathFor tid @ ''/streams/'' @ ''_default'' = minted_name tid' n"
  have "last (minted_name tid' n) = last (dec n)" by (simp add: minted_name_def)
  moreover have "last (TablePathFor tid @ ''/streams/'' @ ''_default'') = CHR ''t''" by simp
  ultimately have "CHR ''t'' \<in> set (dec n)" unfolding eq by (metis dec_not_Nil last_in_set)
  then show False using dec_no_char [of "CHR ''t''" n] by simp
qed

subsection \<open>The invariant holds in every interleaving\<close>

lemmas stream_defs = stream_inv_def session_of_def new_StreamState_def

lemma set_stream_simps [simp]:
  "streams (set_stream name s v) = (streams v)(name \<mapsto> s)"
  "next_stream_id (set_stream name s v) = next_stream_id v"
  "store (set_stream name s v) = store v"
  by (simp_all add: set_stream_def)

lemma emplace_simps [simp]:
  "next_stream_id (emplace name s v) = next_stream_id v"
  "store (emplace name s v) = store v"
  "streams (emplace name s v) =
     (if streams v name = None then (streams v)(name \<mapsto> s) else streams v)"
  by (simp_all add: emplace_def)

text \<open>A section that replaces one stream by a later state of it keeps the invariant.\<close>

lemma service_inv_update:
  assumes inv: "service_inv (v, ss)" and s: "streams v name = Some s"
    and s': "stream_inv s'" "session_of s' = session_of s"
    and v': "streams v' = (streams v)(name \<mapsto> s')" "next_stream_id v' = next_stream_id v"
  shows "service_inv (v', ss)"
  using assms unfolding service_inv_def by (auto split: if_splits) (metis option.inject)

lemma service_inv_session:
  "service_inv (v, ss) \<Longrightarrow> (name, sn) \<in> ss \<Longrightarrow>
     \<exists>s. streams v name = Some s \<and> session_of s = sn \<and> stream_inv s"
  unfolding service_inv_def fst_conv snd_conv by blast

lemma service_inv_store: "service_inv (v, ss) \<Longrightarrow> service_inv (v\<lparr>store := st\<rparr>, ss)"
  by (simp add: service_inv_def)

lemma CommitBufferedPrefix_cases:
  assumes "CommitBufferedPrefix S s off st = (r, st')"
  obtains (error) e where "r = Inl e"
  | (noop) "r = Inr s" "st' = st" "st_type s = BUFFERED" "\<not> finalized s"
      "flushed_rows s = off + 1" "off < int (length (buffered_rows s))" "0 \<le> off"
  | (flushed) u where "r = Inr (s\<lparr>flushed_rows := off + 1\<rparr>)" "st_type s = BUFFERED"
      "\<not> finalized s" "flushed_rows s < off + 1" "off < int (length (buffered_rows s))" "0 \<le> off"
      "StorageAppendRows S st (st_table s)
         (map (\<lambda>i. buffered_rows s ! nat i) [flushed_rows s..off]) = (Inr u, st')"
  using assms
  by (auto simp: CommitBufferedPrefix_def Let_def split: if_splits sum.splits prod.splits)

lemma FlushRows_cases:
  assumes "FlushRows A (Some S) (Some (name, off)) v = (r, v')"
  obtains (unchanged) e where "r = Inl e" "v' = v"
  | (failed) s e st' where "r = Inl e" "v' = v\<lparr>store := st'\<rparr>" "streams v name = Some s"
      "CommitBufferedPrefix S s off (store v) = (Inl e, st')"
  | (ok) s s' st' where "r = Inr off" "v' = set_stream name s' (v\<lparr>store := st'\<rparr>)"
      "streams v name = Some s" "CommitBufferedPrefix S s off (store v) = (Inr s', st')"
  using assms
  by (auto simp: FlushRows_def split: if_splits sum.splits prod.splits option.splits)

lemma FinalizeWriteStream_cases:
  assumes "FinalizeWriteStream A (Some name) v = (r, v')"
  obtains (unchanged) e where "r = Inl e" "v' = v"
  | (ok) s where "streams v name = Some s" "\<not> finalized s"
      "v' = set_stream name (s\<lparr>finalized := True\<rparr>) v"
      "r = Inr (FinalizedRowCount s)"
proof (cases "name \<noteq> [] \<and> (\<exists>p. ParseStreamName A name = Inr p) \<and>
    (\<exists>s. streams v name = Some s \<and> \<not> finalized s)")
  case True
  then obtain tid x s where "name \<noteq> []" "ParseStreamName A name = Inr (tid, x)"
    and s: "streams v name = Some s" "\<not> finalized s" by (metis surj_pair)
  then have "(r, v') = (Inr (FinalizedRowCount s), set_stream name (s\<lparr>finalized := True\<rparr>) v)"
    unfolding assms [symmetric] by (simp add: FinalizeWriteStream_def)
  with s show thesis by (intro ok) simp_all
next
  case False
  have "\<exists>e. (r, v') = (Inl e, v)"
    unfolding assms [symmetric] FinalizeWriteStream_def using False
    by (cases "ParseStreamName A name"; cases "streams v name") (auto split: prod.split)
  with unchanged show thesis by blast
qed

lemma stream_inv_flushed:
  assumes "stream_inv s" "CommitBufferedPrefix S s off st = (Inr s', st')"
  shows "stream_inv s' \<and> session_of s' = session_of s \<and> stream_le (Some s) (Some s')"
  using assms(2,1)
  by (cases rule: CommitBufferedPrefix_cases) (auto simp: stream_defs stream_le_def)

lemma service_inv_emplace:
  assumes inv: "service_inv (v, ss)" and s: "stream_inv s"
    and v': "streams v' = streams v" "next_stream_id v \<le> next_stream_id v'"
    and fresh: "\<And>tid n. next_stream_id v' \<le> n \<Longrightarrow> minted_name tid n \<noteq> name"
  shows "service_inv (emplace name s v', ss)"
  unfolding service_inv_def fst_conv snd_conv
proof (intro conjI allI impI)
  show "stream_inv s'" if "streams (emplace name s v') nm = Some s'" for nm s'
    using that inv s v' by (auto simp: service_inv_def split: if_splits)
  show "\<exists>s'. streams (emplace name s v') nm = Some s' \<and> session_of s' = sn"
    if "(nm, sn) \<in> ss" for nm sn
  proof -
    from inv that obtain s0 where "streams v nm = Some s0" "session_of s0 = sn"
      unfolding service_inv_def fst_conv snd_conv by blast
    then show ?thesis using v' by (cases "nm = name") auto
  qed
  show "streams (emplace name s v') (minted_name tid n) = None"
    if "next_stream_id (emplace name s v') \<le> n" for tid n
    using that inv v' fresh [of n tid] by (simp add: service_inv_def)
qed

lemma service_inv_create:
  assumes inv: "service_inv (v, ss)" and ty: "ty = COMMITTED \<or> ty = BUFFERED \<or> ty = PENDING"
    and new: "NewStreamId (TablePathFor tid) v = (name, v1)"
  shows "service_inv (emplace name (new_StreamState tid sch ty created) v1, ss)"
proof (rule service_inv_emplace [OF inv])
  show "stream_inv (new_StreamState tid sch ty created)" using ty by (auto simp: stream_defs)
  show "streams v1 = streams v" "next_stream_id v \<le> next_stream_id v1"
    using new by (auto simp: NewStreamId_def)
  show "minted_name tid' n \<noteq> name" if "next_stream_id v1 \<le> n" for tid' n
    using that new minted_name_inj [of tid' n tid "next_stream_id v"]
    by (auto simp: NewStreamId_def minted_name_def)
qed

context absl_api begin

lemma service_inv_ensure_default:
  assumes inv: "service_inv (v, ss)" and name: "ParseStreamName A name = Inr (tid, ''_default'')"
  shows "service_inv (emplace name (new_StreamState tid sch COMMITTED created) v, ss)"
proof (rule service_inv_emplace [OF inv])
  show "minted_name tid' n \<noteq> name" for tid' n
    using ParseStreamName_Inr(1) [OF name] minted_name_not_default [of tid tid' n] by metis
qed (simp_all add: stream_defs)

lemma svc_step_inv:
  assumes "svc_step A S c c'" "service_inv c"
  shows "service_inv c'"
  using assms
proof (induction rule: svc_step.induct)
  case (create ty tid v name v1 ss sch created)
  then show ?case by (intro service_inv_create)
next
  case (ensure_default name tid v ss sch created)
  then show ?case by (intro service_inv_ensure_default)
next
  case (load name v sn ss)
  then show ?case
    by (auto simp: service_inv_def LoadStreamSessionForAppend_def session_of_def
        split: option.splits if_splits)
next
  case (buffered_append name sn ss rows v r v')
  then obtain s where s: "streams v name = Some s" "session_of s = sn" "stream_inv s"
    using service_inv_session by blast
  let ?s' = "s\<lparr>committed_rows := committed_rows s + int (length rows),
    buffered_rows := buffered_rows s @ rows\<rparr>"
  have v': "v' = set_stream name ?s' v"
    using buffered_append.hyps(3) s by (simp add: CommitBufferedAppendRows_def)
  have "stream_inv ?s'" using s buffered_append.hyps(2) by (auto simp: stream_defs)
  then show ?case
    by (rule service_inv_update [OF buffered_append.prems s(1)]) (simp_all add: v' session_of_def)
next
  case (storage_append v t rows r st' ss)
  then show ?case by (simp add: service_inv_store)
next
  case (bump name sn ss rows v prior v')
  then obtain s where s: "streams v name = Some s" "session_of s = sn" "stream_inv s"
    using service_inv_session by blast
  let ?s' = "s\<lparr>committed_rows := committed_rows s + int (length rows)\<rparr>"
  have v': "v' = set_stream name ?s' v"
    using bump.hyps(4) s by (auto simp: BumpCommittedRows_def)
  have "stream_inv ?s'" using s bump.hyps(2,3) by (auto simp: stream_defs)
  then show ?case
    by (rule service_inv_update [OF bump.prems s(1)]) (simp_all add: v' session_of_def)
next
  case (flush name off v r v' ss)
  from flush.hyps show ?case
  proof (cases rule: FlushRows_cases)
    case (ok s s' st')
    have "stream_inv s" using flush.prems ok(3) by (simp add: service_inv_def)
    then have "stream_inv s' \<and> session_of s' = session_of s"
      using stream_inv_flushed [OF _ ok(4)] by simp
    then show ?thesis
      by (intro service_inv_update [OF flush.prems ok(3)]) (simp_all add: ok(2))
  qed (use flush.prems in \<open>simp_all add: service_inv_store\<close>)
next
  case (finalize name v r v' ss)
  from finalize.hyps show ?case
  proof (cases rule: FinalizeWriteStream_cases)
    case (ok s)
    have "stream_inv (s\<lparr>finalized := True\<rparr>)"
      using finalize.prems ok(1) by (simp add: service_inv_def stream_inv_def)
    then show ?thesis
      by (rule service_inv_update [OF finalize.prems ok(1)]) (simp_all add: ok(3) session_of_def)
  qed (use finalize.prems in simp)
qed

lemma svc_steps_inv:
  "(svc_step A S)\<^sup>*\<^sup>* c c' \<Longrightarrow> service_inv c \<Longrightarrow> service_inv c'"
  by (induction rule: rtranclp_induct) (auto intro: svc_step_inv)

lemma initial_service_inv: "service_inv (initial_service st, {})"
  by (simp add: initial_service_def service_inv_def)

lemma svc_reachable_inv: "svc_reachable A S c \<Longrightarrow> service_inv c"
  unfolding svc_reachable_def by (elim exE) (rule svc_steps_inv [OF _ initial_service_inv])

end

lemma stream_le_refl [simp]: "stream_le a a"
  by (simp add: stream_le_def split: option.split)

lemma stream_le_trans: "stream_le a b \<Longrightarrow> stream_le b c \<Longrightarrow> stream_le a c"
  by (auto simp: stream_le_def split: option.splits)

lemma stream_le_emplace: "stream_le (streams v name) (streams (emplace nm s v) name)"
  by (auto simp: stream_le_def split: option.splits)

lemma stream_le_set:
  "streams v nm = Some s \<Longrightarrow> stream_le (Some s) (Some s') \<Longrightarrow>
     stream_le (streams v name) (streams (set_stream nm s' v) name)"
  by (cases "name = nm") simp_all

lemma NewStreamId_streams: "NewStreamId p v = (nm, v1) \<Longrightarrow> streams v1 = streams v"
  by (auto simp: NewStreamId_def)

lemma svc_step_le:
  assumes "svc_step A S c c'"
  shows "stream_le (streams (fst c) name) (streams (fst c') name)"
  using assms
proof (induction rule: svc_step.induct)
  case (create ty tid v nm v1 ss sch created)
  then show ?case using stream_le_emplace [of v1 name nm] NewStreamId_streams [of _ v] by force
next
  case (ensure_default nm tid v ss sch created)
  then show ?case by (simp add: stream_le_emplace del: emplace_simps)
next
  case (buffered_append nm sn ss rows v r v')
  then show ?case
    by (cases "streams v nm")
      (auto simp: CommitBufferedAppendRows_def simp del: set_stream_simps intro!: stream_le_set,
       auto simp: stream_le_def session_of_def)
next
  case (bump nm sn ss rows v prior v')
  then show ?case
    by (cases "streams v nm")
      (auto simp: BumpCommittedRows_def simp del: set_stream_simps intro!: stream_le_set,
       auto simp: stream_le_def session_of_def)
next
  case (flush nm off v r v' ss)
  from flush.hyps show ?case
  proof (cases rule: FlushRows_cases)
    case (ok s s' st')
    have "stream_le (Some s) (Some s')"
      using ok(4) by (cases rule: CommitBufferedPrefix_cases)
        (auto simp: stream_le_def session_of_def)
    with ok stream_le_set [of "v\<lparr>store := st'\<rparr>" nm s s' name] show ?thesis by simp
  qed simp_all
next
  case (finalize nm v r v' ss)
  from finalize.hyps show ?case
  proof (cases rule: FinalizeWriteStream_cases)
    case (ok s)
    then show ?thesis
      using stream_le_set [of v nm s "s\<lparr>finalized := True\<rparr>" name]
      by (simp add: stream_le_def session_of_def)
  qed simp
qed simp_all

lemma svc_steps_le:
  assumes "(svc_step A S)\<^sup>*\<^sup>* c c'"
  shows "stream_le (streams (fst c) name) (streams (fst c') name)"
  using assms
proof (induction rule: rtranclp_induct)
  case (step c' c'')
  then show ?case by (blast intro: stream_le_trans svc_step_le)
qed simp

subsection \<open>The handlers are sequences of sections\<close>

text \<open>
  Every handler run is a sequence of transitions, so what holds of all reachable states holds
  after every handler; the sessions an AppendRows call loads are added to the session set.
\<close>

lemma step_into: "svc_step A S c c' \<Longrightarrow> (svc_step A S)\<^sup>*\<^sup>* c c'"
  by (rule r_into_rtranclp)

lemma store_update_self [simp]: "v\<lparr>store := store v\<rparr> = v"
  by simp

definition valid_type :: "WriteStreamType \<Rightarrow> bool" where
  "valid_type ty \<longleftrightarrow> ty = COMMITTED \<or> ty = BUFFERED \<or> ty = PENDING"

lemma CreateWriteStream_cases:
  assumes "CreateWriteStream A (Some S) now request v = (r, v')"
  obtains (error) e where "r = Inl e" "v' = v"
  | (ok) req tid sch where "request = Some req" "ParseTableParent A (cws_parent req) = Inr tid"
      "valid_type (requested_type (cws_type req))" "GetSchema S (store v) tid = Inr sch"
      "r = Inr \<lparr>ws_name = minted_name tid (next_stream_id v),
               ws_type = requested_type (cws_type req),
               ws_schema = TableSchemaToProto sch, ws_create_time = Rfc3339Now now\<rparr>"
      "v' = emplace (minted_name tid (next_stream_id v))
              (new_StreamState tid sch (requested_type (cws_type req)) (Rfc3339Now now))
              (v\<lparr>next_stream_id := next_stream_id v + 1\<rparr>)"
proof (cases r)
  case (Inl e)
  then have "v' = v"
    using assms by (auto simp: CreateWriteStream_def Let_def
        split: option.splits sum.splits if_splits prod.splits)
  with Inl error show thesis by blast
next
  case (Inr w)
  then obtain req tid sch where req: "request = Some req"
    "ParseTableParent A (cws_parent req) = Inr tid" "GetSchema S (store v) tid = Inr sch"
    using assms by (auto simp: CreateWriteStream_def Let_def split: option.splits sum.splits if_splits)
  moreover have valid: "valid_type (requested_type (cws_type req))"
    using assms Inr req by (auto simp: CreateWriteStream_def valid_type_def Let_def split: if_splits)
  ultimately show thesis
    using assms by (intro ok [OF req(1,2) valid req(3)])
      (simp_all add: CreateWriteStream_def valid_type_def minted_name_def NewStreamId_def Let_def
        split: if_splits)
qed

lemma CreateWriteStream_steps:
  assumes "CreateWriteStream A (Some S) now request v = (r, v')"
  shows "(svc_step A S)\<^sup>*\<^sup>* (v, ss) (v', ss)"
  using assms
proof (cases rule: CreateWriteStream_cases)
  case (ok req tid sch)
  have "NewStreamId (TablePathFor tid) v =
      (minted_name tid (next_stream_id v), v\<lparr>next_stream_id := next_stream_id v + 1\<rparr>)"
    by (simp add: NewStreamId_def minted_name_def)
  from svc_step.create [OF _ this] ok(3) show ?thesis
    unfolding ok(6) valid_type_def by (intro step_into) blast
qed simp

lemma EnsureDefaultStream_steps:
  assumes "EnsureDefaultStream S now name tid v = (r, v')"
    "ParseStreamName A name = Inr (tid, ''_default'')"
  shows "(svc_step A S)\<^sup>*\<^sup>* (v, ss) (v', ss)"
  using assms(1)
  by (cases "GetSchema S (store v) tid")
    (auto simp: EnsureDefaultStream_def intro!: step_into svc_step.ensure_default [OF assms(2)])

lemma BindWriteStreamFromRequest_steps:
  assumes "BindWriteStreamFromRequest A S now req bound v = (r, v')"
  shows "(svc_step A S)\<^sup>*\<^sup>* (v, ss) (v', ss)"
proof (cases "\<exists>tid. ParseStreamName A (ar_write_stream req) = Inr (tid, ''_default'') \<and>
    (\<exists>r'. EnsureDefaultStream S now (ar_write_stream req) tid v = (r', v'))")
  case True
  then show ?thesis using EnsureDefaultStream_steps by blast
next
  case False
  have "v' = v"
  proof (rule ccontr)
    assume "v' \<noteq> v"
    with assms False show False
      by (auto simp: BindWriteStreamFromRequest_def Let_def split: if_splits sum.splits prod.splits)
  qed
  then show ?thesis by simp
qed

lemma CommitImmediateAppendRows_steps:
  assumes "CommitImmediateAppendRows S name tid rows v = (r, v')"
    and "(name, sn) \<in> ss" "ss_type sn \<noteq> BUFFERED" "ss_type sn \<noteq> PENDING"
  shows "(svc_step A S)\<^sup>*\<^sup>* (v, ss) (v', ss)"
proof -
  obtain a st' where a: "(a, st') = (if rows = [] then (Inr (), store v)
      else StorageAppendRows S (store v) tid rows)" by (metis surj_pair)
  let ?v1 = "v\<lparr>store := st'\<rparr>"
  have first: "(svc_step A S)\<^sup>*\<^sup>* (v, ss) (?v1, ss)"
  proof (cases "rows = []")
    case True
    with a show ?thesis by simp
  next
    case False
    with a have "StorageAppendRows S (store v) tid rows = (a, st')" by simp
    then show ?thesis by (rule step_into [OF svc_step.storage_append])
  qed
  show ?thesis
  proof (cases a)
    case (Inl e)
    then have "v' = ?v1"
      using assms(1) a [symmetric]
      by (auto simp: CommitImmediateAppendRows_def Let_def split: if_splits prod.splits)
    with first show ?thesis by simp
  next
    case (Inr u)
    then obtain prior where "BumpCommittedRows name rows ?v1 = (prior, v')"
      using assms(1) a [symmetric]
      by (auto simp: CommitImmediateAppendRows_def Let_def split: if_splits prod.splits)
    from svc_step.bump [OF assms(2-4) this] first show ?thesis by (metis rtranclp.rtrancl_into_rtrancl)
  qed
qed

lemma ProcessAppendRowsRequest_steps:
  assumes "ProcessAppendRowsRequest S req delivered name v = (r, v')"
  shows "\<exists>ss'. (svc_step A S)\<^sup>*\<^sup>* (v, ss) (v', ss')"
proof (cases "LoadStreamSessionForAppend name v")
  case (Inl e)
  with assms have "v' = v" by (simp add: ProcessAppendRowsRequest_def)
  then show ?thesis by blast
next
  case (Inr sn)
  let ?ss = "insert (name, sn) ss"
  have load: "(svc_step A S)\<^sup>*\<^sup>* (v, ss) (v, ?ss)"
    by (rule step_into [OF svc_step.load [OF Inr]])
  have "(svc_step A S)\<^sup>*\<^sup>* (v, ?ss) (v', ?ss)"
  proof (cases "DecodeAppendRowBatch req (ss_schema sn)")
    case (Inl detail)
    with assms Inr have "v' = v" by (simp add: ProcessAppendRowsRequest_def)
    then show ?thesis by simp
  next
    case (Inr rows)
    show ?thesis
    proof (cases "ss_type sn = BUFFERED \<or> ss_type sn = PENDING")
      case True
      then obtain r' where "CommitBufferedAppendRows name rows v = (r', v')"
        using assms \<open>LoadStreamSessionForAppend name v = Inr sn\<close> Inr
        by (auto simp: ProcessAppendRowsRequest_def Let_def split: prod.splits sum.splits)
      from svc_step.buffered_append [OF _ True this] show ?thesis
        by (intro step_into) blast
    next
      case False
      then obtain r' where "CommitImmediateAppendRows S name (ss_table sn) rows v = (r', v')"
        using assms \<open>LoadStreamSessionForAppend name v = Inr sn\<close> Inr
        by (auto simp: ProcessAppendRowsRequest_def Let_def split: prod.splits sum.splits)
      then show ?thesis using False by (intro CommitImmediateAppendRows_steps) auto
    qed
  qed
  with load show ?thesis by (metis rtranclp_trans)
qed

lemma AppendRowsLoop_steps:
  "AppendRowsLoop A S ms bound v = (r, v') \<Longrightarrow> \<exists>ss'. (svc_step A S)\<^sup>*\<^sup>* (v, ss) (v', ss')"
proof (induction ms arbitrary: bound v r ss)
  case (Cons m ms)
  obtain b v1 where b: "BindWriteStreamFromRequest A S (cm_now m) (cm_request m) bound v = (b, v1)"
    by (metis surj_pair)
  note bind = BindWriteStreamFromRequest_steps [OF b, of ss]
  show ?case
  proof (cases b)
    case (Inl e)
    with Cons.prems b have "v' = v1" by simp
    with bind show ?thesis by blast
  next
    case (Inr bound')
    obtain q out v2 where q: "ProcessAppendRowsRequest S (cm_request m) (cm_delivered m) (fst bound') v1 = ((q, out), v2)"
      by (metis surj_pair)
    obtain ss2 where proc: "(svc_step A S)\<^sup>*\<^sup>* (v1, ss) (v2, ss2)"
      using ProcessAppendRowsRequest_steps [OF q] by blast
    show ?thesis
    proof (cases q)
      case (Inl e)
      with Cons.prems b Inr q have "v' = v2" by simp
      with bind proc show ?thesis by (metis rtranclp_trans)
    next
      case (Inr u)
      with Cons.prems b \<open>b = Inr bound'\<close> q obtain r' where "AppendRowsLoop A S ms bound' v2 = (r', v')"
        by (auto split: prod.splits)
      then obtain ss3 where "(svc_step A S)\<^sup>*\<^sup>* (v2, ss2) (v', ss3)" using Cons.IH by blast
      with bind proc show ?thesis by (metis rtranclp_trans)
    qed
  qed
qed auto

lemma ApplyCommits_steps:
  "ApplyCommits S commits (store v) = (r, st') \<Longrightarrow>
     (svc_step A S)\<^sup>*\<^sup>* (v, ss) (v\<lparr>store := st'\<rparr>, ss)"
proof (induction commits arbitrary: v)
  case (Cons c commits)
  obtain t rows where c: "c = (t, rows)" by (cases c)
  show ?case
  proof (cases "rows = []")
    case True
    with Cons c show ?thesis by simp
  next
    case False
    obtain a st1 where a: "StorageAppendRows S (store v) t rows = (a, st1)" by (metis surj_pair)
    have first: "(svc_step A S)\<^sup>*\<^sup>* (v, ss) (v\<lparr>store := st1\<rparr>, ss)"
      by (rule step_into [OF svc_step.storage_append [OF a]])
    show ?thesis
    proof (cases a)
      case (Inl e)
      with Cons.prems False a c have "st' = st1" by simp
      with first show ?thesis by simp
    next
      case (Inr u)
      with Cons.prems False a c have "ApplyCommits S commits st1 = (r, st')" by simp
      then have "(svc_step A S)\<^sup>*\<^sup>* (v\<lparr>store := st1\<rparr>, ss) (v\<lparr>store := st1\<rparr>\<lparr>store := st'\<rparr>, ss)"
        using Cons.IH [of "v\<lparr>store := st1\<rparr>"] by simp
      with first show ?thesis by (simp add: rtranclp_trans)
    qed
  qed
qed auto

lemma BatchCommitWriteStreams_steps:
  assumes "BatchCommitWriteStreams A (Some S) now request v = (r, v')"
  shows "(svc_step A S)\<^sup>*\<^sup>* (v, ss) (v', ss)"
proof (cases "\<exists>commits r' st'. ApplyCommits S commits (store v) = (r', st') \<and> v' = v\<lparr>store := st'\<rparr>")
  case True
  then show ?thesis by (auto intro: ApplyCommits_steps)
next
  case False
  have "v' = v"
  proof (rule ccontr)
    assume "v' \<noteq> v"
    with assms False show False
      by (auto simp: BatchCommitWriteStreams_def split: option.splits if_splits sum.splits prod.splits)
  qed
  then show ?thesis by simp
qed

subsection \<open>Sequences of calls\<close>

datatype Call =
    CallCreate int "CreateWriteStreamRequest option"
  | CallAppend "ClientMessage list option"
  | CallFlush "(string \<times> int) option"
  | CallFinalize "string option"
  | CallBatchCommit int "BatchCommitRequest option"

fun handle :: "absl \<Rightarrow> 'st Storage \<Rightarrow> Call \<Rightarrow> 'st Service \<Rightarrow> 'st Service" where
  "handle A S (CallCreate now req) v = snd (CreateWriteStream A (Some S) now req v)"
| "handle A S (CallAppend ms) v = snd (AppendRows A (Some S) ms v)"
| "handle A S (CallFlush req) v = snd (FlushRows A (Some S) req v)"
| "handle A S (CallFinalize req) v = snd (FinalizeWriteStream A req v)"
| "handle A S (CallBatchCommit now req) v = snd (BatchCommitWriteStreams A (Some S) now req v)"

definition run_calls :: "absl \<Rightarrow> 'st Storage \<Rightarrow> Call list \<Rightarrow> 'st Service \<Rightarrow> 'st Service" where
  "run_calls A S calls v = foldl (\<lambda>v c. handle A S c v) v calls"

lemma handle_steps: "\<exists>ss'. (svc_step A S)\<^sup>*\<^sup>* (v, ss) (handle A S c v, ss')"
proof (cases c)
  case (CallCreate now req)
  then show ?thesis using CreateWriteStream_steps [of A S now req v] by (metis handle.simps(1) surj_pair snd_conv)
next
  case (CallAppend ms)
  show ?thesis
  proof (cases ms)
    case None
    with CallAppend show ?thesis by (auto simp: AppendRows_def)
  next
    case (Some l)
    with CallAppend show ?thesis
      using AppendRowsLoop_steps [of A S l _ v] by (simp add: AppendRows_def) (metis surj_pair snd_conv)
  qed
next
  case (CallFlush req)
  show ?thesis
  proof (cases req)
    case None
    with CallFlush show ?thesis by (auto simp: FlushRows_def)
  next
    case (Some p)
    obtain name off where "p = (name, off)" by (cases p)
    with CallFlush Some show ?thesis
      using svc_step.flush [of A S name off v] by (metis handle.simps(3) step_into surj_pair snd_conv)
  qed
next
  case (CallFinalize req)
  show ?thesis
  proof (cases req)
    case None
    with CallFinalize show ?thesis by (auto simp: FinalizeWriteStream_def)
  next
    case (Some name)
    with CallFinalize show ?thesis
      using svc_step.finalize [of A name v] by (metis handle.simps(4) step_into surj_pair snd_conv)
  qed
next
  case (CallBatchCommit now req)
  then show ?thesis
    using BatchCommitWriteStreams_steps [of A S now req v] by (metis handle.simps(5) surj_pair snd_conv)
qed

lemma run_calls_steps: "\<exists>ss'. (svc_step A S)\<^sup>*\<^sup>* (v, ss) (run_calls A S calls v, ss')"
proof (induction calls arbitrary: v ss)
  case (Cons c calls)
  obtain ss1 where "(svc_step A S)\<^sup>*\<^sup>* (v, ss) (handle A S c v, ss1)" using handle_steps by blast
  moreover obtain ss2 where "(svc_step A S)\<^sup>*\<^sup>* (handle A S c v, ss1) (run_calls A S calls (handle A S c v), ss2)"
    using Cons.IH by blast
  ultimately show ?case by (auto simp: run_calls_def intro: rtranclp_trans)
qed (auto simp: run_calls_def)

subsection \<open>Sample data for the witnesses\<close>

definition sample_table :: TableId where
  "sample_table = \<lparr>project_id = ''p'', dataset_id = ''d'', table_id = ''t''\<rparr>"

text \<open>A store that holds nothing and accepts every append.\<close>

definition sample_storage :: "unit Storage" where
  "sample_storage =
     \<lparr>GetSchema = (\<lambda>st t. Inr \<lparr>columns = []\<rparr>), StorageAppendRows = (\<lambda>st t rows. (Inr (), ())),
      CreateReadStream = (\<lambda>st t f. Inr []), CountRows = (\<lambda>st t. Inr 0)\<rparr>"

definition sample_created :: "unit Service" where
  "sample_created =
     emplace (minted_name sample_table 1)
       (new_StreamState sample_table \<lparr>columns = []\<rparr> PENDING [])
       \<lparr>next_stream_id = 2, streams = Map.empty, store = ()\<rparr>"

lemma sample_created_step:
  "svc_step absl_ref sample_storage (initial_service (), {}) (sample_created, {})"
  unfolding sample_created_def
  by (rule svc_step.create) (simp_all add: NewStreamId_def initial_service_def minted_name_def)

lemma sample_created_reachable: "svc_reachable absl_ref sample_storage (sample_created, {})"
  unfolding svc_reachable_def using step_into [OF sample_created_step] by blast

lemma sample_created_stream:
  "streams sample_created (minted_name sample_table 1) =
     Some (new_StreamState sample_table \<lparr>columns = []\<rparr> PENDING [])"
  by (simp add: sample_created_def)

lemma sample_parse:
  "ParseStreamName absl_ref (minted_name sample_table n) = Inr (sample_table, ''s'' @ dec n)"
proof -
  have "minted_name sample_table n = TablePathFor sample_table @ ''/streams/'' @ (''s'' @ dec n)"
    by (simp add: minted_name_def)
  then show ?thesis
    using absl_ref.ParseStreamName_minted [of sample_table "''s'' @ dec n"]
    by (simp add: sample_table_def plain_table_def plain_id_def)
qed

lemma sample_name_not_Nil: "minted_name sample_table n \<noteq> []"
  by (simp add: minted_name_def)

lemma sample_finalize:
  "FinalizeWriteStream absl_ref (Some (minted_name sample_table 1)) sample_created =
     (Inr 0, set_stream (minted_name sample_table 1)
       (new_StreamState sample_table \<lparr>columns = []\<rparr> PENDING [] \<lparr>finalized := True\<rparr>) sample_created)"
  by (simp add: FinalizeWriteStream_def sample_parse sample_created_stream sample_name_not_Nil
      FinalizedRowCount_def new_StreamState_def)

subsection \<open>Properties\<close>



text \<open>
  C18 (handlers are interleavings of their sections). Whatever calls a client makes, in whatever
  order, the state after them is reachable by the transition system, so the invariant above
  holds of it; every stream only ever evolves forward: it keeps its table, schema, type and
  creation time, its buffer only grows at the end and its cursors never move back.
\<close>

theorem handlers_reach_and_advance:
  "(\<exists>ss. svc_reachable A S (run_calls A S calls (initial_service st), ss)) \<and>
   stream_le (streams (run_calls A S calls v) name) (streams (run_calls A S (calls @ later) v) name)"
proof
  show "\<exists>ss. svc_reachable A S (run_calls A S calls (initial_service st), ss)"
    using run_calls_steps [of A S "initial_service st" "{}" calls] by (auto simp: svc_reachable_def)
  have "run_calls A S (calls @ later) v = run_calls A S later (run_calls A S calls v)"
    by (simp add: run_calls_def)
  then show "stream_le (streams (run_calls A S calls v) name) (streams (run_calls A S (calls @ later) v) name)"
    using run_calls_steps [of A S "run_calls A S calls v" "{}" later]
    by (metis svc_steps_le fst_conv)
qed



text \<open>
  Stream names. A minted stream name is parsed back into exactly its table and its id, for
  every table whose ids are non-empty, free of slashes and different from the word
  \<open>streams\<close>; and every name that parses is the path of the table it parses to, followed by
  \<open>/streams/\<close> and its id.
\<close>

theorem stream_name_roundtrip:
  assumes "absl_api A"
  shows "(plain_table tid \<and> project_id tid \<noteq> ''streams'' \<and> dataset_id tid \<noteq> ''streams'' \<and>
      table_id tid \<noteq> ''streams'' \<longrightarrow> ParseStreamName A (minted_name tid n) = Inr (tid, ''s'' @ dec n)) \<and>
    (ParseStreamName A name = Inr (tid', x) \<longrightarrow>
      name = TablePathFor tid' @ ''/streams/'' @ x \<and> x \<noteq> [] \<and> plain_table tid')"
  using absl_api.ParseStreamName_minted [OF assms, of tid "''s'' @ dec n"]
    absl_api.ParseStreamName_Inr [OF assms, of name tid' x]
  by (simp add: minted_name_def)

theorem stream_name_roundtrip_witness:
  "ParseStreamName absl_ref (minted_name sample_table 7) = Inr (sample_table, ''s7'')"
proof -
  have "dec 7 = ''7''" by code_simp
  then show ?thesis
    using stream_name_roundtrip [OF absl_ref.absl_api_axioms, of sample_table 7]
    by (simp add: sample_table_def plain_table_def plain_id_def)
qed

text \<open>
  A table named \<open>streams\<close>. The stream name that \<open>CreateWriteStream\<close> mints for a table
  whose id is the word \<open>streams\<close> is rejected by \<open>ParseStreamName\<close>, which splits at the first
  \<open>/streams/\<close>: no append, flush or finalization can ever address the stream.
\<close>

theorem table_named_streams_unusable:
  assumes "absl_api A" "plain_table tid" "project_id tid \<noteq> ''streams''" "dataset_id tid \<noteq> ''streams''"
    and "table_id tid = ''streams''"
  shows "ParseStreamName A (minted_name tid n) = Inl (MalformedTablePrefix (minted_name tid n))"
proof -
  let ?ps = "[''projects'', project_id tid, ''datasets'', dataset_id tid, ''tables'']"
  have name: "minted_name tid n = join (CHR ''/'') ?ps @ ''/streams/'' @ ''streams/s'' @ dec n"
    using assms(5) by (simp add: minted_name_def TablePathFor_def)
  have parts: "\<forall>p \<in> set ?ps. CHR ''/'' \<notin> set p \<and> p \<noteq> ''streams''"
    using assms(2-4) by (auto simp: plain_table_def plain_id_def)
  have "find_sub ''/streams/'' (minted_name tid n) = Some (length (join (CHR ''/'') ?ps))"
    unfolding name by (rule find_streams_join) (use parts in auto)
  moreover have "StrSplit A (join (CHR ''/'') ?ps) (CHR ''/'') = ?ps"
    by (rule absl_api.split_of_join [OF assms(1)]) (use parts in auto)
  then have "SplitTablePath A (join (CHR ''/'') ?ps) = None" by (simp add: SplitTablePath_def)
  moreover have "take (length xs) (xs @ ys) = xs" for xs ys :: string by simp
  then have "take (length (join (CHR ''/'') ?ps)) (minted_name tid n) = join (CHR ''/'') ?ps"
    unfolding name .
  moreover have "minted_name tid n \<noteq> []" unfolding name by simp
  ultimately show ?thesis by (simp add: ParseStreamName_def)
qed

theorem table_named_streams_unusable_witness:
  "ParseStreamName absl_ref (minted_name (sample_table\<lparr>table_id := ''streams''\<rparr>) 1) =
     Inl (MalformedTablePrefix (minted_name (sample_table\<lparr>table_id := ''streams''\<rparr>) 1))"
  by (rule table_named_streams_unusable [OF absl_ref.absl_api_axioms])
    (simp_all add: sample_table_def plain_table_def plain_id_def)

text \<open>
  An append can land after finalization. The finalization check and the buffer update of
  \<open>AppendRows\<close> are two locked sections: there is a reachable state in which a stream is
  finalized with a reported row count, and a section of an append call already in flight that
  still adds rows to it, so a later batch commit publishes more rows than were reported.
\<close>

theorem append_lands_after_finalize:
  "\<exists>v ss w n s s'. svc_reachable absl_ref sample_storage (v, ss) \<and>
     FinalizeWriteStream absl_ref (Some (minted_name sample_table 1)) v = (Inr n, w) \<and>
     streams w (minted_name sample_table 1) = Some s \<and> finalized s \<and>
     (\<exists>w'. svc_step absl_ref sample_storage (w, ss) (w', ss) \<and>
       streams w' (minted_name sample_table 1) = Some s' \<and>
       n < int (length (buffered_rows s')))"
proof -
  let ?nm = "minted_name sample_table 1"
  let ?s = "new_StreamState sample_table \<lparr>columns = []\<rparr> PENDING []"
  let ?w = "set_stream ?nm (?s\<lparr>finalized := True\<rparr>) sample_created"
  let ?ss = "{(?nm, session_of ?s)}"
  let ?row = "[\<lparr>cells = []\<rparr>]"
  let ?s' = "?s\<lparr>finalized := True, committed_rows := 1, buffered_rows := ?row\<rparr>"
  have "svc_step absl_ref sample_storage (sample_created, {}) (sample_created, ?ss)"
    by (rule svc_step.load)
      (simp add: LoadStreamSessionForAppend_def sample_created_stream session_of_def new_StreamState_def)
  then have "svc_reachable absl_ref sample_storage (sample_created, ?ss)"
    using sample_created_reachable unfolding svc_reachable_def
    by (metis rtranclp.rtrancl_into_rtrancl)
  moreover have "CommitBufferedAppendRows ?nm ?row ?w = (Inr 0, set_stream ?nm ?s' ?w)"
    by (simp add: CommitBufferedAppendRows_def new_StreamState_def)
  then have "svc_step absl_ref sample_storage (?w, ?ss) (set_stream ?nm ?s' ?w, ?ss)"
    by (intro svc_step.buffered_append [of ?nm "session_of ?s"])
      (simp_all add: session_of_def new_StreamState_def)
  moreover have "streams (set_stream ?nm ?s' ?w) ?nm = Some ?s'" "int 0 < int (length (buffered_rows ?s'))"
    by simp_all
  ultimately show ?thesis
    using sample_finalize by (intro exI [of _ sample_created] exI [of _ ?ss] exI [of _ ?w]
        exI [of _ 0] exI [of _ "?s\<lparr>finalized := True\<rparr>"] exI [of _ ?s']) auto
qed

end
