(* ===== verification/Storage_Write_Rows.thy ===== *)
theory Storage_Write_Rows
  imports Storage_Write
begin

section \<open>Write streams and the visible rows of a table\<close>

text \<open>
  The lemmas of this theory relate the write handlers to the rows a reader of the table sees.
  They are proved once for every store that keeps the storage contract: an accepted batch of a
  committed stream becomes visible at once and exactly once, rows of a buffered stream become
  visible in order up to the flushed offset, and a batch commit appends the buffers of the named
  streams in request order.
\<close>

subsection \<open>What the handlers do to the visible rows\<close>

definition decoded_rows :: "AppendRowsRequest \<Rightarrow> Row list" where
  "decoded_rows req = map (\<lambda>src. \<lparr>cells = map CellToValue (dr_cells src)\<rparr>) (ar_rows req)"

definition is_buffered_type :: "WriteStreamType \<Rightarrow> bool" where
  "is_buffered_type ty \<longleftrightarrow> ty = BUFFERED \<or> ty = PENDING"

text \<open>The rows of the batches that were answered with an append result.\<close>

fun accepted_rows :: "ClientMessage list \<Rightarrow> AppendRowsResponse list \<Rightarrow> Row list" where
  "accepted_rows (m # ms) (resp # out) =
     (case resp_outcome resp of
        AppendResult off \<Rightarrow> decoded_rows (cm_request m)
      | AppendErrorMessage msg \<Rightarrow> []) @ accepted_rows ms out"
| "accepted_rows ms out = []"

text \<open>The offsets of the append results count the rows accepted before them.\<close>

fun offsets_from :: "int \<Rightarrow> ClientMessage list \<Rightarrow> AppendRowsResponse list \<Rightarrow> bool" where
  "offsets_from c (m # ms) (resp # out) \<longleftrightarrow>
     (case resp_outcome resp of
        AppendResult off \<Rightarrow>
          off = c \<and> resp_row_count resp = int (length (decoded_rows (cm_request m))) \<and>
          offsets_from (c + int (length (decoded_rows (cm_request m)))) ms out
      | AppendErrorMessage msg \<Rightarrow> resp_row_count resp = 0 \<and> offsets_from c ms out)"
| "offsets_from c ms [] \<longleftrightarrow> True"
| "offsets_from c [] (resp # out) \<longleftrightarrow> False"

text \<open>The state of a stream after \<open>rows\<close> were accepted on it.\<close>

definition advance :: "StreamState \<Rightarrow> Row list \<Rightarrow> StreamState" where
  "advance s rows =
     s\<lparr>committed_rows := committed_rows s + int (length rows),
       buffered_rows := (if is_buffered_type (st_type s) then buffered_rows s @ rows
                         else buffered_rows s)\<rparr>"

lemma advance_Nil [simp]: "advance s [] = s"
  by (simp add: advance_def)

lemma advance_advance: "advance (advance s xs) ys = advance s (xs @ ys)"
  by (simp add: advance_def)

lemma advance_simps [simp]:
  "st_type (advance s rows) = st_type s" "st_table (advance s rows) = st_table s"
  "finalized (advance s rows) = finalized s" "st_schema (advance s rows) = st_schema s"
  "committed_rows (advance s rows) = committed_rows s + int (length rows)"
  by (simp_all add: advance_def)

lemma DecodeRowsFrom_Inr:
  "DecodeRowsFrom r srcs n = Inr rows \<Longrightarrow>
     rows = map (\<lambda>src. \<lparr>cells = map CellToValue (dr_cells src)\<rparr>) srcs"
  by (induction r srcs n arbitrary: rows rule: DecodeRowsFrom.induct)
    (auto split: if_splits sum.splits)

lemma DecodeAppendRowBatch_Inr:
  "DecodeAppendRowBatch req sch = Inr rows \<Longrightarrow> rows = decoded_rows req"
  by (auto simp: DecodeAppendRowBatch_def decoded_rows_def dest: DecodeRowsFrom_Inr)

lemma map_nth_slice:
  assumes "0 \<le> f" "f \<le> off + 1" "off < int (length xs)"
  shows "map (\<lambda>i. xs ! nat i) [f..off] = drop (nat f) (take (nat (off + 1)) xs)"
proof (rule nth_equalityI)
  show "length (map (\<lambda>i. xs ! nat i) [f..off]) = length (drop (nat f) (take (nat (off + 1)) xs))"
    using assms by simp
  show "map (\<lambda>i. xs ! nat i) [f..off] ! k = drop (nat f) (take (nat (off + 1)) xs) ! k"
    if "k < length (map (\<lambda>i. xs ! nat i) [f..off])" for k
    using assms that nth_upto [of f k off] by (simp add: nat_add_distrib)
qed

definition visible :: "StreamState \<Rightarrow> Row list \<Rightarrow> (TableId \<Rightarrow> Row list) \<Rightarrow> TableId \<Rightarrow> Row list" where
  "visible s rows tab =
     (if is_buffered_type (st_type s) then tab else tab(st_table s := tab (st_table s) @ rows))"

definition stays_bound :: "string \<Rightarrow> ClientMessage list \<Rightarrow> bool" where
  "stays_bound name ms \<longleftrightarrow>
     list_all (\<lambda>m. cm_delivered m \<and>
       (ar_write_stream (cm_request m) = [] \<or> ar_write_stream (cm_request m) = name)) ms"

lemma visible_Nil [simp]: "visible s [] tab = tab"
  by (auto simp: visible_def)

lemma visible_append: "visible (advance s xs) ys (visible s xs tab) = visible s (xs @ ys) tab"
  by (auto simp: visible_def)

lemma WriteAppendResponse_True [simp]: "WriteAppendResponse True resp = (Inr (), [resp])"
  by (simp add: WriteAppendResponse_def)

lemma Bind_bound:
  assumes "BindWriteStreamFromRequest A S now req bound v = (b, v')"
    and "streams v name = Some s" "name \<noteq> []"
    and "ar_write_stream req = name \<or> fst bound = name \<and> ar_write_stream req = []"
  shows "v' = v" "\<And>bound'. b = Inr bound' \<Longrightarrow> fst bound' = name"
  using assms
  by (auto simp: BindWriteStreamFromRequest_def EnsureDefaultStream_def emplace_def Let_def
      split: if_splits sum.splits prod.splits)

definition append_commits ::
  "(TableId \<times> Row list) list \<Rightarrow> (TableId \<Rightarrow> Row list) \<Rightarrow> TableId \<Rightarrow> Row list" where
  "append_commits commits tab = foldl (\<lambda>tab (t, rows). tab(t := tab t @ rows)) tab commits"

definition named_commits :: "(string \<rightharpoonup> StreamState) \<Rightarrow> string list \<Rightarrow> (TableId \<times> Row list) list" where
  "named_commits strms names =
     map (\<lambda>name. (st_table (the (strms name)), buffered_rows (the (strms name)))) names"

definition pending_final :: "(string \<rightharpoonup> StreamState) \<Rightarrow> string \<Rightarrow> bool" where
  "pending_final strms name \<longleftrightarrow>
     (case strms name of None \<Rightarrow> False | Some s \<Rightarrow> st_type s = PENDING \<and> finalized s)"

lemma append_commits_rows:
  "append_commits commits tab t =
     tab t @ concat (map snd (filter (\<lambda>c. fst c = t) commits))"
  by (induction commits arbitrary: tab) (auto simp: append_commits_def)

lemma CollectCommits_Inr:
  "CollectCommits parent names strms = Inr commits \<Longrightarrow>
     commits = named_commits strms names \<and> list_all (pending_final strms) names"
  by (induction names arbitrary: commits)
    (auto simp: named_commits_def pending_final_def split: option.splits if_splits sum.splits)

text \<open>The rows a store can take for a table.\<close>

definition ok_rows :: "('st \<Rightarrow> TableId \<Rightarrow> Row \<Rightarrow> bool) \<Rightarrow> 'st \<Rightarrow> TableId \<Rightarrow> Row list \<Rightarrow> bool" where
  "ok_rows ok st t rs \<longleftrightarrow> (\<forall>r \<in> set rs. ok st t r)"

lemma CommitBufferedPrefix_error:
  assumes "CommitBufferedPrefix S s off st = (Inl e, st')"
  obtains (unchanged) "st' = st"
  | (append) err where "StorageAppendRows S st (st_table s)
      (map (\<lambda>i. buffered_rows s ! nat i) [flushed_rows s..off]) = (Inl err, st')"
      "off < int (length (buffered_rows s))"
  using assms
  by (auto simp: CommitBufferedPrefix_def Let_def split: if_splits sum.splits prod.splits)

context storage_contract begin

lemma append_keeps_ok_rows:
  "\<lbrakk>ok_rows ok_row st t rs; StorageAppendRows S st t rs = (q, st'); ok_rows ok_row st t' xs\<rbrakk> \<Longrightarrow>
     ok_rows ok_row st' t' xs"
  unfolding ok_rows_def by (blast intro: append_keeps_ok [of rs st t q st'])

lemma CommitBufferedPrefix_rows:
  assumes "CommitBufferedPrefix S s off st = (Inr s', st')" "stream_inv s"
    and ok: "ok_rows ok_row st (st_table s) (buffered_rows s)"
  shows "s' = s\<lparr>flushed_rows := off + 1\<rparr>"
    and "rows_of st' = (rows_of st)(st_table s := rows_of st (st_table s) @
      drop (nat (flushed_rows s)) (take (nat (off + 1)) (buffered_rows s)))"
  using assms(1)
proof (atomize(full), cases rule: CommitBufferedPrefix_cases)
  case noop
  then show "s' = s\<lparr>flushed_rows := off + 1\<rparr> \<and>
    rows_of st' = (rows_of st)(st_table s := rows_of st (st_table s) @
      drop (nat (flushed_rows s)) (take (nat (off + 1)) (buffered_rows s)))"
    by (cases s) auto
next
  case (flushed u)
  let ?rows = "drop (nat (flushed_rows s)) (take (nat (off + 1)) (buffered_rows s))"
  have slice: "map (\<lambda>i. buffered_rows s ! nat i) [flushed_rows s..off] = ?rows"
    using flushed assms(2) by (intro map_nth_slice) (simp_all add: stream_inv_def)
  have "ok_row st (st_table s) r" if "r \<in> set ?rows" for r
    using ok that by (auto simp: ok_rows_def dest!: in_set_dropD in_set_takeD)
  from append_ok [OF this flushed(7) [unfolded slice]] flushed
  show "s' = s\<lparr>flushed_rows := off + 1\<rparr> \<and>
    rows_of st' = (rows_of st)(st_table s := rows_of st (st_table s) @
      drop (nat (flushed_rows s)) (take (nat (off + 1)) (buffered_rows s)))"
    by simp
qed simp

lemma FlushRows_ok:
  assumes "FlushRows A (Some S) (Some (name, off)) v = (Inr x, v')"
    and "streams v name = Some s" "stream_inv s"
    and ok: "ok_rows ok_row (store v) (st_table s) (buffered_rows s)"
  shows "x = off \<and> streams v' = (streams v)(name \<mapsto> s\<lparr>flushed_rows := off + 1\<rparr>) \<and>
    rows_of (store v') = (rows_of (store v))(st_table s := rows_of (store v) (st_table s) @
      drop (nat (flushed_rows s)) (take (nat (off + 1)) (buffered_rows s)))"
  using assms(1)
proof (cases rule: FlushRows_cases)
  case (ok s1 s' st')
  with assms have "s1 = s" by simp
  with ok CommitBufferedPrefix_rows [OF ok(4)[unfolded this] assms(3,4)] show ?thesis by simp
qed simp_all

lemma FlushRows_error:
  assumes "FlushRows A (Some S) (Some (name, off)) v = (Inl e, v')"
    and ok: "\<And>s. streams v name = Some s \<Longrightarrow> stream_inv s \<and> ok_rows ok_row (store v) (st_table s) (buffered_rows s)"
  shows "streams v' = streams v \<and> rows_of (store v') = rows_of (store v)"
  using assms(1)
proof (cases rule: FlushRows_cases)
  case (failed s e' st')
  have "rows_of st' = rows_of (store v)"
    using failed(4)
  proof (cases rule: CommitBufferedPrefix_error)
    case (append err)
    have "r \<in> set (buffered_rows s)"
      if "r \<in> set (map (\<lambda>i. buffered_rows s ! nat i) [flushed_rows s..off])" for r
      using that append(2) ok [OF failed(3)] by (auto simp: stream_inv_def)
    then show ?thesis
      using append_error [OF _ append(1)] ok [OF failed(3)] by (auto simp: ok_rows_def)
  qed simp
  with failed show ?thesis by simp
qed simp_all

text \<open>
  One message of an append call on a loaded stream: it is answered by an append result with the
  cursor as offset, and then the stream advances and a committed stream's rows are visible; or
  it is answered by an error message or fails, and then neither the streams nor the visible
  rows change.
\<close>

lemma CommitImmediateAppendRows_rows:
  assumes "CommitImmediateAppendRows S name (st_table s) rows v = (r, v')"
    and "streams v name = Some s" "\<not> is_buffered_type (st_type s)"
    and ok: "ok_rows ok_row (store v) (st_table s) rows"
  shows "(case r of
      Inr (Inr prior) \<Rightarrow> prior = committed_rows s \<and> streams v' = (streams v)(name \<mapsto> advance s rows) \<and>
        rows_of (store v') = (rows_of (store v))(st_table s := rows_of (store v) (st_table s) @ rows)
    | _ \<Rightarrow> streams v' = streams v \<and> rows_of (store v') = rows_of (store v))"
proof (cases "rows = []")
  case True
  then show ?thesis
    using assms by (auto simp: CommitImmediateAppendRows_def BumpCommittedRows_def advance_def)
next
  case False
  obtain a st' where a: "StorageAppendRows S (store v) (st_table s) rows = (a, st')"
    by (metis surj_pair)
  show ?thesis
  proof (cases a)
    case (Inl e)
    have "rows_of st' = rows_of (store v)"
      using append_error [OF _ a [unfolded Inl]] ok by (simp add: ok_rows_def)
    with assms False a Inl show ?thesis
      by (auto simp: CommitImmediateAppendRows_def Let_def split: if_splits)
  next
    case (Inr u)
    have "rows_of st' = (rows_of (store v))(st_table s := rows_of (store v) (st_table s) @ rows)"
      using append_ok [OF _ a [unfolded Inr]] ok by (simp add: ok_rows_def)
    with assms False a Inr show ?thesis
      by (auto simp: CommitImmediateAppendRows_def BumpCommittedRows_def advance_def)
  qed
qed

lemma ProcessAppendRowsRequest_rows:
  assumes "ProcessAppendRowsRequest S req True name v = ((r, out), v')"
    and s: "streams v name = Some s"
    and ok: "ok_rows ok_row (store v) (st_table s) (decoded_rows req)"
  shows "(\<exists>e. r = Inl e \<and> out = [] \<and> streams v' = streams v \<and> rows_of (store v') = rows_of (store v)) \<or>
    (\<exists>resp msg. r = Inr () \<and> out = [resp] \<and> resp_outcome resp = AppendErrorMessage msg \<and>
       resp_row_count resp = 0 \<and> streams v' = streams v \<and> rows_of (store v') = rows_of (store v)) \<or>
    (\<exists>resp. r = Inr () \<and> out = [resp] \<and> resp_outcome resp = AppendResult (committed_rows s) \<and>
       resp_row_count resp = int (length (decoded_rows req)) \<and> \<not> finalized s \<and>
       streams v' = (streams v)(name \<mapsto> advance s (decoded_rows req)) \<and>
       rows_of (store v') = visible s (decoded_rows req) (rows_of (store v)))"
proof (cases "finalized s")
  case True
  with assms show ?thesis
    by (auto simp: ProcessAppendRowsRequest_def LoadStreamSessionForAppend_def)
next
  case False
  then have load: "LoadStreamSessionForAppend name v = Inr (session_of s)"
    using s by (simp add: LoadStreamSessionForAppend_def session_of_def)
  show ?thesis
  proof (cases "DecodeAppendRowBatch req (st_schema s)")
    case (Inl detail)
    with assms load show ?thesis
      by (auto simp: ProcessAppendRowsRequest_def session_of_def WriteAppendResponse_def)
  next
    case (Inr rows)
    then have rows: "rows = decoded_rows req" by (rule DecodeAppendRowBatch_Inr)
    show ?thesis
    proof (cases "is_buffered_type (st_type s)")
      case True
      with assms load Inr False show ?thesis
        by (auto simp: ProcessAppendRowsRequest_def session_of_def WriteAppendResponse_def
            CommitBufferedAppendRows_def is_buffered_type_def visible_def advance_def rows Let_def)
    next
      case False
      obtain c v1 where c: "CommitImmediateAppendRows S name (st_table s) rows v = (c, v1)"
        by (metis surj_pair)
      note commit = CommitImmediateAppendRows_rows [OF c s False ok [folded rows]]
      have "((r, out), v') = (case (c, v1) of
          (Inl e, svc') \<Rightarrow> ((Inl e, []), svc')
        | (Inr (Inl message), svc') \<Rightarrow> ((Inr (), [\<lparr>resp_outcome = AppendErrorMessage message,
             resp_trace_id = ar_trace_id req, resp_row_count = 0\<rparr>]), svc')
        | (Inr (Inr prior), svc') \<Rightarrow> ((Inr (), [\<lparr>resp_outcome = AppendResult prior,
             resp_trace_id = ar_trace_id req, resp_row_count = int (length rows)\<rparr>]), svc'))"
        using assms(1) load Inr False c
        by (auto simp: ProcessAppendRowsRequest_def session_of_def is_buffered_type_def
            split: sum.splits)
      with commit False \<open>\<not> finalized s\<close> show ?thesis
        by (auto simp: visible_def rows split: sum.splits)
    qed
  qed
qed

lemma ProcessAppendRowsRequest_keeps_ok:
  assumes "ProcessAppendRowsRequest S req True name v = ((r, out), v')" "streams v name = Some s"
    and "ok_rows ok_row (store v) (st_table s) (decoded_rows req)"
    and "ok_rows ok_row (store v) t xs"
  shows "ok_rows ok_row (store v') t xs"
proof -
  have imm: "ok_rows ok_row (store v1) t xs"
    if "CommitImmediateAppendRows S name (st_table s) (decoded_rows req) v = (c, v1)" for c v1
    using that append_keeps_ok_rows [OF assms(3) _ assms(4)] assms(4)
    by (auto simp: CommitImmediateAppendRows_def BumpCommittedRows_def Let_def
        split: if_splits prod.splits sum.splits option.splits)
  show ?thesis
  proof (cases "\<not> finalized s \<and> (\<exists>rows. DecodeAppendRowBatch req (st_schema s) = Inr rows) \<and>
      \<not> is_buffered_type (st_type s)")
    case True
    obtain c v1 where c: "CommitImmediateAppendRows S name (st_table s) (decoded_rows req) v = (c, v1)"
      by (metis surj_pair)
    from True have "v' = v1"
      using assms(1,2) c DecodeAppendRowBatch_Inr
      by (auto simp: ProcessAppendRowsRequest_def LoadStreamSessionForAppend_def session_of_def
          is_buffered_type_def WriteAppendResponse_def split: sum.splits)
    with imm [OF c] show ?thesis by simp
  next
    case False
    then have "store v' = store v"
      using assms(1,2)
      by (auto simp: ProcessAppendRowsRequest_def LoadStreamSessionForAppend_def session_of_def
          is_buffered_type_def WriteAppendResponse_def CommitBufferedAppendRows_def Let_def
          split: sum.splits if_splits)
    with assms(4) show ?thesis by simp
  qed
qed

text \<open>A whole append call on one bound stream.\<close>

lemma AppendRowsLoop_rows:
  assumes "AppendRowsLoop A S ms bound v = ((r, out), v')" "streams v name = Some s"
    and "name \<noteq> []" "stays_bound name ms"
    and "fst bound = name \<or> ms = [] \<or> ar_write_stream (cm_request (hd ms)) = name"
    and "\<And>m. m \<in> set ms \<Longrightarrow> ok_rows ok_row (store v) (st_table s) (decoded_rows (cm_request m))"
  shows "streams v' = (streams v)(name \<mapsto> advance s (accepted_rows ms out)) \<and>
    rows_of (store v') = visible s (accepted_rows ms out) (rows_of (store v)) \<and>
    offsets_from (committed_rows s) ms out"
  using assms
proof (induction ms arbitrary: bound v s r out v')
  case (Cons m ms)
  obtain b v1 where b: "BindWriteStreamFromRequest A S (cm_now m) (cm_request m) bound v = (b, v1)"
    by (metis surj_pair)
  have named: "ar_write_stream (cm_request m) = name \<or>
      fst bound = name \<and> ar_write_stream (cm_request m) = []" and deliv: "cm_delivered m"
    and rest: "stays_bound name ms"
    using Cons.prems(4,5) by (auto simp: stays_bound_def)
  have v1: "v1 = v" and bound': "\<And>bound'. b = Inr bound' \<Longrightarrow> fst bound' = name"
    using Bind_bound [OF b Cons.prems(2,3) named] by blast+
  show ?case
  proof (cases b)
    case (Inl e)
    with Cons.prems(1,2) b v1 have "out = []" "v' = v" by simp_all
    with Cons.prems(2) show ?thesis by (simp add: fun_upd_idem)
  next
    case (Inr bd)
    obtain q o1 v2 where q: "ProcessAppendRowsRequest S (cm_request m) True name v = ((q, o1), v2)"
      by (metis surj_pair)
    have loop: "((r, out), v') = (case ((q, o1), v2) of
        ((Inl e, out), svc2) \<Rightarrow> ((Inl e, out), svc2)
      | ((Inr u, out), svc2) \<Rightarrow>
          (case AppendRowsLoop A S ms bd svc2 of ((r, out'), svc3) \<Rightarrow> ((r, out @ out'), svc3)))"
      using Cons.prems(1) b Inr bound' v1 deliv q by simp
    obtain r3 o3 v3 where l3: "AppendRowsLoop A S ms bd v2 = ((r3, o3), v3)" by (metis surj_pair)
    have ok: "ok_rows ok_row (store v) (st_table s) (decoded_rows (cm_request m))"
      using Cons.prems(6) by simp
    have ok2: "ok_rows ok_row (store v2) (st_table s) (decoded_rows (cm_request m'))"
      if "m' \<in> set ms" for m'
      using that Cons.prems(6) ProcessAppendRowsRequest_keeps_ok [OF q Cons.prems(2) ok] by simp
    from ProcessAppendRowsRequest_rows [OF q Cons.prems(2) ok]
    show ?thesis
    proof (elim disjE exE conjE)
      fix e assume "q = Inl e" "o1 = []" "streams v2 = streams v"
        "rows_of (store v2) = rows_of (store v)"
      with loop Cons.prems(2) show ?thesis by (simp add: fun_upd_idem)
    next
      fix resp msg assume *: "q = Inr ()" "o1 = [resp]" "resp_outcome resp = AppendErrorMessage msg"
        "resp_row_count resp = 0" "streams v2 = streams v" "rows_of (store v2) = rows_of (store v)"
      with loop l3 have "out = resp # o3" "v' = v3" by simp_all
      moreover have "streams v2 name = Some s" using * Cons.prems(2) by simp
      note Cons.IH [OF l3 this Cons.prems(3) rest _ ok2]
      ultimately show ?thesis using * bound' [OF Inr] by simp
    next
      fix resp assume *: "q = Inr ()" "o1 = [resp]"
        "resp_outcome resp = AppendResult (committed_rows s)"
        "resp_row_count resp = int (length (decoded_rows (cm_request m)))"
        "streams v2 = (streams v)(name \<mapsto> advance s (decoded_rows (cm_request m)))"
        "rows_of (store v2) = visible s (decoded_rows (cm_request m)) (rows_of (store v))"
      with loop l3 have "out = resp # o3" "v' = v3" by simp_all
      moreover have "streams v2 name = Some (advance s (decoded_rows (cm_request m)))"
        using * by simp
      note Cons.IH [OF l3 this Cons.prems(3) rest] ok2
      ultimately show ?thesis
        using * bound' [OF Inr] by (auto simp: advance_advance visible_append fun_eq_iff)
    qed
  qed
qed (simp add: fun_upd_idem)

text \<open>Batch commits append a prefix of the collected commits, all of them on success.\<close>

lemma ApplyCommits_rows:
  assumes "ApplyCommits S commits st = (r, st')"
    and "\<And>t rows. (t, rows) \<in> set commits \<Longrightarrow> ok_rows ok_row st t rows"
  shows "\<exists>k \<le> length commits. rows_of st' = append_commits (take k commits) (rows_of st) \<and>
    (r = Inr () \<longrightarrow> k = length commits)"
  using assms
proof (induction commits arbitrary: st)
  case (Cons c commits)
  obtain t rows where c: "c = (t, rows)" by (cases c)
  show ?case
  proof (cases "rows = []")
    case True
    with Cons.prems c have "ApplyCommits S commits st = (r, st')" by simp
    from Cons.IH [OF this] Cons.prems(2) obtain k where "k \<le> length commits"
      "rows_of st' = append_commits (take k commits) (rows_of st)"
      "r = Inr () \<longrightarrow> k = length commits" by auto
    with True c show ?thesis by (intro exI [of _ "Suc k"]) (simp add: append_commits_def)
  next
    case False
    obtain a st1 where a: "StorageAppendRows S st t rows = (a, st1)" by (metis surj_pair)
    have ok: "ok_rows ok_row st t rows" using Cons.prems(2) c by simp
    show ?thesis
    proof (cases a)
      case (Inl e)
      have "rows_of st1 = rows_of st"
        using append_error [OF _ a [unfolded Inl]] ok by (simp add: ok_rows_def)
      with Cons.prems(1) c False a Inl have "rows_of st' = rows_of st" "r \<noteq> Inr ()" by auto
      then show ?thesis by (intro exI [of _ 0]) (simp add: append_commits_def)
    next
      case (Inr u)
      with Cons.prems c False a have "ApplyCommits S commits st1 = (r, st')" by simp
      moreover have "ok_rows ok_row st1 t' rows'" if "(t', rows') \<in> set commits" for t' rows'
        using append_keeps_ok_rows [OF ok a] Cons.prems(2) that by simp
      ultimately obtain k where "k \<le> length commits"
        "rows_of st' = append_commits (take k commits) (rows_of st1)"
        "r = Inr () \<longrightarrow> k = length commits" using Cons.IH by blast
      moreover have "rows_of st1 = (rows_of st)(t := rows_of st t @ rows)"
        using append_ok [OF _ a [unfolded Inr]] ok by (simp add: ok_rows_def)
      ultimately show ?thesis using c
        by (intro exI [of _ "Suc k"]) (simp add: append_commits_def)
    qed
  qed
qed (simp add: append_commits_def)

lemma ApplyCommits_keeps_ok:
  assumes "ApplyCommits S commits st = (r, st')" "ok_rows ok_row st t' xs"
    and "\<And>t rows. (t, rows) \<in> set commits \<Longrightarrow> ok_rows ok_row st t rows"
  shows "ok_rows ok_row st' t' xs"
  using assms
proof (induction commits arbitrary: st)
  case (Cons c commits)
  obtain t rows where c: "c = (t, rows)" by (cases c)
  obtain a st1 where a: "StorageAppendRows S st t rows = (a, st1)" by (metis surj_pair)
  have ok: "ok_rows ok_row st t rows" using Cons.prems(3) c by simp
  show ?case
  proof (cases "rows = []")
    case True
    with Cons.prems c Cons.IH [of st] show ?thesis by simp
  next
    case False
    have keep: "ok_rows ok_row st1 t'' ys" if "ok_rows ok_row st t'' ys" for t'' ys
      using append_keeps_ok_rows [OF ok a that] .
    show ?thesis
    proof (cases a)
      case (Inl e)
      with Cons.prems(1) c False a have "st' = st1" by simp
      with keep Cons.prems(2) show ?thesis by simp
    next
      case (Inr u)
      with Cons.prems(1) c False a have "ApplyCommits S commits st1 = (r, st')" by simp
      from Cons.IH [OF this keep [OF Cons.prems(2)] keep] Cons.prems(3) show ?thesis by simp
    qed
  qed
qed simp

text \<open>A commit that passed its checks passes them again: nothing marks a stream as committed.\<close>

lemma BatchCommit_ok:
  assumes "BatchCommitWriteStreams A (Some S) now (Some req) v = (Inr t, v1)"
  obtains parent commits st' where "bc_write_streams req \<noteq> []"
    "(if bc_parent req = [] then Inr None else map_sum (\<lambda>e. e) Some (ParseTableParent A (bc_parent req))) = Inr parent"
    "CollectCommits parent (bc_write_streams req) (streams v) = Inr commits"
    "ApplyCommits S commits (store v) = (Inr (), st')" "v1 = v\<lparr>store := st'\<rparr>"
  using assms
  by (auto simp: BatchCommitWriteStreams_def simp del: map_sum.simps split: if_splits sum.splits prod.splits)

lemma BatchCommit_again:
  assumes "BatchCommitWriteStreams A (Some S) now (Some req) v = (Inr t, v1)"
    and "BatchCommitWriteStreams A (Some S) now2 (Some req) v1 = (r2, v2)"
    and ok: "\<And>name s. name \<in> set (bc_write_streams req) \<Longrightarrow> streams v name = Some s \<Longrightarrow>
      ok_rows ok_row (store v) (st_table s) (buffered_rows s)"
  defines "cs \<equiv> named_commits (streams v) (bc_write_streams req)"
  shows "(\<exists>e. r2 = Inl (StorageFailed e)) \<or>
    (\<exists>t2. r2 = Inr t2) \<and> rows_of (store v2) = append_commits cs (append_commits cs (rows_of (store v)))"
  using assms(1)
proof (cases rule: BatchCommit_ok)
  case (1 parent commits st')
  have cs: "commits = cs" "list_all (pending_final (streams v)) (bc_write_streams req)"
    using CollectCommits_Inr [OF 1(3)] by (auto simp: cs_def)
  have okc: "ok_rows ok_row (store v) t rows" if "(t, rows) \<in> set commits" for t rows
    using that cs ok by (fastforce simp: cs_def named_commits_def pending_final_def list_all_iff split: option.splits)
  have okc': "ok_rows ok_row st' t rows" if "(t, rows) \<in> set commits" for t rows
    using ApplyCommits_keeps_ok [OF 1(4) okc [OF that] okc] .
  obtain a st2 where a: "ApplyCommits S commits st' = (a, st2)" by (metis surj_pair)
  have r2: "(r2, v2) = (case a of Inl e \<Rightarrow> (Inl e, v1\<lparr>store := st2\<rparr>) | Inr u \<Rightarrow> (Inr (Rfc3339Now now2), v1\<lparr>store := st2\<rparr>))"
    using 1 a assms(2) by (auto simp: BatchCommitWriteStreams_def split: sum.splits)
  have first: "rows_of st' = append_commits cs (rows_of (store v))"
    using ApplyCommits_rows [OF 1(4) okc] cs by auto
  show ?thesis
  proof (cases a)
    case (Inl e)
    have "\<exists>e'. e = StorageFailed e'"
      using a [unfolded Inl] by (induction commits arbitrary: st') (auto split: if_splits prod.splits sum.splits)
    with r2 Inl show ?thesis by simp
  next
    case (Inr u)
    with ApplyCommits_rows [OF a okc'] cs first r2 show ?thesis by auto
  qed
qed

lemma BatchCommitWriteStreams_rows:
  assumes "BatchCommitWriteStreams A (Some S) now (Some req) v = (r, v')"
    and ok: "\<And>name s. name \<in> set (bc_write_streams req) \<Longrightarrow> streams v name = Some s \<Longrightarrow>
      ok_rows ok_row (store v) (st_table s) (buffered_rows s)"
  shows "streams v' = streams v \<and>
    (case r of
       Inr time \<Rightarrow> list_all (pending_final (streams v)) (bc_write_streams req) \<and>
         rows_of (store v') =
           append_commits (named_commits (streams v) (bc_write_streams req)) (rows_of (store v))
     | Inl e \<Rightarrow> \<exists>k \<le> length (bc_write_streams req). rows_of (store v') =
         append_commits (take k (named_commits (streams v) (bc_write_streams req))) (rows_of (store v)))"
proof -
  define p where "p = (if bc_parent req = [] then Inr None
    else map_sum (\<lambda>e. e) Some (ParseTableParent A (bc_parent req)))"
  have run: "(r, v') = (if bc_write_streams req = [] then (Inl BatchStreamsRequired, v)
      else case p of Inl e \<Rightarrow> (Inl e, v) | Inr parent \<Rightarrow>
      (case CollectCommits parent (bc_write_streams req) (streams v) of
         Inl e \<Rightarrow> (Inl e, v)
       | Inr commits \<Rightarrow> (case ApplyCommits S commits (store v) of
           (Inl e, st') \<Rightarrow> (Inl e, v\<lparr>store := st'\<rparr>)
         | (Inr u, st') \<Rightarrow> (Inr (Rfc3339Now now), v\<lparr>store := st'\<rparr>))))"
    unfolding assms(1) [symmetric] p_def by (simp add: BatchCommitWriteStreams_def)
  show ?thesis
  proof (cases "bc_write_streams req \<noteq> [] \<and> (\<exists>parent commits. p = Inr parent \<and>
      CollectCommits parent (bc_write_streams req) (streams v) = Inr commits)")
    case True
    then obtain parent commits where c: "p = Inr parent" "bc_write_streams req \<noteq> []"
      "CollectCommits parent (bc_write_streams req) (streams v) = Inr commits" by blast
    obtain a st' where a: "ApplyCommits S commits (store v) = (a, st')" by (metis surj_pair)
    have cs: "commits = named_commits (streams v) (bc_write_streams req)"
      "list_all (pending_final (streams v)) (bc_write_streams req)"
      using CollectCommits_Inr [OF c(3)] by auto
    then have "length commits = length (bc_write_streams req)" by (simp add: named_commits_def)
    moreover have "ok_rows ok_row (store v) t rows" if "(t, rows) \<in> set commits" for t rows
      using that cs ok by (fastforce simp: named_commits_def pending_final_def list_all_iff split: option.splits)
    ultimately show ?thesis using ApplyCommits_rows [OF a] cs run c a by (cases a) auto
  next
    case False
    then have "\<exists>e. (r, v') = (Inl e, v)" unfolding run by (auto split: sum.split)
    then show ?thesis by (auto intro!: exI [of _ 0] simp: append_commits_def)
  qed
qed

end

end
