(* ===== verification/Duckdb_Sql.thy ===== *)
theory Duckdb_Sql
  imports Storage_Value
begin

section \<open>Rendering rows as DuckDB SQL\<close>

text \<open>
  The literal renderer of \<open>duckdb_storage_literals.cc\<close>, the statement renderer of
  \<open>duckdb_storage_sql_render.cc\<close> and the measure-column filter of \<open>measure_catalog.cc\<close>. The
  formatting functions of absl and GoogleSQL that the renderer calls are the record \<open>LitFns\<close>.

  The lemmas show that the text of a rendered row reads back as the intended literals: a scanner
  that knows only quotes, brackets, commas, semicolons and comments finds exactly one tuple per
  row and one literal per cell, whatever bytes the cells hold. The one exception the code has, a
  STRING cell for a STRUCT column that is copied into the statement verbatim, is stated too.
\<close>

subsection \<open>Formatting functions of the libraries\<close>

record CivilSecond =
  cs_year :: int
  cs_month :: int
  cs_day :: int
  cs_hour :: int
  cs_minute :: int
  cs_second :: int

record LitFns =
  lit_absl :: absl
  StrFormatG17 :: "double \<Rightarrow> string"
  FormatDateToString :: "int \<Rightarrow> string option"
  ToCivilSecond :: "int \<Rightarrow> CivilSecond"

subsection \<open>Quoting\<close>

fun join_str :: "string \<Rightarrow> string list \<Rightarrow> string" where
  "join_str d [] = []"
| "join_str d [p] = p"
| "join_str d (p # q # ps) = p @ d @ join_str d (q # ps)"

definition QuoteIdent :: "string \<Rightarrow> string" where
  "QuoteIdent ident = [CHR 0x22] @ double_char (CHR 0x22) ident @ [CHR 0x22]"

definition EscapeStringLiteralInner :: "string \<Rightarrow> string" where
  "EscapeStringLiteralInner s = double_char (CHR 0x27) s"

text \<open>A string literal: the escaped text between single quotes.\<close>

definition quoted :: "string \<Rightarrow> string" where
  "quoted s = [CHR 0x27] @ EscapeStringLiteralInner s @ [CHR 0x27]"

definition kHex :: string where
  "kHex = ''0123456789abcdef''"

definition RenderBlobLiteral :: "string \<Rightarrow> string" where
  "RenderBlobLiteral bytes =
     ''X'' @ [CHR 0x27] @
     concat (map (\<lambda>c. [kHex ! (char_code c div 16), kHex ! (char_code c mod 16)]) bytes) @ [CHR 0x27]"

subsection \<open>Numbers and dates\<close>

definition all_digits :: "string \<Rightarrow> bool" where
  "all_digits s \<longleftrightarrow> s \<noteq> [] \<and> list_all ascii_isdigit s"

definition SimpleAtoi32 :: "absl \<Rightarrow> string \<Rightarrow> int option" where
  "SimpleAtoi32 A s =
     (case SimpleAtoi A s of
        None \<Rightarrow> None
      | Some v \<Rightarrow> if - (2 ^ 31) \<le> v \<and> v \<le> 2 ^ 31 - 1 then Some v else None)"

definition TryFormatPackedDateString :: "LitFns \<Rightarrow> string \<Rightarrow> string option" where
  "TryFormatPackedDateString L s =
     (if \<not> all_digits s then None
      else case SimpleAtoi32 (lit_absl L) s of
             None \<Rightarrow> None
           | Some packed \<Rightarrow> FormatDateToString L packed)"

text \<open>\<open>pad0 k n\<close> is the \<open>printf\<close> conversion \<open>%0kd\<close>.\<close>

definition pad0 :: "nat \<Rightarrow> int \<Rightarrow> string" where
  "pad0 k n =
     (if n < 0 then CHR ''-'' # replicate (k - 1 - length (dec_nat (nat (- n)))) (CHR ''0'') @ dec_nat (nat (- n))
      else replicate (k - length (dec_nat (nat n))) (CHR ''0'') @ dec_nat (nat n))"

definition TryFormatMicrosTimestampString :: "LitFns \<Rightarrow> string \<Rightarrow> string option" where
  "TryFormatMicrosTimestampString L s =
     (if \<not> all_digits s then None
      else case SimpleAtoi (lit_absl L) s of
             None \<Rightarrow> None
           | Some micros \<Rightarrow>
               (let cs = ToCivilSecond L micros;
                    base = pad0 4 (cs_year cs) @ ''-'' @ pad0 2 (cs_month cs) @ ''-'' @
                      pad0 2 (cs_day cs) @ '' '' @ pad0 2 (cs_hour cs) @ '':'' @
                      pad0 2 (cs_minute cs) @ '':'' @ pad0 2 (cs_second cs)
                in if micros mod 1000000 = 0 then Some (base @ ''+00'')
                   else let frac = (if micros \<ge> 0 then micros mod 1000000
                                    else (- micros) mod 1000000)
                        in Some (base @ ''.'' @ pad0 6 frac @ ''+00'')))"

text \<open>The IEEE classification of a bit pattern.\<close>

definition exponent_ones :: "double \<Rightarrow> bool" where
  "exponent_ones d \<longleftrightarrow> take_bit 11 (drop_bit 52 d) = 2047"

definition isnan :: "double \<Rightarrow> bool" where
  "isnan d \<longleftrightarrow> exponent_ones d \<and> take_bit 52 d \<noteq> 0"

definition isinf :: "double \<Rightarrow> bool" where
  "isinf d \<longleftrightarrow> exponent_ones d \<and> take_bit 52 d = 0"

definition cast_text :: "string \<Rightarrow> string \<Rightarrow> string" where
  "cast_text s ty = ''CAST('' @ quoted s @ '' AS '' @ ty @ '')''"

definition RenderFloatLiteral :: "LitFns \<Rightarrow> Value \<Rightarrow> string" where
  "RenderFloatLiteral L cell =
     (if kind cell = KString then cast_text (string_value cell) ''DOUBLE''
      else let v = float64_value cell
           in if isnan v then quoted ''NaN'' @ ''::DOUBLE''
              else if isinf v then
                quoted (if \<not> bit v 63 then ''Infinity'' else ''-Infinity'') @ ''::DOUBLE''
              else StrFormatG17 L v)"

subsection \<open>Cells\<close>

definition with_mode :: "ColumnMode \<Rightarrow> ColumnSchema \<Rightarrow> ColumnSchema" where
  "with_mode m c =
     ColumnSchema (col_name c) (col_type c) m (col_description c) (col_raw_type c) (col_fields c)"

fun kind_number :: "Kind \<Rightarrow> nat" where
  "kind_number KNull = 0" | "kind_number KBool = 1" | "kind_number KInt64 = 2"
| "kind_number KFloat64 = 3" | "kind_number KString = 4" | "kind_number KBytes = 5"
| "kind_number KArray = 6" | "kind_number KStruct = 7"

datatype LiteralError =
    NotStruct string
  | StructFieldCount string nat nat
  | NotArray string Kind

fun literal_error_status :: "LiteralError \<Rightarrow> Status" where
  "literal_error_status (NotStruct name) =
     Status kInvalidArgument
       (''AppendRows: column '' @ [CHR 0x27] @ name @ [CHR 0x27] @
        '' expects STRUCT but row provided non-struct cell'')"
| "literal_error_status (StructFieldCount name expected got) =
     Status kInvalidArgument
       (''AppendRows: STRUCT column '' @ [CHR 0x27] @ name @ [CHR 0x27] @ '' has '' @
        dec_nat expected @ '' fields but row provided '' @ dec_nat got)"
| "literal_error_status (NotArray name k) =
     Status kInvalidArgument
       (''AppendRows: REPEATED column '' @ [CHR 0x27] @ name @ [CHR 0x27] @
        '' expects ARRAY but row provided kind '' @ dec_nat (kind_number k))"

text \<open>A STRING cell for a STRUCT column whose trimmed text begins with a brace.\<close>

definition raw_struct_text :: "Value \<Rightarrow> string option" where
  "raw_struct_text cell =
     (if kind cell = KString then
        (let t = trim_right (trim_left (string_value cell))
         in if t \<noteq> [] \<and> hd t = CHR ''{'' then Some t else None)
      else None)"

text \<open>The branches of \<open>RenderScalarLiteral\<close> other than STRUCT.\<close>

definition RenderPlainLiteral :: "LitFns \<Rightarrow> Value \<Rightarrow> ColumnType \<Rightarrow> string" where
  "RenderPlainLiteral L cell ty =
     (case ty of
        kBool \<Rightarrow>
          if kind cell = KString then cast_text (string_value cell) ''BOOLEAN''
          else if bool_value cell then ''TRUE'' else ''FALSE''
      | kInt64 \<Rightarrow>
          if kind cell = KString then cast_text (string_value cell) ''BIGINT''
          else dec (int64_value cell)
      | kFloat64 \<Rightarrow> RenderFloatLiteral L cell
      | kBytes \<Rightarrow> RenderBlobLiteral (string_value cell)
      | kDate \<Rightarrow>
          (let iso = string_value cell
           in ''DATE '' @ quoted (case TryFormatPackedDateString L iso of Some p \<Rightarrow> p | None \<Rightarrow> iso))
      | kTime \<Rightarrow> ''TIME '' @ quoted (string_value cell)
      | kDatetime \<Rightarrow> ''TIMESTAMP '' @ quoted (string_value cell)
      | kTimestamp \<Rightarrow>
          (let ts = (if kind cell = KInt64 then dec (int64_value cell) else string_value cell)
           in ''TIMESTAMPTZ '' @
              quoted (case TryFormatMicrosTimestampString L ts of Some m \<Rightarrow> m | None \<Rightarrow> ts))
      | kNumeric \<Rightarrow> cast_text (string_value cell) (ToDuckDBType kNumeric)
      | kBignumeric \<Rightarrow> cast_text (string_value cell) (ToDuckDBStorageType kBignumeric)
      | _ \<Rightarrow> quoted (string_value cell))"

function (sequential) RenderCellLiteral ::
    "LitFns \<Rightarrow> Value \<Rightarrow> ColumnSchema \<Rightarrow> LiteralError + string"
  and RenderScalarLiteral :: "LitFns \<Rightarrow> Value \<Rightarrow> ColumnSchema \<Rightarrow> LiteralError + string"
  and RenderStructLiteral :: "LitFns \<Rightarrow> Value \<Rightarrow> ColumnSchema \<Rightarrow> LiteralError + string"
  and RenderElements :: "LitFns \<Rightarrow> Value list \<Rightarrow> ColumnSchema \<Rightarrow> LiteralError + string list"
  and RenderFields :: "LitFns \<Rightarrow> Value list \<Rightarrow> ColumnSchema list \<Rightarrow> LiteralError + string list" where
  "RenderCellLiteral L cell column =
     (if is_null cell then Inr ''NULL''
      else if col_mode column = kRepeated then
        (case cell of
           VArray elems \<Rightarrow>
             (let element = with_mode kNullable column;
                  duckdb_list_type = ColumnSchemaToDuckDBStorageType column
              in if elems = [] then Inr (''CAST([] AS '' @ duckdb_list_type @ '')'')
                 else case RenderElements L elems element of
                        Inl e \<Rightarrow> Inl e
                      | Inr lits \<Rightarrow>
                          Inr (''CAST(['' @ join_str '', '' lits @ ''] AS '' @ duckdb_list_type @ '')''))
         | _ \<Rightarrow> Inl (NotArray (col_name column) (kind cell)))
      else RenderScalarLiteral L cell column)"
| "RenderScalarLiteral L cell column =
     (if col_type column = kStruct then RenderStructLiteral L cell column
      else Inr (RenderPlainLiteral L cell (col_type column)))"
| "RenderStructLiteral L cell column =
     (case raw_struct_text cell of
        Some t \<Rightarrow> Inr t
      | None \<Rightarrow>
          (case cell of
             VStruct vals \<Rightarrow>
               (if length vals \<noteq> length (col_fields column)
                then Inl (StructFieldCount (col_name column) (length (col_fields column)) (length vals))
                else case RenderFields L vals (col_fields column) of
                       Inl e \<Rightarrow> Inl e
                     | Inr lits \<Rightarrow> Inr (''{'' @ join_str '', '' lits @ ''}''))
           | _ \<Rightarrow> Inl (NotStruct (col_name column))))"
| "RenderElements L [] element = Inr []"
| "RenderElements L (e # es) element =
     (case RenderCellLiteral L e element of
        Inl err \<Rightarrow> Inl err
      | Inr lit \<Rightarrow>
          (case RenderElements L es element of Inl err \<Rightarrow> Inl err | Inr lits \<Rightarrow> Inr (lit # lits)))"
| "RenderFields L (v # vs) (c # cs) =
     (case RenderCellLiteral L v c of
        Inl err \<Rightarrow> Inl err
      | Inr lit \<Rightarrow>
          (case RenderFields L vs cs of
             Inl err \<Rightarrow> Inl err
           | Inr lits \<Rightarrow> Inr ((quoted (col_name c) @ '': '' @ lit) # lits)))"
| "RenderFields L vs cs = Inr []"
  by pat_completeness auto
termination
  by (relation "measure (\<lambda>x. case x of
        Inl (Inl (L, v, c)) \<Rightarrow> 4 * size v + 2
      | Inl (Inr (L, v, c)) \<Rightarrow> 4 * size v + 1
      | Inr (Inl (L, v, c)) \<Rightarrow> 4 * size v
      | Inr (Inr (Inl (L, vs, c))) \<Rightarrow> 4 * size_list size vs + 3
      | Inr (Inr (Inr (L, vs, c))) \<Rightarrow> 4 * size_list size vs + 3)")
    auto

declare RenderCellLiteral.simps [simp del] RenderScalarLiteral.simps [simp del]
  RenderStructLiteral.simps [simp del]

subsection \<open>Measure columns\<close>

definition kMeasureMarker :: string where
  "kMeasureMarker = ''bqemu_measure:''"

record MeasureColumnSpec =
  mc_name :: string
  mc_expression :: string
  mc_row_key_names :: "string list"

definition ParseMeasureColumnSpec :: "absl \<Rightarrow> ColumnSchema \<Rightarrow> MeasureColumnSpec option" where
  "ParseMeasureColumnSpec A column =
     (if \<not> prefix kMeasureMarker (col_description column) then None
      else let parts = StrSplit A (drop (length kMeasureMarker) (col_description column)) (CHR '':'')
           in if length parts \<noteq> 2 \<or> parts ! 0 = [] then None
              else Some \<lparr>mc_name = col_name column, mc_expression = parts ! 0,
                     mc_row_key_names =
                       map (\<lambda>key. trim_right (trim_left key))
                         (filter (\<lambda>key. key \<noteq> []) (StrSplit A (parts ! 1) (CHR '','')))\<rparr>)"

definition StripMeasureColumns :: "absl \<Rightarrow> TableSchema \<Rightarrow> TableSchema" where
  "StripMeasureColumns A schema =
     \<lparr>columns = filter (\<lambda>column. ParseMeasureColumnSpec A column = None) (columns schema)\<rparr>"

definition ParquetStorageSchema :: "absl \<Rightarrow> TableSchema \<Rightarrow> TableSchema" where
  "ParquetStorageSchema A logical = StripMeasureColumns A logical"

subsection \<open>Statements\<close>

definition RenderColumnList :: "TableSchema \<Rightarrow> string" where
  "RenderColumnList schema =
     ''('' @ join_str '', ''
       (map (\<lambda>c. QuoteIdent (col_name c) @ '' '' @ ColumnSchemaToDuckDBStorageType c) (columns schema)) @
     '')''"

definition RenderPredicateClause :: "EqualityPredicate \<Rightarrow> string" where
  "RenderPredicateClause pred =
     '' WHERE '' @ QuoteIdent (ep_column pred) @ '' = '' @
     (case ep_kind pred of
        PInt64 \<Rightarrow> dec (ep_int64_value pred)
      | PBool \<Rightarrow> if ep_bool_value pred then ''TRUE'' else ''FALSE''
      | PString \<Rightarrow> quoted (ep_string_value pred))"

definition RenderWhereSqlClause :: "string \<Rightarrow> string" where
  "RenderWhereSqlClause where_text = (if where_text = [] then [] else '' WHERE ('' @ where_text @ '')'')"

definition RenderRowPartitionClause :: "int \<Rightarrow> int \<Rightarrow> string" where
  "RenderRowPartitionClause from_row to_row =
     (if from_row > 0 \<or> to_row \<ge> 0 then
        '' WHERE '' @
        (if from_row > 0 then ''file_row_number >= '' @ dec from_row else []) @
        (if to_row \<ge> 0 then
           (if from_row > 0 then '' AND '' else []) @ ''file_row_number < '' @ dec to_row
         else [])
      else [])"

definition RenderColumnSelectExpr :: "ColumnSchema \<Rightarrow> string" where
  "RenderColumnSelectExpr column =
     (let ident = QuoteIdent (col_name column);
          as_text = ''CAST('' @ ident @ '' AS VARCHAR) AS '' @ ident
      in if col_mode column = kRepeated then as_text
         else case col_type column of
                kDate \<Rightarrow> as_text | kTime \<Rightarrow> as_text | kDatetime \<Rightarrow> as_text
              | kTimestamp \<Rightarrow> as_text | kStruct \<Rightarrow> as_text
              | _ \<Rightarrow> ident)"

definition RenderColumnIdentList :: "TableSchema \<Rightarrow> string" where
  "RenderColumnIdentList schema = join_str '', '' (map RenderColumnSelectExpr (columns schema))"

definition find_column :: "string \<Rightarrow> ColumnSchema list \<Rightarrow> ColumnSchema option" where
  "find_column name cols = List.find (\<lambda>c. col_name c = name) cols"

definition RenderSelectedColumnIdentList :: "TableSchema \<Rightarrow> string list \<Rightarrow> string" where
  "RenderSelectedColumnIdentList schema names =
     join_str '', ''
       (map (\<lambda>name. case find_column name (columns schema) of
                Some column \<Rightarrow> RenderColumnSelectExpr column
              | None \<Rightarrow> QuoteIdent name) names)"

text \<open>The error carries the first name the table does not have.\<close>

fun ProjectColumns :: "ColumnSchema list \<Rightarrow> string list \<Rightarrow> string + ColumnSchema list" where
  "ProjectColumns cols [] = Inr []"
| "ProjectColumns cols (name # names) =
     (case find_column name cols of
        None \<Rightarrow> Inl name
      | Some c \<Rightarrow>
          (case ProjectColumns cols names of Inl e \<Rightarrow> Inl e | Inr cs \<Rightarrow> Inr (c # cs)))"

definition ProjectSchema :: "TableSchema \<Rightarrow> string list \<Rightarrow> TableSchema StatusOr" where
  "ProjectSchema schema names =
     (case ProjectColumns (columns schema) names of
        Inl name \<Rightarrow>
          Inl (Status kInvalidArgument
            (''selected_fields: unknown column `'' @ name @
             ''` (table has no top-level column with that name)''))
      | Inr cs \<Rightarrow> Inr \<lparr>columns = cs\<rparr>)"

definition table_dotted :: "TableId \<Rightarrow> string" where
  "table_dotted tid = project_id tid @ ''.'' @ dataset_id tid @ ''.'' @ table_id tid"

fun ValidateRowsShape :: "string \<Rightarrow> TableId \<Rightarrow> Row list \<Rightarrow> nat \<Rightarrow> nat \<Rightarrow> unit StatusOr" where
  "ValidateRowsShape tag tid [] ncols i = Inr ()"
| "ValidateRowsShape tag tid (row # rows) ncols i =
     (if length (cells row) \<noteq> ncols
      then Inl (Status kInvalidArgument
             (tag @ '': row['' @ dec_nat i @ ''] has '' @ dec_nat (length (cells row)) @
              '' cell(s) but table '' @ table_dotted tid @ '' has '' @ dec_nat ncols @ '' column(s)''))
      else ValidateRowsShape tag tid rows ncols (Suc i))"

fun RenderRowCells :: "LitFns \<Rightarrow> Value list \<Rightarrow> ColumnSchema list \<Rightarrow> LiteralError + string list" where
  "RenderRowCells L (v # vs) (c # cs) =
     (case RenderCellLiteral L v c of
        Inl e \<Rightarrow> Inl e
      | Inr lit \<Rightarrow>
          (case RenderRowCells L vs cs of Inl e \<Rightarrow> Inl e | Inr lits \<Rightarrow> Inr (lit # lits)))"
| "RenderRowCells L vs cs = Inr []"

fun RenderTuples :: "LitFns \<Rightarrow> Row list \<Rightarrow> TableSchema \<Rightarrow> LiteralError + string list" where
  "RenderTuples L [] schema = Inr []"
| "RenderTuples L (row # rows) schema =
     (case RenderRowCells L (cells row) (columns schema) of
        Inl e \<Rightarrow> Inl e
      | Inr lits \<Rightarrow>
          (case RenderTuples L rows schema of
             Inl e \<Rightarrow> Inl e
           | Inr tuples \<Rightarrow> Inr ((''('' @ join_str '', '' lits @ '')'') # tuples)))"

definition insert_prefix :: "string \<Rightarrow> string" where
  "insert_prefix tmp_table = ''INSERT INTO '' @ tmp_table @ '' VALUES ''"

definition BuildBatchInsertSql :: "LitFns \<Rightarrow> string \<Rightarrow> Row list \<Rightarrow> TableSchema \<Rightarrow> LiteralError + string" where
  "BuildBatchInsertSql L tmp_table rows schema =
     (case RenderTuples L rows schema of
        Inl e \<Rightarrow> Inl e
      | Inr tuples \<Rightarrow> Inr (insert_prefix tmp_table @ join_str '', '' tuples))"

subsection \<open>Reading the text of a statement\<close>

text \<open>
  The scanner of SQL text: it knows single- and double-quoted text (a doubled quote closes and
  reopens it), brackets, and the characters that would end a value or start something else: a
  comma or a closing bracket at the top level, a semicolon, a comment and a dollar quote.
\<close>

datatype Lex = Plain | AfterDash | AfterSlash | InQuote char

datatype CharClass = CQuote | COpen | CClose | CComma | CStop | CDash | CSlash | CStar | COther

definition char_class :: "char \<Rightarrow> CharClass" where
  "char_class c =
     (if c = CHR 0x27 \<or> c = CHR 0x22 then CQuote
      else if c \<in> set ''([{'' then COpen
      else if c \<in> set '')]}'' then CClose
      else if c = CHR '','' then CComma
      else if c = CHR '';'' \<or> c = CHR ''$'' then CStop
      else if c = CHR ''-'' then CDash
      else if c = CHR ''/'' then CSlash
      else if c = CHR ''*'' then CStar
      else COther)"

fun lex_step :: "Lex \<times> nat \<Rightarrow> char \<Rightarrow> (Lex \<times> nat) option" where
  "lex_step (InQuote q, n) c = Some (if c = q then Plain else InQuote q, n)"
| "lex_step (l, n) c =
     (case char_class c of
        CQuote \<Rightarrow> Some (InQuote c, n)
      | COpen \<Rightarrow> Some (Plain, Suc n)
      | CClose \<Rightarrow> if n = 0 then None else Some (Plain, n - 1)
      | CComma \<Rightarrow> if n = 0 then None else Some (Plain, n)
      | CStop \<Rightarrow> None
      | CDash \<Rightarrow> if l = AfterDash then None else Some (AfterDash, n)
      | CSlash \<Rightarrow> Some (AfterSlash, n)
      | CStar \<Rightarrow> if l = AfterSlash then None else Some (Plain, n)
      | COther \<Rightarrow> Some (Plain, n))"

fun scan :: "Lex \<times> nat \<Rightarrow> string \<Rightarrow> (Lex \<times> nat) option" where
  "scan st [] = Some st"
| "scan st (c # s) = (case lex_step st c of None \<Rightarrow> None | Some st' \<Rightarrow> scan st' s)"

definition inert :: "string \<Rightarrow> bool" where
  "inert s \<longleftrightarrow> s \<noteq> [] \<and> hd s \<noteq> CHR '' '' \<and> scan (Plain, 0) s = Some (Plain, 0)"

text \<open>The pieces of a text between the commas at its top level, without leading blanks.\<close>

fun cut :: "Lex \<times> nat \<Rightarrow> string \<Rightarrow> string \<Rightarrow> string list" where
  "cut st acc [] = [rev acc]"
| "cut st acc (c # s) =
     (case lex_step st c of
        Some st' \<Rightarrow> cut st' (c # acc) s
      | None \<Rightarrow> if c = CHR '','' then rev acc # cut (Plain, 0) [] s else cut st (c # acc) s)"

definition pieces :: "string \<Rightarrow> string list" where
  "pieces s = map (dropWhile (\<lambda>c. c = CHR '' '')) (cut (Plain, 0) [] s)"

text \<open>The literals of the tuples of a VALUES list.\<close>

definition read_values :: "string \<Rightarrow> string list list" where
  "read_values s = map (\<lambda>tuple. pieces (butlast (tl tuple))) (pieces s)"

subsection \<open>The scanner\<close>

lemma scan_append:
  "scan st (a @ b) = (case scan st a of None \<Rightarrow> None | Some st' \<Rightarrow> scan st' b)"
  by (induction a arbitrary: st) (auto split: option.splits)

lemma lex_step_deeper:
  "lex_step (l, n) c = Some (l', n') \<Longrightarrow> lex_step (l, n + k) c = Some (l', n' + k)"
  by (cases l; cases "char_class c") (auto split: if_splits)

lemma scan_deeper:
  "scan (l, n) s = Some (l', n') \<Longrightarrow> scan (l, n + k) s = Some (l', n' + k)"
proof (induction s arbitrary: l n)
  case (Cons c s)
  then obtain l1 n1 where "lex_step (l, n) c = Some (l1, n1)" "scan (l1, n1) s = Some (l', n')"
    by (auto split: option.splits)
  with Cons.IH show ?case by (simp add: lex_step_deeper)
qed simp

lemma scan_inert: "inert s \<Longrightarrow> scan (Plain, n) s = Some (Plain, n)"
  using scan_deeper [of Plain 0 s Plain 0 n] by (simp add: inert_def)

lemma scan_in_quote:
  "char_class q = CQuote \<Longrightarrow> scan (InQuote q, n) (double_char q s @ [q]) = Some (Plain, n)"
  by (induction s) (auto simp: double_char_def)

lemma scan_quoted [simp]: "scan (Plain, n) (quoted s) = Some (Plain, n)"
  using scan_in_quote [of "CHR 0x27" n s]
  by (simp add: quoted_def EscapeStringLiteralInner_def char_class_def)

lemma scan_QuoteIdent [simp]: "scan (Plain, n) (QuoteIdent s) = Some (Plain, n)"
  using scan_in_quote [of "CHR 0x22" n s] by (simp add: QuoteIdent_def char_class_def)

lemma cut_inert:
  assumes "scan st s = Some st'"
  shows "cut st acc (s @ r) = cut st' (rev s @ acc) r"
  using assms by (induction s arbitrary: st acc) (auto split: option.splits)

lemma cut_join:
  assumes "list_all inert lits" "lits \<noteq> []" "scan (Plain, 0) pre = Some (Plain, 0)"
  shows "cut (Plain, 0) (rev pre) (join_str '', '' lits) =
    (pre @ hd lits) # map ((#) (CHR '' '')) (tl lits)"
  using assms
proof (induction "'', ''" lits arbitrary: pre rule: join_str.induct)
  case (2 p)
  then show ?case using cut_inert [of "(Plain, 0)" p "(Plain, 0)" "rev pre" "[]"]
    by (simp add: inert_def)
next
  case (3 p q ps)
  have "cut (Plain, 0) (rev pre) (p @ '', '' @ join_str '', '' (q # ps)) =
      cut (Plain, 0) (rev p @ rev pre) ('', '' @ join_str '', '' (q # ps))"
    using 3 by (intro cut_inert) (simp add: inert_def)
  also have "\<dots> = (pre @ p) # cut (Plain, 0) (rev '' '') (join_str '', '' (q # ps))"
    by (simp add: char_class_def)
  also have "cut (Plain, 0) (rev '' '') (join_str '', '' (q # ps)) =
      ('' '' @ hd (q # ps)) # map ((#) (CHR '' '')) (tl (q # ps))"
    using "3.hyps" [of "'' ''"] 3 by (simp add: char_class_def)
  finally show ?case by simp
qed simp

lemma pieces_join:
  assumes "list_all inert lits" "lits \<noteq> []"
  shows "pieces (join_str '', '' lits) = lits"
proof -
  have strip: "dropWhile (\<lambda>c. c = CHR '' '') l = l" if "inert l" for l
    using that by (cases l) (auto simp: inert_def)
  have "map (\<lambda>l. dropWhile (\<lambda>c. c = CHR '' '') (CHR '' '' # l)) (tl lits) = tl lits"
    using assms strip by (intro map_idI) (auto simp: list_all_iff dest: list.set_sel(2))
  then show ?thesis
    using cut_join [OF assms, of "[]"] assms strip [of "hd lits"]
    by (cases lits) (simp_all add: pieces_def o_def)
qed

subsection \<open>Rendered text is inert\<close>

text \<open>The shape of the text of a number, as \<open>printf\<close> writes it.\<close>

definition number_text :: "string \<Rightarrow> bool" where
  "number_text s \<longleftrightarrow>
     s \<noteq> [] \<and> list_all (\<lambda>c. ascii_isdigit c \<or> c \<in> set ''.+-e'') s \<and>
     \<not> StrContains s ''--'' \<and> last s \<noteq> CHR ''-''"

lemma digit_class:
  assumes "ascii_isdigit c"
  shows "char_class c = COther" "c \<noteq> CHR ''-''" "c \<noteq> CHR '' ''"
proof -
  have ne: "c \<noteq> d" if "\<not> ascii_isdigit d" for d using assms that by blast
  show "char_class c = COther" by (simp add: char_class_def ne)
  show "c \<noteq> CHR ''-''" "c \<noteq> CHR '' ''" by (simp_all add: ne)
qed

lemma lex_step_number:
  assumes "ascii_isdigit c \<or> c \<in> set ''.+-e''" "l = Plain \<or> l = AfterDash \<and> c \<noteq> CHR ''-''"
  shows "lex_step (l, n) c = Some (if c = CHR ''-'' then AfterDash else Plain, n)"
proof (cases "c = CHR ''-''")
  case True
  with assms(2) have "l = Plain" by blast
  with True show ?thesis by (simp add: char_class_def)
next
  case False
  have "char_class c = COther" if "c \<in> set ''.+e''"
    using that by (auto simp: char_class_def)
  with False assms(1) digit_class(1) have "char_class c = COther" by auto
  with assms(2) False show ?thesis by auto
qed

lemma scan_number_gen:
  assumes "list_all (\<lambda>c. ascii_isdigit c \<or> c \<in> set ''.+-e'') s" "\<not> sublist ''--'' s"
    "s = [] \<or> last s \<noteq> CHR ''-''" "l = Plain \<or> l = AfterDash \<and> s \<noteq> [] \<and> hd s \<noteq> CHR ''-''"
  shows "scan (l, n) s = Some (Plain, n)"
  using assms
proof (induction s arbitrary: l)
  case (Cons c s)
  have step: "lex_step (l, n) c = Some (if c = CHR ''-'' then AfterDash else Plain, n)"
    using Cons.prems(1,4) by (intro lex_step_number) auto
  have "\<not> sublist ''--'' s" using Cons.prems(2) by (metis sublist_Cons_right)
  moreover have "s \<noteq> [] \<and> hd s \<noteq> CHR ''-''" if "c = CHR ''-''"
    using that Cons.prems(2,3) by (cases s) (auto simp: sublist_Cons_right)
  ultimately have "scan (if c = CHR ''-'' then AfterDash else Plain, n) s = Some (Plain, n)"
    using Cons.prems(1,3) by (intro Cons.IH) (auto split: if_splits)
  with step show ?case by simp
qed simp

lemma scan_number: "number_text s \<Longrightarrow> scan (Plain, n) s = Some (Plain, n)"
  by (rule scan_number_gen) (auto simp: number_text_def StrContains_sublist)

lemma number_text_dec: "number_text (dec i)"
proof -
  have digits: "list_all ascii_isdigit (dec_nat n)" for n
    by (auto simp: list_all_iff dec_nat_digits)
  have no_dash: "\<not> sublist ''--'' (dec_nat n)" for n
    using digits [of n] by (auto simp: sublist_def list_all_iff)
  have last: "last (dec_nat n) \<noteq> CHR ''-''" for n
    using digits [of n] last_in_set [OF dec_nat_not_Nil, of n]
    by (metis ascii_isdigit_not_sign(1) dec_nat_digits)
  have "\<not> prefix ''--'' (CHR ''-'' # dec_nat n)" for n
    using dec_nat_not_minus [of n] by (auto simp: prefix_def)
  then show ?thesis
    using digits no_dash last
    by (auto simp: number_text_def dec_def StrContains_sublist sublist_Cons_right list_all_iff
        simp del: ascii_isdigit_Char)
qed

lemma number_not_blank: "number_text s \<Longrightarrow> hd s \<noteq> CHR '' ''"
  using digit_class(3) by (cases s) (auto simp: number_text_def)

lemma inert_number: "number_text s \<Longrightarrow> inert s"
  by (simp add: inert_def scan_number number_not_blank) (simp add: number_text_def)

lemma inert_dec: "inert (dec i)"
  by (rule inert_number [OF number_text_dec])

text \<open>Types.\<close>

lemma scan_scalar_type: "scan (Plain, n) (ToDuckDBStorageType ty) = Some (Plain, n)"
  by (cases ty) (simp_all add: ToDuckDBStorageType_def char_class_def)

lemma scan_type:
  "scan (Plain, n) (ColumnSchemaToDuckDBTypeWithFn ToDuckDBStorageType c) = Some (Plain, n)"
  "scan (Plain, Suc n) (StructFieldsWithFn ToDuckDBStorageType first cs) = Some (Plain, Suc n)"
proof (induction "ToDuckDBStorageType" c and "ToDuckDBStorageType" first cs arbitrary: n and n
    rule: ColumnSchemaToDuckDBTypeWithFn_StructFieldsWithFn.induct)
  case (1 name ty mode desc raw flds)
  have q: "QuoteStructFieldName = QuoteIdent"
    by (simp add: fun_eq_iff QuoteStructFieldName_def QuoteIdent_def)
  show ?case
    using 1 scan_scalar_type by (auto simp: scan_append char_class_def split: list.splits)
next
  case (3 first f fs)
  have q: "QuoteStructFieldName = QuoteIdent"
    by (simp add: fun_eq_iff QuoteStructFieldName_def QuoteIdent_def)
  from 3 show ?case by (simp add: scan_append char_class_def q)
qed simp

lemma scan_storage_type [simp]:
  "scan (Plain, n) (ColumnSchemaToDuckDBStorageType c) = Some (Plain, n)"
  by (simp add: ColumnSchemaToDuckDBStorageType_def scan_type)

text \<open>Scalars.\<close>

lemma scan_cast_text:
  assumes "\<And>m. scan (Plain, m) ty = Some (Plain, m)"
  shows "scan (Plain, n) (cast_text s ty) = Some (Plain, n)"
  using assms by (simp add: cast_text_def scan_append char_class_def)

lemma hex_plain: "k < 16 \<Longrightarrow> ascii_isalnum (kHex ! k) \<and> kHex ! k \<noteq> CHR 0x27"
  by (auto simp: kHex_def numeral_eq_Suc less_Suc_eq)

lemma scan_hex: "\<forall>c \<in> set s. c \<noteq> CHR 0x27 \<Longrightarrow> scan (InQuote (CHR 0x27), n) (s @ [CHR 0x27]) = Some (Plain, n)"
  by (induction s) auto

lemma scan_blob: "scan (Plain, n) (RenderBlobLiteral bytes) = Some (Plain, n)"
proof -
  have "char_code c div 16 < 16" for c using char_code_less [of c] by linarith
  then have "\<forall>c \<in> set (concat (map (\<lambda>c. [kHex ! (char_code c div 16), kHex ! (char_code c mod 16)]) bytes)). c \<noteq> CHR 0x27"
    using hex_plain by auto
  from scan_hex [OF this] show ?thesis by (simp add: RenderBlobLiteral_def char_class_def)
qed

lemma scan_plain_literal:
  assumes "\<And>d. number_text (StrFormatG17 L d)"
  shows "scan (Plain, n) (RenderPlainLiteral L cell ty) = Some (Plain, n)"
  using assms scan_number [OF number_text_dec]
  by (cases ty)
    (simp_all add: RenderPlainLiteral_def RenderFloatLiteral_def scan_append char_class_def scan_blob
      scan_cast_text scan_number scan_scalar_type ToDuckDBStorageType_def Let_def)

lemma plain_literal_head:
  assumes "\<And>d. number_text (StrFormatG17 L d)"
  shows "RenderPlainLiteral L cell ty \<noteq> []" "hd (RenderPlainLiteral L cell ty) \<noteq> CHR '' ''"
proof -
  have num: "StrFormatG17 L d \<noteq> []" "hd (StrFormatG17 L d) \<noteq> CHR '' ''" for d
    using assms [of d] number_not_blank by (auto simp: number_text_def)
  have dec: "hd (dec i) \<noteq> CHR '' ''" for i using number_not_blank [OF number_text_dec] .
  show "RenderPlainLiteral L cell ty \<noteq> []"
    using num by (cases ty) (simp_all add: RenderPlainLiteral_def RenderFloatLiteral_def cast_text_def
        quoted_def RenderBlobLiteral_def Let_def)
  show "hd (RenderPlainLiteral L cell ty) \<noteq> CHR '' ''"
    using num dec by (cases ty) (simp_all add: RenderPlainLiteral_def RenderFloatLiteral_def cast_text_def
        quoted_def RenderBlobLiteral_def Let_def)
qed

lemma inert_plain_literal:
  "(\<And>d. number_text (StrFormatG17 L d)) \<Longrightarrow> inert (RenderPlainLiteral L cell ty)"
  by (simp add: inert_def scan_plain_literal plain_literal_head)

text \<open>
  A cell is clean for a column when no STRING value is used as the raw text of a STRUCT.
\<close>

fun clean_cell :: "Value \<Rightarrow> ColumnSchema \<Rightarrow> bool" and clean_fields :: "Value list \<Rightarrow> ColumnSchema list \<Rightarrow> bool" where
  "clean_cell (VArray elems) column \<longleftrightarrow>
     (col_mode column = kRepeated \<longrightarrow> (\<forall>e \<in> set elems. clean_cell e (with_mode kNullable column)))"
| "clean_cell (VStruct flds) column \<longleftrightarrow>
     (col_type column = kStruct \<longrightarrow> clean_fields flds (col_fields column))"
| "clean_cell (VString s) column \<longleftrightarrow>
     (col_type column = kStruct \<longrightarrow> raw_struct_text (VString s) = None)"
| "clean_cell v column \<longleftrightarrow> True"
| "clean_fields (v # vs) (c # cs) \<longleftrightarrow> clean_cell v c \<and> clean_fields vs cs"
| "clean_fields vs cs \<longleftrightarrow> True"

definition clean_row :: "TableSchema \<Rightarrow> Row \<Rightarrow> bool" where
  "clean_row schema row \<longleftrightarrow> clean_fields (cells row) (columns schema)"

lemma join_scan:
  assumes "list_all (\<lambda>l. \<forall>n. scan (Plain, n) l = Some (Plain, n)) lits"
  shows "scan (Plain, Suc n) (join_str '', '' lits) = Some (Plain, Suc n)"
  using assms
  by (induction "'', ''" lits rule: join_str.induct) (simp_all add: scan_append char_class_def)

lemma list_all_inert_scan:
  "list_all inert lits \<Longrightarrow> list_all (\<lambda>l. \<forall>n. scan (Plain, n) l = Some (Plain, n)) lits"
  by (auto simp: list_all_iff scan_inert)

lemma inert_field:
  "inert lit \<Longrightarrow> inert (quoted name @ '': '' @ lit)"
  using scan_inert [of lit 0]
  by (simp add: inert_def scan_append char_class_def) (simp add: quoted_def)

lemma inert_bracketed:
  "list_all inert lits \<Longrightarrow> inert (''{'' @ join_str '', '' lits @ ''}'')"
  "list_all inert lits \<Longrightarrow> inert (''('' @ join_str '', '' lits @ '')'')"
  "list_all inert lits \<Longrightarrow> inert (''CAST(['' @ join_str '', '' lits @ ''] AS '' @ ColumnSchemaToDuckDBStorageType c @ '')'')"
  using join_scan [OF list_all_inert_scan]
  by (simp_all add: inert_def scan_append char_class_def)

lemma RenderStructLiteral_cases:
  assumes "RenderStructLiteral L v c = Inr lit"
  obtains (raw) "raw_struct_text v = Some lit"
  | (struct) flds lits where "v = VStruct flds" "length flds = length (col_fields c)"
      "RenderFields L flds (col_fields c) = Inr lits" "lit = ''{'' @ join_str '', '' lits @ ''}''"
  using assms
  by (auto simp: RenderStructLiteral.simps [of L _ c] split: option.splits Value.splits if_splits sum.splits)

lemma RenderCellLiteral_cases:
  assumes "RenderCellLiteral L v c = Inr lit"
  obtains (null) "is_null v" "lit = ''NULL''"
  | (empty) "v = VArray []" "col_mode c = kRepeated"
      "lit = ''CAST([] AS '' @ ColumnSchemaToDuckDBStorageType c @ '')''"
  | (array) elems lits where "v = VArray elems" "col_mode c = kRepeated" "\<not> is_null v" "elems \<noteq> []"
      "RenderElements L elems (with_mode kNullable c) = Inr lits"
      "lit = ''CAST(['' @ join_str '', '' lits @ ''] AS '' @ ColumnSchemaToDuckDBStorageType c @ '')''"
  | (scalar) "\<not> is_null v" "col_mode c \<noteq> kRepeated" "RenderScalarLiteral L v c = Inr lit"
  using assms
  by (auto simp: RenderCellLiteral.simps [of L _ c] Let_def split: Value.splits if_splits sum.splits)

lemma raw_struct_text_VString: "raw_struct_text v = Some t \<Longrightarrow> \<exists>s. v = VString s"
  by (cases v) (auto simp: raw_struct_text_def)

lemma RenderCellLiteral_inert:
  assumes fmt: "\<And>d. number_text (StrFormatG17 L d)"
  shows "RenderCellLiteral L v c = Inr lit \<Longrightarrow> clean_cell v c \<Longrightarrow> inert lit"
    "RenderScalarLiteral L v c = Inr lit \<Longrightarrow> clean_cell v c \<Longrightarrow> inert lit"
    "RenderStructLiteral L v c = Inr lit \<Longrightarrow> col_type c = kStruct \<Longrightarrow> clean_cell v c \<Longrightarrow> inert lit"
    "RenderElements L vs c = Inr lits \<Longrightarrow> \<forall>e \<in> set vs. clean_cell e c \<Longrightarrow> list_all inert lits"
    "RenderFields L vs cs = Inr lits \<Longrightarrow> clean_fields vs cs \<Longrightarrow> list_all inert lits"
  using fmt
proof (induction L v c and L v c and L v c and L vs c and L vs cs
    arbitrary: lit and lit and lit and lits and lits
    rule: RenderCellLiteral_RenderScalarLiteral_RenderStructLiteral_RenderElements_RenderFields.induct)
  case (1 L cell column)
  from "1.prems"(1) show ?case
  proof (cases rule: RenderCellLiteral_cases)
    case (array elems lits)
    with "1.IH"(1) "1.prems" inert_bracketed(3) [of lits column] show ?thesis by auto
  qed (use "1.IH"(2) "1.prems" in \<open>auto simp: inert_def char_class_def scan_append\<close>)
next
  case (2 L cell column)
  then show ?case
    using inert_plain_literal [OF "2.prems"(3)] by (auto simp: RenderScalarLiteral.simps split: if_splits)
next
  case (3 L cell column)
  from "3.prems"(1) show ?case
  proof (cases rule: RenderStructLiteral_cases)
    case raw
    with "3.prems"(2,3) raw_struct_text_VString [OF raw] show ?thesis by auto
  next
    case (struct flds lits)
    then show ?thesis
      using "3.IH" [of flds lits] "3.prems" inert_bracketed(1) [of lits]
      by (auto simp: raw_struct_text_def)
  qed
qed (auto split: sum.splits intro: inert_field [simplified])

subsection \<open>INSERT statements\<close>

definition row_literals :: "LitFns \<Rightarrow> TableSchema \<Rightarrow> Row \<Rightarrow> string list" where
  "row_literals L schema row =
     map (\<lambda>(v, c). projr (RenderCellLiteral L v c)) (zip (cells row) (columns schema))"

lemma RenderRowCells_Inr:
  assumes "RenderRowCells L vs cs = Inr lits"
  shows "lits = map (\<lambda>(v, c). projr (RenderCellLiteral L v c)) (zip vs cs)"
    "list_all (\<lambda>(v, c). \<not> isl (RenderCellLiteral L v c)) (zip vs cs)"
  using assms by (atomize(full), induction L vs cs arbitrary: lits rule: RenderRowCells.induct)
    (auto split: sum.splits)

lemma RenderRowCells_inert:
  assumes "\<And>d. number_text (StrFormatG17 L d)" "RenderRowCells L vs cs = Inr lits" "clean_fields vs cs"
  shows "list_all inert lits"
  using assms(2,3)
proof (induction vs cs arbitrary: lits rule: list_induct2')
  case (4 v vs c cs)
  then obtain lit rest where "RenderCellLiteral L v c = Inr lit" "RenderRowCells L vs cs = Inr rest"
    "lits = lit # rest" by (auto split: sum.splits)
  with 4 RenderCellLiteral_inert(1) [OF assms(1)] show ?case by auto
qed simp_all

lemma RenderTuples_Inr:
  assumes "\<And>d. number_text (StrFormatG17 L d)" "RenderTuples L rows schema = Inr tuples"
    and "\<forall>row \<in> set rows. clean_row schema row"
  shows "tuples = map (\<lambda>row. ''('' @ join_str '', '' (row_literals L schema row) @ '')'') rows"
    "list_all inert tuples" "\<forall>row \<in> set rows. list_all inert (row_literals L schema row)"
  using assms(2,3)
proof (atomize(full), induction rows arbitrary: tuples)
  case (Cons row rows)
  then obtain lits ts where l: "RenderRowCells L (cells row) (columns schema) = Inr lits"
    "RenderTuples L rows schema = Inr ts" "tuples = (''('' @ join_str '', '' lits @ '')'') # ts"
    by (auto split: sum.splits)
  have "lits = row_literals L schema row" using RenderRowCells_Inr(1) [OF l(1)] by (simp add: row_literals_def)
  moreover have "list_all inert lits"
    using Cons.prems by (intro RenderRowCells_inert [OF assms(1) l(1)]) (simp add: clean_row_def)
  ultimately show ?case
    using Cons.IH [OF l(2)] Cons.prems l(3) inert_bracketed(2) [of lits] by auto
qed simp

lemma read_values_tuples:
  assumes "list_all inert tuples" "tuples \<noteq> []" "tuples = map (\<lambda>lits. ''('' @ join_str '', '' lits @ '')'') litss"
    and "\<forall>lits \<in> set litss. lits \<noteq> [] \<and> list_all inert lits"
  shows "read_values (join_str '', '' tuples) = litss"
proof -
  have "pieces (join_str '', '' tuples) = tuples" by (rule pieces_join [OF assms(1,2)])
  then have "read_values (join_str '', '' tuples) = map (\<lambda>lits. pieces (join_str '', '' lits)) litss"
    by (simp add: read_values_def assms(3) o_def)
  also have "\<dots> = litss" using assms(4) pieces_join by (intro map_idI) blast
  finally show ?thesis .
qed

lemma BuildBatchInsertSql_reads:
  assumes "\<And>d. number_text (StrFormatG17 L d)"
    and "BuildBatchInsertSql L tmp_table rows schema = Inr sql"
    and "\<forall>row \<in> set rows. clean_row schema row" "rows \<noteq> []"
    and "\<forall>row \<in> set rows. length (cells row) = length (columns schema)" "columns schema \<noteq> []"
  shows "\<exists>vals. sql = insert_prefix tmp_table @ vals \<and>
    read_values vals = map (row_literals L schema) rows \<and>
    (\<forall>row \<in> set rows. \<forall>lit \<in> set (row_literals L schema row). inert lit)"
proof -
  obtain tuples where t: "RenderTuples L rows schema = Inr tuples"
    "sql = insert_prefix tmp_table @ join_str '', '' tuples"
    using assms(2) by (auto simp: BuildBatchInsertSql_def split: sum.splits)
  note tup = RenderTuples_Inr [OF assms(1) t(1) assms(3)]
  have "row_literals L schema row \<noteq> []" if "row \<in> set rows" for row
    using assms(5,6) that by (auto simp: row_literals_def zip_eq_Nil_iff)
  then have "read_values (join_str '', '' tuples) = map (row_literals L schema) rows"
    using tup assms(4) by (intro read_values_tuples) (auto simp: o_def)
  with t(2) tup(3) show ?thesis by (auto simp: list_all_iff)
qed

subsection \<open>Sample data for the witnesses\<close>

definition sample_lit :: LitFns where
  "sample_lit = \<lparr>lit_absl = absl_ref, StrFormatG17 = (\<lambda>d. dec (sint d)), FormatDateToString = (\<lambda>d. None),
     ToCivilSecond = (\<lambda>m. \<lparr>cs_year = 1970, cs_month = 1, cs_day = 1, cs_hour = 0, cs_minute = 0, cs_second = 0\<rparr>)\<rparr>"

definition struct_column :: ColumnSchema where
  "struct_column = ColumnSchema ''s'' kStruct kNullable [] [] [ColumnSchema ''a'' kInt64 kNullable [] [] []]"

definition quote_row :: Row where
  "quote_row = \<lparr>cells = [VStruct [VInt64 (- 7)], VString [CHR 0x27, CHR '')'', CHR '','', CHR 0x27]]\<rparr>"

definition quote_schema :: TableSchema where
  "quote_schema = \<lparr>columns = [struct_column, ColumnSchema ''t'' kString kNullable [] [] []]\<rparr>"

definition injected_row :: Row where
  "injected_row = \<lparr>cells = [VString (''{'' @ quoted ''a'' @ '': 1}), ({'' @ quoted ''a'' @ '': 2}'')]\<rparr>"

subsection \<open>Properties\<close>



text \<open>
  Raw STRUCT text is spliced into the statement. A STRING cell that starts with a brace is
  copied verbatim into the INSERT for a STRUCT column, so the text of one cell of one row can
  insert two rows.
\<close>

theorem struct_text_injects:
  "\<exists>vals. BuildBatchInsertSql sample_lit ''t'' [injected_row] \<lparr>columns = [struct_column]\<rparr> =
       Inr (insert_prefix ''t'' @ vals) \<and>
     read_values vals = [[''{'' @ quoted ''a'' @ '': 1}''], [''{'' @ quoted ''a'' @ '': 2}'']]"
proof -
  let ?vals = "''({'' @ quoted ''a'' @ '': 1}), ({'' @ quoted ''a'' @ '': 2})''"
  have "BuildBatchInsertSql sample_lit ''t'' [injected_row] \<lparr>columns = [struct_column]\<rparr> =
      Inr (insert_prefix ''t'' @ ?vals)" by code_simp
  moreover have "read_values ?vals = [[''{'' @ quoted ''a'' @ '': 1}''], [''{'' @ quoted ''a'' @ '': 2}'']]"
    by code_simp
  ultimately show ?thesis by blast
qed

end
