(* ===== verification/Duckdb_List.thy ===== *)
theory Duckdb_List
  imports Duckdb_Sql
begin

section \<open>Reading LIST and STRUCT cells back\<close>

text \<open>
  DuckDB hands REPEATED and STRUCT cells to the store as text; \<open>duckdb_storage_list_literals.cc\<close>
  parses it. A \<open>string_view*\<close> argument that the C++ code advances is the text left, returned
  with the result. The loops recurse on the text, the descent into nested STRUCT columns on the
  column. \<open>strtod\<close> is a parameter: it gives the value when it consumes the whole text.

  The lemmas show that the parser inverts the quoted and the integer list renderings and a
  rendering of flat structs; two concrete theorems show what it does to nested structs and to
  quoted text that looks like a NULL.
\<close>

definition is_blank :: "char \<Rightarrow> bool" where
  "is_blank c \<longleftrightarrow> c = CHR '' '' \<or> c = CHR 0x09"

definition TrimAsciiSpace :: "string \<Rightarrow> string" where
  "TrimAsciiSpace s = rev (dropWhile is_blank (rev (dropWhile is_blank s)))"

lemma TrimAsciiSpace_length: "length (TrimAsciiSpace s) \<le> length s"
  unfolding TrimAsciiSpace_def by (metis length_dropWhile_le length_rev le_trans)

definition invalid :: "string \<Rightarrow> Status" where
  "invalid msg = Status kInvalidArgument msg"

subsection \<open>Tokens\<close>

text \<open>The loop of \<open>ParseQuotedStringToken\<close>, after the opening quote.\<close>

fun quoted_rest :: "string \<Rightarrow> (string \<times> string) option" where
  "quoted_rest [] = None"
| "quoted_rest [c] = (if c = CHR 0x27 then Some ([], []) else None)"
| "quoted_rest (c # d # s) =
     (if c = CHR 0x27 then
        if d = CHR 0x27 then map_option (\<lambda>(out, rest). (CHR 0x27 # out, rest)) (quoted_rest s)
        else Some ([], d # s)
      else map_option (\<lambda>(out, rest). (c # out, rest)) (quoted_rest (d # s)))"

definition ParseQuotedStringToken :: "string \<Rightarrow> (string \<times> string) StatusOr" where
  "ParseQuotedStringToken s =
     (if s = [] \<or> hd s \<noteq> CHR 0x27
      then Inl (invalid ''ParseQuotedStringToken: expected leading quote'')
      else case quoted_rest (tl s) of
             None \<Rightarrow> Inl (invalid ''ParseQuotedStringToken: unterminated quoted string'')
           | Some r \<Rightarrow> Inr r)"

text \<open>\<open>strtoll\<close> on a text it consumes to the end: blanks, a sign, digits, saturating.\<close>

definition clamp64 :: "int \<Rightarrow> int" where
  "clamp64 i = (if i < int64_min then int64_min else if i > int64_max then int64_max else i)"

definition strtoll_all :: "string \<Rightarrow> int option" where
  "strtoll_all s =
     (let t = dropWhile ascii_isspace s;
          neg = (t \<noteq> [] \<and> hd t = CHR ''-'');
          ds = (if t \<noteq> [] \<and> (hd t = CHR ''-'' \<or> hd t = CHR ''+'') then tl t else t)
      in if all_digits ds then Some (clamp64 (if neg then - int (undec ds) else int (undec ds)))
         else None)"

definition ParseListElementToken ::
  "(string \<Rightarrow> double option) \<Rightarrow> string \<Rightarrow> ColumnSchema \<Rightarrow> Value StatusOr" where
  "ParseListElementToken strtod token0 element =
     (let token = TrimAsciiSpace token0;
          fail = Inl (invalid (''ParseListElementToken: cannot parse `'' @ token @ ''`''))
      in if token = [] \<or> token = ''NULL'' then Inr VNull
         else if hd token = CHR 0x27 then
           (case ParseQuotedStringToken token of Inl e \<Rightarrow> Inl e | Inr (s, _) \<Rightarrow> Inr (VString s))
         else case col_type element of
                kBool \<Rightarrow>
                  if token = ''true'' then Inr (VBool True)
                  else if token = ''false'' then Inr (VBool False) else fail
              | kInt64 \<Rightarrow> (case strtoll_all token of Some v \<Rightarrow> Inr (VInt64 v) | None \<Rightarrow> fail)
              | kFloat64 \<Rightarrow> (case strtod token of Some v \<Rightarrow> Inr (VFloat64 v) | None \<Rightarrow> fail)
              | _ \<Rightarrow> Inr (VString token))"

definition AppendQuotedListElement :: "string \<Rightarrow> (Value \<times> string) StatusOr" where
  "AppendQuotedListElement body =
     (case ParseQuotedStringToken body of Inl e \<Rightarrow> Inl e | Inr (s, rest) \<Rightarrow> Inr (VString s, rest))"

definition before_comma :: "string \<Rightarrow> string" where
  "before_comma s = takeWhile (\<lambda>c. c \<noteq> CHR '','') s"

definition after_comma :: "string \<Rightarrow> string" where
  "after_comma s = tl (dropWhile (\<lambda>c. c \<noteq> CHR '','') s)"

definition AppendTokenListElement ::
  "(string \<Rightarrow> double option) \<Rightarrow> string \<Rightarrow> ColumnSchema \<Rightarrow> (Value \<times> string) StatusOr" where
  "AppendTokenListElement strtod body element =
     (case ParseListElementToken strtod (TrimAsciiSpace (before_comma body)) element of
        Inl e \<Rightarrow> Inl e
      | Inr v \<Rightarrow> Inr (v, after_comma body))"

definition skip_comma :: "string \<Rightarrow> string" where
  "skip_comma body =
     (let body = TrimAsciiSpace body in if body \<noteq> [] \<and> hd body = CHR '','' then tl body else body)"

lemma quoted_rest_length: "quoted_rest s = Some (out, rest) \<Longrightarrow> length rest < length s"
  by (induction s arbitrary: out rest rule: quoted_rest.induct) (force split: if_splits)+

lemma after_comma_length: "s \<noteq> [] \<Longrightarrow> length (after_comma s) < length s"
  using length_dropWhile_le [of "\<lambda>c. c \<noteq> CHR '',''" s] by (cases s) (auto simp: after_comma_def)

lemma skip_comma_length: "length (skip_comma s) \<le> length s"
  using TrimAsciiSpace_length [of s] by (auto simp: skip_comma_def Let_def)

definition NextListElement ::
  "(string \<Rightarrow> double option) \<Rightarrow> string \<Rightarrow> ColumnSchema \<Rightarrow> (Value \<times> string) StatusOr" where
  "NextListElement strtod body element =
     (if hd body = CHR 0x27 then AppendQuotedListElement body
      else AppendTokenListElement strtod body element)"

lemma NextListElement_length:
  "NextListElement strtod body element = Inr (v, rest) \<Longrightarrow> body \<noteq> [] \<Longrightarrow> length rest < length body"
  using quoted_rest_length [of "tl body"] after_comma_length [of body]
  by (auto simp: NextListElement_def AppendQuotedListElement_def AppendTokenListElement_def
      ParseQuotedStringToken_def split: if_splits sum.splits option.splits intro: less_trans)

subsection \<open>Lists\<close>

function ListElements ::
  "(string \<Rightarrow> double option) \<Rightarrow> string \<Rightarrow> ColumnSchema \<Rightarrow> Value list StatusOr" where
  "ListElements strtod body0 element =
     (let body = TrimAsciiSpace body0
      in if body = [] then Inr []
         else case NextListElement strtod body element of
                Inl e \<Rightarrow> Inl e
              | Inr (v, rest) \<Rightarrow>
                  (case ListElements strtod (skip_comma rest) element of
                     Inl e \<Rightarrow> Inl e
                   | Inr vs \<Rightarrow> Inr (v # vs)))"
  by pat_completeness auto
termination
proof (relation "measure (\<lambda>(strtod, body, element). length body)")
  show "((strtod, skip_comma y, element), strtod, body0, element) \<in> measure (\<lambda>(strtod, body, element). length body)"
    if "x = TrimAsciiSpace body0" "x \<noteq> []" "NextListElement strtod x element = Inr xa" "(v, y) = xa"
    for strtod :: "string \<Rightarrow> double option" and body0 element x xa v y
    using that NextListElement_length [of strtod x element v y] skip_comma_length [of y]
      TrimAsciiSpace_length [of body0] by simp
qed simp

declare ListElements.simps [simp del]

definition inner_text :: "string \<Rightarrow> string" where
  "inner_text body = butlast (tl body)"

definition ParseDuckDBListVarchar ::
  "(string \<Rightarrow> double option) \<Rightarrow> string \<Rightarrow> ColumnSchema \<Rightarrow> Value StatusOr" where
  "ParseDuckDBListVarchar strtod txt element =
     (let body = TrimAsciiSpace txt
      in if body = [] \<or> body = ''NULL'' then Inr VNull
         else if length body < 2 \<or> hd body \<noteq> CHR ''['' \<or> last body \<noteq> CHR '']''
         then Inl (invalid (''ParseDuckDBListVarchar: expected `[...]` got `'' @ body @ ''`''))
         else case ListElements strtod (TrimAsciiSpace (inner_text body)) element of
                Inl e \<Rightarrow> Inl e
              | Inr vs \<Rightarrow> Inr (VArray vs))"

subsection \<open>Structs\<close>

text \<open>The value of a pair and the text after it, then a whole \<open>key: value\<close> pair.\<close>

definition StructFieldValue :: "string \<Rightarrow> (string \<times> string) StatusOr" where
  "StructFieldValue body =
     (if body \<noteq> [] \<and> hd body = CHR 0x27 then ParseQuotedStringToken body
      else case find_sub ('', '' @ [CHR 0x27]) body of
             None \<Rightarrow> Inr (TrimAsciiSpace body, [])
           | Some next_pos \<Rightarrow> Inr (TrimAsciiSpace (take next_pos body), drop (next_pos + 2) body))"

definition ParseNextStructField :: "string \<Rightarrow> ((string \<times> string) \<times> string) StatusOr" where
  "ParseNextStructField body =
     (if body = [] \<or> hd body \<noteq> CHR 0x27
      then Inl (invalid (''ParseDuckDBStructVarchar: expected quoted field name in `'' @ body @ ''`''))
      else case ParseQuotedStringToken body of
             Inl e \<Rightarrow> Inl e
           | Inr (key, body1) \<Rightarrow>
               (let body2 = TrimAsciiSpace body1
                in if body2 = [] \<or> hd body2 \<noteq> CHR '':''
                   then Inl (invalid (''ParseDuckDBStructVarchar: expected '' @ [CHR 0x27, CHR '':'', CHR 0x27] @
                          '' after field name''))
                   else case StructFieldValue (TrimAsciiSpace (tl body2)) of
                          Inl e \<Rightarrow> Inl e
                        | Inr (v, rest) \<Rightarrow> Inr ((key, v), rest)))"

lemma ParseQuotedStringToken_length:
  "ParseQuotedStringToken s = Inr (v, rest) \<Longrightarrow> length rest < length s"
  using quoted_rest_length [of "tl s" v rest]
  by (cases "quoted_rest (tl s)") (auto simp: ParseQuotedStringToken_def split: if_splits)

lemma StructFieldValue_length:
  "StructFieldValue s = Inr (v, rest) \<Longrightarrow> length rest \<le> length s"
  using ParseQuotedStringToken_length [of s v rest]
  by (cases "s \<noteq> [] \<and> hd s = CHR 0x27"; cases "find_sub ('', '' @ [CHR 0x27]) s")
    (auto simp: StructFieldValue_def)

lemma ParseNextStructField_length:
  assumes "ParseNextStructField body = Inr (p, rest)"
  shows "length rest < length body"
proof -
  obtain key body1 where 1: "ParseQuotedStringToken body = Inr (key, body1)"
    using assms by (cases "ParseQuotedStringToken body") (auto simp: ParseNextStructField_def split: if_splits)
  obtain v where "StructFieldValue (TrimAsciiSpace (tl (TrimAsciiSpace body1))) = Inr (v, rest)"
    using assms 1
    by (cases "StructFieldValue (TrimAsciiSpace (tl (TrimAsciiSpace body1)))")
      (auto simp: ParseNextStructField_def Let_def split: if_splits)
  from StructFieldValue_length [OF this] ParseQuotedStringToken_length [OF 1]
    TrimAsciiSpace_length [of "tl (TrimAsciiSpace body1)"] TrimAsciiSpace_length [of body1]
  show ?thesis by simp
qed

text \<open>
  The pairs up to the end of the text or to the first malformed one, with its error. The
  assignment errors of earlier pairs come first, so the pairs are kept.
\<close>

function ScanStructFields :: "string \<Rightarrow> (string \<times> string) list \<times> Status option" where
  "ScanStructFields body0 =
     (let body = TrimAsciiSpace body0
      in if body = [] then ([], None)
         else case ParseNextStructField body of
                Inl e \<Rightarrow> ([], Some e)
              | Inr (p, rest) \<Rightarrow>
                  (let (ps, err) = ScanStructFields (skip_comma rest) in (p # ps, err)))"
  by pat_completeness auto
termination
proof (relation "measure length")
  show "(skip_comma y, body0) \<in> measure length"
    if "x = TrimAsciiSpace body0" "x \<noteq> []" "ParseNextStructField x = Inr xa" "(p, y) = xa"
    for body0 x xa p y
    using that ParseNextStructField_length [of x p y] skip_comma_length [of y]
      TrimAsciiSpace_length [of body0] by simp
qed simp

declare ScanStructFields.simps [simp del]

type_synonym FieldParsers = "(string \<times> (string \<Rightarrow> Value StatusOr)) list"

fun index_of :: "string \<Rightarrow> string list \<Rightarrow> nat option" where
  "index_of k [] = None"
| "index_of k (n # ns) = (if n = k then Some 0 else map_option Suc (index_of k ns))"

definition AssignStructFieldValue ::
  "FieldParsers \<Rightarrow> string \<Rightarrow> string \<Rightarrow> Value list \<Rightarrow> Value list StatusOr" where
  "AssignStructFieldValue parsers key raw_value vals =
     (case index_of key (map fst parsers) of
        None \<Rightarrow> Inr vals
      | Some i \<Rightarrow>
          (case snd (parsers ! i) raw_value of
             Inl e \<Rightarrow> Inl e
           | Inr v \<Rightarrow> Inr (vals[i := v])))"

fun AssignAll :: "FieldParsers \<Rightarrow> (string \<times> string) list \<Rightarrow> Value list \<Rightarrow> Value list StatusOr" where
  "AssignAll parsers [] vals = Inr vals"
| "AssignAll parsers ((key, raw_value) # ps) vals =
     (case AssignStructFieldValue parsers key raw_value vals of
        Inl e \<Rightarrow> Inl e
      | Inr vals' \<Rightarrow> AssignAll parsers ps vals')"

definition StructVarcharWith :: "FieldParsers \<Rightarrow> string \<Rightarrow> Value StatusOr" where
  "StructVarcharWith parsers txt =
     (let body = TrimAsciiSpace txt
      in if body = [] \<or> body = ''NULL'' then Inr VNull
         else if length body < 2 \<or> hd body \<noteq> CHR ''{'' \<or> last body \<noteq> CHR ''}''
         then Inl (invalid (''ParseDuckDBStructVarchar: expected `{...}` got `'' @ body @ ''`''))
         else let (ps, err) = ScanStructFields (TrimAsciiSpace (inner_text body))
              in case AssignAll parsers ps (replicate (length parsers) VNull) of
                   Inl e \<Rightarrow> Inl e
                 | Inr vals \<Rightarrow> (case err of Some e \<Rightarrow> Inl e | None \<Rightarrow> Inr (VStruct vals)))"

fun ParseStructFieldLiteral ::
  "(string \<Rightarrow> double option) \<Rightarrow> ColumnSchema \<Rightarrow> string \<Rightarrow> Value StatusOr" where
  "ParseStructFieldLiteral strtod (ColumnSchema name ty mode desc raw flds) txt =
     (let trimmed = TrimAsciiSpace txt
      in if trimmed = [] \<or> trimmed = ''NULL'' then Inr VNull
         else case ty of
                kBool \<Rightarrow>
                  Inr (if trimmed = ''true'' \<or> trimmed = ''TRUE'' then VBool True
                       else if trimmed = ''false'' \<or> trimmed = ''FALSE'' then VBool False
                       else VString trimmed)
              | kInt64 \<Rightarrow>
                  Inr (case strtoll_all trimmed of Some v \<Rightarrow> VInt64 v | None \<Rightarrow> VString trimmed)
              | kFloat64 \<Rightarrow>
                  Inr (case strtod trimmed of Some v \<Rightarrow> VFloat64 v | None \<Rightarrow> VString trimmed)
              | kStruct \<Rightarrow>
                  StructVarcharWith (map (\<lambda>f. (col_name f, ParseStructFieldLiteral strtod f)) flds) trimmed
              | _ \<Rightarrow> Inr (VString trimmed))"

definition ParseDuckDBStructVarchar ::
  "(string \<Rightarrow> double option) \<Rightarrow> string \<Rightarrow> ColumnSchema \<Rightarrow> Value StatusOr" where
  "ParseDuckDBStructVarchar strtod txt column =
     StructVarcharWith (map (\<lambda>f. (col_name f, ParseStructFieldLiteral strtod f)) (col_fields column)) txt"

subsection \<open>Tokens read back\<close>

lemma TrimAsciiSpace_id:
  "s = [] \<or> \<not> is_blank (hd s) \<and> \<not> is_blank (last s) \<Longrightarrow> TrimAsciiSpace s = s"
proof -
  assume s: "s = [] \<or> \<not> is_blank (hd s) \<and> \<not> is_blank (last s)"
  have "dropWhile is_blank s = s" using s by (cases s) auto
  moreover have "dropWhile is_blank (rev s) = rev s" using s by (cases s rule: rev_cases) auto
  ultimately show ?thesis by (simp add: TrimAsciiSpace_def)
qed

lemma TrimAsciiSpace_blank: "TrimAsciiSpace (CHR '' '' # s) = TrimAsciiSpace s"
  by (simp add: TrimAsciiSpace_def is_blank_def)

lemma quoted_rest_double:
  "r = [] \<or> hd r \<noteq> CHR 0x27 \<Longrightarrow> quoted_rest (double_char (CHR 0x27) s @ CHR 0x27 # r) = Some (s, r)"
proof (induction s)
  case Nil
  then show ?case by (cases r) (auto simp: double_char_def)
next
  case (Cons c s)
  obtain d ds where d: "double_char (CHR 0x27) s @ CHR 0x27 # r = d # ds"
    by (cases "double_char (CHR 0x27) s @ CHR 0x27 # r") auto
  have "double_char (CHR 0x27) (c # s) = (if c = CHR 0x27 then [c, c] else [c]) @ double_char (CHR 0x27) s"
    by (simp add: double_char_def)
  with Cons d show ?case by simp
qed

lemma ParseQuotedStringToken_quoted:
  "r = [] \<or> hd r \<noteq> CHR 0x27 \<Longrightarrow> ParseQuotedStringToken (quoted s @ r) = Inr (s, r)"
  by (simp add: ParseQuotedStringToken_def quoted_def EscapeStringLiteralInner_def quoted_rest_double)

lemma quoted_ends [simp]:
  "quoted s \<noteq> []" "hd (quoted s) = CHR 0x27" "hd (quoted s @ r) = CHR 0x27" "last (quoted s) = CHR 0x27"
  by (simp_all add: quoted_def)

lemma dec_ends: "hd (dec i) \<noteq> CHR 0x27" "\<not> is_blank (hd (dec i))" "\<not> is_blank (last (dec i))"
  "dec i \<noteq> ''NULL''" "CHR '','' \<notin> set (dec i)" "CHR 0x27 \<notin> set (dec i)" "hd (dec i) \<noteq> CHR '',''"
proof -
  have no: "c \<notin> set (dec i)" if "\<not> ascii_isdigit c" "c \<noteq> CHR ''-''" for c
    using dec_no_char that by blast
  show c: "CHR '','' \<notin> set (dec i)" and q: "CHR 0x27 \<notin> set (dec i)" by (simp_all add: no)
  have blank: "\<not> is_blank c" if "c \<in> set (dec i)" for c
    using that no [of "CHR '' ''"] no [of "CHR 0x09"] by (auto simp: is_blank_def)
  show "\<not> is_blank (hd (dec i))" "\<not> is_blank (last (dec i))" by (simp_all add: blank)
  have "CHR ''N'' \<notin> set (dec i)" by (rule no) simp_all
  then show "dec i \<noteq> ''NULL''" by auto
  show "hd (dec i) \<noteq> CHR 0x27" "hd (dec i) \<noteq> CHR '',''"
    using c q hd_in_set [OF dec_not_Nil, of i] by metis+
qed

lemma strtoll_all_dec: "in_int64 i \<Longrightarrow> strtoll_all (dec i) = Some i"
proof -
  assume i: "in_int64 i"
  have sp: "\<not> ascii_isspace (hd (dec i))"
    using dec_chars [of "hd (dec i)" i] digit_not_space [of "hd (dec i)"] by auto
  then have t: "dropWhile ascii_isspace (dec i) = dec i" by (cases "dec i") auto
  have digits: "all_digits (dec_nat n)" for n
    by (auto simp: all_digits_def list_all_iff dec_nat_digits)
  have hd: "hd (dec_nat n) \<noteq> CHR ''-''" "hd (dec_nat n) \<noteq> CHR ''+''" for n
    using dec_nat_hd_digit [of n] by (metis ascii_isdigit_not_sign)+
  show ?thesis
    unfolding strtoll_all_def t
    using i by (simp add: dec_def digits hd clamp64_def in_int64_def Let_def)
qed

subsection \<open>Lists read back\<close>

text \<open>The text of a list element, for the values an element can have.\<close>

fun element_text :: "ColumnType \<Rightarrow> Value \<Rightarrow> string option" where
  "element_text ty VNull = Some ''NULL''"
| "element_text ty (VString s) = Some (quoted s)"
| "element_text ty (VInt64 i) = (if ty = kInt64 \<and> in_int64 i then Some (dec i) else None)"
| "element_text ty (VBool b) = (if ty = kBool then Some (if b then ''true'' else ''false'') else None)"
| "element_text ty v = None"

definition list_text :: "ColumnType \<Rightarrow> Value list \<Rightarrow> string" where
  "list_text ty vs = ''['' @ join_str '', '' (map (\<lambda>v. the (element_text ty v)) vs) @ '']''"

lemma element_text_ends:
  "element_text ty v = Some t \<Longrightarrow> t \<noteq> [] \<and> \<not> is_blank (hd t) \<and> \<not> is_blank (last t) \<and> hd t \<noteq> CHR '',''"
  using dec_ends by (induction ty v rule: element_text.induct)
    (auto simp: is_blank_def split: if_splits)

lemma before_after_comma:
  assumes "CHR '','' \<notin> set t" "r = [] \<or> hd r = CHR '',''"
  shows "before_comma (t @ r) = t" "after_comma (t @ r) = tl r"
proof -
  have all: "\<And>c. c \<in> set t \<Longrightarrow> c \<noteq> CHR '',''" using assms(1) by blast
  have "takeWhile (\<lambda>c. c \<noteq> CHR '','') r = []" "dropWhile (\<lambda>c. c \<noteq> CHR '','') r = r"
    using assms(2) by (cases r; simp)+
  then show "before_comma (t @ r) = t" "after_comma (t @ r) = tl r"
    using all by (simp_all add: before_comma_def after_comma_def takeWhile_append2 dropWhile_append2)
qed

lemma NextListElement_token:
  assumes "t \<noteq> []" "hd t \<noteq> CHR 0x27" "CHR '','' \<notin> set t" "\<not> is_blank (hd t)" "\<not> is_blank (last t)"
    and "ParseListElementToken strtod t element = Inr v" "r = [] \<or> hd r = CHR '',''"
  shows "NextListElement strtod (t @ r) element = Inr (v, tl r)"
  using assms before_after_comma [OF assms(3,7)] TrimAsciiSpace_id [of t]
  by (simp add: NextListElement_def AppendTokenListElement_def)

lemma token_texts:
  "ParseListElementToken strtod ''NULL'' element = Inr VNull"
  "\<lbrakk>col_type element = kInt64; in_int64 i\<rbrakk> \<Longrightarrow> ParseListElementToken strtod (dec i) element = Inr (VInt64 i)"
  "col_type element = kBool \<Longrightarrow> ParseListElementToken strtod (if b then ''true'' else ''false'') element = Inr (VBool b)"
proof -
  show "ParseListElementToken strtod ''NULL'' element = Inr VNull"
    by (simp add: ParseListElementToken_def TrimAsciiSpace_def is_blank_def Let_def)
  show "ParseListElementToken strtod (dec i) element = Inr (VInt64 i)" if "col_type element = kInt64" "in_int64 i"
    using that dec_ends(1-4) [of i] TrimAsciiSpace_id [of "dec i"] strtoll_all_dec [OF that(2)]
    by (simp add: ParseListElementToken_def Let_def)
  show "ParseListElementToken strtod (if b then ''true'' else ''false'') element = Inr (VBool b)"
    if "col_type element = kBool"
    using that by (cases b) (simp_all add: ParseListElementToken_def TrimAsciiSpace_def is_blank_def Let_def)
qed

lemma NextListElement_text:
  assumes "element_text (col_type element) v = Some t" "r = [] \<or> hd r = CHR '',''"
  shows "NextListElement strtod (t @ r) element = Inr (v, if kind v = KString then r else tl r)"
proof (cases v)
  case VNull
  with assms have t: "t = ''NULL''" by simp
  from VNull show ?thesis
    unfolding t using NextListElement_token [OF _ _ _ _ _ token_texts(1) assms(2), of strtod element]
    by (simp add: is_blank_def)
next
  case (VString x)
  with assms have t: "t = quoted x" by simp
  have "ParseQuotedStringToken (quoted x @ r) = Inr (x, r)"
    using assms(2) by (intro ParseQuotedStringToken_quoted) auto
  with VString show ?thesis unfolding t by (simp add: NextListElement_def AppendQuotedListElement_def)
next
  case (VInt64 i)
  with assms have t: "t = dec i" "col_type element = kInt64" "in_int64 i" by (simp_all split: if_splits)
  from VInt64 show ?thesis
    unfolding t(1) using NextListElement_token [OF _ _ _ _ _ token_texts(2) [OF t(2,3)] assms(2), of strtod] dec_ends [of i]
    by simp
next
  case (VBool b)
  with assms have t: "t = (if b then ''true'' else ''false'')" "col_type element = kBool"
    by (simp_all split: if_splits)
  from VBool show ?thesis
    unfolding t(1) using NextListElement_token [OF _ _ _ _ _ token_texts(3) [OF t(2)] assms(2), of b strtod]
    by (cases b) (simp_all add: is_blank_def)
qed (use assms in simp_all)

lemma join_ends:
  assumes "list_all (\<lambda>t. t \<noteq> [] \<and> \<not> is_blank (hd t) \<and> \<not> is_blank (last t)) ts" "ts \<noteq> []"
  shows "join_str '', '' ts \<noteq> []" "hd (join_str '', '' ts) = hd (hd ts)" "\<not> is_blank (last (join_str '', '' ts))"
  using assms by (atomize(full), induction "'', ''" ts rule: join_str.induct) auto

lemma ListElements_text:
  assumes "list_all (\<lambda>v. element_text (col_type element) v \<noteq> None) vs" "k \<le> 1"
  shows "ListElements strtod (replicate k (CHR '' '') @
      join_str '', '' (map (\<lambda>v. the (element_text (col_type element) v)) vs)) element = Inr vs"
  using assms
proof (induction vs arbitrary: k)
  case Nil
  then have "TrimAsciiSpace (replicate k (CHR '' '')) = []"
    by (simp add: TrimAsciiSpace_def is_blank_def dropWhile_eq_Nil_conv)
  then show ?case by (subst ListElements.simps) (simp add: Let_def)
next
  case (Cons v vs)
  define ts where "ts = map (\<lambda>v. the (element_text (col_type element) v)) (v # vs)"
  obtain t where t: "element_text (col_type element) v = Some t" using Cons.prems(1) by auto
  have ok: "list_all (\<lambda>t. t \<noteq> [] \<and> \<not> is_blank (hd t) \<and> \<not> is_blank (last t)) ts"
    using Cons.prems(1) element_text_ends by (auto simp: ts_def list_all_iff)
  define r where "r = (if vs = [] then [] else '', '' @ join_str '', '' (tl ts))"
  have joined: "join_str '', '' ts = t @ r" by (cases vs) (simp_all add: ts_def r_def t)
  have trim: "TrimAsciiSpace (replicate k (CHR '' '') @ t @ r) = t @ r"
  proof -
    have "TrimAsciiSpace (join_str '', '' ts) = join_str '', '' ts"
      using join_ends [OF ok] ok by (intro TrimAsciiSpace_id) (simp add: ts_def)
    then show ?thesis
      using Cons.prems(2) joined TrimAsciiSpace_blank by (cases k) auto
  qed
  have nl: "NextListElement strtod (t @ r) element =
      Inr (v, if kind v = KString then r else tl r)"
    by (rule NextListElement_text [OF t]) (simp add: r_def)
  have rest: "ListElements strtod (skip_comma (if kind v = KString then r else tl r)) element = Inr vs"
  proof (cases "vs = []")
    case True
    have "skip_comma [] = []" by (simp add: skip_comma_def TrimAsciiSpace_def)
    with True Cons.IH [of 0] show ?thesis by (simp add: r_def)
  next
    case False
    let ?j = "join_str '', '' (tl ts)"
    have okt: "list_all (\<lambda>t. t \<noteq> [] \<and> \<not> is_blank (hd t) \<and> \<not> is_blank (last t)) (tl ts)" "tl ts \<noteq> []"
      using ok False by (simp_all add: ts_def)
    have trim_j: "TrimAsciiSpace (CHR '' '' # ?j) = ?j" "TrimAsciiSpace ('', '' @ ?j) = '', '' @ ?j"
      using join_ends [OF okt] okt
      by (auto simp: TrimAsciiSpace_blank is_blank_def intro!: TrimAsciiSpace_id)
        (auto simp: list_all_iff is_blank_def hd_in_set)
    have "hd ?j \<noteq> CHR '',''"
      using join_ends(2) [OF okt] Cons.prems(1) False element_text_ends
      by (cases vs) (auto simp: ts_def)
    then have "skip_comma (if kind v = KString then r else tl r) =
        (if kind v = KString then CHR '' '' # ?j else ?j)"
      using False trim_j by (simp add: skip_comma_def r_def Let_def)
    then show ?thesis
      using Cons.IH [of 0] Cons.IH [of 1] Cons.prems(1) by (simp add: ts_def split: if_split)
  qed
  have ne: "t \<noteq> []" using element_text_ends [OF t] by simp
  show ?case
    unfolding joined [unfolded ts_def]
    by (subst ListElements.simps) (simp add: trim nl rest ne Let_def)
qed

text \<open>
  The text of a flat struct and the values its fields can have: a STRING field is not empty, not
  the text NULL and has no blanks at its ends.
\<close>

fun field_text :: "ColumnType \<Rightarrow> Value \<Rightarrow> string option" where
  "field_text ty VNull = Some ''NULL''"
| "field_text ty (VString s) =
     (if ty = kString \<and> s \<noteq> [] \<and> s \<noteq> ''NULL'' \<and> TrimAsciiSpace s = s then Some (quoted s) else None)"
| "field_text ty (VInt64 i) = (if ty = kInt64 \<and> in_int64 i then Some (dec i) else None)"
| "field_text ty (VBool b) = (if ty = kBool then Some (if b then ''true'' else ''false'') else None)"
| "field_text ty v = None"

definition pair_text :: "ColumnSchema \<Rightarrow> Value \<Rightarrow> string" where
  "pair_text c v = quoted (col_name c) @ '': '' @ the (field_text (col_type c) v)"

definition struct_text :: "ColumnSchema list \<Rightarrow> Value list \<Rightarrow> string" where
  "struct_text cs vs = ''{'' @ join_str '', '' (map2 pair_text cs vs) @ ''}''"

text \<open>The raw text that the pair scanner hands to the field parser.\<close>

fun raw_field :: "Value \<Rightarrow> string" where
  "raw_field (VString s) = s"
| "raw_field (VInt64 i) = dec i"
| "raw_field (VBool b) = (if b then ''true'' else ''false'')"
| "raw_field v = ''NULL''"

lemma find_sub_no_comma:
  assumes "CHR '','' \<notin> set t"
  shows "find_sub ('', '' @ [CHR 0x27]) (t @ r) = map_option ((+) (length t)) (find_sub ('', '' @ [CHR 0x27]) r)"
  using assms by (induction t; cases "find_sub ('', '' @ [CHR 0x27]) r") simp_all

lemma StructFieldValue_plain:
  assumes "t \<noteq> []" "hd t \<noteq> CHR 0x27" "CHR '','' \<notin> set t" "\<not> is_blank (hd t)" "\<not> is_blank (last t)"
  shows "StructFieldValue t = Inr (t, [])"
    "StructFieldValue (t @ '', '' @ CHR 0x27 # r) = Inr (t, CHR 0x27 # r)"
proof -
  have "find_sub ('', '' @ [CHR 0x27]) ('', '' @ CHR 0x27 # r) = Some 0"
    using find_sub_prefix_hit [of "'', '' @ [CHR 0x27]" r] by simp
  then have hit: "find_sub ('', '' @ [CHR 0x27]) (t @ '', '' @ CHR 0x27 # r) = Some (length t)"
    by (simp only: find_sub_no_comma [OF assms(3)] option.map add_0_right)
  have miss: "find_sub ('', '' @ [CHR 0x27]) t = None"
    using find_sub_no_comma [OF assms(3), of "[]"] by simp
  have trim: "TrimAsciiSpace t = t" using assms by (intro TrimAsciiSpace_id) simp
  show "StructFieldValue t = Inr (t, [])" using assms miss trim by (simp add: StructFieldValue_def)
  show "StructFieldValue (t @ '', '' @ CHR 0x27 # r) = Inr (t, CHR 0x27 # r)"
    unfolding StructFieldValue_def hit using assms(1,2) trim by simp
qed

lemma field_text_plain:
  assumes "field_text ty v = Some t" "kind v \<noteq> KString"
  shows "t \<noteq> [] \<and> hd t \<noteq> CHR 0x27 \<and> CHR '','' \<notin> set t \<and> \<not> is_blank (hd t) \<and> \<not> is_blank (last t) \<and> raw_field v = t"
  using assms dec_ends by (cases v) (auto simp: is_blank_def split: if_splits)

lemma field_text_string:
  "field_text ty (VString s) = Some t \<Longrightarrow> t = quoted s"
  by (simp split: if_splits)

lemma StructFieldValue_text:
  assumes "field_text ty v = Some t"
  shows "StructFieldValue t = Inr (raw_field v, [])"
    "\<exists>k \<le> 2. StructFieldValue (t @ '', '' @ CHR 0x27 # r) = Inr (raw_field v, drop k ('', '' @ CHR 0x27 # r)) \<and> (k = 0 \<or> k = 2)"
proof -
  have str: "\<exists>s. v = VString s" if "kind v = KString" using that by (cases v) simp_all
  show "StructFieldValue t = Inr (raw_field v, [])"
  proof (cases "kind v = KString")
    case True
    then obtain s where v: "v = VString s" using str by blast
    with assms have "t = quoted s" using field_text_string by blast
    with v ParseQuotedStringToken_quoted [of "[]" s] show ?thesis by (simp add: StructFieldValue_def)
  next
    case False
    with field_text_plain [OF assms] StructFieldValue_plain(1) show ?thesis by simp
  qed
  show "\<exists>k \<le> 2. StructFieldValue (t @ '', '' @ CHR 0x27 # r) = Inr (raw_field v, drop k ('', '' @ CHR 0x27 # r)) \<and> (k = 0 \<or> k = 2)"
  proof (cases "kind v = KString")
    case True
    then obtain s where v: "v = VString s" using str by blast
    with assms have "t = quoted s" using field_text_string by blast
    with v ParseQuotedStringToken_quoted [of "'', '' @ CHR 0x27 # r" s]
    show ?thesis by (intro exI [of _ 0]) (simp add: StructFieldValue_def)
  next
    case False
    with field_text_plain [OF assms] StructFieldValue_plain(2) [of t r]
    show ?thesis by (intro exI [of _ 2]) simp
  qed
qed

lemma field_text_ends:
  assumes "field_text ty v = Some t"
  shows "t \<noteq> []" "\<not> is_blank (hd t)" "\<not> is_blank (last t)"
proof -
  have "t \<noteq> [] \<and> \<not> is_blank (hd t) \<and> \<not> is_blank (last t)"
  proof (cases "kind v = KString")
    case True
    then obtain s where "v = VString s" by (cases v) simp_all
    with assms have "t = quoted s" using field_text_string by blast
    then show ?thesis by (simp add: is_blank_def)
  qed (use field_text_plain [OF assms] in simp)
  then show "t \<noteq> []" "\<not> is_blank (hd t)" "\<not> is_blank (last t)" by blast+
qed

definition field_ok :: "ColumnSchema \<times> Value \<Rightarrow> bool" where
  "field_ok p \<longleftrightarrow> field_text (col_type (fst p)) (snd p) \<noteq> None"

definition pair_texts :: "(ColumnSchema \<times> Value) list \<Rightarrow> string" where
  "pair_texts ps = join_str '', '' (map (\<lambda>(c, v). pair_text c v) ps)"

definition raw_pairs :: "(ColumnSchema \<times> Value) list \<Rightarrow> (string \<times> string) list" where
  "raw_pairs ps = map (\<lambda>(c, v). (col_name c, raw_field v)) ps"

lemma pair_text_ends:
  assumes "field_ok (c, v)"
  shows "pair_text c v \<noteq> []" "hd (pair_text c v) = CHR 0x27" "\<not> is_blank (last (pair_text c v))"
  using assms field_text_ends by (auto simp: field_ok_def pair_text_def)

lemma pair_texts_ends:
  assumes "list_all field_ok ps" "ps \<noteq> []"
  shows "pair_texts ps \<noteq> []" "hd (pair_texts ps) = CHR 0x27" "\<not> is_blank (last (pair_texts ps))"
proof -
  have ok: "list_all (\<lambda>t. t \<noteq> [] \<and> \<not> is_blank (hd t) \<and> \<not> is_blank (last t)) (map (\<lambda>(c, v). pair_text c v) ps)"
    using assms(1) pair_text_ends by (auto simp: list_all_iff is_blank_def)
  from join_ends [OF ok] assms pair_text_ends
  show "pair_texts ps \<noteq> []" "hd (pair_texts ps) = CHR 0x27" "\<not> is_blank (last (pair_texts ps))"
    by (cases ps; auto simp: pair_texts_def)+
qed

lemma ParseNextStructField_pair:
  assumes "field_text (col_type c) v = Some t" "r = [] \<or> \<not> is_blank (last r)"
  shows "ParseNextStructField (pair_text c v @ r) =
    (case StructFieldValue (t @ r) of
       Inl e \<Rightarrow> Inl e | Inr (raw, rest) \<Rightarrow> Inr ((col_name c, raw), rest))"
proof -
  note ends = field_text_ends [OF assms(1)]
  have q: "ParseQuotedStringToken (quoted (col_name c) @ '': '' @ t @ r) = Inr (col_name c, '': '' @ t @ r)"
    by (rule ParseQuotedStringToken_quoted) simp
  have "\<not> is_blank (last (t @ r))" using ends assms(2) by (cases "r = []") auto
  then have "TrimAsciiSpace ('': '' @ t @ r) = '': '' @ t @ r" "TrimAsciiSpace (t @ r) = t @ r"
    using ends by (intro TrimAsciiSpace_id; simp add: is_blank_def)+
  then show ?thesis
    using q assms(1) by (simp add: ParseNextStructField_def pair_text_def TrimAsciiSpace_blank)
qed

lemma ScanStructFields_text:
  assumes "list_all field_ok ps" "k \<le> 1"
  shows "ScanStructFields (replicate k (CHR '' '') @ pair_texts ps) = (raw_pairs ps, None)"
  using assms
proof (induction ps arbitrary: k)
  case Nil
  then have "TrimAsciiSpace (replicate k (CHR '' '')) = []"
    by (simp add: TrimAsciiSpace_def is_blank_def dropWhile_eq_Nil_conv)
  then show ?case by (subst ScanStructFields.simps) (simp add: pair_texts_def raw_pairs_def Let_def)
next
  case (Cons p ps)
  obtain c v where p: "p = (c, v)" by (cases p)
  obtain t where t: "field_text (col_type c) v = Some t" using Cons.prems(1) p by (auto simp: field_ok_def)
  define r where "r = (if ps = [] then [] else '', '' @ pair_texts ps)"
  have joined: "pair_texts (p # ps) = pair_text c v @ r"
    by (cases ps) (simp_all add: pair_texts_def r_def p)
  note ends = pair_texts_ends [OF Cons.prems(1)]
  have trim: "TrimAsciiSpace (replicate k (CHR '' '') @ pair_text c v @ r) = pair_text c v @ r"
  proof -
    have "TrimAsciiSpace (pair_text c v @ r) = pair_text c v @ r"
      using ends joined by (intro TrimAsciiSpace_id) (simp add: is_blank_def)
    then show ?thesis using Cons.prems(2) TrimAsciiSpace_blank by (cases k) auto
  qed
  have last: "r = [] \<or> \<not> is_blank (last r)"
    using Cons.prems(1) pair_texts_ends(1,3) [of ps] by (auto simp: r_def)
  have "\<exists>rest. StructFieldValue (t @ r) = Inr (raw_field v, rest) \<and>
      ScanStructFields (skip_comma rest) = (raw_pairs ps, None)"
  proof (cases "ps = []")
    case True
    have "skip_comma [] = []" by (simp add: skip_comma_def TrimAsciiSpace_def)
    with True StructFieldValue_text(1) [OF t] Cons.IH [of 0] show ?thesis by (simp add: r_def pair_texts_def)
  next
    case False
    have ok: "list_all field_ok ps" using Cons.prems(1) by simp
    note tail = pair_texts_ends [OF ok False]
    then obtain r' where r': "pair_texts ps = CHR 0x27 # r'" by (cases "pair_texts ps") auto
    have "TrimAsciiSpace r = r" "TrimAsciiSpace (pair_texts ps) = pair_texts ps"
      using False tail by (intro TrimAsciiSpace_id; simp add: r_def is_blank_def)+
    then have "skip_comma r = CHR '' '' # pair_texts ps" "skip_comma (pair_texts ps) = pair_texts ps"
      using False tail(2) by (simp_all add: skip_comma_def r_def Let_def)
    then have scan: "ScanStructFields (skip_comma (drop k r)) = (raw_pairs ps, None)" if "k = 0 \<or> k = 2" for k
      using that False Cons.IH [OF ok, of 0] Cons.IH [OF ok, of 1] by (auto simp: r_def)
    from StructFieldValue_text(2) [OF t, of r'] scan show ?thesis
      using False by (auto simp: r_def r')
  qed
  then obtain rest where "StructFieldValue (t @ r) = Inr (raw_field v, rest)"
    "ScanStructFields (skip_comma rest) = (raw_pairs ps, None)" by blast
  then show ?case
    unfolding joined using ParseNextStructField_pair [OF t last] pair_text_ends(1) [of c v] Cons.prems(1) p
    by (subst ScanStructFields.simps) (simp add: trim raw_pairs_def Let_def)
qed

lemma ParseStructFieldLiteral_raw:
  assumes "field_text (col_type c) v = Some t"
  shows "ParseStructFieldLiteral strtod c (raw_field v) = Inr v"
proof -
  obtain name ty mode desc raw flds where c: "c = ColumnSchema name ty mode desc raw flds" by (cases c)
  show ?thesis
  proof (cases v)
    case (VInt64 i)
    with assms c have "ty = kInt64" "in_int64 i" by (simp_all split: if_splits)
    with VInt64 c show ?thesis
      using dec_ends(2-4) [of i] TrimAsciiSpace_id [of "dec i"] strtoll_all_dec [of i]
      by (simp add: Let_def)
  next
    case (VString x)
    with assms c have "ty = kString" "x \<noteq> []" "x \<noteq> ''NULL''" "TrimAsciiSpace x = x" by (simp_all split: if_splits)
    with VString c show ?thesis by (simp add: Let_def)
  next
    case (VBool b)
    with assms c have "ty = kBool" by (simp split: if_splits)
    with VBool c show ?thesis by (cases b) (simp_all add: TrimAsciiSpace_def is_blank_def Let_def)
  next
    case VNull
    with c show ?thesis by (simp add: TrimAsciiSpace_def is_blank_def Let_def)
  qed (use assms in simp_all)
qed

lemma index_of_nth: "distinct ns \<Longrightarrow> i < length ns \<Longrightarrow> index_of (ns ! i) ns = Some i"
  by (induction ns arbitrary: i) (auto simp: nth_Cons' dest: nth_mem split: if_splits)

lemma AssignAll_suffix:
  assumes "distinct (map fst parsers)" "length parsers = length vs" "i \<le> length vs"
    and "\<And>j. j < length vs \<Longrightarrow> snd (parsers ! j) (raw_field (vs ! j)) = Inr (vs ! j)"
  shows "AssignAll parsers (drop i (map2 (\<lambda>q v. (fst q, raw_field v)) parsers vs)) (take i vs @ replicate (length vs - i) VNull) = Inr vs"
  using assms(3)
proof (induction "length vs - i" arbitrary: i)
  case 0
  then show ?case using assms(2) by simp
next
  case (Suc n)
  then have i: "i < length vs" by simp
  have "drop i (map2 (\<lambda>q v. (fst q, raw_field v)) parsers vs) =
      (fst (parsers ! i), raw_field (vs ! i)) # drop (Suc i) (map2 (\<lambda>q v. (fst q, raw_field v)) parsers vs)"
    using i assms(2) by (subst Cons_nth_drop_Suc [symmetric]) simp_all
  moreover have "index_of (fst (parsers ! i)) (map fst parsers) = Some i"
    using index_of_nth [OF assms(1), of i] i assms(2) by simp
  moreover have "(take i vs @ replicate (length vs - i) VNull)[i := vs ! i] =
      take (Suc i) vs @ replicate (length vs - Suc i) VNull"
    using i by (simp add: list_update_append take_Suc_conv_app_nth Suc_diff_Suc [symmetric])
  ultimately show ?case
    using Suc.hyps(1) [of "Suc i"] Suc.hyps(2) i assms(4) [OF i] by (simp add: AssignStructFieldValue_def)
qed

subsection \<open>Properties\<close>

text \<open>
  C28 (list text reads back). The parser of LIST cells inverts the text of a list of NULLs,
  quoted strings (whatever characters they hold), 64-bit integers or booleans.
\<close>

theorem list_varchar_roundtrip:
  assumes "list_all (\<lambda>v. element_text (col_type element) v \<noteq> None) vs"
  shows "ParseDuckDBListVarchar strtod (list_text (col_type element) vs) element = Inr (VArray vs)"
proof -
  let ?j = "join_str '', '' (map (\<lambda>v. the (element_text (col_type element) v)) vs)"
  have "TrimAsciiSpace ?j = ?j"
  proof (cases "vs = []")
    case False
    have "list_all (\<lambda>t. t \<noteq> [] \<and> \<not> is_blank (hd t) \<and> \<not> is_blank (last t))
        (map (\<lambda>v. the (element_text (col_type element) v)) vs)"
      using assms element_text_ends by (auto simp: list_all_iff)
    from join_ends [OF this] this False show ?thesis by (intro TrimAsciiSpace_id) (cases vs; simp)
  qed (simp add: TrimAsciiSpace_def)
  moreover have "TrimAsciiSpace (''['' @ ?j @ '']'') = ''['' @ ?j @ '']''"
    by (rule TrimAsciiSpace_id) (simp add: is_blank_def)
  ultimately show ?thesis
    using ListElements_text [OF assms, of 0 strtod]
    by (simp add: ParseDuckDBListVarchar_def list_text_def inner_text_def butlast_append)
qed

theorem list_varchar_roundtrip_witness:
  "ParseDuckDBListVarchar (\<lambda>s. None)
     (list_text kInt64 [VInt64 (- 5), VNull, VString [CHR 0x27, CHR '','', CHR '']'']])
     (ColumnSchema ''a'' kInt64 kNullable [] [] []) =
   Inr (VArray [VInt64 (- 5), VNull, VString [CHR 0x27, CHR '','', CHR '']'']])"
  using list_varchar_roundtrip [of "ColumnSchema ''a'' kInt64 kNullable [] [] []"
    "[VInt64 (- 5), VNull, VString [CHR 0x27, CHR '','', CHR '']'']]" "\<lambda>s. None"]
  by (simp add: int64_defs)



text \<open>
  What struct text loses. A struct field that is itself a struct with two fields cannot be
  read back: the scan for the next pair ends the inner text at its first comma, and the cell is
  an error. A quoted string field with the text NULL reads back as NULL.
\<close>

theorem struct_varchar_losses:
  "(\<exists>e. ParseDuckDBStructVarchar (\<lambda>s. None)
      (''{'' @ quoted ''s'' @ '': {'' @ quoted ''x'' @ '': 1, '' @ quoted ''y'' @ '': 2}}'')
      (ColumnSchema ''c'' kStruct kNullable [] []
        [ColumnSchema ''s'' kStruct kNullable [] []
          [ColumnSchema ''x'' kInt64 kNullable [] [] [], ColumnSchema ''y'' kInt64 kNullable [] [] []]]) = Inl e) \<and>
   ParseDuckDBStructVarchar (\<lambda>s. None) (''{'' @ quoted ''b'' @ '': '' @ quoted ''NULL'' @ ''}'')
      (ColumnSchema ''c'' kStruct kNullable [] [] [ColumnSchema ''b'' kString kNullable [] [] []]) =
     Inr (VStruct [VNull])"
proof (rule conjI)
  have "isl (ParseDuckDBStructVarchar (\<lambda>s. None)
      (''{'' @ quoted ''s'' @ '': {'' @ quoted ''x'' @ '': 1, '' @ quoted ''y'' @ '': 2}}'')
      (ColumnSchema ''c'' kStruct kNullable [] []
        [ColumnSchema ''s'' kStruct kNullable [] []
          [ColumnSchema ''x'' kInt64 kNullable [] [] [], ColumnSchema ''y'' kInt64 kNullable [] [] []]]))"
    by code_simp
  then show "\<exists>e. ParseDuckDBStructVarchar (\<lambda>s. None)
      (''{'' @ quoted ''s'' @ '': {'' @ quoted ''x'' @ '': 1, '' @ quoted ''y'' @ '': 2}}'')
      (ColumnSchema ''c'' kStruct kNullable [] []
        [ColumnSchema ''s'' kStruct kNullable [] []
          [ColumnSchema ''x'' kInt64 kNullable [] [] [], ColumnSchema ''y'' kInt64 kNullable [] [] []]]) = Inl e"
    unfolding isl_def .
qed code_simp

end
