(* ===== verification/Fs_World.thy ===== *)
theory Fs_World
  imports Duckdb_List
begin

section \<open>The files and the database connection behind the store\<close>

text \<open>
  The DuckDB store works on a data directory and a DuckDB connection. \<open>World\<close> is what the
  store's code can observe of them: the regular files, the directories, the temporary tables of
  the connection and the clock. A Parquet file is the list of the rows that were written to it,
  in order; a sidecar is its text. Every operation of the operating system or of DuckDB that can
  fail consults \<open>io_fault\<close>, an arbitrary parameter, so that each theorem holds whatever fails;
  a failing operation leaves the world as it was, except that a failed write may leave a torn
  temporary file.

  The definitions follow the helpers \<open>ReadFile\<close> and \<open>WriteFileAtomic\<close> of
  \<open>duckdb_storage_meta.cc\<close>, \<open>FilesystemStatus\<close> and the path functions of
  \<open>duckdb_storage.cc\<close>, and the \<open>std::filesystem\<close> calls the sources make.
\<close>

datatype FileData = TextFile string | ParquetFile "Row list"

record World =
  files :: "string \<rightharpoonup> FileData"
  dirs :: "string set"
  temp_tables :: "string \<rightharpoonup> Row list"
  clock_ms :: int

datatype IoOp =
    IoOpenRead string
  | IoOpenWrite string
  | IoWrite string
  | IoMkdirs string
  | IoCopy string string
  | IoRename string string
  | IoRemove string
  | IoSql string

text \<open>
  A result of the DuckDB C API: what each accessor returns for a cell, where \<open>nullptr\<close> is
  \<^const>\<open>None\<close>.
\<close>

record DuckCell =
  value_is_null :: bool
  value_varchar :: "string option"
  value_boolean :: bool
  value_int64 :: int
  value_double :: double
  value_blob :: "string option"

record DuckResult =
  column_count :: nat
  result_rows :: "DuckCell list list"

text \<open>
  The parameters of the store: the data directory and the third-party functions. \<open>duck_carry\<close>
  is what copying a row through the casts of the carry-over SELECT makes of it, \<open>duck_raw\<close> the
  effect of statement text that does not read back as the rows it was built for, and
  \<open>duck_query\<close> the answer to a SELECT.
\<close>

record DuckEnv =
  data_dir :: string
  absl_fns :: absl
  io_fault :: "World \<Rightarrow> IoOp \<Rightarrow> string option"
  io_torn :: "string \<Rightarrow> string"
  parquet_bytes :: "Row list \<Rightarrow> string"
  MessageToJsonString :: "TableSchemaProto \<Rightarrow> string + string"
  JsonStringToMessage :: "string \<Rightarrow> string + TableSchemaProto"
  lit_fns :: LitFns
  duck_carry :: "TableSchema \<Rightarrow> Row \<Rightarrow> Row"
  duck_raw :: "string \<Rightarrow> World \<Rightarrow> World"
  duck_query :: "World \<Rightarrow> string \<Rightarrow> string + DuckResult"
  strtod_fn :: "string \<Rightarrow> double option"

subsection \<open>Paths\<close>

text \<open>\<open>fs::path::operator/\<close> on a relative right operand.\<close>

definition path_join :: "string \<Rightarrow> string \<Rightarrow> string" where
  "path_join a b =
     (if b \<noteq> [] \<and> hd b = CHR ''/'' then b
      else if a = [] \<or> last a = CHR ''/'' then a @ b
      else a @ ''/'' @ b)"

definition DatasetDir :: "DuckEnv \<Rightarrow> TableId \<Rightarrow> string" where
  "DatasetDir E tid = path_join (path_join (data_dir E) (project_id tid)) (dataset_id tid)"

definition TableMetaPath :: "DuckEnv \<Rightarrow> TableId \<Rightarrow> string" where
  "TableMetaPath E tid = path_join (DatasetDir E tid) (table_id tid @ ''.meta.json'')"

definition TableParquetPath :: "DuckEnv \<Rightarrow> TableId \<Rightarrow> string" where
  "TableParquetPath E tid = path_join (DatasetDir E tid) (table_id tid @ ''.parquet'')"

definition TableVersionsDir :: "DuckEnv \<Rightarrow> TableId \<Rightarrow> string" where
  "TableVersionsDir E tid = path_join (DatasetDir E tid) (table_id tid @ ''.versions'')"

definition TableVersionsIndexPath :: "DuckEnv \<Rightarrow> TableId \<Rightarrow> string" where
  "TableVersionsIndexPath E tid = path_join (DatasetDir E tid) (table_id tid @ ''.versions.json'')"

subsection \<open>File operations\<close>

definition fs_exists :: "World \<Rightarrow> string \<Rightarrow> bool" where
  "fs_exists w p \<longleftrightarrow> files w p \<noteq> None \<or> p \<in> dirs w"

definition fs_remove :: "string \<Rightarrow> World \<Rightarrow> World" where
  "fs_remove p w = w\<lparr>files := (files w)(p := None)\<rparr>"

text \<open>The directories on the way to a path, which \<open>create_directories\<close> creates as well.\<close>

definition path_parents :: "string \<Rightarrow> string list" where
  "path_parents p = map (\<lambda>i. take i p) (filter (\<lambda>i. 0 < i \<and> p ! i = CHR ''/'') [0..<length p])"

definition fs_create_directories :: "DuckEnv \<Rightarrow> string \<Rightarrow> World \<Rightarrow> string option \<times> World" where
  "fs_create_directories E p w =
     (case io_fault E w (IoMkdirs p) of
        Some ec \<Rightarrow> (Some ec, w)
      | None \<Rightarrow> (None, w\<lparr>dirs := insert p (set (path_parents p) \<union> dirs w)\<rparr>))"

definition fs_copy_file :: "DuckEnv \<Rightarrow> string \<Rightarrow> string \<Rightarrow> World \<Rightarrow> string option \<times> World" where
  "fs_copy_file E a b w =
     (case io_fault E w (IoCopy a b) of
        Some ec \<Rightarrow> (Some ec, w)
      | None \<Rightarrow>
          (case files w a of
             None \<Rightarrow> (Some ''No such file or directory'', w)
           | Some d \<Rightarrow> (None, w\<lparr>files := (files w)(b \<mapsto> d)\<rparr>)))"

definition fs_rename :: "DuckEnv \<Rightarrow> string \<Rightarrow> string \<Rightarrow> World \<Rightarrow> string option \<times> World" where
  "fs_rename E a b w =
     (case io_fault E w (IoRename a b) of
        Some ec \<Rightarrow> (Some ec, w)
      | None \<Rightarrow>
          (case files w a of
             None \<Rightarrow> (Some ''No such file or directory'', w)
           | Some d \<Rightarrow> (None, w\<lparr>files := (files w)(a := None, b \<mapsto> d)\<rparr>)))"

definition FilesystemStatus :: "string \<Rightarrow> string \<Rightarrow> Status" where
  "FilesystemStatus what ec = Status kInternal (what @ '': '' @ ec)"

definition ReadFile :: "DuckEnv \<Rightarrow> World \<Rightarrow> string \<Rightarrow> string StatusOr" where
  "ReadFile E w path =
     (case io_fault E w (IoOpenRead path) of
        Some ec \<Rightarrow> Inl (Status kInternal (''failed to read '' @ path))
      | None \<Rightarrow>
          (case files w path of
             None \<Rightarrow> Inl (Status kNotFound (''file not found: '' @ path))
           | Some (TextFile s) \<Rightarrow> Inr s
           | Some (ParquetFile rows) \<Rightarrow> Inr (parquet_bytes E rows)))"

definition WriteFileAtomic :: "DuckEnv \<Rightarrow> string \<Rightarrow> string \<Rightarrow> World \<Rightarrow> unit StatusOr \<times> World" where
  "WriteFileAtomic E path contents w =
     (let tmp = path @ ''.tmp''
      in case io_fault E w (IoOpenWrite tmp) of
           Some ec \<Rightarrow> (Inl (Status kInternal (''failed to open '' @ tmp @ '' for write'')), w)
         | None \<Rightarrow>
             (case io_fault E w (IoWrite tmp) of
                Some ec \<Rightarrow>
                  (Inl (Status kInternal (''failed to write '' @ tmp)),
                   w\<lparr>files := (files w)(tmp \<mapsto> TextFile (io_torn E contents))\<rparr>)
              | None \<Rightarrow>
                  (let w1 = w\<lparr>files := (files w)(tmp \<mapsto> TextFile contents)\<rparr>
                   in case fs_rename E tmp path w1 of
                        (Some ec, w2) \<Rightarrow>
                          (Inl (Status kInternal (''failed to rename '' @ tmp @ '' -> '' @ path)),
                           fs_remove tmp w2)
                      | (None, w2) \<Rightarrow> (Inr (), w2))))"

subsection \<open>Safe table ids\<close>

text \<open>
  An id is safe as a path component when it is non-empty, has no slash and is not one of the two
  dot names; the paths of different safe tables are different files.
\<close>

definition safe_id :: "string \<Rightarrow> bool" where
  "safe_id s \<longleftrightarrow> s \<noteq> [] \<and> CHR ''/'' \<notin> set s \<and> s \<noteq> ''.'' \<and> s \<noteq> ''..''"

definition safe_table :: "TableId \<Rightarrow> bool" where
  "safe_table tid \<longleftrightarrow> safe_id (project_id tid) \<and> safe_id (dataset_id tid) \<and> safe_id (table_id tid)"

lemma path_join_safe:
  "b \<noteq> [] \<Longrightarrow> hd b \<noteq> CHR ''/'' \<Longrightarrow>
     path_join a b = (if a = [] \<or> last a = CHR ''/'' then a else a @ ''/'') @ b"
  by (simp add: path_join_def)

definition dir_prefix :: "string \<Rightarrow> string" where
  "dir_prefix a = (if a = [] \<or> last a = CHR ''/'' then a else a @ ''/'')"

lemma hd_no_slash: "CHR ''/'' \<notin> set s \<Longrightarrow> s \<noteq> [] \<Longrightarrow> hd s \<noteq> CHR ''/''"
  by (cases s) auto

lemma dir_prefix_safe:
  "s \<noteq> [] \<Longrightarrow> CHR ''/'' \<notin> set s \<Longrightarrow> dir_prefix (a @ s) = a @ s @ ''/''"
  by (cases s rule: rev_cases) (auto simp: dir_prefix_def)

lemma dataset_path:
  assumes "safe_table tid"
  shows "path_join (DatasetDir E tid) (table_id tid @ sfx) =
    dir_prefix (data_dir E) @ project_id tid @ ''/'' @ dataset_id tid @ ''/'' @ table_id tid @ sfx"
proof -
  have p: "project_id tid \<noteq> []" "CHR ''/'' \<notin> set (project_id tid)"
    and d: "dataset_id tid \<noteq> []" "CHR ''/'' \<notin> set (dataset_id tid)"
    and t: "table_id tid \<noteq> []" "CHR ''/'' \<notin> set (table_id tid)"
    using assms by (auto simp: safe_table_def safe_id_def)
  have 1: "path_join a b = dir_prefix a @ b" if "b \<noteq> []" "hd b \<noteq> CHR ''/''" for a b
    using that by (simp add: path_join_safe dir_prefix_def)
  have 2: "path_join (data_dir E) (project_id tid) = dir_prefix (data_dir E) @ project_id tid"
    using p hd_no_slash by (intro 1) auto
  have 3: "DatasetDir E tid = dir_prefix (data_dir E) @ project_id tid @ ''/'' @ dataset_id tid"
    unfolding DatasetDir_def 2 using d hd_no_slash p
    by (subst 1) (auto simp: dir_prefix_safe)
  have "dir_prefix (DatasetDir E tid) =
      (dir_prefix (data_dir E) @ project_id tid @ ''/'') @ dataset_id tid @ ''/''"
    unfolding 3 using dir_prefix_safe [of "dataset_id tid" "dir_prefix (data_dir E) @ project_id tid @ ''/''"] d
    by simp
  then show ?thesis using t hd_no_slash [of "table_id tid"] by (subst 1) auto
qed

lemma slash_free_split:
  "CHR ''/'' \<notin> set a \<Longrightarrow> CHR ''/'' \<notin> set b \<Longrightarrow>
     a @ CHR ''/'' # x = b @ CHR ''/'' # y \<longleftrightarrow> a = b \<and> x = (y :: string)"
proof (induction a arbitrary: b)
  case Nil
  then show ?case by (cases b) auto
next
  case (Cons c a)
  then show ?case by (cases b) auto
qed

lemma path_parents_iff: "q \<in> set (path_parents p) \<longleftrightarrow> q \<noteq> [] \<and> prefix (q @ ''/'') p"
proof
  assume "q \<in> set (path_parents p)"
  then obtain i where i: "i < length p" "0 < i" "p ! i = CHR ''/''" "q = take i p"
    by (auto simp: path_parents_def)
  then have "q @ ''/'' = take (Suc i) p" by (simp add: take_Suc_conv_app_nth)
  then show "q \<noteq> [] \<and> prefix (q @ ''/'') p" using i take_is_prefix [of "Suc i" p] by auto
next
  assume "q \<noteq> [] \<and> prefix (q @ ''/'') p"
  then obtain r where r: "p = q @ CHR ''/'' # r" "q \<noteq> []" by (auto simp: prefix_def)
  then show "q \<in> set (path_parents p)"
    by (auto simp: path_parents_def nth_append intro!: image_eqI [of _ _ "length q"])
qed

lemma dataset_path_eq:
  assumes "safe_table t1" "safe_table t2" "CHR ''/'' \<notin> set s1" "CHR ''/'' \<notin> set s2"
  shows "path_join (DatasetDir E t1) (table_id t1 @ s1) = path_join (DatasetDir E t2) (table_id t2 @ s2) \<longleftrightarrow>
    project_id t1 = project_id t2 \<and> dataset_id t1 = dataset_id t2 \<and> table_id t1 @ s1 = table_id t2 @ s2"
  unfolding dataset_path [OF assms(1)] dataset_path [OF assms(2)]
  using assms by (simp add: slash_free_split safe_table_def safe_id_def)

end
