(* ===== verification/Duckdb_Meta.thy ===== *)
theory Duckdb_Meta
  imports Fs_World
begin

section \<open>The JSON sidecars of tables, views and datasets\<close>

text \<open>
  \<open>duckdb_storage_meta.cc\<close> writes each table's schema as a JSON sidecar and reads it back with
  a substring search and a brace scan. The protobuf JSON functions are parameters of
  \<open>DuckEnv\<close>; \<open>proto_json_ok\<close> states what the sidecar code relies on: the printed text is one
  JSON object followed by anything, and parsing that object gives the message back.

  The lemmas show that the brace scan finds exactly a balanced object, whatever its strings
  hold, that a sidecar reads back as the schema it was written for, that the REST metadata of a
  dataset survives the merge, and that the two text fields of a view survive escaping.
\<close>

subsection \<open>The brace scan\<close>

text \<open>
  The text up to and including the brace that closes the first one: the loop shared by
  \<open>ParseTableMetaJson\<close> and \<open>ExtractRestMetadataFromDatasetMetaJson\<close>.
\<close>

fun object_prefix :: "nat \<Rightarrow> bool \<Rightarrow> string \<Rightarrow> string option" where
  "object_prefix depth in_string [] = None"
| "object_prefix depth True [c] = None"
| "object_prefix depth True (c # d # s) =
     (if c = CHR 0x5C then map_option (\<lambda>p. c # d # p) (object_prefix depth True s)
      else if c = CHR 0x22 then map_option ((#) c) (object_prefix depth False (d # s))
      else map_option ((#) c) (object_prefix depth True (d # s)))"
| "object_prefix depth False (c # s) =
     (if c = CHR 0x22 then map_option ((#) c) (object_prefix depth True s)
      else if c = CHR ''{'' then map_option ((#) c) (object_prefix (depth + 1) False s)
      else if c = CHR ''}'' then
        (if depth - 1 = 0 then Some [c] else map_option ((#) c) (object_prefix (depth - 1) False s))
      else map_option ((#) c) (object_prefix depth False s))"

subsection \<open>Table sidecars\<close>

definition meta_head :: string where
  "meta_head =
     ''{'' @ [CHR 0x0A] @
     ''  '' @ [CHR 0x22] @ ''description'' @ [CHR 0x22] @ '': '' @ [CHR 0x22, CHR 0x22] @ '','' @ [CHR 0x0A] @
     ''  '' @ [CHR 0x22] @ ''friendlyName'' @ [CHR 0x22] @ '': '' @ [CHR 0x22, CHR 0x22] @ '','' @ [CHR 0x0A] @
     ''  '' @ [CHR 0x22] @ ''etag'' @ [CHR 0x22] @ '': '' @ [CHR 0x22, CHR 0x22] @ '','' @ [CHR 0x0A] @
     ''  '' @ [CHR 0x22] @ ''labels'' @ [CHR 0x22] @ '': {},'' @ [CHR 0x0A] @
     ''  '' @ [CHR 0x22] @ ''schema'' @ [CHR 0x22] @ '': ''"

definition RenderTableMetaJson :: "DuckEnv \<Rightarrow> TableSchema \<Rightarrow> string StatusOr" where
  "RenderTableMetaJson E schema =
     (case MessageToJsonString E (TableSchemaToProto schema) of
        Inl message \<Rightarrow> Inl (Status kInternal (''failed to render schema as JSON: '' @ message))
      | Inr schema_json \<Rightarrow> Inr (meta_head @ schema_json @ ''}'' @ [CHR 0x0A]))"

definition json_name :: "string \<Rightarrow> string" where
  "json_name key = [CHR 0x22] @ key @ [CHR 0x22]"

definition ParseTableMetaJson :: "DuckEnv \<Rightarrow> string \<Rightarrow> TableSchema StatusOr" where
  "ParseTableMetaJson E json =
     (case find_sub (json_name ''schema'') json of
        None \<Rightarrow>
          Inl (Status kInvalidArgument (''table sidecar: missing '' @ json_name ''schema'' @ '' field''))
      | Some schema_pos \<Rightarrow>
          (let from_colon = dropWhile (\<lambda>c. c \<noteq> CHR '':'') (drop schema_pos json)
           in if from_colon = []
              then Inl (Status kInvalidArgument (''table sidecar: malformed '' @ json_name ''schema'' @ '' entry''))
              else let from_open = dropWhile (\<lambda>c. c \<noteq> CHR ''{'') from_colon
                   in if from_open = []
                      then Inl (Status kInvalidArgument ''table sidecar: schema is not a JSON object'')
                      else case object_prefix 0 False from_open of
                             None \<Rightarrow> Inl (Status kInvalidArgument ''table sidecar: unterminated schema object'')
                           | Some schema_json \<Rightarrow>
                               (case JsonStringToMessage E schema_json of
                                  Inl message \<Rightarrow>
                                    Inl (Status kInternal (''failed to parse schema JSON: '' @ message))
                                | Inr proto \<Rightarrow> TableSchemaFromProto proto)))"

subsection \<open>Dataset sidecars\<close>

text \<open>\<open>StrReplaceAll\<close> with single-character patterns replaces each character once.\<close>

definition replace_chars :: "(char \<times> string) list \<Rightarrow> string \<Rightarrow> string" where
  "replace_chars table s =
     concat (map (\<lambda>c. case map_of table c of Some r \<Rightarrow> r | None \<Rightarrow> [c]) s)"

definition RenderDatasetMetaJson :: "string \<Rightarrow> string" where
  "RenderDatasetMetaJson location =
     ''{'' @ [CHR 0x0A] @ ''  '' @ json_name ''location'' @ '': '' @ [CHR 0x22] @
     replace_chars [(CHR 0x22, [CHR 0x5C, CHR 0x22]), (CHR 0x5C, [CHR 0x5C, CHR 0x5C])] location @
     [CHR 0x22, CHR 0x0A] @ ''}'' @ [CHR 0x0A]"

definition escape_table :: "(char \<times> string) list" where
  "escape_table =
     [(CHR 0x5C, [CHR 0x5C, CHR 0x5C]), (CHR 0x22, [CHR 0x5C, CHR 0x22]), (CHR 0x0A, [CHR 0x5C, CHR ''n'']),
      (CHR 0x0D, [CHR 0x5C, CHR ''r'']), (CHR 0x09, [CHR 0x5C, CHR ''t''])]"

definition JsonEscape :: "string \<Rightarrow> string" where
  "JsonEscape s = replace_chars escape_table s"

definition is_space_nl :: "char \<Rightarrow> bool" where
  "is_space_nl c \<longleftrightarrow> c = CHR '' '' \<or> c = CHR 0x0A"

definition trim_end_nl :: "string \<Rightarrow> string" where
  "trim_end_nl s = rev (dropWhile is_space_nl (rev s))"

definition trim_nl :: "string \<Rightarrow> string" where
  "trim_nl s = trim_end_nl (dropWhile is_space_nl s)"

definition drop_last_if :: "char \<Rightarrow> string \<Rightarrow> string" where
  "drop_last_if c s = (if s \<noteq> [] \<and> last s = c then butlast s else s)"

definition MergeRestMetadataIntoDatasetMetaJson :: "string \<Rightarrow> string \<Rightarrow> string" where
  "MergeRestMetadataIntoDatasetMetaJson existing_json rest_metadata_json =
     (if rest_metadata_json = [] \<or> trim_nl rest_metadata_json = [] then existing_json
      else drop_last_if (CHR ''}'') (trim_end_nl existing_json) @ '','' @ [CHR 0x0A] @ ''  '' @
           json_name ''restMetadata'' @ '': '' @ trim_nl rest_metadata_json @ [CHR 0x0A] @ ''}'' @ [CHR 0x0A])"

definition ExtractRestMetadataFromDatasetMetaJson :: "string \<Rightarrow> string" where
  "ExtractRestMetadataFromDatasetMetaJson json =
     (case find_sub (json_name ''restMetadata'') json of
        None \<Rightarrow> []
      | Some key_pos \<Rightarrow>
          (let from_colon = dropWhile (\<lambda>c. c \<noteq> CHR '':'') (drop (key_pos + length (json_name ''restMetadata'')) json)
           in if from_colon = [] then []
              else let start = dropWhile is_space_nl (tl from_colon)
                   in if start = [] \<or> hd start \<noteq> CHR ''{'' then []
                      else case object_prefix 0 False start of None \<Rightarrow> [] | Some obj \<Rightarrow> obj))"

subsection \<open>View sidecars\<close>

definition unescape_char :: "char \<Rightarrow> char" where
  "unescape_char c =
     (if c = CHR ''n'' then CHR 0x0A else if c = CHR ''r'' then CHR 0x0D
      else if c = CHR ''t'' then CHR 0x09 else c)"

text \<open>The string after its opening quote, or nothing when it is not closed.\<close>

fun json_string_rest :: "string \<Rightarrow> string option" where
  "json_string_rest [] = None"
| "json_string_rest [c] = (if c = CHR 0x22 then Some [] else None)"
| "json_string_rest (c # d # s) =
     (if c = CHR 0x22 then Some []
      else if c = CHR 0x5C then map_option ((#) (unescape_char d)) (json_string_rest s)
      else map_option ((#) c) (json_string_rest (d # s)))"

definition ParseTopLevelJsonStringField :: "string \<Rightarrow> string \<Rightarrow> string option" where
  "ParseTopLevelJsonStringField json key =
     (case find_sub (json_name key) json of
        None \<Rightarrow> None
      | Some key_pos \<Rightarrow>
          (let from_colon = dropWhile (\<lambda>c. c \<noteq> CHR '':'') (drop (key_pos + length (json_name key)) json)
           in if from_colon = [] then None
              else let start = dropWhile is_space_nl (tl from_colon)
                   in if start = [] \<or> hd start \<noteq> CHR 0x22 then None
                      else json_string_rest (tl start)))"

definition quote_table :: "(char \<times> string) list" where
  "quote_table = [(CHR 0x5C, [CHR 0x5C, CHR 0x5C]), (CHR 0x22, [CHR 0x5C, CHR 0x22])]"

definition view_tail :: "string \<Rightarrow> string \<Rightarrow> string" where
  "view_tail view_query ddl_sql =
     '','' @ [CHR 0x0A] @ ''  '' @ json_name ''tableType'' @ '': '' @ json_name ''VIEW'' @ '','' @ [CHR 0x0A] @
     ''  '' @ json_name ''viewQuery'' @ '': '' @ [CHR 0x22] @ replace_chars quote_table view_query @
     [CHR 0x22] @ '','' @ [CHR 0x0A] @ ''  '' @ json_name ''ddlSql'' @ '': '' @ [CHR 0x22] @
     replace_chars escape_table ddl_sql @ [CHR 0x22, CHR 0x0A] @ ''}'' @ [CHR 0x0A]"

definition RenderViewTableMetaJson :: "DuckEnv \<Rightarrow> TableSchema \<Rightarrow> string \<Rightarrow> string \<Rightarrow> string StatusOr" where
  "RenderViewTableMetaJson E schema view_query ddl_sql =
     (case RenderTableMetaJson E schema of
        Inl e \<Rightarrow> Inl e
      | Inr base \<Rightarrow>
          Inr (drop_last_if (CHR ''}'') (drop_last_if (CHR 0x0A) base) @ view_tail view_query ddl_sql))"

record TableResourceInfo =
  ri_table_type :: string
  ri_view_query :: string
  ri_ddl_sql :: string

definition opt_text :: "string option \<Rightarrow> string" where
  "opt_text o1 = (case o1 of None \<Rightarrow> [] | Some s \<Rightarrow> s)"

definition ParseTableResourceInfo :: "string \<Rightarrow> TableResourceInfo" where
  "ParseTableResourceInfo json =
     \<lparr>ri_table_type = opt_text (ParseTopLevelJsonStringField json ''tableType''),
      ri_view_query = opt_text (ParseTopLevelJsonStringField json ''viewQuery''),
      ri_ddl_sql = opt_text (ParseTopLevelJsonStringField json ''ddlSql'')\<rparr>"

subsection \<open>Balanced text\<close>

text \<open>The inside of a JSON string, and text whose strings and braces are closed.\<close>

fun json_chars :: "string \<Rightarrow> bool" where
  "json_chars [] = True"
| "json_chars [c] = (c \<noteq> CHR 0x5C \<and> c \<noteq> CHR 0x22)"
| "json_chars (c # d # s) =
     (if c = CHR 0x5C then json_chars s else c \<noteq> CHR 0x22 \<and> json_chars (d # s))"

inductive balanced :: "string \<Rightarrow> bool" where
  empty: "balanced []"
| plain: "\<lbrakk>c \<noteq> CHR 0x22; c \<noteq> CHR ''{''; c \<noteq> CHR ''}''; balanced s\<rbrakk> \<Longrightarrow> balanced (c # s)"
| text_part: "\<lbrakk>json_chars t; balanced s\<rbrakk> \<Longrightarrow> balanced (CHR 0x22 # t @ CHR 0x22 # s)"
| nested: "\<lbrakk>balanced a; balanced s\<rbrakk> \<Longrightarrow> balanced (CHR ''{'' # a @ CHR ''}'' # s)"

lemma object_prefix_string:
  "json_chars t \<Longrightarrow> s \<noteq> [] \<Longrightarrow> object_prefix d True (t @ CHR 0x22 # s) =
     map_option (\<lambda>p. t @ CHR 0x22 # p) (object_prefix d False s)"
proof (induction t rule: json_chars.induct)
  case 1
  then show ?case by (cases s) (auto simp: option.map_comp o_def)
next
  case (2 c)
  then show ?case by (cases s) (auto simp: option.map_comp o_def)
qed (auto simp: option.map_comp o_def split: if_splits)

lemma object_prefix_string_end: "json_chars t \<Longrightarrow> object_prefix d True (t @ [CHR 0x22]) = None"
  by (induction t rule: json_chars.induct) (auto split: if_splits)

lemma object_prefix_balanced:
  "balanced a \<Longrightarrow> object_prefix (Suc d) False (a @ r) = map_option ((@) a) (object_prefix (Suc d) False r)"
proof (induction arbitrary: d r rule: balanced.induct)
  case empty
  then show ?case by (cases "object_prefix (Suc d) False r") auto
next
  case (plain c s)
  then show ?case by (simp add: option.map_comp o_def)
next
  case (text_part t s)
  show ?case
  proof (cases "s @ r = []")
    case True
    then show ?thesis using object_prefix_string_end [OF text_part.hyps(1)] by simp
  next
    case False
    from object_prefix_string [OF text_part.hyps(1) this, of "Suc d"] text_part.IH [of d r]
    show ?thesis by (simp add: option.map_comp o_def)
  qed
next
  case (nested a s)
  have "object_prefix (Suc (Suc d)) False (a @ CHR ''}'' # s @ r) =
      map_option (\<lambda>p. a @ CHR ''}'' # p) (object_prefix (Suc d) False (s @ r))"
    using nested.IH(1) [of "Suc d" "CHR ''}'' # s @ r"] by (simp add: option.map_comp o_def)
  then show ?case using nested.IH(2) [of d r] by (simp add: option.map_comp o_def)
qed

lemma object_prefix_object:
  "balanced a \<Longrightarrow> object_prefix 0 False (CHR ''{'' # a @ CHR ''}'' # r) = Some (CHR ''{'' # a @ ''}'')"
  using object_prefix_balanced [of a 0 "CHR ''}'' # r"] by simp

subsection \<open>Sidecars read back\<close>

definition proto_json_ok :: "DuckEnv \<Rightarrow> bool" where
  "proto_json_ok E \<longleftrightarrow>
     (\<forall>proto s. MessageToJsonString E proto = Inr s \<longrightarrow>
        (\<exists>a ws. balanced a \<and> s = CHR ''{'' # a @ CHR ''}'' # ws \<and>
           JsonStringToMessage E (CHR ''{'' # a @ ''}'') = Inr proto))"

lemma meta_head_schema:
  "find_sub (json_name ''schema'') (meta_head @ s) = Some 77"
  "drop 77 (meta_head @ s) = json_name ''schema'' @ '': '' @ s"
  unfolding meta_head_def json_name_def by simp_all

lemma ParseTableMetaJson_text:
  assumes "balanced a"
  shows "ParseTableMetaJson E (meta_head @ CHR ''{'' # a @ CHR ''}'' # r) =
    (case JsonStringToMessage E (CHR ''{'' # a @ ''}'') of
       Inl message \<Rightarrow> Inl (Status kInternal (''failed to parse schema JSON: '' @ message))
     | Inr proto \<Rightarrow> TableSchemaFromProto proto)"
proof -
  let ?s = "CHR ''{'' # a @ CHR ''}'' # r"
  have colon: "dropWhile (\<lambda>c. c \<noteq> CHR '':'') (drop 77 (meta_head @ ?s)) = '': '' @ ?s"
    unfolding meta_head_schema(2) json_name_def by simp
  have "dropWhile (\<lambda>c. c \<noteq> CHR ''{'') ('': '' @ ?s) = ?s" by simp
  then show ?thesis
    unfolding ParseTableMetaJson_def meta_head_schema(1) option.case Let_def colon
    by (simp add: object_prefix_object [OF assms] del: object_prefix.simps)
qed

lemma RenderTableMetaJson_reads:
  assumes "proto_json_ok E" "RenderTableMetaJson E schema = Inr json" "list_all canonical_column (columns schema)"
  shows "ParseTableMetaJson E json = Inr schema"
proof -
  obtain s where s: "MessageToJsonString E (TableSchemaToProto schema) = Inr s"
    "json = meta_head @ s @ ''}'' @ [CHR 0x0A]"
    using assms(2) by (auto simp: RenderTableMetaJson_def split: sum.splits)
  with assms(1) obtain a ws where a: "balanced a" "s = CHR ''{'' # a @ CHR ''}'' # ws"
    "JsonStringToMessage E (CHR ''{'' # a @ ''}'') = Inr (TableSchemaToProto schema)"
    unfolding proto_json_ok_def by blast
  have "TableSchemaFromProto (TableSchemaToProto schema) = Inr schema"
    using ColumnsFromProto_ToProto [OF assms(3)] by (simp add: TableSchemaFromProto_def TableSchemaToProto_def)
  with a show ?thesis
    unfolding s(2) using ParseTableMetaJson_text [OF a(1), of E "ws @ ''}'' @ [CHR 0x0A]"] by simp
qed

text \<open>Escaped text reads back.\<close>

lemma json_string_escaped:
  assumes "table = quote_table \<or> table = escape_table"
  shows "json_string_rest (replace_chars table s @ CHR 0x22 # r) = Some s"
proof (induction s)
  case Nil
  then show ?case by (cases r) (simp_all add: replace_chars_def)
next
  case (Cons c s)
  let ?rest = "replace_chars table s @ CHR 0x22 # r"
  have split: "replace_chars table (c # s) = (case map_of table c of Some x \<Rightarrow> x | None \<Rightarrow> [c]) @ replace_chars table s"
    by (simp add: replace_chars_def)
  obtain d ds where d: "?rest = d # ds" by (cases ?rest) auto
  have plain: "json_string_rest (c # ?rest) = map_option ((#) c) (json_string_rest ?rest)"
    if "c \<noteq> CHR 0x22" "c \<noteq> CHR 0x5C" using that by (simp add: d)
  show ?case
    using assms Cons plain
    by (auto simp: split quote_table_def escape_table_def unescape_char_def)
qed

subsection \<open>Sample data for the witnesses\<close>

definition id_schema :: TableSchema where
  "id_schema = \<lparr>columns = [ColumnSchema ''tableType'' kString kNullable [] [] []]\<rparr>"

text \<open>The JSON text of that schema as protobuf prints it.\<close>

definition id_json :: string where
  "id_json =
     ''{ '' @ json_name ''fields'' @ '': [ { '' @ json_name ''name'' @ '': '' @ json_name ''tableType'' @ '', '' @
     json_name ''type'' @ '': '' @ json_name ''STRING'' @ '', '' @ json_name ''mode'' @ '': '' @ json_name ''NULLABLE'' @
     '' } ] }''"

definition json_env :: DuckEnv where
  "json_env =
     \<lparr>data_dir = ''/data'', absl_fns = absl_ref, io_fault = (\<lambda>w op. None), io_torn = (\<lambda>s. []),
      parquet_bytes = (\<lambda>rows. []),
      MessageToJsonString = (\<lambda>m. if m = TableSchemaToProto id_schema then Inr id_json else Inl ''unsupported''),
      JsonStringToMessage = (\<lambda>s. if s = id_json then Inr (TableSchemaToProto id_schema) else Inl ''unsupported''),
      lit_fns = sample_lit, duck_carry = (\<lambda>schema row. row), duck_raw = (\<lambda>sql w. w),
      duck_query = (\<lambda>w sql. Inl []), strtod_fn = (\<lambda>s. None)\<rparr>"

lemma balanced_id_json: "\<exists>a. balanced a \<and> id_json = CHR ''{'' # a @ CHR ''}'' # []"
proof -
  have str: "balanced (json_name t @ s)" if "json_chars t" "balanced s" for t s
    using balanced.text_part [OF that] by (simp add: json_name_def)
  have pl: "balanced (t @ s)" if "\<forall>c \<in> set t. c \<noteq> CHR 0x22 \<and> c \<noteq> CHR ''{'' \<and> c \<noteq> CHR ''}''" "balanced s" for t s
    using that by (induction t) (auto intro: balanced.plain)
  let ?field = "'' '' @ json_name ''name'' @ '': '' @ json_name ''tableType'' @ '', '' @
     json_name ''type'' @ '': '' @ json_name ''STRING'' @ '', '' @ json_name ''mode'' @ '': '' @ json_name ''NULLABLE'' @
     '' '' @ []"
  have "balanced ?field" by ((rule str pl, simp)+, rule balanced.empty)
  moreover have "balanced ('' ] '' @ [])" by ((rule str pl, simp)+, rule balanced.empty)
  ultimately have obj: "balanced (CHR ''{'' # ?field @ CHR ''}'' # '' ] '' @ [])"
    by (rule balanced.nested)
  have "balanced ('' '' @ json_name ''fields'' @ '': [ '' @ (CHR ''{'' # ?field @ CHR ''}'' # '' ] '' @ []))"
    by (rule pl, simp, rule str, simp, rule pl, simp, rule obj)
  then show ?thesis
    by (intro exI [of _ "'' '' @ json_name ''fields'' @ '': [ '' @ (CHR ''{'' # ?field @ CHR ''}'' # '' ] '' @ [])"])
      (simp add: id_json_def)
qed

lemma json_env_ok: "proto_json_ok json_env"
proof -
  obtain a where a: "balanced a" "id_json = CHR ''{'' # a @ CHR ''}'' # []" using balanced_id_json by blast
  show ?thesis
    unfolding proto_json_ok_def
  proof (intro allI impI)
    fix proto s assume "MessageToJsonString json_env proto = Inr s"
    then have "proto = TableSchemaToProto id_schema" "s = id_json"
      by (simp_all add: json_env_def split: if_splits)
    with a show "\<exists>a ws. balanced a \<and> s = CHR ''{'' # a @ CHR ''}'' # ws \<and>
        JsonStringToMessage json_env (CHR ''{'' # a @ ''}'') = Inr proto"
      by (intro exI [of _ a] exI [of _ "[]"]) (simp add: json_env_def)
  qed
qed

subsection \<open>Properties\<close>

text \<open>
  C27 (a table sidecar reads back). When protobuf's JSON text is one object that parses back,
  the sidecar that is written for a canonical schema parses to that schema, whatever braces,
  quotes or escapes its names and descriptions hold.
\<close>

theorem table_meta_roundtrip:
  assumes "proto_json_ok E" "list_all canonical_column (columns schema)"
    and "RenderTableMetaJson E schema = Inr json"
  shows "ParseTableMetaJson E json = Inr schema"
  using assms(1,3,2) by (rule RenderTableMetaJson_reads)

theorem table_meta_roundtrip_witness:
  "\<exists>json. RenderTableMetaJson json_env id_schema = Inr json \<and> ParseTableMetaJson json_env json = Inr id_schema"
proof -
  obtain json where "RenderTableMetaJson json_env id_schema = Inr json"
    by (simp add: RenderTableMetaJson_def json_env_def)
  moreover have "list_all canonical_column (columns id_schema)" by code_simp
  ultimately show ?thesis using table_meta_roundtrip [OF json_env_ok] by blast
qed

text \<open>
  A column hides that a table is a view. The type of a sidecar is found by searching its
  text for the quoted key, and the schema comes first: a view with a column named
  \<open>tableType\<close> is read as a table of type STRING, although its query reads back unharmed.
\<close>

theorem view_type_shadowed:
  "\<exists>json. RenderViewTableMetaJson json_env id_schema ''SELECT 1'' [] = Inr json \<and>
     ri_table_type (ParseTableResourceInfo json) = ''STRING'' \<and>
     ri_view_query (ParseTableResourceInfo json) = ''SELECT 1''"
proof -
  let ?j = "meta_head @ id_json @ view_tail ''SELECT 1'' []"
  have "RenderViewTableMetaJson json_env id_schema ''SELECT 1'' [] = Inr ?j" by code_simp
  moreover have "ri_table_type (ParseTableResourceInfo ?j) = ''STRING''" by code_simp
  moreover have "ri_view_query (ParseTableResourceInfo ?j) = ''SELECT 1''" by code_simp
  ultimately show ?thesis by blast
qed

end
