(* ===== verification/Version_Log.thy ===== *)
theory Version_Log
  imports Fs_World
begin

section \<open>The version log: \<open>duckdb_storage_version_log.h\<close> and \<open>.cc\<close>\<close>

text \<open>
  Each table keeps archived copies of its replaced Parquet snapshots in
  \<open>{table}.versions/\<close> and an index of them in \<open>{table}.versions.json\<close>; time-travel reads
  resolve a timestamp to one of the copies. The model renders and parses the index text as the
  code does, and follows the archive, prune and resolve functions step by step. The lemmas show
  that the index text round-trips and that the resolved snapshot is the one that was live at the
  requested time, for every history the log still holds.
\<close>

subsection \<open>Data\<close>

definition kTimeTravelWindowMs :: int where
  "kTimeTravelWindowMs = 7 * 24 * 60 * 60 * 1000"

record VersionEntry =
  valid_from_ms :: int
  ve_file :: string

record VersionIndex =
  created_ts_ms :: int
  current_ts_ms :: int
  versions :: "VersionEntry list"

subsection \<open>Index text\<close>

text \<open>\<open>valid_from_key\<close> and the others are the keys of the index object with their quotes.\<close>

definition json_key :: "string \<Rightarrow> string" where
  "json_key field = [CHR 0x22] @ field @ [CHR 0x22, CHR '':'']"

lemma json_key_nonempty [simp]: "0 < length (json_key field)"
  by (simp add: json_key_def)

definition EscapeJsonString :: "string \<Rightarrow> string" where
  "EscapeJsonString s =
     concat (map (\<lambda>c. if c = CHR 0x5C then [CHR 0x5C, CHR 0x5C]
                      else if c = CHR 0x22 then [CHR 0x5C, CHR 0x22] else [c]) s)"

definition is_number_char :: "char \<Rightarrow> bool" where
  "is_number_char c \<longleftrightarrow> c = CHR ''-'' \<or> ascii_isdigit c"

definition ParseJsonInt64Field :: "absl \<Rightarrow> string \<Rightarrow> string \<Rightarrow> int StatusOr" where
  "ParseJsonInt64Field A json field =
     (let needle = json_key field
      in case find_sub needle json of
           None \<Rightarrow> Inl (Status kInvalidArgument (''version index missing field '' @ field))
         | Some pos \<Rightarrow>
             (let rest = dropWhile (\<lambda>c. c = CHR '' '' \<or> c = CHR 0x09) (drop (pos + length needle) json);
                  num = takeWhile is_number_char rest
              in if num = []
                 then Inl (Status kInvalidArgument (''version index field '' @ field @ '' is not an integer''))
                 else case SimpleAtoi A num of
                        None \<Rightarrow> Inl (Status kInvalidArgument (''version index field '' @ field @ '' overflow''))
                      | Some value \<Rightarrow> Inr value))"

text \<open>The characters of a JSON string up to its closing quote, with backslash escapes removed.\<close>

fun unescape_until_quote :: "string \<Rightarrow> string" where
  "unescape_until_quote [] = []"
| "unescape_until_quote [c] = (if c = CHR 0x22 then [] else [c])"
| "unescape_until_quote (c # d # s) =
     (if c = CHR 0x5C then d # unescape_until_quote s
      else if c = CHR 0x22 then []
      else c # unescape_until_quote (d # s))"

text \<open>\<open>ParseVersionEntryFile\<close> on the text from the entry's position on.\<close>

definition ParseVersionEntryFile :: "string \<Rightarrow> string option" where
  "ParseVersionEntryFile json =
     (case find_sub (json_key ''file'' @ [CHR 0x22]) json of
        None \<Rightarrow> None
      | Some file_key \<Rightarrow>
          (let file = unescape_until_quote (drop (file_key + 8) json)
           in if file = [] then None else Some file))"

definition ParseVersionEntryAt :: "absl \<Rightarrow> string \<Rightarrow> VersionEntry option" where
  "ParseVersionEntryAt A json =
     (let num = takeWhile is_number_char (drop (length (json_key ''valid_from_ms'')) json);
          from_ms = (if num = [] then 0 else case SimpleAtoi A num of None \<Rightarrow> 0 | Some v \<Rightarrow> v)
      in map_option (\<lambda>file. \<lparr>valid_from_ms = from_ms, ve_file = file\<rparr>) (ParseVersionEntryFile json))"

text \<open>The scan loop of \<open>ParseVersionEntries\<close>, before the entries are sorted.\<close>

function ScanVersionEntries :: "absl \<Rightarrow> string \<Rightarrow> VersionEntry list" where
  "ScanVersionEntries A json =
     (case find_sub (json_key ''valid_from_ms'') json of
        None \<Rightarrow> []
      | Some pos \<Rightarrow>
          (case ParseVersionEntryAt A (drop pos json) of None \<Rightarrow> [] | Some e \<Rightarrow> [e]) @
          ScanVersionEntries A (drop (pos + length (json_key ''valid_from_ms'')) json))"
  by pat_completeness auto
termination
proof (relation "measure (\<lambda>(A, json). length json)")
  show "((A, drop (pos + length (json_key ''valid_from_ms'')) json), (A, json)) \<in>
      measure (\<lambda>(A, json). length json)"
    if "find_sub (json_key ''valid_from_ms'') json = Some pos" for A json pos
    unfolding in_measure prod.case length_drop
    using find_sub_Some [OF that, THEN conjunct1] json_key_nonempty [of "''valid_from_ms''"] by linarith
qed simp

declare ScanVersionEntries.simps [simp del]

definition ParseVersionEntries :: "absl \<Rightarrow> string \<Rightarrow> VersionEntry list" where
  "ParseVersionEntries A json = sort_key valid_from_ms (ScanVersionEntries A json)"

definition RenderVersionEntry :: "VersionEntry \<Rightarrow> string" where
  "RenderVersionEntry v =
     ''{'' @ json_key ''valid_from_ms'' @ dec (valid_from_ms v) @ '','' @ json_key ''file'' @
     [CHR 0x22] @ EscapeJsonString (ve_file v) @ [CHR 0x22] @ ''}''"

definition RenderVersionIndexJson :: "VersionIndex \<Rightarrow> string" where
  "RenderVersionIndexJson index =
     ''{'' @ json_key ''created_ts_ms'' @ dec (created_ts_ms index) @ '','' @
     json_key ''current_ts_ms'' @ dec (current_ts_ms index) @ '','' @
     json_key ''versions'' @ ''['' @ join (CHR '','') (map RenderVersionEntry (versions index)) @ '']}''"

subsection \<open>Reading and writing the index\<close>

definition ParseVersionIndex :: "absl \<Rightarrow> string \<Rightarrow> VersionIndex StatusOr" where
  "ParseVersionIndex A contents =
     (case ParseJsonInt64Field A contents ''created_ts_ms'' of
        Inl e \<Rightarrow> Inl e
      | Inr created \<Rightarrow>
          (case ParseJsonInt64Field A contents ''current_ts_ms'' of
             Inl e \<Rightarrow> Inl e
           | Inr current \<Rightarrow>
               Inr \<lparr>created_ts_ms = created, current_ts_ms = current,
                    versions = ParseVersionEntries A contents\<rparr>))"

definition LoadVersionIndexOrInit :: "DuckEnv \<Rightarrow> TableId \<Rightarrow> World \<Rightarrow> VersionIndex StatusOr" where
  "LoadVersionIndexOrInit E tid w =
     (let index_path = TableVersionsIndexPath E tid
      in if \<not> fs_exists w index_path
         then Inr \<lparr>created_ts_ms = clock_ms w, current_ts_ms = clock_ms w, versions = []\<rparr>
         else case ReadFile E w index_path of
                Inl e \<Rightarrow> Inl e
              | Inr contents \<Rightarrow> ParseVersionIndex (absl_fns E) contents)"

definition ReadVersionIndex :: "DuckEnv \<Rightarrow> string \<Rightarrow> bool \<Rightarrow> World \<Rightarrow> VersionIndex StatusOr" where
  "ReadVersionIndex E index_path allow_missing w =
     (if \<not> fs_exists w index_path
      then if allow_missing
           then Inr \<lparr>created_ts_ms = 0, current_ts_ms = 0, versions = []\<rparr>
           else Inl (Status kNotFound (''version index not found: '' @ index_path))
      else case ReadFile E w index_path of
             Inl e \<Rightarrow> Inl e
           | Inr contents \<Rightarrow> ParseVersionIndex (absl_fns E) contents)"

definition WriteVersionIndex :: "DuckEnv \<Rightarrow> string \<Rightarrow> VersionIndex \<Rightarrow> World \<Rightarrow> unit StatusOr \<times> World" where
  "WriteVersionIndex E index_path index w = WriteFileAtomic E index_path (RenderVersionIndexJson index) w"

definition InitVersionIndex :: "DuckEnv \<Rightarrow> TableId \<Rightarrow> int \<Rightarrow> World \<Rightarrow> unit StatusOr \<times> World" where
  "InitVersionIndex E tid created w =
     WriteVersionIndex E (TableVersionsIndexPath E tid)
       \<lparr>created_ts_ms = created, current_ts_ms = created, versions = []\<rparr> w"

subsection \<open>Archive, prune and resolve\<close>

definition EarliestReadableMs :: "VersionIndex \<Rightarrow> int" where
  "EarliestReadableMs index =
     (if versions index = [] then created_ts_ms index
      else min (created_ts_ms index) (valid_from_ms (hd (versions index))))"

definition version_path :: "DuckEnv \<Rightarrow> TableId \<Rightarrow> string \<Rightarrow> string" where
  "version_path E tid file = path_join (TableVersionsDir E tid) file"

definition PruneOldVersions :: "DuckEnv \<Rightarrow> TableId \<Rightarrow> int \<Rightarrow> VersionIndex \<Rightarrow> World \<Rightarrow> VersionIndex \<times> World" where
  "PruneOldVersions E tid now_ms index w =
     (let cutoff = now_ms - kTimeTravelWindowMs;
          old = filter (\<lambda>v. valid_from_ms v < cutoff) (versions index);
          kept = filter (\<lambda>v. \<not> valid_from_ms v < cutoff) (versions index)
      in (index\<lparr>versions := kept,
                created_ts_ms := (if created_ts_ms index < cutoff then cutoff else created_ts_ms index)\<rparr>,
          foldl (\<lambda>w v. fs_remove (version_path E tid (ve_file v)) w) w old))"

definition archive_name :: "int \<Rightarrow> string" where
  "archive_name ts = dec ts @ ''.parquet''"

definition ArchiveParquetBeforeReplace ::
  "DuckEnv \<Rightarrow> TableId \<Rightarrow> string \<Rightarrow> int \<Rightarrow> World \<Rightarrow> unit StatusOr \<times> World" where
  "ArchiveParquetBeforeReplace E tid live_parquet_path mutation_ts_ms w =
     (if \<not> fs_exists w live_parquet_path then
        (case LoadVersionIndexOrInit E tid w of
           Inl e \<Rightarrow> (Inl e, w)
         | Inr index \<Rightarrow>
             (let (index', w') = PruneOldVersions E tid mutation_ts_ms
                    (index\<lparr>current_ts_ms := mutation_ts_ms\<rparr>) w
              in WriteVersionIndex E (TableVersionsIndexPath E tid) index' w'))
      else
        (case LoadVersionIndexOrInit E tid w of
           Inl e \<Rightarrow> (Inl e, w)
         | Inr index \<Rightarrow>
        (case fs_create_directories E (TableVersionsDir E tid) w of
           (Some ec, w1) \<Rightarrow>
             (Inl (FilesystemStatus (''failed to create versions dir: '' @ TableVersionsDir E tid) ec), w1)
         | (None, w1) \<Rightarrow>
        (let name = archive_name (current_ts_ms index); archive_path = version_path E tid name
         in case fs_copy_file E live_parquet_path archive_path w1 of
           (Some ec, w2) \<Rightarrow>
             (Inl (FilesystemStatus (''failed to archive parquet to '' @ archive_path) ec), w2)
         | (None, w2) \<Rightarrow>
             (let index1 = index\<lparr>versions := sort_key valid_from_ms
                    (versions index @ [\<lparr>valid_from_ms = current_ts_ms index, ve_file = name\<rparr>]),
                    current_ts_ms := mutation_ts_ms\<rparr>;
                  (index2, w3) = PruneOldVersions E tid mutation_ts_ms index1 w2
              in WriteVersionIndex E (TableVersionsIndexPath E tid) index2 w3)))))"

text \<open>
  The errors of \<open>ResolveParquetSnapshotAt\<close>: a timestamp outside the readable history carries
  the timestamp and the earliest readable one.
\<close>

datatype ResolveError =
    InvalidSnapshotTime TableId int int
  | ParquetMissing TableId
  | IndexUnreadable Status

fun resolve_error_status :: "ResolveError \<Rightarrow> Status" where
  "resolve_error_status (InvalidSnapshotTime tid as_of earliest) =
     Status kInvalidArgument
       (''Invalid snapshot time '' @ dec as_of @ '' for table '' @ project_id tid @ '':'' @
        dataset_id tid @ ''.'' @ table_id tid @ ''@'' @ dec as_of @ ''. Cannot read before '' @
        dec earliest @ ''.'')"
| "resolve_error_status (ParquetMissing tid) =
     Status kNotFound
       (''table parquet missing: '' @ project_id tid @ ''.'' @ dataset_id tid @ ''.'' @ table_id tid)"
| "resolve_error_status (IndexUnreadable e) = e"

definition best_version :: "int \<Rightarrow> VersionEntry list \<Rightarrow> VersionEntry option" where
  "best_version as_of vs = foldl (\<lambda>best v. if valid_from_ms v \<le> as_of then Some v else best) None vs"

definition ResolveParquetSnapshotAt ::
  "DuckEnv \<Rightarrow> TableId \<Rightarrow> string \<Rightarrow> int \<Rightarrow> int \<Rightarrow> World \<Rightarrow> ResolveError + string" where
  "ResolveParquetSnapshotAt E tid live_parquet_path as_of_ms now_ms w =
     (case LoadVersionIndexOrInit E tid w of
        Inl e \<Rightarrow> Inl (IndexUnreadable e)
      | Inr index \<Rightarrow>
          (if as_of_ms > now_ms
           then Inl (InvalidSnapshotTime tid as_of_ms (created_ts_ms index))
           else if as_of_ms < now_ms - kTimeTravelWindowMs
           then Inl (InvalidSnapshotTime tid as_of_ms
                  (max (EarliestReadableMs index) (now_ms - kTimeTravelWindowMs)))
           else if \<not> fs_exists w (TableVersionsIndexPath E tid) \<and> versions index = [] \<and>
                   as_of_ms \<le> now_ms \<and> fs_exists w live_parquet_path
           then Inr live_parquet_path
           else if as_of_ms < created_ts_ms index
           then Inl (InvalidSnapshotTime tid as_of_ms (created_ts_ms index))
           else if as_of_ms \<ge> current_ts_ms index
           then if \<not> fs_exists w live_parquet_path then Inl (ParquetMissing tid)
                else Inr live_parquet_path
           else case best_version as_of_ms (versions index) of
                  None \<Rightarrow> Inl (InvalidSnapshotTime tid as_of_ms (created_ts_ms index))
                | Some v \<Rightarrow>
                    (let path = version_path E tid (ve_file v)
                     in if \<not> fs_exists w path
                        then Inl (InvalidSnapshotTime tid as_of_ms (created_ts_ms index))
                        else Inr path)))"

subsection \<open>The index text round-trips\<close>

lemma EscapeJsonString_Cons:
  "EscapeJsonString (c # s) =
     (if c = CHR 0x5C \<or> c = CHR 0x22 then [CHR 0x5C, c] else [c]) @ EscapeJsonString s"
  by (simp add: EscapeJsonString_def)

lemma EscapeJsonString_Nil [simp]: "EscapeJsonString [] = []"
  by (simp add: EscapeJsonString_def)

lemma unescape_plain:
  "c \<noteq> CHR 0x5C \<Longrightarrow> c \<noteq> CHR 0x22 \<Longrightarrow> unescape_until_quote (c # s) = c # unescape_until_quote s"
  by (cases s) auto

lemma unescape_quote: "unescape_until_quote (CHR 0x22 # s) = []"
  by (cases s) auto

lemma unescape_EscapeJsonString:
  "unescape_until_quote (EscapeJsonString f @ CHR 0x22 # r) = f"
  by (induction f) (auto simp: EscapeJsonString_Cons unescape_plain unescape_quote)

text \<open>No key occurs inside an escaped string that is closed by a quote and a brace.\<close>

lemma key_tail_not_in_escaped:
  assumes "CHR 0x22 \<notin> set k" "CHR 0x5C \<notin> set k"
  shows "\<not> prefix (k @ [CHR 0x22, CHR '':'']) (EscapeJsonString f @ CHR 0x22 # CHR ''}'' # r)"
  using assms
proof (induction k arbitrary: f)
  case Nil
  then show ?case by (cases f) (auto simp: EscapeJsonString_Cons)
next
  case (Cons a k)
  show ?case
  proof (cases f)
    case Nil
    with Cons.prems show ?thesis by auto
  next
    case (Cons c f')
    then show ?thesis using Cons.IH [of f'] Cons.prems by (auto simp: EscapeJsonString_Cons)
  qed
qed

lemma find_key_skip_escaped:
  assumes "CHR 0x22 \<notin> set field" "CHR 0x5C \<notin> set field" "CHR ''}'' \<notin> set field"
  shows "find_sub (json_key field) (EscapeJsonString f @ CHR 0x22 # CHR ''}'' # r) =
    map_option (\<lambda>i. length (EscapeJsonString f) + 1 + i) (find_sub (json_key field) (CHR ''}'' # r))"
proof (induction f)
  case Nil
  have "\<not> prefix (json_key field) (CHR 0x22 # CHR ''}'' # r)"
    using assms by (cases field) (auto simp: json_key_def)
  then show ?case by simp
next
  case (Cons c f)
  let ?s = "EscapeJsonString f @ CHR 0x22 # CHR ''}'' # r"
  have noq: "\<not> prefix (json_key field) (d # t)" if "d \<noteq> CHR 0x22" for d t
    using that by (simp add: json_key_def)
  have q: "\<not> prefix (json_key field) (CHR 0x22 # ?s)"
    using key_tail_not_in_escaped [OF assms(1,2), of f r] by (simp add: json_key_def)
  show ?case
    using Cons noq q by (auto simp: EscapeJsonString_Cons option.map_comp o_def)
qed

lemma number_char_dec: "c \<in> set (dec i) \<Longrightarrow> is_number_char c"
  using dec_chars by (auto simp: is_number_char_def)

lemma takeWhile_number_dec:
  "\<not> is_number_char c \<Longrightarrow> takeWhile is_number_char (dec i @ c # r) = dec i"
  by (rule takeWhile_append_stop) (auto simp: number_char_dec)

lemma find_key_skip_dec:
  "find_sub (json_key field) (dec i @ r) =
     map_option (\<lambda>k. length (dec i) + k) (find_sub (json_key field) r)"
  by (rule find_sub_skip [of _ "CHR 0x22" "field @ [CHR 0x22, CHR '':'']"])
    (auto simp: json_key_def dec_no_char)

lemma dec_skip_blank:
  "dropWhile (\<lambda>c. c = CHR '' '' \<or> c = CHR 0x09) (dec i @ r) = dec i @ r"
proof -
  have "hd (dec i) \<noteq> CHR '' ''" "hd (dec i) \<noteq> CHR 0x09"
    using dec_chars [of "hd (dec i)" i] by (auto simp del: ascii_isdigit_Char)
      (metis ascii_isdigit_Char dec_chars hd_in_set dec_not_Nil)+
  then show ?thesis by (cases "dec i") auto
qed

definition entry_ok :: "VersionEntry \<Rightarrow> bool" where
  "entry_ok v \<longleftrightarrow> in_int64 (valid_from_ms v) \<and> ve_file v \<noteq> []"

definition index_ok :: "VersionIndex \<Rightarrow> bool" where
  "index_ok index \<longleftrightarrow> in_int64 (created_ts_ms index) \<and> in_int64 (current_ts_ms index) \<and>
     list_all entry_ok (versions index) \<and> sorted (map valid_from_ms (versions index))"

lemma find_current_header:
  "find_sub (json_key ''current_ts_ms'') (''{'' @ json_key ''created_ts_ms'' @ x) =
     map_option (\<lambda>i. 17 + i) (find_sub (json_key ''current_ts_ms'') x)"
  by (cases "find_sub (json_key ''current_ts_ms'') x") (simp_all add: json_key_def)

lemma find_valid_from_header:
  "find_sub (json_key ''valid_from_ms'') (''{'' @ json_key ''created_ts_ms'' @ x) =
     map_option (\<lambda>i. 17 + i) (find_sub (json_key ''valid_from_ms'') x)"
  "find_sub (json_key ''valid_from_ms'') ('','' @ json_key ''current_ts_ms'' @ x) =
     map_option (\<lambda>i. 17 + i) (find_sub (json_key ''valid_from_ms'') x)"
  "find_sub (json_key ''valid_from_ms'') ('','' @ json_key ''versions'' @ ''['' @ x) =
     map_option (\<lambda>i. 13 + i) (find_sub (json_key ''valid_from_ms'') x)"
  by (cases "find_sub (json_key ''valid_from_ms'') x"; simp add: json_key_def)+

lemma find_comma_key: "field \<noteq> [] \<Longrightarrow> find_sub (json_key field) ('','' @ json_key field @ x) = Some 1"
  using find_sub_prefix_hit [of "json_key field" x] by (simp add: json_key_def)

context absl_api begin

lemma ParseJsonInt64Field_hit:
  assumes "find_sub (json_key field) json = Some i" "drop (i + length (json_key field)) json = dec n @ c # r"
    "in_int64 n" "\<not> is_number_char c"
  shows "ParseJsonInt64Field A json field = Inr n"
  using assms by (simp add: ParseJsonInt64Field_def dec_skip_blank takeWhile_number_dec atoi_dec)

lemma scan_skip:
  assumes "find_sub (json_key ''valid_from_ms'') (x @ y) =
    map_option (\<lambda>i. length x + i) (find_sub (json_key ''valid_from_ms'') y)"
  shows "ScanVersionEntries A (x @ y) = ScanVersionEntries A y"
  using assms
  by (subst (1 2) ScanVersionEntries.simps) (simp split: option.split)

lemma find_valid_from_after_number:
  "find_sub (json_key ''valid_from_ms'')
     ((dec n @ '','' @ json_key ''file'' @ [CHR 0x22] @ EscapeJsonString f @ [CHR 0x22]) @ CHR ''}'' # r) =
   map_option (\<lambda>i. length (dec n @ '','' @ json_key ''file'' @ [CHR 0x22] @ EscapeJsonString f @ [CHR 0x22]) + i)
     (find_sub (json_key ''valid_from_ms'') (CHR ''}'' # r))"
proof -
  let ?K = "json_key ''valid_from_ms''"
  define y where "y = EscapeJsonString f @ CHR 0x22 # CHR ''}'' # r"
  have q: "\<not> prefix ?K (CHR 0x22 # y)"
    using key_tail_not_in_escaped [of "''valid_from_ms''" f r] by (simp add: json_key_def y_def)
  have 1: "find_sub ?K ('','' @ json_key ''file'' @ [CHR 0x22] @ y) = map_option (\<lambda>i. 9 + i) (find_sub ?K y)"
    using q by (cases "find_sub ?K y") (simp_all add: json_key_def)
  have 2: "find_sub ?K y = map_option (\<lambda>i. length (EscapeJsonString f) + 1 + i) (find_sub ?K (CHR ''}'' # r))"
    unfolding y_def by (rule find_key_skip_escaped) simp_all
  have len: "length (dec n @ '','' @ json_key ''file'' @ [CHR 0x22] @ EscapeJsonString f @ [CHR 0x22]) =
      length (dec n) + (9 + (length (EscapeJsonString f) + 1))"
    by (simp add: json_key_def)
  have body: "(dec n @ '','' @ json_key ''file'' @ [CHR 0x22] @ EscapeJsonString f @ [CHR 0x22]) @ CHR ''}'' # r =
      dec n @ '','' @ json_key ''file'' @ [CHR 0x22] @ y"
    by (simp add: y_def)
  show ?thesis
    unfolding body len find_key_skip_dec 1 2 by (simp add: option.map_comp o_def add.assoc)
qed

lemma ParseVersionEntryAt_rendered:
  assumes "in_int64 n" "f \<noteq> []"
  shows "ParseVersionEntryAt A (json_key ''valid_from_ms'' @ dec n @ '','' @ json_key ''file'' @
      [CHR 0x22] @ EscapeJsonString f @ [CHR 0x22] @ r) = Some \<lparr>valid_from_ms = n, ve_file = f\<rparr>"
proof -
  let ?fk = "json_key ''file'' @ [CHR 0x22]"
  let ?r = "EscapeJsonString f @ CHR 0x22 # r"
  have 1: "find_sub ?fk (dec n @ '','' @ ?fk @ ?r) = Some (length (dec n) + 1)"
    by (subst find_sub_skip [of _ "CHR 0x22" "''file'' @ [CHR 0x22, CHR '':'', CHR 0x22]"])
      (simp_all add: json_key_def dec_no_char)
  have 2: "find_sub ?fk (json_key ''valid_from_ms'' @ x) =
      map_option (\<lambda>i. 16 + i) (find_sub ?fk x)" for x
    by (cases "find_sub ?fk x") (simp_all add: json_key_def)
  have "find_sub ?fk (json_key ''valid_from_ms'' @ dec n @ '','' @ ?fk @ ?r) =
      Some (16 + (length (dec n) + 1))"
    unfolding 2 1 by simp
  moreover have "drop (16 + (length (dec n) + 1) + 8) (json_key ''valid_from_ms'' @ dec n @ '','' @ ?fk @ ?r) = ?r"
  proof -
    have "16 + (length (dec n) + 1) + 8 = length (json_key ''valid_from_ms'' @ dec n @ '','' @ ?fk)"
      by (simp add: json_key_def)
    moreover have "drop (length p) (p @ y) = y" for p y :: string by simp
    note this [of "json_key ''valid_from_ms'' @ dec n @ '','' @ ?fk" ?r]
    ultimately show ?thesis by (simp only: append_assoc)
  qed
  ultimately have "ParseVersionEntryFile (json_key ''valid_from_ms'' @ dec n @ '','' @ ?fk @ ?r) = Some f"
    using assms(2) by (simp add: ParseVersionEntryFile_def unescape_EscapeJsonString)
  moreover have "takeWhile is_number_char (dec n @ CHR '','' # x) = dec n" for x
    by (rule takeWhile_number_dec) (simp add: is_number_char_def)
  ultimately show ?thesis
    using assms(1) by (simp add: ParseVersionEntryAt_def atoi_dec)
qed

lemma ScanVersionEntries_rendered:
  assumes "list_all entry_ok vs" "CHR 0x22 \<notin> set u"
  shows "ScanVersionEntries A (u @ join (CHR '','') (map RenderVersionEntry vs) @ '']}'') = vs"
  using assms
proof (induction vs arbitrary: u)
  case Nil
  have "find_sub (json_key ''valid_from_ms'') (u @ '']}'') = None"
    by (subst find_sub_skip [of _ "CHR 0x22" "''valid_from_ms'' @ [CHR 0x22, CHR '':'']"])
      (simp_all add: json_key_def Nil.prems)
  then show ?case by (subst ScanVersionEntries.simps) simp
next
  case (Cons v vs)
  obtain n f where v: "v = \<lparr>valid_from_ms = n, ve_file = f\<rparr>" by (cases v) auto
  with Cons.prems have ok: "in_int64 n" "f \<noteq> []" by (simp_all add: entry_ok_def)
  define u' where "u' = (if vs = [] then ''}'' else ''},'')"
  define rest where "rest = tl u' @ join (CHR '','') (map RenderVersionEntry vs) @ '']}''"
  let ?K = "json_key ''valid_from_ms''"
  let ?tail = "dec n @ '','' @ json_key ''file'' @ [CHR 0x22] @ EscapeJsonString f @ [CHR 0x22]"
  have body: "u @ join (CHR '','') (map RenderVersionEntry (v # vs)) @ '']}'' =
      (u @ ''{'') @ ?K @ ?tail @ CHR ''}'' # rest"
    by (cases vs) (simp_all add: RenderVersionEntry_def v rest_def u'_def)
  have find: "find_sub ?K ((u @ ''{'') @ ?K @ ?tail @ CHR ''}'' # rest) = Some (length (u @ ''{''))"
    by (subst find_sub_skip [of _ "CHR 0x22" "''valid_from_ms'' @ [CHR 0x22, CHR '':'']"])
      (use Cons.prems in \<open>simp_all add: json_key_def\<close>)
  have entry: "ParseVersionEntryAt A (?K @ ?tail @ CHR ''}'' # rest) = Some v"
    using ParseVersionEntryAt_rendered [OF ok, of "CHR ''}'' # rest"] by (simp add: v)
  have drops: "drop (length (u @ ''{'')) ((u @ ''{'') @ ?K @ ?tail @ CHR ''}'' # rest) =
      ?K @ ?tail @ CHR ''}'' # rest"
    "drop (length (u @ ''{'') + length ?K) ((u @ ''{'') @ ?K @ ?tail @ CHR ''}'' # rest) =
      ?tail @ CHR ''}'' # rest"
    by simp_all
  have "CHR ''}'' # rest = u' @ join (CHR '','') (map RenderVersionEntry vs) @ '']}''"
    by (simp add: rest_def u'_def)
  then have "ScanVersionEntries A (CHR ''}'' # rest) = vs"
    using Cons.IH [of u'] Cons.prems by (simp add: u'_def)
  moreover have "ScanVersionEntries A (?tail @ CHR ''}'' # rest) = ScanVersionEntries A (CHR ''}'' # rest)"
    by (rule scan_skip) (rule find_valid_from_after_number)
  ultimately have "ScanVersionEntries A (?tail @ CHR ''}'' # rest) = vs" by (rule trans [rotated])
  then show ?case
    unfolding body by (subst ScanVersionEntries.simps) (simp only: find option.case drops entry, simp)
qed

lemma ParseVersionIndex_rendered:
  assumes "index_ok index"
  shows "ParseVersionIndex A (RenderVersionIndexJson index) = Inr index"
proof -
  define es where "es = join (CHR '','') (map RenderVersionEntry (versions index)) @ '']}''"
  define t2 where "t2 = '','' @ json_key ''versions'' @ ''['' @ es"
  define t1 where "t1 = '','' @ json_key ''current_ts_ms'' @ dec (current_ts_ms index) @ t2"
  have body: "RenderVersionIndexJson index =
      ''{'' @ json_key ''created_ts_ms'' @ dec (created_ts_ms index) @ t1"
    by (simp add: RenderVersionIndexJson_def t1_def t2_def es_def)
  have comma: "\<not> is_number_char (CHR '','')" by (simp add: is_number_char_def)
  obtain r1 r2 where r: "t1 = CHR '','' # r1" "t2 = CHR '','' # r2" by (simp add: t1_def t2_def)
  have created: "ParseJsonInt64Field A (RenderVersionIndexJson index) ''created_ts_ms'' = Inr (created_ts_ms index)"
  proof (rule ParseJsonInt64Field_hit)
    show "find_sub (json_key ''created_ts_ms'') (RenderVersionIndexJson index) = Some 1"
      unfolding body using find_sub_prefix_hit [of "json_key ''created_ts_ms''"] by (simp add: json_key_def)
    show "drop (1 + length (json_key ''created_ts_ms'')) (RenderVersionIndexJson index) =
        dec (created_ts_ms index) @ CHR '','' # r1"
      unfolding body by (simp add: r)
  qed (use assms comma in \<open>simp_all add: index_ok_def\<close>)
  have current: "ParseJsonInt64Field A (RenderVersionIndexJson index) ''current_ts_ms'' = Inr (current_ts_ms index)"
  proof (rule ParseJsonInt64Field_hit)
    show "find_sub (json_key ''current_ts_ms'') (RenderVersionIndexJson index) =
        Some (17 + (length (dec (created_ts_ms index)) + 1))"
      unfolding body find_current_header find_key_skip_dec t1_def by (subst find_comma_key) simp_all
    have "17 + (length (dec (created_ts_ms index)) + 1) + length (json_key ''current_ts_ms'') =
        length (''{'' @ json_key ''created_ts_ms'' @ dec (created_ts_ms index) @ '','' @ json_key ''current_ts_ms'')"
      by (simp add: json_key_def)
    moreover have "drop (length p) (p @ y) = y" for p y :: string by simp
    note this [of "''{'' @ json_key ''created_ts_ms'' @ dec (created_ts_ms index) @ '','' @ json_key ''current_ts_ms''"
        "dec (current_ts_ms index) @ t2"]
    ultimately show "drop (17 + (length (dec (created_ts_ms index)) + 1) + length (json_key ''current_ts_ms''))
        (RenderVersionIndexJson index) = dec (current_ts_ms index) @ CHR '','' # r2"
      unfolding body t1_def by (simp only: append_assoc r(2))
  qed (use assms comma in \<open>simp_all add: index_ok_def\<close>)
  have "ScanVersionEntries A (RenderVersionIndexJson index) = ScanVersionEntries A es"
  proof -
    let ?K = "json_key ''valid_from_ms''"
    let ?h = "''{'' @ json_key ''created_ts_ms'' @ dec (created_ts_ms index) @ '','' @
      json_key ''current_ts_ms'' @ dec (current_ts_ms index) @ '','' @ json_key ''versions'' @ ''[''"
    have len: "length ?h = 17 + (length (dec (created_ts_ms index)) +
        (17 + (length (dec (current_ts_ms index)) + 13)))"
      by (simp add: json_key_def)
    have h: "RenderVersionIndexJson index = ?h @ es" by (simp add: body t1_def t2_def)
    have "find_sub ?K (?h @ es) = map_option (\<lambda>i. length ?h + i) (find_sub ?K es)"
      unfolding len append_assoc find_valid_from_header find_key_skip_dec
      by (simp add: option.map_comp o_def add.assoc)
    then show ?thesis unfolding h by (rule scan_skip)
  qed
  also have "\<dots> = versions index"
    using ScanVersionEntries_rendered [of "versions index" "[]"] assms by (simp add: index_ok_def es_def)
  finally have "ParseVersionEntries A (RenderVersionIndexJson index) = versions index"
    using assms by (simp add: ParseVersionEntries_def index_ok_def sort_key_id_if_sorted)
  with created current show ?thesis by (simp add: ParseVersionIndex_def)
qed

end

subsection \<open>Histories\<close>

text \<open>
  The abstract view of a table's versions: the snapshots with the time from which each was live,
  oldest first, the last one being the live table. \<open>snapshot_at\<close> is the content live at a time.
\<close>

type_synonym History = "(int \<times> Row list) list"

definition snapshot_at :: "History \<Rightarrow> int \<Rightarrow> Row list option" where
  "snapshot_at H a =
     (if filter (\<lambda>h. fst h \<le> a) H = [] then None
      else Some (snd (last (filter (\<lambda>h. fst h \<le> a) H))))"

definition prune_history :: "int \<Rightarrow> History \<Rightarrow> History" where
  "prune_history now H = filter (\<lambda>h. now - kTimeTravelWindowMs \<le> fst h) H"

definition history_entry :: "int \<times> Row list \<Rightarrow> VersionEntry" where
  "history_entry h = \<lparr>valid_from_ms = fst h, ve_file = archive_name (fst h)\<rparr>"

text \<open>The files and the index represent a history.\<close>

definition represents :: "DuckEnv \<Rightarrow> TableId \<Rightarrow> World \<Rightarrow> VersionIndex \<Rightarrow> History \<Rightarrow> bool" where
  "represents E tid w index H \<longleftrightarrow>
     H \<noteq> [] \<and> sorted_wrt (<) (map fst H) \<and> index_ok index \<and>
     files w (TableVersionsIndexPath E tid) = Some (TextFile (RenderVersionIndexJson index)) \<and>
     current_ts_ms index = fst (last H) \<and> created_ts_ms index \<le> fst (hd H) \<and>
     versions index = map history_entry (butlast H) \<and>
     (\<forall>h \<in> set (butlast H). files w (version_path E tid (archive_name (fst h))) = Some (ParquetFile (snd h))) \<and>
     files w (TableParquetPath E tid) = Some (ParquetFile (snd (last H)))"

subsection \<open>Paths of one table\<close>

lemma archive_name_inj: "archive_name a = archive_name b \<longleftrightarrow> a = b"
  by (simp add: archive_name_def dec_inj)

lemma version_path_eq:
  assumes "safe_table tid"
  shows "version_path E tid (archive_name t) =
    path_join (DatasetDir E tid) (table_id tid @ ''.versions/'' @ archive_name t)"
proof -
  have hd: "hd (archive_name t) \<noteq> CHR ''/''"
    using dec_no_char [of "CHR ''/''" t] hd_no_slash [of "dec t"] by (simp add: archive_name_def)
  show ?thesis
    unfolding version_path_def TableVersionsDir_def dataset_path [OF assms]
    using hd by (subst path_join_safe) (simp_all add: archive_name_def)
qed

lemma table_paths_distinct:
  assumes "safe_table tid"
  shows "version_path E tid (archive_name t) \<noteq> TableVersionsIndexPath E tid"
    "version_path E tid (archive_name t) \<noteq> TableVersionsIndexPath E tid @ ''.tmp''"
    "version_path E tid (archive_name t) \<noteq> TableParquetPath E tid"
    "version_path E tid (archive_name t) \<noteq> TableParquetPath E tid @ ''.tmp''"
    "TableParquetPath E tid \<noteq> TableVersionsIndexPath E tid"
    "TableParquetPath E tid \<noteq> TableVersionsIndexPath E tid @ ''.tmp''"
    "version_path E tid (archive_name t) = version_path E tid (archive_name u) \<longleftrightarrow> t = u"
  unfolding version_path_eq [OF assms] TableVersionsIndexPath_def TableParquetPath_def
    dataset_path [OF assms]
  by (simp_all add: archive_name_inj)

lemma index_path_not_parquet_tmp:
  "safe_table tid \<Longrightarrow> TableVersionsIndexPath E tid \<noteq> TableParquetPath E tid @ ''.tmp''"
  by (simp add: TableVersionsIndexPath_def TableParquetPath_def dataset_path)

subsection \<open>File operations\<close>

lemma WriteFileAtomic_ok:
  "WriteFileAtomic E path contents w = (Inr u, w') \<Longrightarrow>
     files w' = (files w)(path @ ''.tmp'' := None, path \<mapsto> TextFile contents) \<and>
     dirs w' = dirs w \<and> temp_tables w' = temp_tables w \<and> clock_ms w' = clock_ms w"
  by (auto simp: WriteFileAtomic_def fs_rename_def Let_def split: option.splits prod.splits)

lemma remove_all_files:
  "files (foldl (\<lambda>w v. fs_remove (f v) w) w vs) = (\<lambda>p. if p \<in> f ` set vs then None else files w p)"
  by (induction vs arbitrary: w) (auto simp: fs_remove_def fun_eq_iff)

lemma remove_all_other:
  "dirs (foldl (\<lambda>w v. fs_remove (f v) w) w vs) = dirs w"
  "temp_tables (foldl (\<lambda>w v. fs_remove (f v) w) w vs) = temp_tables w"
  "clock_ms (foldl (\<lambda>w v. fs_remove (f v) w) w vs) = clock_ms w"
  by (induction vs arbitrary: w) (auto simp: fs_remove_def)

lemma LoadVersionIndex_represents:
  assumes "absl_api (absl_fns E)" "represents E tid w index H"
    "io_fault E w (IoOpenRead (TableVersionsIndexPath E tid)) = None"
  shows "LoadVersionIndexOrInit E tid w = Inr index"
  using assms absl_api.ParseVersionIndex_rendered [OF assms(1), of index]
  by (simp add: represents_def LoadVersionIndexOrInit_def fs_exists_def ReadFile_def)

subsection \<open>Resolving a time finds the snapshot that was live\<close>

lemma best_version_filter:
  "best_version a vs =
     (case filter (\<lambda>v. valid_from_ms v \<le> a) vs of [] \<Rightarrow> None | xs \<Rightarrow> Some (last xs))"
  unfolding best_version_def
  by (induction vs rule: rev_induct) (auto split: list.splits)

lemma snapshot_at_butlast:
  assumes "H \<noteq> []" "a < fst (last H)"
  shows "snapshot_at H a = snapshot_at (butlast H) a"
proof -
  have "filter (\<lambda>h. fst h \<le> a) (butlast H @ [last H]) = filter (\<lambda>h. fst h \<le> a) (butlast H)"
    using assms(2) by simp
  then show ?thesis using assms(1) by (simp add: snapshot_at_def)
qed

lemma snapshot_at_live: "H \<noteq> [] \<Longrightarrow> fst (last H) \<le> a \<Longrightarrow> snapshot_at H a = Some (snd (last H))"
proof -
  assume "H \<noteq> []" "fst (last H) \<le> a"
  then have "filter (\<lambda>h. fst h \<le> a) H = filter (\<lambda>h. fst h \<le> a) (butlast H) @ [last H]"
    by (cases H rule: rev_cases) auto
  then show ?thesis by (simp add: snapshot_at_def)
qed

lemma best_version_history:
  "best_version a (map history_entry H) =
     (case filter (\<lambda>h. fst h \<le> a) H of [] \<Rightarrow> None | hs \<Rightarrow> Some (history_entry (last hs)))"
  by (simp add: best_version_filter filter_map o_def history_entry_def last_map split: list.split)

lemma sorted_wrt_hd_le:
  "sorted_wrt (<) (map fst H) \<Longrightarrow> h \<in> set H \<Longrightarrow> fst (hd H) \<le> (fst h :: int)"
  by (cases H) auto

lemma Resolve_represents:
  assumes "absl_api (absl_fns E)" "represents E tid w index H"
    and "io_fault E w (IoOpenRead (TableVersionsIndexPath E tid)) = None"
    and "now - kTimeTravelWindowMs \<le> a" "a \<le> now"
  shows "case ResolveParquetSnapshotAt E tid (TableParquetPath E tid) a now w of
      Inr path \<Rightarrow> \<exists>rows. snapshot_at H a = Some rows \<and> files w path = Some (ParquetFile rows)
    | Inl e \<Rightarrow> snapshot_at H a = None \<and> e = InvalidSnapshotTime tid a (created_ts_ms index)"
proof -
  note load = LoadVersionIndex_represents [OF assms(1-3)]
  have rep: "H \<noteq> []" "sorted_wrt (<) (map fst H)" "current_ts_ms index = fst (last H)"
    "created_ts_ms index \<le> fst (hd H)" "versions index = map history_entry (butlast H)"
    "\<And>h. h \<in> set (butlast H) \<Longrightarrow> files w (version_path E tid (archive_name (fst h))) = Some (ParquetFile (snd h))"
    "files w (TableParquetPath E tid) = Some (ParquetFile (snd (last H)))"
    "fs_exists w (TableVersionsIndexPath E tid)"
    using assms(2) by (auto simp: represents_def fs_exists_def)
  have not_early: "snapshot_at H a = None" if "a < created_ts_ms index"
  proof -
    have "filter (\<lambda>h. fst h \<le> a) H = []"
      using that rep(4) sorted_wrt_hd_le [OF rep(2)] by (fastforce simp: filter_empty_conv)
    then show ?thesis by (simp add: snapshot_at_def)
  qed
  consider (early) "a < created_ts_ms index" | (live) "\<not> a < created_ts_ms index" "fst (last H) \<le> a"
    | (past) "\<not> a < created_ts_ms index" "a < fst (last H)" by linarith
  then show ?thesis
  proof cases
    case early
    then show ?thesis
      using assms(4,5) load rep(8) not_early by (simp add: ResolveParquetSnapshotAt_def)
  next
    case live
    then show ?thesis
      using assms(4,5) load rep snapshot_at_live [OF rep(1)]
      by (simp add: ResolveParquetSnapshotAt_def fs_exists_def)
  next
    case past
    show ?thesis
    proof (cases "filter (\<lambda>h. fst h \<le> a) (butlast H)")
      case Nil
      then show ?thesis
        using past assms(4,5) load rep snapshot_at_butlast [OF rep(1) past(2)]
        by (simp add: ResolveParquetSnapshotAt_def best_version_history snapshot_at_def)
    next
      case (Cons h hs)
      define l where "l = last (h # hs)"
      have "l \<in> set (filter (\<lambda>h. fst h \<le> a) (butlast H))" unfolding Cons l_def by simp
      then have "files w (version_path E tid (archive_name (fst l))) = Some (ParquetFile (snd l))"
        using rep(6) by simp
      moreover have "best_version a (versions index) = Some (history_entry l)"
        by (simp add: rep(5) best_version_history Cons l_def)
      moreover have "snapshot_at H a = Some (snd l)"
        using snapshot_at_butlast [OF rep(1) past(2)] by (simp add: snapshot_at_def Cons l_def)
      ultimately show ?thesis
        using past assms(4,5) load rep(3,8)
        by (simp add: ResolveParquetSnapshotAt_def history_entry_def fs_exists_def)
    qed
  qed
qed

subsection \<open>Archiving keeps the history\<close>

lemma sort_key_snoc_last:
  "sorted (map f xs) \<Longrightarrow> (\<And>x. x \<in> set xs \<Longrightarrow> f x \<le> f y) \<Longrightarrow> sort_key f (xs @ [y]) = xs @ [y]"
  by (rule sort_key_id_if_sorted) (auto simp: sorted_append)

lemma in_set_last_or_butlast: "H \<noteq> [] \<Longrightarrow> h \<in> set H \<Longrightarrow> h = last H \<or> h \<in> set (butlast H)"
  by (cases H rule: rev_cases) auto

lemma sorted_wrt_less_butlast:
  assumes "H \<noteq> []" "sorted_wrt (<) (map fst H)" "h \<in> set (butlast H)"
  shows "fst h < (fst (last H) :: int)"
proof -
  have "H = butlast H @ [last H]" using assms(1) by simp
  then have "sorted_wrt (<) (map fst (butlast H) @ [fst (last H)])"
    using assms(2) by (metis list.simps(8,9) map_append)
  then show ?thesis using assms(3) by (auto simp: sorted_wrt_append)
qed

text \<open>The index after one archive step, before and after pruning.\<close>

definition pruned_index :: "VersionIndex \<Rightarrow> History \<Rightarrow> int \<Rightarrow> VersionIndex" where
  "pruned_index index H m =
     \<lparr>created_ts_ms = max (created_ts_ms index) (m - kTimeTravelWindowMs), current_ts_ms = m,
      versions = map history_entry (prune_history m H)\<rparr>"

lemma Archive_ok:
  assumes "absl_api (absl_fns E)" "safe_table tid" "represents E tid w index H"
    and "ArchiveParquetBeforeReplace E tid (TableParquetPath E tid) m w = (Inr u, w')"
    and "io_fault E w (IoOpenRead (TableVersionsIndexPath E tid)) = None"
  shows "files w' = (\<lambda>p.
      if p = TableVersionsIndexPath E tid
      then Some (TextFile (RenderVersionIndexJson (pruned_index index H m)))
      else if p = TableVersionsIndexPath E tid @ ''.tmp'' then None
      else if \<exists>h \<in> set H. \<not> m - kTimeTravelWindowMs \<le> fst h \<and> p = version_path E tid (archive_name (fst h))
      then None
      else if p = version_path E tid (archive_name (fst (last H))) then Some (ParquetFile (snd (last H)))
      else files w p)"
proof -
  note load = LoadVersionIndex_represents [OF assms(1,3,5)]
  have rep: "H \<noteq> []" "sorted_wrt (<) (map fst H)" "current_ts_ms index = fst (last H)"
    "versions index = map history_entry (butlast H)"
    "files w (TableParquetPath E tid) = Some (ParquetFile (snd (last H)))"
    using assms(3) by (auto simp: represents_def)
  obtain w1 where w1: "fs_create_directories E (TableVersionsDir E tid) w = (None, w1)" "files w1 = files w"
    using assms(4) load rep(5)
    by (auto simp: ArchiveParquetBeforeReplace_def fs_exists_def fs_create_directories_def Let_def
        split: option.splits)
  let ?vp = "version_path E tid (archive_name (fst (last H)))"
  obtain w2 where w2: "fs_copy_file E (TableParquetPath E tid) ?vp w1 = (None, w2)"
    "files w2 = (files w)(?vp \<mapsto> ParquetFile (snd (last H)))"
    using assms(4) load rep w1
    by (auto simp: ArchiveParquetBeforeReplace_def fs_exists_def fs_copy_file_def Let_def
        split: option.splits prod.splits)
  have "sort_key valid_from_ms (map history_entry (butlast H) @ [history_entry (last H)]) =
      map history_entry (butlast H) @ [history_entry (last H)]"
  proof (rule sort_key_snoc_last)
    have "sorted (map fst (butlast H))"
      using sorted_butlast [of "map fst H"] rep(1) strict_sorted_imp_sorted [OF rep(2)]
      by (simp add: map_butlast)
    then show "sorted (map valid_from_ms (map history_entry (butlast H)))"
      by (simp add: history_entry_def o_def)
    show "valid_from_ms x \<le> valid_from_ms (history_entry (last H))"
      if "x \<in> set (map history_entry (butlast H))" for x
      using that sorted_wrt_less_butlast [OF rep(1,2)] by (fastforce simp: history_entry_def)
  qed
  also have "map history_entry (butlast H) @ [history_entry (last H)] = map history_entry H"
    using rep(1) by (metis append_butlast_last_id list.simps(8,9) map_append)
  finally have sorted: "sort_key valid_from_ms (versions index @ [\<lparr>valid_from_ms = fst (last H),
      ve_file = archive_name (fst (last H))\<rparr>]) = map history_entry H"
    by (simp add: rep(4) history_entry_def)
  let ?old = "filter (\<lambda>v. valid_from_ms v < m - kTimeTravelWindowMs) (map history_entry H)"
  define w3 where "w3 = foldl (\<lambda>w v. fs_remove (version_path E tid (ve_file v)) w) w2 ?old"
  have prune: "PruneOldVersions E tid m (index\<lparr>versions := map history_entry H, current_ts_ms := m\<rparr>) w2 =
      (pruned_index index H m, w3)"
    by (simp add: PruneOldVersions_def pruned_index_def w3_def Let_def prune_history_def filter_map
        o_def history_entry_def not_less max_def)
  have "WriteVersionIndex E (TableVersionsIndexPath E tid) (pruned_index index H m) w3 = (Inr u, w')"
    using assms(4) load rep(3,5) w1 w2 sorted prune
    by (simp add: ArchiveParquetBeforeReplace_def fs_exists_def Let_def)
  then have "files w' = (files w3)(TableVersionsIndexPath E tid @ ''.tmp'' := None,
      TableVersionsIndexPath E tid \<mapsto> TextFile (RenderVersionIndexJson (pruned_index index H m)))"
    unfolding WriteVersionIndex_def by (rule WriteFileAtomic_ok [THEN conjunct1])
  moreover have "p \<in> (\<lambda>v. version_path E tid (ve_file v)) ` set ?old \<longleftrightarrow>
      (\<exists>h \<in> set H. \<not> m - kTimeTravelWindowMs \<le> fst h \<and> p = version_path E tid (archive_name (fst h)))" for p
    by (auto simp: history_entry_def image_iff filter_map not_le) force
  ultimately show ?thesis
    unfolding w3_def remove_all_files w2(2) by (auto simp: fun_eq_iff)
qed

lemma prune_history_set: "h \<in> set (prune_history m H) \<longleftrightarrow> h \<in> set H \<and> m - kTimeTravelWindowMs \<le> fst h"
  by (auto simp: prune_history_def)

lemma sorted_prune: "sorted_wrt (<) (map fst H) \<Longrightarrow> sorted_wrt (<) (map fst (prune_history m H))"
  by (induction H) (auto simp: prune_history_def)

lemma history_last_max:
  assumes "H \<noteq> []" "sorted_wrt (<) (map fst H)" "h \<in> set H"
  shows "fst h \<le> (fst (last H) :: int)" "fst h = fst (last H) \<Longrightarrow> h = last H"
proof -
  have "h = last H \<or> fst h < fst (last H)"
    using in_set_last_or_butlast [OF assms(1,3)] sorted_wrt_less_butlast [OF assms(1,2)] by blast
  then show "fst h \<le> (fst (last H) :: int)" "fst h = fst (last H) \<Longrightarrow> h = last H" by auto
qed

lemma pruned_index_ok:
  assumes "represents E tid w index H" "in_int64 m" "fst (last H) < m"
  shows "index_ok (pruned_index index H m)"
    "created_ts_ms (pruned_index index H m) \<le> fst (hd (prune_history m H @ [(m, new)]))"
proof -
  have rep: "H \<noteq> []" "sorted_wrt (<) (map fst H)" "index_ok index" "current_ts_ms index = fst (last H)"
    "created_ts_ms index \<le> fst (hd H)" "versions index = map history_entry (butlast H)"
    using assms(1) by (auto simp: represents_def)
  have "in_int64 (fst h)" if "h \<in> set H" for h
  proof (cases "h = last H")
    case True
    with rep(3,4) show ?thesis by (simp add: index_ok_def)
  next
    case False
    then have "h \<in> set (butlast H)" using in_set_last_or_butlast [OF rep(1) that] by blast
    then have "history_entry h \<in> set (versions index)" by (simp add: rep(6))
    with rep(3) show ?thesis by (auto simp: index_ok_def entry_ok_def list_all_iff history_entry_def)
  qed
  then have "list_all entry_ok (map history_entry (prune_history m H))"
    by (auto simp: list_all_iff entry_ok_def history_entry_def archive_name_def prune_history_set)
  moreover have "sorted (map fst (prune_history m H))"
    by (rule strict_sorted_imp_sorted [OF sorted_prune [OF rep(2)]])
  moreover have cm: "created_ts_ms index \<le> m"
    using rep(1,5) assms(3) history_last_max(1) [OF rep(1,2), of "hd H"] by simp
  moreover have "0 \<le> kTimeTravelWindowMs" by (simp add: kTimeTravelWindowMs_def)
  ultimately show "index_ok (pruned_index index H m)"
    using rep(3) assms(2)
    by (auto simp: index_ok_def pruned_index_def o_def history_entry_def in_int64_def max_def)
  show "created_ts_ms (pruned_index index H m) \<le> fst (hd (prune_history m H @ [(m, new)]))"
  proof (cases "prune_history m H")
    case Nil
    with cm show ?thesis by (simp add: pruned_index_def kTimeTravelWindowMs_def)
  next
    case (Cons h hs)
    then have "h \<in> set (prune_history m H)" by simp
    then have "fst (hd H) \<le> fst h" "m - kTimeTravelWindowMs \<le> fst h"
      using sorted_wrt_hd_le [OF rep(2)] by (auto simp: prune_history_set)
    with rep(5) Cons show ?thesis by (simp add: pruned_index_def)
  qed
qed

text \<open>
  One mutation: the live snapshot is archived at time \<open>m\<close> and then replaced by new rows.
\<close>

lemma Archive_represents:
  assumes "absl_api (absl_fns E)" "safe_table tid" "represents E tid w index H"
    and archive: "ArchiveParquetBeforeReplace E tid (TableParquetPath E tid) m w = (Inr u, w')"
    and "io_fault E w (IoOpenRead (TableVersionsIndexPath E tid)) = None"
    and m: "fst (last H) < m" "in_int64 m"
    and w'': "files w'' = (files w')(TableParquetPath E tid @ ''.tmp'' := None, TableParquetPath E tid \<mapsto> ParquetFile new)"
  shows "represents E tid w'' (pruned_index index H m) (prune_history m H @ [(m, new)])"
proof -
  have rep: "H \<noteq> []" "sorted_wrt (<) (map fst H)"
    "\<And>h. h \<in> set (butlast H) \<Longrightarrow> files w (version_path E tid (archive_name (fst h))) = Some (ParquetFile (snd h))"
    using assms(3) by (auto simp: represents_def)
  note paths = table_paths_distinct [OF assms(2)]
  note fw = Archive_ok [OF assms(1-5)]
  have "files w'' (version_path E tid (archive_name (fst h))) = Some (ParquetFile (snd h))"
    if h: "h \<in> set (prune_history m H)" for h
  proof -
    have hH: "h \<in> set H" "m - kTimeTravelWindowMs \<le> fst h" using h by (auto simp: prune_history_set)
    have "files w' (version_path E tid (archive_name (fst h))) =
        (if fst h = fst (last H) then Some (ParquetFile (snd (last H)))
         else files w (version_path E tid (archive_name (fst h))))"
      unfolding fw using hH(2) paths by auto
    also have "\<dots> = Some (ParquetFile (snd h))"
    proof (cases "h = last H")
      case False
      then have "h \<in> set (butlast H)" using in_set_last_or_butlast [OF rep(1) hH(1)] by blast
      with False history_last_max(2) [OF rep(1,2) hH(1)] rep(3) show ?thesis by auto
    qed simp
    finally show ?thesis unfolding w'' using paths by auto
  qed
  moreover have "files w'' (TableVersionsIndexPath E tid) =
      Some (TextFile (RenderVersionIndexJson (pruned_index index H m)))"
    unfolding w'' fw using paths(5) [THEN not_sym] index_path_not_parquet_tmp [OF assms(2)] by simp
  moreover have "sorted_wrt (<) (map fst (prune_history m H @ [(m, new)]))"
    using sorted_prune [OF rep(2)] m(1) history_last_max(1) [OF rep(1,2)]
    by (fastforce simp: sorted_wrt_append prune_history_set)
  ultimately show ?thesis
    unfolding represents_def using pruned_index_ok(1) [OF assms(3) m(2,1)] pruned_index_ok(2) [OF assms(3) m(2,1), of new]
    by (simp add: w'' pruned_index_def)
qed

subsection \<open>Without faults the log always advances\<close>

definition no_faults :: "DuckEnv \<Rightarrow> bool" where
  "no_faults E \<longleftrightarrow> (\<forall>w op. io_fault E w op = None)"

lemma WriteFileAtomic_no_faults:
  "no_faults E \<Longrightarrow> \<exists>w'. WriteFileAtomic E path contents w = (Inr (), w')"
  by (simp add: no_faults_def WriteFileAtomic_def fs_rename_def Let_def)

lemma Archive_no_faults:
  assumes "absl_api (absl_fns E)" "represents E tid w index H" "no_faults E"
  shows "\<exists>w'. ArchiveParquetBeforeReplace E tid (TableParquetPath E tid) m w = (Inr (), w')"
proof -
  have "LoadVersionIndexOrInit E tid w = Inr index"
    using assms(3) by (intro LoadVersionIndex_represents [OF assms(1,2)]) (simp add: no_faults_def)
  moreover have "files w (TableParquetPath E tid) = Some (ParquetFile (snd (last H)))"
    using assms(2) by (simp add: represents_def)
  ultimately show ?thesis
    using assms(3) WriteFileAtomic_no_faults [OF assms(3)]
    by (simp add: ArchiveParquetBeforeReplace_def fs_exists_def fs_create_directories_def
        fs_copy_file_def no_faults_def WriteVersionIndex_def Let_def split: prod.split)
qed

definition replace_live :: "DuckEnv \<Rightarrow> TableId \<Rightarrow> Row list \<Rightarrow> World \<Rightarrow> World" where
  "replace_live E tid new w =
     w\<lparr>files := (files w)(TableParquetPath E tid @ ''.tmp'' := None,
        TableParquetPath E tid \<mapsto> ParquetFile new)\<rparr>"

subsection \<open>Sample data for the witnesses\<close>

definition sample_env :: DuckEnv where
  "sample_env =
     \<lparr>data_dir = ''/data'', absl_fns = absl_ref, io_fault = (\<lambda>w op. None), io_torn = (\<lambda>s. []),
      parquet_bytes = (\<lambda>rows. []), MessageToJsonString = (\<lambda>m. Inl []), JsonStringToMessage = (\<lambda>s. Inl []),
      lit_fns = sample_lit, duck_carry = (\<lambda>schema row. row), duck_raw = (\<lambda>sql w. w),
      duck_query = (\<lambda>w sql. Inl []), strtod_fn = (\<lambda>s. None)\<rparr>"

definition sample_tid :: TableId where
  "sample_tid = \<lparr>project_id = ''p'', dataset_id = ''d'', table_id = ''t''\<rparr>"

definition sample_index :: VersionIndex where
  "sample_index = \<lparr>created_ts_ms = 5, current_ts_ms = 5, versions = []\<rparr>"

definition sample_world :: World where
  "sample_world =
     \<lparr>files = [TableVersionsIndexPath sample_env sample_tid \<mapsto> TextFile (RenderVersionIndexJson sample_index),
               TableParquetPath sample_env sample_tid \<mapsto> ParquetFile [\<lparr>cells = [VBool True]\<rparr>]],
      dirs = {}, temp_tables = Map.empty, clock_ms = 0\<rparr>"

abbreviation sample_history :: History where
  "sample_history \<equiv> [(5, [\<lparr>cells = [VBool True]\<rparr>])]"

lemma sample_safe [simp]: "safe_table sample_tid"
  by (simp add: sample_tid_def safe_table_def safe_id_def)

lemma sample_env_simps [simp]:
  "io_fault sample_env w op = None" "absl_fns sample_env = absl_ref" "no_faults sample_env"
  by (simp_all add: sample_env_def no_faults_def)

lemma sample_absl [simp]: "absl_api (absl_fns sample_env)"
  using absl_ref.absl_api_axioms by simp

lemma sample_represents: "represents sample_env sample_tid sample_world sample_index sample_history"
  using table_paths_distinct(5) [OF sample_safe, of sample_env]
  by (simp add: represents_def sample_world_def sample_index_def index_ok_def in_int64_def int64_defs)

subsection \<open>Properties\<close>

text \<open>
  C14 (the index text round-trips). Parsing the JSON text that \<open>RenderVersionIndexJson\<close> writes
  returns the same index, for every index whose timestamps fit in 64 bits, whose entries are
  sorted and whose file names are non-empty; quotes and backslashes in a file name, or the text
  of a key inside one, do not confuse the substring-based parser.
\<close>

theorem version_index_roundtrip:
  assumes "absl_api A" "index_ok index"
  shows "ParseVersionIndex A (RenderVersionIndexJson index) = Inr index"
  using assms by (rule absl_api.ParseVersionIndex_rendered)

theorem version_index_roundtrip_witness:
  "ParseVersionIndex absl_ref (RenderVersionIndexJson \<lparr>created_ts_ms = 3, current_ts_ms = 9,
     versions = [\<lparr>valid_from_ms = 4, ve_file = [CHR 0x22] @ ''valid_from_ms'' @ [CHR 0x22, CHR '':'']\<rparr>]\<rparr>) =
   Inr \<lparr>created_ts_ms = 3, current_ts_ms = 9,
     versions = [\<lparr>valid_from_ms = 4, ve_file = [CHR 0x22] @ ''valid_from_ms'' @ [CHR 0x22, CHR '':'']\<rparr>]\<rparr>"
  by (rule version_index_roundtrip [OF absl_ref.absl_api_axioms])
    (simp add: index_ok_def entry_ok_def int64_defs)

text \<open>
  C8 (time travel reads the snapshot that was live). When the files of a table represent a
  history, resolving a timestamp inside the seven-day window returns a file that holds exactly
  the rows of the last snapshot not younger than the timestamp; it fails with the invalid
  snapshot time error exactly when the history has no such snapshot.
\<close>

theorem resolve_reads_live_snapshot:
  assumes "absl_api (absl_fns E)" "represents E tid w index H"
    and "io_fault E w (IoOpenRead (TableVersionsIndexPath E tid)) = None"
    and "now - kTimeTravelWindowMs \<le> a" "a \<le> now"
  shows "case ResolveParquetSnapshotAt E tid (TableParquetPath E tid) a now w of
      Inr path \<Rightarrow> \<exists>rows. snapshot_at H a = Some rows \<and> files w path = Some (ParquetFile rows)
    | Inl e \<Rightarrow> snapshot_at H a = None \<and> e = InvalidSnapshotTime tid a (created_ts_ms index)"
  using assms by (rule Resolve_represents)

theorem resolve_reads_live_snapshot_witness:
  "\<exists>path. ResolveParquetSnapshotAt sample_env sample_tid (TableParquetPath sample_env sample_tid) 7 8 sample_world = Inr path \<and>
     files sample_world path = Some (ParquetFile [\<lparr>cells = [VBool True]\<rparr>])"
proof -
  have "snapshot_at sample_history 7 = Some [\<lparr>cells = [VBool True]\<rparr>]" by (simp add: snapshot_at_def)
  then show ?thesis
    using resolve_reads_live_snapshot [OF sample_absl sample_represents, of 8 7]
    by (auto simp: kTimeTravelWindowMs_def split: sum.splits)
qed

text \<open>
  C20 (a mutation extends the history). When the live snapshot of a represented history is
  archived at a later time and then replaced, the files represent the same history with the new
  snapshot appended, minus the snapshots that began more than seven days before the mutation;
  without file system faults the archive step always succeeds.
\<close>

theorem archive_extends_history:
  assumes "absl_api (absl_fns E)" "safe_table tid" "represents E tid w index H"
    and "io_fault E w (IoOpenRead (TableVersionsIndexPath E tid)) = None"
    and "fst (last H) < m" "in_int64 m"
  shows "(\<forall>u w'. ArchiveParquetBeforeReplace E tid (TableParquetPath E tid) m w = (Inr u, w') \<longrightarrow>
      represents E tid (replace_live E tid new w') (pruned_index index H m) (prune_history m H @ [(m, new)])) \<and>
    (no_faults E \<longrightarrow> (\<exists>w'. ArchiveParquetBeforeReplace E tid (TableParquetPath E tid) m w = (Inr (), w')))"
  using Archive_represents [OF assms(1-3) _ assms(4-6)] Archive_no_faults [OF assms(1,3)]
  by (simp add: replace_live_def)

theorem archive_extends_history_witness:
  "\<exists>w'. ArchiveParquetBeforeReplace sample_env sample_tid (TableParquetPath sample_env sample_tid) 9 sample_world = (Inr (), w') \<and>
     represents sample_env sample_tid (replace_live sample_env sample_tid [] w')
       (pruned_index sample_index sample_history 9) (prune_history 9 sample_history @ [(9, [])])"
  using archive_extends_history [OF sample_absl sample_safe sample_represents, of 9 "[]"]
  by (auto simp: int64_defs)

text \<open>
  A snapshot that was live inside the window is pruned. When a table created more than
  seven days ago is changed for the first time, the archived snapshot is pruned at once because
  it began before the window, although it was live until the change: reading the table at any
  time inside the seven-day window before the change fails.
\<close>

theorem prune_loses_live_snapshot:
  assumes "absl_api (absl_fns E)" "safe_table tid" "represents E tid w index [(t0, old)]"
    and "io_fault E w (IoOpenRead (TableVersionsIndexPath E tid)) = None"
    and "t0 < m - kTimeTravelWindowMs" "in_int64 m"
    and "ArchiveParquetBeforeReplace E tid (TableParquetPath E tid) m w = (Inr u, w')"
    and "io_fault E (replace_live E tid new w') (IoOpenRead (TableVersionsIndexPath E tid)) = None"
    and "m - kTimeTravelWindowMs \<le> a" "a < m"
  shows "snapshot_at ([(t0, old)] @ [(m, new)]) a = Some old \<and>
    (\<exists>e. ResolveParquetSnapshotAt E tid (TableParquetPath E tid) a m (replace_live E tid new w') = Inl e)"
proof -
  have pos: "0 \<le> kTimeTravelWindowMs" by (simp add: kTimeTravelWindowMs_def)
  have "represents E tid (replace_live E tid new w') (pruned_index index [(t0, old)] m)
      (prune_history m [(t0, old)] @ [(m, new)])"
    using assms(5,6) pos
    by (intro Archive_represents [OF assms(1-3,7,4)]) (auto simp: replace_live_def)
  then have rep: "represents E tid (replace_live E tid new w') (pruned_index index [(t0, old)] m) [(m, new)]"
    using assms(5) by (simp add: prune_history_def)
  have "a \<le> m" using assms(10) by simp
  from Resolve_represents [OF assms(1) rep assms(8,9) this] assms(10)
  have "\<exists>e. ResolveParquetSnapshotAt E tid (TableParquetPath E tid) a m (replace_live E tid new w') = Inl e"
    by (cases "ResolveParquetSnapshotAt E tid (TableParquetPath E tid) a m (replace_live E tid new w')")
      (auto simp: snapshot_at_def)
  moreover have "snapshot_at ([(t0, old)] @ [(m, new)]) a = Some old"
    using assms(5,9,10) by (simp add: snapshot_at_def)
  ultimately show ?thesis by blast
qed

theorem prune_loses_live_snapshot_witness:
  "\<exists>w' e. ArchiveParquetBeforeReplace sample_env sample_tid (TableParquetPath sample_env sample_tid) 864000000 sample_world = (Inr (), w') \<and>
     ResolveParquetSnapshotAt sample_env sample_tid (TableParquetPath sample_env sample_tid) 604800000 864000000
       (replace_live sample_env sample_tid [] w') = Inl e"
proof -
  obtain w' where w': "ArchiveParquetBeforeReplace sample_env sample_tid
      (TableParquetPath sample_env sample_tid) 864000000 sample_world = (Inr (), w')"
    using Archive_no_faults [OF sample_absl sample_represents] by auto
  then show ?thesis
    using prune_loses_live_snapshot [OF sample_absl sample_safe sample_represents _ _ _ w', of "[]" 604800000]
    by (auto simp: kTimeTravelWindowMs_def int64_defs)
qed

end
