(* ===== verification/Duckdb_Storage.thy ===== *)
theory Duckdb_Storage
  imports Duckdb_Meta Version_Log
begin

section \<open>The DuckDB store\<close>

text \<open>
  The operations of class \<open>DuckDBStorage\<close> on tables: \<open>duckdb_storage_rows.cc\<close>,
  \<open>duckdb_storage_read_stream.cc\<close>, the rest of \<open>duckdb_storage_sql_render.cc\<close>, and the create
  and schema operations of \<open>duckdb_storage_catalog.cc\<close>. Each method holds the store's lock for
  its whole body, so it is one function on the world.

  A statement that changes the connection is a value of \<open>Stmt\<close>; \<open>stmt_sql\<close> is its text as the
  code builds it, \<open>RunSql\<close> runs it: the connection may refuse any text, and otherwise has the
  effect SQL gives it. An INSERT of rows has the effect of appending them only when its text
  reads back as those rows; for any other text the effect is the parameter \<open>duck_raw\<close>. A SELECT
  is answered by the parameter \<open>duck_query\<close>.

  The main result is that the store keeps the contract of the storage interface: a failed append
  leaves every table as it was, a successful one appends exactly its rows to its own table.
\<close>

subsection \<open>Statements\<close>

datatype Stmt =
    CreateTempTable string TableSchema
  | InsertFromParquet string TableSchema string
  | InsertValues string string TableSchema "Row list"
  | CopyToParquet string string
  | DropTableIfExists string
  | DropTableStmt string
  | CreateSchemaIfNotExists string
  | RawSql string

definition parquet_source :: "string \<Rightarrow> string" where
  "parquet_source path = ''read_parquet('' @ quoted path @ '')''"

fun stmt_sql :: "Stmt \<Rightarrow> string" where
  "stmt_sql (CreateTempTable tbl schema) =
     ''CREATE OR REPLACE TEMP TABLE '' @ tbl @ '' '' @ RenderColumnList schema"
| "stmt_sql (InsertFromParquet tbl schema path) =
     ''INSERT INTO '' @ tbl @ '' SELECT '' @ RenderColumnIdentList schema @ '' FROM '' @ parquet_source path"
| "stmt_sql (InsertValues sql tbl schema rows) = sql"
| "stmt_sql (CopyToParquet tbl path) = ''COPY '' @ tbl @ '' TO '' @ quoted path @ '' (FORMAT PARQUET)''"
| "stmt_sql (DropTableIfExists tbl) = ''DROP TABLE IF EXISTS '' @ tbl"
| "stmt_sql (DropTableStmt tbl) = ''DROP TABLE '' @ tbl"
| "stmt_sql (CreateSchemaIfNotExists name) = ''CREATE SCHEMA IF NOT EXISTS '' @ QuoteIdent name"
| "stmt_sql (RawSql sql) = sql"

definition temp_rows :: "World \<Rightarrow> string \<Rightarrow> Row list" where
  "temp_rows w tbl = (case temp_tables w tbl of None \<Rightarrow> [] | Some rows \<Rightarrow> rows)"

definition parquet_rows :: "World \<Rightarrow> string \<Rightarrow> Row list" where
  "parquet_rows w path = (case files w path of Some (ParquetFile rows) \<Rightarrow> rows | _ \<Rightarrow> [])"

definition reads_back :: "DuckEnv \<Rightarrow> string \<Rightarrow> string \<Rightarrow> TableSchema \<Rightarrow> Row list \<Rightarrow> bool" where
  "reads_back E sql tbl schema rows \<longleftrightarrow>
     prefix (insert_prefix tbl) sql \<and>
     read_values (drop (length (insert_prefix tbl)) sql) = map (row_literals (lit_fns E) schema) rows"

fun exec_stmt :: "DuckEnv \<Rightarrow> Stmt \<Rightarrow> World \<Rightarrow> World" where
  "exec_stmt E (CreateTempTable tbl schema) w = w\<lparr>temp_tables := (temp_tables w)(tbl \<mapsto> [])\<rparr>"
| "exec_stmt E (InsertFromParquet tbl schema path) w =
     w\<lparr>temp_tables := (temp_tables w)(tbl \<mapsto> temp_rows w tbl @ map (duck_carry E schema) (parquet_rows w path))\<rparr>"
| "exec_stmt E (InsertValues sql tbl schema rows) w =
     (if reads_back E sql tbl schema rows
      then w\<lparr>temp_tables := (temp_tables w)(tbl \<mapsto> temp_rows w tbl @ rows)\<rparr>
      else duck_raw E sql w)"
| "exec_stmt E (CopyToParquet tbl path) w = w\<lparr>files := (files w)(path \<mapsto> ParquetFile (temp_rows w tbl))\<rparr>"
| "exec_stmt E (DropTableIfExists tbl) w = w\<lparr>temp_tables := (temp_tables w)(tbl := None)\<rparr>"
| "exec_stmt E (DropTableStmt tbl) w = w\<lparr>temp_tables := (temp_tables w)(tbl := None)\<rparr>"
| "exec_stmt E (CreateSchemaIfNotExists name) w = w"
| "exec_stmt E (RawSql sql) w = duck_raw E sql w"

definition DuckDBError :: "StatusCode \<Rightarrow> string \<Rightarrow> string \<Rightarrow> Status" where
  "DuckDBError code what detail = Status code (if detail = [] then what else what @ '': '' @ detail)"

definition RunSql :: "DuckEnv \<Rightarrow> Stmt \<Rightarrow> World \<Rightarrow> unit StatusOr \<times> World" where
  "RunSql E stmt w =
     (case io_fault E w (IoSql (stmt_sql stmt)) of
        Some detail \<Rightarrow> (Inl (DuckDBError kInternal (''DuckDB query failed: '' @ stmt_sql stmt) detail), w)
      | None \<Rightarrow> (Inr (), exec_stmt E stmt w))"

definition TryDropTempTable :: "DuckEnv \<Rightarrow> string \<Rightarrow> World \<Rightarrow> World" where
  "TryDropTempTable E tbl w = snd (RunSql E (DropTableIfExists tbl) w)"

subsection \<open>Guards\<close>

definition dataset_not_found :: "TableId \<Rightarrow> Status" where
  "dataset_not_found tid = Status kNotFound (''dataset not found: '' @ project_id tid @ ''.'' @ dataset_id tid)"

definition table_not_found :: "TableId \<Rightarrow> Status" where
  "table_not_found tid = Status kNotFound (''table not found: '' @ table_dotted tid)"

definition EnsureTableMetaExists :: "DuckEnv \<Rightarrow> TableId \<Rightarrow> World \<Rightarrow> unit StatusOr" where
  "EnsureTableMetaExists E tid w =
     (if \<not> fs_exists w (DatasetDir E tid) then Inl (dataset_not_found tid)
      else if \<not> fs_exists w (TableMetaPath E tid) then Inl (table_not_found tid)
      else Inr ())"

text \<open>The guards and the schema read that the row operations start with.\<close>

definition ReadTableSchema :: "DuckEnv \<Rightarrow> TableId \<Rightarrow> World \<Rightarrow> TableSchema StatusOr" where
  "ReadTableSchema E tid w =
     (case ReadFile E w (TableMetaPath E tid) of
        Inl e \<Rightarrow> Inl e
      | Inr contents \<Rightarrow> ParseTableMetaJson E contents)"

definition GetSchema_duck :: "DuckEnv \<Rightarrow> World \<Rightarrow> TableId \<Rightarrow> TableSchema StatusOr" where
  "GetSchema_duck E w tid =
     (case EnsureTableMetaExists E tid w of
        Inl e \<Rightarrow> Inl e
      | Inr _ \<Rightarrow>
          (case ReadFile E w (TableMetaPath E tid) of
             Inl e \<Rightarrow> Inl e
           | Inr contents \<Rightarrow>
               (if EqualsIgnoreCase (ri_table_type (ParseTableResourceInfo contents)) ''VIEW''
                then Inl (Status kNotFound (''logical view has no physical schema: '' @ table_dotted tid))
                else ParseTableMetaJson E contents)))"

subsection \<open>Snapshots\<close>

text \<open>
  After a failed rename the code removes the temporary file with the same error code variable,
  so the message it then reports is that of success.
\<close>

definition ec_cleared_message :: string where
  "ec_cleared_message = ''Success''"

definition SnapshotTempTableToParquet ::
  "DuckEnv \<Rightarrow> string \<Rightarrow> string \<Rightarrow> string \<Rightarrow> string \<Rightarrow> World \<Rightarrow> unit StatusOr \<times> World" where
  "SnapshotTempTableToParquet E tag tmp_table tmp_path parquet_path w =
     (let w0 = fs_remove tmp_path w
      in case RunSql E (CopyToParquet tmp_table tmp_path) w0 of
           (Inl e, w1) \<Rightarrow> (Inl e, fs_remove tmp_path (TryDropTempTable E tmp_table w1))
         | (Inr _, w1) \<Rightarrow>
             (case fs_rename E tmp_path parquet_path w1 of
                (Some ec, w2) \<Rightarrow>
                  (Inl (Status kInternal
                     (tag @ '': failed to rename '' @ tmp_path @ '' -> '' @ parquet_path @ '': '' @ ec_cleared_message)),
                   fs_remove tmp_path (TryDropTempTable E tmp_table w2))
              | (None, w2) \<Rightarrow> (Inr (), TryDropTempTable E tmp_table w2)))"

text \<open>The last two steps of a mutation: archive the live file, then replace it.\<close>

definition ReplaceParquet ::
  "DuckEnv \<Rightarrow> string \<Rightarrow> string \<Rightarrow> TableId \<Rightarrow> World \<Rightarrow> unit StatusOr \<times> World" where
  "ReplaceParquet E tag tmp_table tid w =
     (let parquet_path = TableParquetPath E tid
      in case ArchiveParquetBeforeReplace E tid parquet_path (clock_ms w) w of
           (Inl e, w1) \<Rightarrow> (Inl e, w1)
         | (Inr _, w1) \<Rightarrow>
             SnapshotTempTableToParquet E tag tmp_table (parquet_path @ ''.tmp'') parquet_path w1)"

text \<open>The multi-row INSERT, tearing the temporary table down when it cannot be built or run.\<close>

definition InsertBatch :: "DuckEnv \<Rightarrow> string \<Rightarrow> Row list \<Rightarrow> TableSchema \<Rightarrow> World \<Rightarrow> unit StatusOr \<times> World" where
  "InsertBatch E tmp_table rows physical w =
     (case BuildBatchInsertSql (lit_fns E) tmp_table rows physical of
        Inl e \<Rightarrow> (Inl (literal_error_status e), TryDropTempTable E tmp_table w)
      | Inr sql \<Rightarrow>
          (case RunSql E (InsertValues sql tmp_table physical rows) w of
             (Inl e, w1) \<Rightarrow> (Inl e, TryDropTempTable E tmp_table w1)
           | (Inr _, w1) \<Rightarrow> (Inr (), w1)))"

definition append_table :: string where "append_table = ''main.__bqemu_append''"

definition overwrite_table :: string where "overwrite_table = ''main.__bqemu_overwrite''"

definition mkempty_table :: string where "mkempty_table = ''main.__bqemu_mkempty''"

subsection \<open>Row operations\<close>

text \<open>
  The steps both writers share: read the sidecar, check the shape of the rows against the
  physical columns, and stage a fresh temporary table with them.
\<close>

definition OpenStage ::
  "DuckEnv \<Rightarrow> string \<Rightarrow> string \<Rightarrow> TableId \<Rightarrow> Row list \<Rightarrow> World \<Rightarrow> TableSchema StatusOr \<times> World" where
  "OpenStage E tag tmp_table tid rows w =
     (case ReadTableSchema E tid w of
        Inl e \<Rightarrow> (Inl e, w)
      | Inr schema \<Rightarrow>
          (let physical = ParquetStorageSchema (absl_fns E) schema
           in case ValidateRowsShape tag tid rows (length (columns physical)) 0 of
                Inl e \<Rightarrow> (Inl e, w)
              | Inr _ \<Rightarrow>
                  (case RunSql E (CreateTempTable tmp_table physical) w of
                     (Inl e, w1) \<Rightarrow> (Inl e, w1)
                   | (Inr _, w1) \<Rightarrow> (Inr physical, w1))))"

text \<open>The rows of the live file, if there is one, are carried over into the staged table.\<close>

definition CarryOver :: "DuckEnv \<Rightarrow> TableId \<Rightarrow> TableSchema \<Rightarrow> World \<Rightarrow> unit StatusOr \<times> World" where
  "CarryOver E tid physical w =
     (if fs_exists w (TableParquetPath E tid)
      then case RunSql E (InsertFromParquet append_table physical (TableParquetPath E tid)) w of
             (Inl e, w1) \<Rightarrow> (Inl e, TryDropTempTable E append_table w1)
           | (Inr _, w1) \<Rightarrow> (Inr (), w1)
      else (Inr (), w))"

definition AppendRows_duck :: "DuckEnv \<Rightarrow> World \<Rightarrow> TableId \<Rightarrow> Row list \<Rightarrow> unit StatusOr \<times> World" where
  "AppendRows_duck E w tid rows =
     (case EnsureTableMetaExists E tid w of
        Inl e \<Rightarrow> (Inl e, w)
      | Inr _ \<Rightarrow>
     (if rows = [] then (Inr (), w)
      else case OpenStage E ''AppendRows'' append_table tid rows w of
        (Inl e, w1) \<Rightarrow> (Inl e, w1)
      | (Inr physical, w1) \<Rightarrow>
     (case CarryOver E tid physical w1 of
        (Inl e, w2) \<Rightarrow> (Inl e, w2)
      | (Inr _, w2) \<Rightarrow>
     (case InsertBatch E append_table rows physical w2 of
        (Inl e, w3) \<Rightarrow> (Inl e, w3)
      | (Inr _, w3) \<Rightarrow> ReplaceParquet E ''AppendRows'' append_table tid w3))))"

definition OverwriteRows_duck :: "DuckEnv \<Rightarrow> World \<Rightarrow> TableId \<Rightarrow> Row list \<Rightarrow> unit StatusOr \<times> World" where
  "OverwriteRows_duck E w tid rows =
     (case EnsureTableMetaExists E tid w of
        Inl e \<Rightarrow> (Inl e, w)
      | Inr _ \<Rightarrow>
     (case OpenStage E ''OverwriteRows'' overwrite_table tid rows w of
        (Inl e, w1) \<Rightarrow> (Inl e, w1)
      | (Inr physical, w1) \<Rightarrow>
     (case (if rows \<noteq> [] then InsertBatch E overwrite_table rows physical w1 else (Inr (), w1)) of
        (Inl e, w2) \<Rightarrow> (Inl e, w2)
      | (Inr _, w2) \<Rightarrow> ReplaceParquet E ''OverwriteRows'' overwrite_table tid w2)))"

definition CountParquetRows :: "DuckEnv \<Rightarrow> string \<Rightarrow> string \<Rightarrow> World \<Rightarrow> int StatusOr" where
  "CountParquetRows E parquet_path where_text w =
     (let sql = ''SELECT COUNT(*) FROM read_parquet('' @ quoted parquet_path @ '', file_row_number = true)'' @
                RenderWhereSqlClause where_text
      in case duck_query E w sql of
           Inl detail \<Rightarrow> Inl (Status kInternal (''CountParquetRows: duckdb_query failed: '' @ detail))
         | Inr result \<Rightarrow>
             (if length (result_rows result) \<noteq> 1 \<or> column_count result \<noteq> 1
              then Inl (Status kInternal ''CountParquetRows: unexpected COUNT(*) result shape'')
              else Inr (value_int64 (hd (hd (result_rows result))))))"

definition CountRows_duck :: "DuckEnv \<Rightarrow> World \<Rightarrow> TableId \<Rightarrow> int StatusOr" where
  "CountRows_duck E w tid =
     (case EnsureTableMetaExists E tid w of
        Inl e \<Rightarrow> Inl e
      | Inr _ \<Rightarrow>
          (if \<not> fs_exists w (TableParquetPath E tid) then Inr 0
           else CountParquetRows E (TableParquetPath E tid) [] w))"

definition ParquetSnapshotPath :: "DuckEnv \<Rightarrow> World \<Rightarrow> TableId \<Rightarrow> string option" where
  "ParquetSnapshotPath E w tid =
     (if \<not> fs_exists w (DatasetDir E tid) \<or> \<not> fs_exists w (TableMetaPath E tid) \<or>
         \<not> fs_exists w (TableParquetPath E tid)
      then None else Some (TableParquetPath E tid))"

definition ParquetSnapshotPathAt :: "DuckEnv \<Rightarrow> World \<Rightarrow> TableId \<Rightarrow> int \<Rightarrow> ResolveError + string option" where
  "ParquetSnapshotPathAt E w tid as_of_ms =
     (if \<not> fs_exists w (DatasetDir E tid) \<or> \<not> fs_exists w (TableMetaPath E tid) then Inr None
      else map_sum (\<lambda>e. e) Some (ResolveParquetSnapshotAt E tid (TableParquetPath E tid) as_of_ms (clock_ms w) w))"

subsection \<open>Reading cells\<close>

definition varchar_text :: "DuckCell \<Rightarrow> string" where
  "varchar_text c = (case value_varchar c of None \<Rightarrow> [] | Some s \<Rightarrow> s)"

definition ReadRepeatedCell :: "DuckEnv \<Rightarrow> DuckCell \<Rightarrow> ColumnSchema \<Rightarrow> Value StatusOr" where
  "ReadRepeatedCell E c column =
     (case ParseDuckDBListVarchar (strtod_fn E) (varchar_text c) (with_mode kNullable column) of
        Inl e \<Rightarrow> Inl (Status kInternal (''ReadCell: failed to decode REPEATED column `'' @ col_name column @
                  ''`: '' @ status_message e))
      | Inr v \<Rightarrow> Inr v)"

definition ReadStructCell :: "DuckEnv \<Rightarrow> DuckCell \<Rightarrow> ColumnSchema \<Rightarrow> Value StatusOr" where
  "ReadStructCell E c column =
     (if varchar_text c = [] then Inr VNull
      else case ParseDuckDBStructVarchar (strtod_fn E) (varchar_text c) column of
             Inl e \<Rightarrow> Inl (Status kInternal (''ReadCell: failed to decode STRUCT column `'' @ col_name column @
                       ''`: '' @ status_message e))
           | Inr v \<Rightarrow> Inr v)"

definition ReadVarcharCell :: "DuckCell \<Rightarrow> Value" where
  "ReadVarcharCell c = VString (varchar_text c)"

definition ReadScalarCell :: "DuckCell \<Rightarrow> ColumnSchema \<Rightarrow> Value" where
  "ReadScalarCell c column =
     (case col_type column of
        kBool \<Rightarrow> VBool (value_boolean c)
      | kInt64 \<Rightarrow> VInt64 (value_int64 c)
      | kFloat64 \<Rightarrow> VFloat64 (value_double c)
      | kBytes \<Rightarrow> VBytes (case value_blob c of None \<Rightarrow> [] | Some b \<Rightarrow> b)
      | _ \<Rightarrow> ReadVarcharCell c)"

definition ReadCell :: "DuckEnv \<Rightarrow> DuckCell \<Rightarrow> ColumnSchema \<Rightarrow> Value StatusOr" where
  "ReadCell E c column =
     (if col_mode column = kRepeated then ReadRepeatedCell E c column
      else if value_is_null c then Inr VNull
      else if col_type column = kStruct then ReadStructCell E c column
      else if col_type column = kArray then Inr (ReadVarcharCell c)
      else Inr (ReadScalarCell c column))"

fun ReadCells :: "DuckEnv \<Rightarrow> DuckCell list \<Rightarrow> ColumnSchema list \<Rightarrow> Value list StatusOr" where
  "ReadCells E (c # cs) (col # cols) =
     (case ReadCell E c col of
        Inl e \<Rightarrow> Inl e
      | Inr v \<Rightarrow> (case ReadCells E cs cols of Inl e \<Rightarrow> Inl e | Inr vs \<Rightarrow> Inr (v # vs)))"
| "ReadCells E cs cols = Inr []"

fun ReadRows :: "DuckEnv \<Rightarrow> DuckCell list list \<Rightarrow> ColumnSchema list \<Rightarrow> Row list StatusOr" where
  "ReadRows E [] cols = Inr []"
| "ReadRows E (r # rs) cols =
     (case ReadCells E r cols of
        Inl e \<Rightarrow> Inl e
      | Inr vs \<Rightarrow>
          (case ReadRows E rs cols of Inl e \<Rightarrow> Inl e | Inr rows \<Rightarrow> Inr (\<lparr>cells = vs\<rparr> # rows)))"

definition ExecuteSelect ::
  "DuckEnv \<Rightarrow> World \<Rightarrow> string \<Rightarrow> TableSchema \<Rightarrow> string \<Rightarrow> TableId \<Rightarrow> string \<Rightarrow> Row list StatusOr" where
  "ExecuteSelect E w sql schema tag tid parquet_path =
     (case duck_query E w sql of
        Inl detail \<Rightarrow>
          Inl (Status kInternal (tag @ '': duckdb_query failed for '' @ parquet_path @ '': '' @ detail))
      | Inr result \<Rightarrow>
          (if column_count result \<noteq> length (columns schema)
           then Inl (Status kInternal
                  (tag @ '': parquet file has '' @ dec_nat (column_count result) @
                   '' column(s) but sidecar schema declares '' @ dec_nat (length (columns schema)) @
                   '' for table '' @ table_dotted tid))
           else ReadRows E (result_rows result) (columns schema)))"

definition ScanRows :: "DuckEnv \<Rightarrow> World \<Rightarrow> TableId \<Rightarrow> Row list StatusOr" where
  "ScanRows E w tid =
     (case EnsureTableMetaExists E tid w of
        Inl e \<Rightarrow> Inl e
      | Inr _ \<Rightarrow>
          (case ReadTableSchema E tid w of
             Inl e \<Rightarrow> Inl e
           | Inr schema \<Rightarrow>
               (let physical = ParquetStorageSchema (absl_fns E) schema; parquet_path = TableParquetPath E tid
                in if \<not> fs_exists w parquet_path then Inr []
                   else ExecuteSelect E w
                          (''SELECT '' @ RenderColumnIdentList physical @ '' FROM '' @ parquet_source parquet_path)
                          physical ''ScanRows'' tid parquet_path)))"

subsection \<open>Read streams\<close>

record ReadStreamPlan =
  effective_schema :: TableSchema
  select_cols :: string

definition PlanReadStreamProjection :: "TableSchema \<Rightarrow> ReadFilter \<Rightarrow> ReadStreamPlan StatusOr" where
  "PlanReadStreamProjection physical rf =
     (if selected_fields rf = []
      then Inr \<lparr>effective_schema = physical, select_cols = RenderColumnIdentList physical\<rparr>
      else case ProjectSchema physical (selected_fields rf) of
             Inl e \<Rightarrow> Inl e
           | Inr projected \<Rightarrow>
               Inr \<lparr>effective_schema = projected,
                    select_cols = RenderSelectedColumnIdentList physical (selected_fields rf)\<rparr>)"

definition filter_clause :: "ReadFilter \<Rightarrow> string" where
  "filter_clause rf =
     (case where_sql rf of
        Some (c # s) \<Rightarrow> RenderWhereSqlClause (c # s)
      | _ \<Rightarrow> (case equality_predicate rf of
                Some pred \<Rightarrow> RenderPredicateClause pred
              | None \<Rightarrow> []))"

definition AppendReadStreamFilters :: "ReadFilter \<Rightarrow> string \<Rightarrow> string" where
  "AppendReadStreamFilters rf sql0 =
     (let sql = sql0 @ filter_clause rf
      in if row_start rf > 0 \<or> row_end rf \<ge> 0 then
           if StrContains sql '' WHERE '' then
             sql @ (if row_start rf > 0 then '' AND file_row_number >= '' @ dec (row_start rf) else []) @
                   (if row_end rf \<ge> 0 then '' AND file_row_number < '' @ dec (row_end rf) else [])
           else sql @ RenderRowPartitionClause (row_start rf) (row_end rf)
         else sql)"

definition AppendReadStreamPagination :: "ReadFilter \<Rightarrow> string \<Rightarrow> string" where
  "AppendReadStreamPagination rf sql =
     sql @ '' ORDER BY file_row_number'' @
     (if row_limit rf > 0 then '' LIMIT '' @ dec (row_limit rf) else []) @
     (if rf_offset rf > 0 then
        (if row_limit rf \<le> 0 then '' LIMIT ALL'' else []) @ '' OFFSET '' @ dec (rf_offset rf)
      else [])"

definition BuildReadStreamSql :: "string \<Rightarrow> string \<Rightarrow> ReadFilter \<Rightarrow> string" where
  "BuildReadStreamSql parquet_path cols rf =
     AppendReadStreamPagination rf
       (AppendReadStreamFilters rf
         (''SELECT '' @ cols @ '' FROM read_parquet('' @ quoted parquet_path @ '', file_row_number = true)''))"

definition CreateReadStream_duck :: "DuckEnv \<Rightarrow> World \<Rightarrow> TableId \<Rightarrow> ReadFilter \<Rightarrow> Row list StatusOr" where
  "CreateReadStream_duck E w tid rf =
     (case EnsureTableMetaExists E tid w of
        Inl e \<Rightarrow> Inl e
      | Inr _ \<Rightarrow>
          (case ReadTableSchema E tid w of
             Inl e \<Rightarrow> Inl e
           | Inr schema \<Rightarrow>
               (let physical = ParquetStorageSchema (absl_fns E) schema; parquet_path = TableParquetPath E tid
                in if \<not> fs_exists w parquet_path then Inr []
                   else case PlanReadStreamProjection physical rf of
                          Inl e \<Rightarrow> Inl e
                        | Inr plan \<Rightarrow>
                            ExecuteSelect E w (BuildReadStreamSql parquet_path (select_cols plan) rf)
                              (effective_schema plan) ''CreateReadStream'' tid parquet_path)))"

subsection \<open>Datasets and tables\<close>

definition DuckDBSchemaName :: "TableId \<Rightarrow> string" where
  "DuckDBSchemaName tid = project_id tid @ ''__'' @ dataset_id tid"

definition DatasetMetaPath :: "DuckEnv \<Rightarrow> TableId \<Rightarrow> string" where
  "DatasetMetaPath E tid = path_join (DatasetDir E tid) ''_dataset.meta.json''"

text \<open>\<open>fs::remove_all\<close> of a directory: the files and directories below it.\<close>

definition fs_remove_all :: "string \<Rightarrow> World \<Rightarrow> World" where
  "fs_remove_all dir w =
     w\<lparr>files := (\<lambda>p. if p = dir \<or> prefix (dir @ ''/'') p then None else files w p),
       dirs := {p \<in> dirs w. p \<noteq> dir \<and> \<not> prefix (dir @ ''/'') p}\<rparr>"

definition CreateDataset :: "DuckEnv \<Rightarrow> World \<Rightarrow> TableId \<Rightarrow> string \<Rightarrow> unit StatusOr \<times> World" where
  "CreateDataset E w tid location =
     (if project_id tid = [] \<or> dataset_id tid = []
      then (Inl (Status kInvalidArgument ''CreateDataset: project_id and dataset_id must be non-empty''), w)
      else if fs_exists w (DatasetDir E tid)
      then (Inl (Status kAlreadyExists (''dataset already exists: '' @ project_id tid @ ''.'' @ dataset_id tid)), w)
      else case fs_create_directories E (DatasetDir E tid) w of
        (Some ec, w1) \<Rightarrow> (Inl (FilesystemStatus (''failed to create dataset dir: '' @ DatasetDir E tid) ec), w1)
      | (None, w1) \<Rightarrow>
     (case WriteFileAtomic E (DatasetMetaPath E tid) (RenderDatasetMetaJson location) w1 of
        (Inl e, w2) \<Rightarrow> (Inl e, fs_remove_all (DatasetDir E tid) w2)
      | (Inr _, w2) \<Rightarrow>
     (case RunSql E (CreateSchemaIfNotExists (DuckDBSchemaName tid)) w2 of
        (Inl e, w3) \<Rightarrow> (Inl e, fs_remove_all (DatasetDir E tid) w3)
      | (Inr _, w3) \<Rightarrow> (Inr (), w3))))"

definition CreateTable :: "DuckEnv \<Rightarrow> World \<Rightarrow> TableId \<Rightarrow> TableSchema \<Rightarrow> unit StatusOr \<times> World" where
  "CreateTable E w tid schema =
     (if table_id tid = []
      then (Inl (Status kInvalidArgument ''CreateTable: table_id must be non-empty''), w)
      else if \<not> fs_exists w (DatasetDir E tid) then (Inl (dataset_not_found tid), w)
      else if fs_exists w (TableMetaPath E tid)
      then (Inl (Status kAlreadyExists (''table already exists: '' @ table_dotted tid)), w)
      else case RenderTableMetaJson E schema of
        Inl e \<Rightarrow> (Inl e, w)
      | Inr meta_json \<Rightarrow>
     (case WriteFileAtomic E (TableMetaPath E tid) meta_json w of
        (Inl e, w1) \<Rightarrow> (Inl e, w1)
      | (Inr _, w1) \<Rightarrow>
     (let physical = ParquetStorageSchema (absl_fns E) schema; parquet_path = TableParquetPath E tid
      in if columns schema = [] \<or> columns physical = [] then (Inr (), w1)
         else case RunSql E (CreateTempTable mkempty_table physical) w1 of
                (Inl e, w2) \<Rightarrow> (Inl e, fs_remove (TableMetaPath E tid) w2)
              | (Inr _, w2) \<Rightarrow>
                  (let (copy_status, w3) = RunSql E (CopyToParquet mkempty_table parquet_path) w2;
                       (drop_status, w4) = RunSql E (DropTableStmt mkempty_table) w3
                   in case copy_status of
                        Inl e \<Rightarrow> (Inl e, fs_remove parquet_path (fs_remove (TableMetaPath E tid) w4))
                      | Inr _ \<Rightarrow>
                          (case drop_status of
                             Inl e \<Rightarrow> (Inl e, w4)
                           | Inr _ \<Rightarrow> InitVersionIndex E tid (clock_ms w4) w4)))))"

subsection \<open>The storage interface on the store\<close>

definition duckdb_storage :: "DuckEnv \<Rightarrow> World Storage" where
  "duckdb_storage E =
     \<lparr>GetSchema = GetSchema_duck E, StorageAppendRows = AppendRows_duck E,
      CreateReadStream = CreateReadStream_duck E, CountRows = CountRows_duck E\<rparr>"

subsection \<open>The files a mutation of a table touches\<close>

definition local_file :: "string \<Rightarrow> bool" where
  "local_file f \<longleftrightarrow> f \<noteq> [] \<and> CHR ''/'' \<notin> set f"

definition touched :: "DuckEnv \<Rightarrow> TableId \<Rightarrow> string \<Rightarrow> bool" where
  "touched E tid p \<longleftrightarrow>
     p \<in> {TableParquetPath E tid, TableParquetPath E tid @ ''.tmp'',
          TableVersionsIndexPath E tid, TableVersionsIndexPath E tid @ ''.tmp''} \<or>
     (\<exists>f. local_file f \<and> p = version_path E tid f)"

definition table_path :: "DuckEnv \<Rightarrow> TableId \<Rightarrow> string \<Rightarrow> string" where
  "table_path E tid sfx = path_join (DatasetDir E tid) (table_id tid @ sfx)"

lemma table_paths:
  "TableMetaPath E tid = table_path E tid ''.meta.json''"
  "TableParquetPath E tid = table_path E tid ''.parquet''"
  "TableVersionsDir E tid = table_path E tid ''.versions''"
  "TableVersionsIndexPath E tid = table_path E tid ''.versions.json''"
  by (simp_all add: table_path_def TableMetaPath_def TableParquetPath_def TableVersionsDir_def TableVersionsIndexPath_def)

lemma table_path_append: "safe_table tid \<Longrightarrow> table_path E tid a @ b = table_path E tid (a @ b)"
  by (simp add: table_path_def dataset_path)

lemma version_path_local:
  assumes "safe_table tid" "local_file f"
  shows "version_path E tid f = table_path E tid (''.versions/'' @ f)"
proof -
  have "hd f \<noteq> CHR ''/''" using assms(2) hd_no_slash by (simp add: local_file_def)
  then show ?thesis
    unfolding version_path_def table_path_def TableVersionsDir_def dataset_path [OF assms(1)]
    using assms(2) by (subst path_join_safe) (simp_all add: local_file_def)
qed

lemma table_path_eq:
  assumes "safe_table t1" "safe_table t2"
  shows "table_path E t1 s1 = table_path E t2 s2 \<longleftrightarrow>
    project_id t1 = project_id t2 \<and> dataset_id t1 = dataset_id t2 \<and> table_id t1 @ s1 = table_id t2 @ s2"
  unfolding table_path_def dataset_path [OF assms(1)] dataset_path [OF assms(2)]
  using assms by (simp add: slash_free_split safe_table_def safe_id_def)

lemma append_suffix_eq: "a @ s = b @ t \<longleftrightarrow> rev s @ rev a = rev t @ rev b"
proof -
  have "a @ s = b @ t \<longleftrightarrow> rev (a @ s) = rev (b @ t)" by (simp only: rev_is_rev_conv)
  then show ?thesis by (simp only: rev_append)
qed

lemma slash_free_ne:
  assumes "safe_table t" "CHR ''/'' \<notin> set sfx"
  shows "a @ ''.versions/'' @ f \<noteq> table_id t @ sfx"
proof
  assume eq: "a @ ''.versions/'' @ f = table_id t @ sfx"
  have "CHR ''/'' \<in> set (a @ ''.versions/'' @ f)" by simp
  then have "CHR ''/'' \<in> set (table_id t @ sfx)" unfolding eq .
  with assms show False by (auto simp: safe_table_def safe_id_def)
qed

lemma touched_paths:
  assumes "safe_table tid" "touched E tid p"
  obtains sfx where "p = table_path E tid sfx"
    "sfx \<in> {''.parquet'', ''.parquet.tmp'', ''.versions.json'', ''.versions.json.tmp''} \<or>
     (\<exists>f. local_file f \<and> sfx = ''.versions/'' @ f)"
proof -
  consider f where "local_file f" "p = version_path E tid f" | "p = TableParquetPath E tid"
    | "p = TableParquetPath E tid @ ''.tmp''" | "p = TableVersionsIndexPath E tid"
    | "p = TableVersionsIndexPath E tid @ ''.tmp''"
    using assms(2) unfolding touched_def by blast
  then show thesis
  proof cases
    case (1 f)
    with version_path_local [OF assms(1)] show ?thesis by (intro that [of "''.versions/'' @ f"]) auto
  next
    case 2
    then show ?thesis by (intro that [of "''.parquet''"]) (simp_all add: table_paths)
  next
    case 3
    then show ?thesis
      by (intro that [of "''.parquet.tmp''"]) (simp_all add: table_paths table_path_append [OF assms(1)])
  next
    case 4
    then show ?thesis by (intro that [of "''.versions.json''"]) (simp_all add: table_paths)
  next
    case 5
    then show ?thesis
      by (intro that [of "''.versions.json.tmp''"]) (simp_all add: table_paths table_path_append [OF assms(1)])
  qed
qed

lemma table_eqI:
  "\<lbrakk>project_id t1 = project_id t2; dataset_id t1 = dataset_id t2; table_id t1 = table_id t2\<rbrakk> \<Longrightarrow> t1 = (t2 :: TableId)"
  by simp

lemma touched_other:
  assumes "safe_table t1" "safe_table t2" "touched E t1 p"
  shows "p \<noteq> TableMetaPath E t2"
    "t1 \<noteq> t2 \<Longrightarrow> p \<noteq> TableParquetPath E t2" "t1 \<noteq> t2 \<Longrightarrow> p \<noteq> TableVersionsIndexPath E t2"
proof -
  obtain sfx where p: "p = table_path E t1 sfx"
    and sfx: "sfx \<in> {''.parquet'', ''.parquet.tmp'', ''.versions.json'', ''.versions.json.tmp''} \<or>
      (\<exists>f. local_file f \<and> sfx = ''.versions/'' @ f)"
    using touched_paths [OF assms(1,3)] .
  have vers: "table_id t1 @ sfx \<noteq> table_id t2 @ s" if "local_file f" "sfx = ''.versions/'' @ f" "CHR ''/'' \<notin> set s" for f s
    using slash_free_ne [OF assms(2) that(3), of "table_id t1" f] that(2) by simp
  have meta: "table_id t1 @ sfx \<noteq> table_id t2 @ ''.meta.json''"
    using sfx vers [of _ "''.meta.json''"] by (auto simp: append_suffix_eq [of "table_id t1"])
  have parquet: "table_id t1 = table_id t2" if "table_id t1 @ sfx = table_id t2 @ ''.parquet''"
    using sfx vers [of _ "''.parquet''"] that by (auto simp: append_suffix_eq [of "table_id t1"])
  have index: "table_id t1 = table_id t2" if "table_id t1 @ sfx = table_id t2 @ ''.versions.json''"
    using sfx vers [of _ "''.versions.json''"] that by (auto simp: append_suffix_eq [of "table_id t1"])
  note eq = table_path_eq [OF assms(1,2), of E sfx]
  show "p \<noteq> TableMetaPath E t2" using meta by (simp add: p table_paths eq)
  show "p \<noteq> TableParquetPath E t2" if "t1 \<noteq> t2"
    using parquet that by (auto simp: p table_paths eq)
  show "p \<noteq> TableVersionsIndexPath E t2" if "t1 \<noteq> t2"
    using index that by (auto simp: p table_paths eq)
qed

lemma own_paths_distinct:
  assumes "safe_table tid" "local_file f"
  shows "version_path E tid f \<noteq> TableParquetPath E tid" "version_path E tid f \<noteq> TableVersionsIndexPath E tid"
    "version_path E tid f \<noteq> TableVersionsIndexPath E tid @ ''.tmp''"
    "TableParquetPath E tid \<noteq> TableVersionsIndexPath E tid" "TableParquetPath E tid \<noteq> TableVersionsIndexPath E tid @ ''.tmp''"
    "TableParquetPath E tid @ ''.tmp'' \<noteq> TableVersionsIndexPath E tid"
    "TableVersionsDir E tid \<noteq> TableVersionsIndexPath E t2 \<or> \<not> safe_table t2"
  using assms
  by (auto simp: version_path_local table_paths table_path_append table_path_eq append_suffix_eq [of "table_id tid"])

lemma not_a_parent:
  assumes "safe_table t1" "safe_table t2" "CHR ''/'' \<notin> set s1"
  shows "table_path E t2 s2 \<notin> set (path_parents (table_path E t1 s1))"
proof
  assume "table_path E t2 s2 \<in> set (path_parents (table_path E t1 s1))"
  then obtain r where "table_path E t1 s1 = table_path E t2 s2 @ CHR ''/'' # r"
    by (auto simp: path_parents_iff prefix_def)
  then have "table_id t1 @ s1 = table_id t2 @ s2 @ CHR ''/'' # r"
    unfolding table_path_def dataset_path [OF assms(1)] dataset_path [OF assms(2)]
    using assms by (simp add: slash_free_split safe_table_def safe_id_def)
  then have "CHR ''/'' \<in> set (table_id t1 @ s1)" by simp
  then show False using assms by (auto simp: safe_table_def safe_id_def)
qed

lemma index_not_parent:
  "safe_table t1 \<Longrightarrow> safe_table t2 \<Longrightarrow> TableVersionsIndexPath E t2 \<notin> set (path_parents (TableVersionsDir E t1))"
  unfolding table_paths by (rule not_a_parent) simp_all

subsection \<open>Frames\<close>

definition frame :: "DuckEnv \<Rightarrow> TableId \<Rightarrow> World \<Rightarrow> World \<Rightarrow> bool" where
  "frame E tid w w' \<longleftrightarrow>
     (\<forall>p. \<not> touched E tid p \<longrightarrow> files w' p = files w p) \<and>
     dirs w' \<subseteq> insert (TableVersionsDir E tid) (set (path_parents (TableVersionsDir E tid)) \<union> dirs w) \<and>
     clock_ms w' = clock_ms w"

lemma frame_refl [simp]: "frame E tid w w"
  by (auto simp: frame_def)

lemma frame_trans: "frame E tid w1 w2 \<Longrightarrow> frame E tid w2 w3 \<Longrightarrow> frame E tid w1 w3"
  by (auto simp: frame_def)

lemma frame_files_eq:
  "files w' = files w \<Longrightarrow> dirs w' = dirs w \<Longrightarrow> clock_ms w' = clock_ms w \<Longrightarrow> frame E tid w w'"
  by (auto simp: frame_def)

definition local_index :: "VersionIndex \<Rightarrow> bool" where
  "local_index index \<longleftrightarrow> (\<forall>v \<in> set (versions index). local_file (ve_file v))"

definition log_ok :: "DuckEnv \<Rightarrow> World \<Rightarrow> TableId \<Rightarrow> bool" where
  "log_ok E w tid \<longleftrightarrow>
     TableVersionsIndexPath E tid \<notin> dirs w \<and>
     (case files w (TableVersionsIndexPath E tid) of
        None \<Rightarrow> True
      | Some d \<Rightarrow> \<exists>index. d = TextFile (RenderVersionIndexJson index) \<and> index_ok index \<and> local_index index)"

lemma frame_log_ok:
  assumes "frame E tid w w'" "safe_table tid" "safe_table t2" "t2 \<noteq> tid" "log_ok E w t2"
  shows "log_ok E w' t2"
proof -
  have "files w' (TableVersionsIndexPath E t2) = files w (TableVersionsIndexPath E t2)"
    using assms(1-4) touched_other(3) [of tid t2 E] by (auto simp: frame_def)
  moreover have "TableVersionsIndexPath E t2 \<notin> dirs w'"
    using assms own_paths_distinct(7) [OF assms(2), of "''x''" E t2] index_not_parent [OF assms(2,3), of E]
    by (auto simp: frame_def log_ok_def local_file_def)
  ultimately show ?thesis using assms(5) by (simp add: log_ok_def)
qed

subsection \<open>The version log under a mutation\<close>

text \<open>
  What a step of a mutation keeps: the frame of its table, the log, the temporary tables and the
  live file.
\<close>

definition keeps :: "DuckEnv \<Rightarrow> TableId \<Rightarrow> World \<Rightarrow> World \<Rightarrow> bool" where
  "keeps E tid w w' \<longleftrightarrow>
     frame E tid w w' \<and> log_ok E w' tid \<and> temp_tables w' = temp_tables w \<and>
     files w' (TableParquetPath E tid) = files w (TableParquetPath E tid)"

lemma keeps_refl: "log_ok E w tid \<Longrightarrow> keeps E tid w w"
  by (simp add: keeps_def)

lemma keeps_trans: "keeps E tid w1 w2 \<Longrightarrow> keeps E tid w2 w3 \<Longrightarrow> keeps E tid w1 w3"
  by (auto simp: keeps_def intro: frame_trans)

lemma WriteFileAtomic_cases:
  assumes "WriteFileAtomic E path contents w = (r, w')"
  obtains (failed) e x where "r = Inl e" "files w' = (files w)(path @ ''.tmp'' := x)"
      "dirs w' = dirs w" "temp_tables w' = temp_tables w" "clock_ms w' = clock_ms w"
  | (ok) "r = Inr ()" "files w' = (files w)(path @ ''.tmp'' := None, path \<mapsto> TextFile contents)"
      "dirs w' = dirs w" "temp_tables w' = temp_tables w" "clock_ms w' = clock_ms w"
proof -
  let ?tmp = "path @ ''.tmp''"
  show thesis
  proof (cases "io_fault E w (IoOpenWrite ?tmp)")
    case (Some ec)
    with assms have "r = Inl (Status kInternal (''failed to open '' @ ?tmp @ '' for write''))" "w' = w"
      by (simp_all add: WriteFileAtomic_def Let_def)
    then show ?thesis using failed [of _ "files w ?tmp"] by simp
  next
    case None
    show ?thesis
    proof (cases "io_fault E w (IoWrite ?tmp)")
      case (Some ec)
      with assms None show ?thesis by (intro failed) (auto simp: WriteFileAtomic_def Let_def)
    next
      case wr: None
      let ?w1 = "w\<lparr>files := (files w)(?tmp \<mapsto> TextFile contents)\<rparr>"
      show ?thesis
      proof (cases "io_fault E ?w1 (IoRename ?tmp path)")
        case (Some ec)
        with assms None wr show ?thesis
          by (intro failed [of _ None]) (auto simp: WriteFileAtomic_def fs_rename_def fs_remove_def Let_def)
      next
        case ren: None
        with assms None wr show ?thesis
          by (intro ok) (auto simp: WriteFileAtomic_def fs_rename_def Let_def)
      qed
    qed
  qed
qed

lemma touchedI [intro, simp]:
  "touched E tid (TableParquetPath E tid)" "touched E tid (TableParquetPath E tid @ ''.tmp'')"
  "touched E tid (TableVersionsIndexPath E tid)" "touched E tid (TableVersionsIndexPath E tid @ ''.tmp'')"
  by (simp_all add: touched_def)

lemma touched_version: "local_file f \<Longrightarrow> touched E tid (version_path E tid f)"
  by (auto simp: touched_def)

lemma WriteVersionIndex_keeps:
  assumes "WriteVersionIndex E (TableVersionsIndexPath E tid) index w = (r, w')"
    and "safe_table tid" "index_ok index" "local_index index" "log_ok E w tid"
  shows "keeps E tid w w'"
  using assms(1) unfolding WriteVersionIndex_def
proof (cases rule: WriteFileAtomic_cases)
  case (failed e x)
  have "files w' p = files w p" if "\<not> touched E tid p" for p
    using that touchedI(4) [of E tid] failed(2) by auto
  then have "frame E tid w w'" using failed by (auto simp: frame_def)
  moreover have "log_ok E w' tid" using assms(5) failed by (simp add: log_ok_def)
  ultimately show ?thesis
    using failed own_paths_distinct(5) [OF assms(2), of "''x''" E] by (simp add: keeps_def local_file_def)
next
  case ok
  have "files w' p = files w p" if "\<not> touched E tid p" for p
    using that touchedI(3,4) [of E tid] ok(2) by auto
  then have "frame E tid w w'" using ok by (auto simp: frame_def)
  moreover have "log_ok E w' tid" using assms(3-5) ok by (auto simp: log_ok_def)
  ultimately show ?thesis
    using ok own_paths_distinct(4,5) [OF assms(2), of "''x''" E] by (simp add: keeps_def local_file_def)
qed

lemma LoadVersionIndex_local:
  assumes "absl_api (absl_fns E)" "log_ok E w tid" "in_int64 (clock_ms w)"
    and "LoadVersionIndexOrInit E tid w = Inr index"
  shows "index_ok index" "local_index index"
proof -
  have "index_ok index \<and> local_index index"
  proof (cases "files w (TableVersionsIndexPath E tid)")
    case None
    with assms show ?thesis
      by (auto simp: log_ok_def LoadVersionIndexOrInit_def fs_exists_def index_ok_def local_index_def Let_def)
  next
    case (Some d)
    with assms(2) obtain idx where idx: "d = TextFile (RenderVersionIndexJson idx)" "index_ok idx" "local_index idx"
      by (auto simp: log_ok_def)
    have "ReadFile E w (TableVersionsIndexPath E tid) = Inr (RenderVersionIndexJson idx) \<or>
        (\<exists>e. ReadFile E w (TableVersionsIndexPath E tid) = Inl e)"
      using Some idx(1) by (auto simp: ReadFile_def split: option.splits)
    with assms(4) Some absl_api.ParseVersionIndex_rendered [OF assms(1) idx(2)] idx show ?thesis
      by (auto simp: LoadVersionIndexOrInit_def fs_exists_def Let_def)
  qed
  then show "index_ok index" "local_index index" by blast+
qed

lemma PruneOldVersions_keeps:
  assumes "PruneOldVersions E tid now index w = (index', w')"
    and "safe_table tid" "index_ok index" "local_index index" "log_ok E w tid" "in_int64 now"
  shows "index_ok index'" "local_index index'" "keeps E tid w w'"
proof -
  have W: "0 \<le> kTimeTravelWindowMs" by (simp add: kTimeTravelWindowMs_def)
  have sub: "set (versions index') \<subseteq> set (versions index)"
    and w': "w' = foldl (\<lambda>w v. fs_remove (version_path E tid (ve_file v)) w) w
      (filter (\<lambda>v. valid_from_ms v < now - kTimeTravelWindowMs) (versions index))"
    using assms(1) by (auto simp: PruneOldVersions_def Let_def)
  have "sorted (map valid_from_ms (versions index'))"
    using assms(1,3) sorted_filter [of valid_from_ms "versions index"]
    by (auto simp: PruneOldVersions_def index_ok_def Let_def)
  moreover have "in_int64 (created_ts_ms index')" "current_ts_ms index' = current_ts_ms index"
    using assms(1,3,6) W by (auto simp: PruneOldVersions_def index_ok_def in_int64_def Let_def split: if_splits)
  ultimately show "index_ok index'"
    using assms(3) sub by (auto simp: index_ok_def list_all_iff)
  show "local_index index'" using assms(4) sub by (auto simp: local_index_def)
  have files: "files w' p = (if p \<in> (\<lambda>v. version_path E tid (ve_file v)) `
      set (filter (\<lambda>v. valid_from_ms v < now - kTimeTravelWindowMs) (versions index)) then None else files w p)" for p
    unfolding w' remove_all_files ..
  have loc: "local_file (ve_file v)" if "v \<in> set (versions index)" for v
    using assms(4) that by (simp add: local_index_def)
  have eq: "files w' p = files w p" if "\<And>f. local_file f \<Longrightarrow> p \<noteq> version_path E tid f" for p
    unfolding files using that loc by auto
  have "files w' p = files w p" if "\<not> touched E tid p" for p
    using that touched_version by (intro eq) blast
  then have "frame E tid w w'" by (auto simp: frame_def w' remove_all_other)
  moreover have "files w' (TableVersionsIndexPath E tid) = files w (TableVersionsIndexPath E tid)"
    using eq own_paths_distinct(2) [OF assms(2)] by metis
  moreover have "files w' (TableParquetPath E tid) = files w (TableParquetPath E tid)"
    using eq own_paths_distinct(1) [OF assms(2)] by metis
  ultimately show "keeps E tid w w'"
    using assms(5) by (simp add: keeps_def log_ok_def w' remove_all_other)
qed

lemma archive_name_local: "local_file (archive_name ts)"
  using dec_no_char [of "CHR ''/''" ts] by (simp add: local_file_def archive_name_def)

lemma fs_create_directories_keeps:
  assumes "fs_create_directories E (TableVersionsDir E tid) w = (r, w')" "safe_table tid" "log_ok E w tid"
  shows "keeps E tid w w'"
  using assms own_paths_distinct(7) [OF assms(2), of "''x''" E tid] index_not_parent [OF assms(2,2), of E]
  by (auto simp: fs_create_directories_def keeps_def frame_def log_ok_def local_file_def split: option.splits)

lemma fs_copy_file_keeps:
  assumes "fs_copy_file E a (version_path E tid f) w = (r, w')" "local_file f" "safe_table tid" "log_ok E w tid"
  shows "keeps E tid w w'"
proof -
  obtain x where w': "files w' = (files w)(version_path E tid f := x)" "dirs w' = dirs w"
    "temp_tables w' = temp_tables w" "clock_ms w' = clock_ms w"
    using assms(1) by (fastforce simp: fs_copy_file_def fun_upd_idem split: option.splits)
  have "frame E tid w w'" using w' touched_version [OF assms(2), of E tid] by (auto simp: frame_def)
  then show ?thesis
    using w' assms(4) own_paths_distinct(1,2) [OF assms(3,2), of E] by (auto simp: keeps_def log_ok_def)
qed

lemma keeps_log_ok: "keeps E tid w w' \<Longrightarrow> log_ok E w' tid"
  by (simp add: keeps_def)

lemma Archive_keeps:
  assumes "ArchiveParquetBeforeReplace E tid live m w = (r, w')"
    and "absl_api (absl_fns E)" "safe_table tid" "log_ok E w tid" "in_int64 (clock_ms w)" "in_int64 m"
  shows "keeps E tid w w'"
proof (cases "LoadVersionIndexOrInit E tid w")
  case (Inl e)
  with assms(1,4) show ?thesis by (auto simp: ArchiveParquetBeforeReplace_def intro: keeps_refl split: if_splits)
next
  case (Inr index)
  note idx = LoadVersionIndex_local [OF assms(2,4,5) Inr]
  show ?thesis
  proof (cases "fs_exists w live")
    case False
    obtain i1 w1 where p: "PruneOldVersions E tid m (index\<lparr>current_ts_ms := m\<rparr>) w = (i1, w1)" by fastforce
    have "index_ok (index\<lparr>current_ts_ms := m\<rparr>)" "local_index (index\<lparr>current_ts_ms := m\<rparr>)"
      using idx assms(6) by (simp_all add: index_ok_def local_index_def)
    note pr = PruneOldVersions_keeps [OF p assms(3) this assms(4,6)]
    have "WriteVersionIndex E (TableVersionsIndexPath E tid) i1 w1 = (r, w')"
      using assms(1) False Inr p by (simp add: ArchiveParquetBeforeReplace_def)
    from WriteVersionIndex_keeps [OF this assms(3) pr(1,2) keeps_log_ok [OF pr(3)]] pr(3)
    show ?thesis by (blast intro: keeps_trans)
  next
    case True
    obtain d w1 where d: "fs_create_directories E (TableVersionsDir E tid) w = (d, w1)" by fastforce
    note k1 = fs_create_directories_keeps [OF d assms(3,4)]
    show ?thesis
    proof (cases d)
      case (Some ec)
      with assms(1) True Inr d k1 show ?thesis by (auto simp: ArchiveParquetBeforeReplace_def)
    next
      case None
      let ?name = "archive_name (current_ts_ms index)"
      obtain c w2 where c: "fs_copy_file E live (version_path E tid ?name) w1 = (c, w2)" by fastforce
      note k2 = fs_copy_file_keeps [OF c archive_name_local assms(3) keeps_log_ok [OF k1]]
      show ?thesis
      proof (cases c)
        case (Some ec)
        with assms(1) True Inr d None c keeps_trans [OF k1 k2] show ?thesis
          by (auto simp: ArchiveParquetBeforeReplace_def Let_def)
      next
        case cNone: None
        let ?index1 = "index\<lparr>versions := sort_key valid_from_ms
          (versions index @ [\<lparr>valid_from_ms = current_ts_ms index, ve_file = ?name\<rparr>]), current_ts_ms := m\<rparr>"
        obtain i3 w3 where p: "PruneOldVersions E tid m ?index1 w2 = (i3, w3)" by fastforce
        have ok1: "index_ok ?index1" "local_index ?index1"
          using idx assms(6) archive_name_local
          by (auto simp: index_ok_def local_index_def list_all_iff entry_ok_def local_file_def)
        note pr = PruneOldVersions_keeps [OF p assms(3) ok1 keeps_log_ok [OF k2] assms(6)]
        have "WriteVersionIndex E (TableVersionsIndexPath E tid) i3 w3 = (r, w')"
          using assms(1) True Inr d None c cNone p by (simp add: ArchiveParquetBeforeReplace_def Let_def)
        from WriteVersionIndex_keeps [OF this assms(3) pr(1,2) keeps_log_ok [OF pr(3)]] pr(3) k1 k2
        show ?thesis by (blast intro: keeps_trans)
      qed
    qed
  qed
qed

subsection \<open>Mutations are atomic\<close>

definition quiet :: "World \<Rightarrow> World \<Rightarrow> bool" where
  "quiet w w' \<longleftrightarrow> files w' = files w \<and> dirs w' = dirs w \<and> clock_ms w' = clock_ms w"

text \<open>A step that leaves the live file as it was, and one that replaces its rows.\<close>

definition unchanged :: "DuckEnv \<Rightarrow> TableId \<Rightarrow> World \<Rightarrow> World \<Rightarrow> bool" where
  "unchanged E tid w w' \<longleftrightarrow>
     frame E tid w w' \<and> log_ok E w' tid \<and> files w' (TableParquetPath E tid) = files w (TableParquetPath E tid)"

definition replaced :: "DuckEnv \<Rightarrow> TableId \<Rightarrow> Row list \<Rightarrow> World \<Rightarrow> World \<Rightarrow> bool" where
  "replaced E tid rows w w' \<longleftrightarrow>
     frame E tid w w' \<and> log_ok E w' tid \<and> files w' (TableParquetPath E tid) = Some (ParquetFile rows)"

lemma quiet_trans: "quiet w1 w2 \<Longrightarrow> quiet w2 w3 \<Longrightarrow> quiet w1 w3"
  by (simp add: quiet_def)

lemma quiet_log_ok: "quiet w w' \<Longrightarrow> log_ok E w' tid = log_ok E w tid"
  by (simp add: quiet_def log_ok_def)

lemma quiet_unchanged: "quiet w w' \<Longrightarrow> log_ok E w tid \<Longrightarrow> unchanged E tid w w'"
  by (simp add: quiet_log_ok unchanged_def) (simp add: quiet_def frame_files_eq)

lemma keeps_unchanged: "keeps E tid w w' \<Longrightarrow> unchanged E tid w w'"
  by (simp add: keeps_def unchanged_def)

lemma unchanged_trans: "unchanged E tid w1 w2 \<Longrightarrow> unchanged E tid w2 w3 \<Longrightarrow> unchanged E tid w1 w3"
  by (auto simp: unchanged_def intro: frame_trans)

lemma unchanged_replaced: "unchanged E tid w1 w2 \<Longrightarrow> replaced E tid rows w2 w3 \<Longrightarrow> replaced E tid rows w1 w3"
  by (auto simp: unchanged_def replaced_def intro: frame_trans)

lemma RunSql_error: "RunSql E stmt w = (Inl e, w') \<Longrightarrow> w' = w"
  by (auto simp: RunSql_def split: option.splits)

lemma RunSql_ok: "RunSql E stmt w = (Inr u, w') \<Longrightarrow> w' = exec_stmt E stmt w"
  by (auto simp: RunSql_def split: option.splits)

lemma quiet_drop: "quiet w (TryDropTempTable E tbl w)"
  by (simp add: TryDropTempTable_def RunSql_def quiet_def split: option.splits)

lemma quiet_temp: "quiet w (w\<lparr>temp_tables := x\<rparr>)"
  by (simp add: quiet_def)

lemma fs_remove_tmp_unchanged:
  assumes "safe_table tid" "log_ok E w tid"
  shows "unchanged E tid w (fs_remove (TableParquetPath E tid @ ''.tmp'') w)"
  using assms own_paths_distinct(6) [OF assms(1), of "''x''" E]
  by (auto simp: unchanged_def frame_def fs_remove_def log_ok_def local_file_def)

lemma Snapshot_effect:
  assumes "SnapshotTempTableToParquet E tag tbl (TableParquetPath E tid @ ''.tmp'') (TableParquetPath E tid) w = (r, w')"
    and "safe_table tid" "log_ok E w tid"
  shows "case r of Inr _ \<Rightarrow> replaced E tid (temp_rows w tbl) w w' | Inl _ \<Rightarrow> unchanged E tid w w'"
proof -
  let ?tmp = "TableParquetPath E tid @ ''.tmp''" and ?P = "TableParquetPath E tid"
  define w0 where "w0 = fs_remove ?tmp w"
  have u0: "unchanged E tid w w0" unfolding w0_def by (rule fs_remove_tmp_unchanged [OF assms(2,3)])
  obtain q w1 where q: "RunSql E (CopyToParquet tbl ?tmp) w0 = (q, w1)" by fastforce
  have idx: "?tmp \<noteq> TableVersionsIndexPath E tid"
    using own_paths_distinct(6) [OF assms(2), of "''x''" E] by (simp add: local_file_def)
  show ?thesis
  proof (cases q)
    case (Inl e)
    with q have "w1 = w0" using RunSql_error by blast
    then have r: "r = Inl e" "w' = fs_remove ?tmp (TryDropTempTable E tbl w0)"
      using assms(1) q Inl by (simp_all add: SnapshotTempTableToParquet_def w0_def)
    have "unchanged E tid w0 (TryDropTempTable E tbl w0)"
      using u0 by (intro quiet_unchanged quiet_drop) (simp add: unchanged_def)
    with u0 have u1: "unchanged E tid w (TryDropTempTable E tbl w0)" by (rule unchanged_trans)
    then have "unchanged E tid w w'"
      unfolding r(2) by (rule unchanged_trans) (rule fs_remove_tmp_unchanged [OF assms(2)], use u1 in \<open>simp add: unchanged_def\<close>)
    with r show ?thesis by simp
  next
    case (Inr u)
    then have w1: "w1 = w0\<lparr>files := (files w0)(?tmp \<mapsto> ParquetFile (temp_rows w tbl))\<rparr>"
      using RunSql_ok [of E "CopyToParquet tbl ?tmp" w0 u w1] q by (simp add: w0_def fs_remove_def temp_rows_def)
    have u1: "unchanged E tid w0 w1"
      using u0 idx by (auto simp: w1 unchanged_def frame_def log_ok_def)
    obtain ec w2 where ec: "fs_rename E ?tmp ?P w1 = (ec, w2)" by fastforce
    show ?thesis
    proof (cases ec)
      case (Some m)
      then have "w2 = w1" using ec by (auto simp: fs_rename_def w1 split: option.splits)
      then have r: "isl r" "w' = fs_remove ?tmp (TryDropTempTable E tbl w1)"
        using assms(1) q Inr ec Some by (auto simp: SnapshotTempTableToParquet_def w0_def)
      have u2: "unchanged E tid w (TryDropTempTable E tbl w1)"
        using u0 u1 quiet_unchanged [OF quiet_drop [of w1 E tbl], of E tid]
        by (auto simp: unchanged_def intro: frame_trans)
      then have "unchanged E tid w w'"
        unfolding r(2) by (rule unchanged_trans) (rule fs_remove_tmp_unchanged [OF assms(2)], use u2 in \<open>simp add: unchanged_def\<close>)
      with r(1) show ?thesis by (cases r) auto
    next
      case None
      then have w2: "w2 = w1\<lparr>files := (files w1)(?tmp := None, ?P \<mapsto> ParquetFile (temp_rows w tbl))\<rparr>"
        using ec by (auto simp: fs_rename_def w1 split: option.splits)
      have r: "r = Inr ()" "w' = TryDropTempTable E tbl w2"
        using assms(1) q Inr ec None by (simp_all add: SnapshotTempTableToParquet_def w0_def)
      have "P \<noteq> TableVersionsIndexPath E tid" if "P = ?P" for P
        using that own_paths_distinct(4) [OF assms(2), of "''x''" E] by (simp add: local_file_def)
      then have "replaced E tid (temp_rows w tbl) w1 w2"
        using u1 idx by (auto simp: w2 replaced_def unchanged_def frame_def log_ok_def)
      then have "replaced E tid (temp_rows w tbl) w1 w'"
        using quiet_drop [of w2 E tbl] quiet_log_ok [OF quiet_drop [of w2 E tbl], of E tid]
        by (auto simp: r(2) replaced_def quiet_def frame_def)
      with u0 u1 r show ?thesis by (auto intro: unchanged_replaced unchanged_trans)
    qed
  qed
qed

lemma ReplaceParquet_effect:
  assumes "ReplaceParquet E tag tbl tid w = (r, w')"
    and "absl_api (absl_fns E)" "safe_table tid" "log_ok E w tid" "in_int64 (clock_ms w)"
  shows "case r of Inr _ \<Rightarrow> replaced E tid (temp_rows w tbl) w w' | Inl _ \<Rightarrow> unchanged E tid w w'"
proof -
  obtain a w1 where a: "ArchiveParquetBeforeReplace E tid (TableParquetPath E tid) (clock_ms w) w = (a, w1)"
    by fastforce
  note k = Archive_keeps [OF a assms(2-5) assms(5)]
  show ?thesis
  proof (cases a)
    case (Inl e)
    with assms(1) a k show ?thesis by (auto simp: ReplaceParquet_def intro: keeps_unchanged)
  next
    case (Inr u)
    have snap: "SnapshotTempTableToParquet E tag tbl (TableParquetPath E tid @ ''.tmp'') (TableParquetPath E tid) w1 = (r, w')"
      using assms(1) a Inr by (simp add: ReplaceParquet_def Let_def)
    have "temp_rows w1 tbl = temp_rows w tbl" using k by (simp add: keeps_def temp_rows_def)
    with Snapshot_effect [OF snap assms(3) keeps_log_ok [OF k]] keeps_unchanged [OF k] show ?thesis
      by (cases r) (auto intro: unchanged_replaced unchanged_trans)
  qed
qed

lemma ValidateRowsShape_Inr:
  "ValidateRowsShape tag tid rows n i = Inr () \<Longrightarrow> \<forall>row \<in> set rows. length (cells row) = n"
  by (induction tag tid rows n i rule: ValidateRowsShape.induct) (auto split: if_splits)

lemma InsertBatch_effect:
  assumes "InsertBatch E tbl rows physical w = (r, w')"
    and "\<And>d. number_text (StrFormatG17 (lit_fns E) d)"
    and "\<forall>row \<in> set rows. clean_row physical row" "rows \<noteq> []" "columns physical \<noteq> []"
    and "\<forall>row \<in> set rows. length (cells row) = length (columns physical)"
  shows "quiet w w'" "r = Inr u \<Longrightarrow> temp_rows w' tbl = temp_rows w tbl @ rows"
proof -
  have "quiet w w' \<and> (\<forall>u. r = Inr u \<longrightarrow> temp_rows w' tbl = temp_rows w tbl @ rows)"
  proof (cases "BuildBatchInsertSql (lit_fns E) tbl rows physical")
    case (Inl e)
    with assms(1) show ?thesis using quiet_drop by (auto simp: InsertBatch_def)
  next
    case (Inr sql)
    from BuildBatchInsertSql_reads [OF assms(2) Inr assms(3,4,6,5)]
    have rb: "reads_back E sql tbl physical rows" by (auto simp: reads_back_def)
    obtain q w1 where q: "RunSql E (InsertValues sql tbl physical rows) w = (q, w1)" by fastforce
    show ?thesis
    proof (cases q)
      case (Inl e)
      with q have "w1 = w" using RunSql_error by blast
      with assms(1) Inr Inl q quiet_drop show ?thesis by (auto simp: InsertBatch_def)
    next
      case (Inr u1)
      then have "w1 = exec_stmt E (InsertValues sql tbl physical rows) w" using q RunSql_ok by blast
      with assms(1) \<open>BuildBatchInsertSql _ _ _ _ = _\<close> Inr q rb show ?thesis
        by (auto simp: InsertBatch_def quiet_def temp_rows_def)
    qed
  qed
  then show "quiet w w'" "r = Inr u \<Longrightarrow> temp_rows w' tbl = temp_rows w tbl @ rows" by auto
qed

subsection \<open>Appends and overwrites\<close>

definition meta_text :: "DuckEnv \<Rightarrow> World \<Rightarrow> TableId \<Rightarrow> string option" where
  "meta_text E w tid =
     (case files w (TableMetaPath E tid) of
        None \<Rightarrow> None
      | Some (TextFile s) \<Rightarrow> Some s
      | Some (ParquetFile rows) \<Rightarrow> Some (parquet_bytes E rows))"

definition physical_schema :: "DuckEnv \<Rightarrow> World \<Rightarrow> TableId \<Rightarrow> TableSchema option" where
  "physical_schema E w tid =
     (case meta_text E w tid of
        None \<Rightarrow> None
      | Some s \<Rightarrow>
          (case ParseTableMetaJson E s of
             Inl e \<Rightarrow> None
           | Inr schema \<Rightarrow> Some (ParquetStorageSchema (absl_fns E) schema)))"

text \<open>
  The parameters behave as documented: number texts are numbers and a row copied through the
  carry-over SELECT is unchanged; the ids are safe, the log is readable and the clock is in
  range.
\<close>

definition store_ok :: "DuckEnv \<Rightarrow> World \<Rightarrow> TableId \<Rightarrow> bool" where
  "store_ok E w tid \<longleftrightarrow>
     absl_api (absl_fns E) \<and> (\<forall>d. number_text (StrFormatG17 (lit_fns E) d)) \<and>
     (\<forall>schema row. duck_carry E schema row = row) \<and>
     safe_table tid \<and> log_ok E w tid \<and> in_int64 (clock_ms w)"

definition duck_ok_row :: "DuckEnv \<Rightarrow> World \<Rightarrow> TableId \<Rightarrow> Row \<Rightarrow> bool" where
  "duck_ok_row E w tid row \<longleftrightarrow>
     store_ok E w tid \<and>
     (\<forall>physical. physical_schema E w tid = Some physical \<longrightarrow>
        columns physical \<noteq> [] \<and> clean_row physical row)"

definition rows_of_duck :: "DuckEnv \<Rightarrow> World \<Rightarrow> TableId \<Rightarrow> Row list" where
  "rows_of_duck E w tid = (if safe_table tid then parquet_rows w (TableParquetPath E tid) else [])"

lemma ReadFile_meta:
  "ReadFile E w (TableMetaPath E tid) = Inr s \<Longrightarrow> meta_text E w tid = Some s"
  by (auto simp: ReadFile_def meta_text_def split: option.splits FileData.splits)

lemma ReadTableSchema_physical:
  "ReadTableSchema E tid w = Inr schema \<Longrightarrow>
     physical_schema E w tid = Some (ParquetStorageSchema (absl_fns E) schema)"
  by (auto simp: ReadTableSchema_def physical_schema_def dest!: ReadFile_meta split: sum.splits)

lemma quiet_ops: "quiet w w' \<Longrightarrow> fs_exists w' p = fs_exists w p \<and> parquet_rows w' p = parquet_rows w p"
  by (simp add: quiet_def fs_exists_def parquet_rows_def)

text \<open>
  The staging steps change no file; on success the temporary table holds what the step says.
\<close>

lemma OpenStage_effect:
  assumes "OpenStage E tag tbl tid rows w = (q, w1)"
  shows "quiet w w1"
    "q = Inr ph \<Longrightarrow> temp_rows w1 tbl = [] \<and> physical_schema E w tid = Some ph \<and>
       (\<forall>row \<in> set rows. length (cells row) = length (columns ph))"
  using assms ReadTableSchema_physical [of E tid w]
  by (auto simp: OpenStage_def RunSql_def quiet_def temp_rows_def Let_def dest!: ValidateRowsShape_Inr
      split: sum.splits option.splits)

lemma CarryOver_effect:
  assumes "CarryOver E tid ph w = (q, w1)" "\<forall>schema row. duck_carry E schema row = row"
  shows "quiet w w1"
    "q = Inr u \<Longrightarrow> temp_rows w1 append_table = temp_rows w append_table @ parquet_rows w (TableParquetPath E tid)"
proof -
  have "map (duck_carry E ph) xs = xs" for xs using assms(2) by (simp add: map_idI)
  then show "quiet w w1"
    "q = Inr u \<Longrightarrow> temp_rows w1 append_table = temp_rows w append_table @ parquet_rows w (TableParquetPath E tid)"
    using assms(1) quiet_drop [of w E append_table]
    by (auto simp: CarryOver_def RunSql_def quiet_def temp_rows_def fs_exists_def parquet_rows_def
        split: if_splits option.splits)
qed

lemma store_ok_facts:
  assumes "store_ok E w tid"
  shows "absl_api (absl_fns E)" "\<And>d. number_text (StrFormatG17 (lit_fns E) d)"
    "\<forall>schema row. duck_carry E schema row = row" "safe_table tid" "log_ok E w tid" "in_int64 (clock_ms w)"
  using assms by (auto simp: store_ok_def)

lemma store_ok_quiet: "quiet w w' \<Longrightarrow> store_ok E w' tid = store_ok E w tid"
  by (simp add: store_ok_def quiet_log_ok) (simp add: quiet_def)

definition rows_fit :: "DuckEnv \<Rightarrow> World \<Rightarrow> TableId \<Rightarrow> Row list \<Rightarrow> bool" where
  "rows_fit E w tid rows \<longleftrightarrow>
     (\<forall>physical. physical_schema E w tid = Some physical \<longrightarrow>
        columns physical \<noteq> [] \<and> (\<forall>row \<in> set rows. clean_row physical row))"

lemma AppendRows_stages:
  assumes "AppendRows_duck E w tid rows = (r, w')" "rows \<noteq> []" "store_ok E w tid" "rows_fit E w tid rows"
  obtains (failed) e where "r = Inl e" "quiet w w'"
  | (staged) w3 where "quiet w w3" "ReplaceParquet E ''AppendRows'' append_table tid w3 = (r, w')"
      "temp_rows w3 append_table = parquet_rows w (TableParquetPath E tid) @ rows"
proof (cases "EnsureTableMetaExists E tid w")
  case (Inl e)
  with assms(1) have "r = Inl e" "w' = w" by (simp_all add: AppendRows_duck_def)
  then show ?thesis using failed [of e] by (simp add: quiet_def)
next
  case ens: (Inr u)
  obtain q w1 where q: "OpenStage E ''AppendRows'' append_table tid rows w = (q, w1)" by fastforce
  note o = OpenStage_effect [OF q] and ok = store_ok_facts [OF assms(3)]
  show ?thesis
  proof (cases q)
    case (Inl e)
    with assms(1,2) ens q have "r = Inl e" "w' = w1" by (simp_all add: AppendRows_duck_def)
    with o(1) failed show ?thesis by blast
  next
    case (Inr ph)
    note o2 = o(2) [OF Inr]
    obtain c w2 where c: "CarryOver E tid ph w1 = (c, w2)" by fastforce
    note c2 = CarryOver_effect [OF c ok(3)]
    obtain b w3 where b: "InsertBatch E append_table rows ph w2 = (b, w3)" by fastforce
    have fit: "columns ph \<noteq> []" "\<forall>row \<in> set rows. clean_row ph row"
      using assms(4) o2 by (simp_all add: rows_fit_def)
    note b2 = InsertBatch_effect [OF b ok(2) fit(2) assms(2) fit(1)]
    have q3: "quiet w w2" "quiet w w3" using o(1) c2(1) b2(1) o2 by (blast intro: quiet_trans)+
    show ?thesis
    proof (cases "isl c \<or> isl b")
      case True
      with assms(1,2) ens q Inr c b have "\<exists>e. r = Inl e \<and> (w' = w2 \<or> w' = w3)"
        by (cases c; cases b) (auto simp: AppendRows_duck_def)
      with q3 failed show ?thesis by blast
    next
      case False
      then obtain u1 u2 where u: "c = Inr u1" "b = Inr u2" by (cases c; cases b) auto
      have "temp_rows w3 append_table = parquet_rows w (TableParquetPath E tid) @ rows"
        using b2(2) [OF _ u(2)] c2(2) [OF u(1)] o2 quiet_ops [OF o(1), of "TableParquetPath E tid"] by simp
      moreover have "ReplaceParquet E ''AppendRows'' append_table tid w3 = (r, w')"
        using assms(1,2) ens q Inr c b u by (simp add: AppendRows_duck_def)
      ultimately show ?thesis using staged q3 by blast
    qed
  qed
qed

lemma OverwriteRows_stages:
  assumes "OverwriteRows_duck E w tid rows = (r, w')" "store_ok E w tid" "rows_fit E w tid rows"
  obtains (failed) e where "r = Inl e" "quiet w w'"
  | (staged) w2 where "quiet w w2" "ReplaceParquet E ''OverwriteRows'' overwrite_table tid w2 = (r, w')"
      "temp_rows w2 overwrite_table = rows"
proof (cases "EnsureTableMetaExists E tid w")
  case (Inl e)
  with assms(1) have "r = Inl e" "w' = w" by (simp_all add: OverwriteRows_duck_def)
  then show ?thesis using failed [of e] by (simp add: quiet_def)
next
  case ens: (Inr u)
  obtain q w1 where q: "OpenStage E ''OverwriteRows'' overwrite_table tid rows w = (q, w1)" by fastforce
  note o = OpenStage_effect [OF q] and ok = store_ok_facts [OF assms(2)]
  show ?thesis
  proof (cases q)
    case (Inl e)
    with assms(1) ens q have "r = Inl e" "w' = w1" by (simp_all add: OverwriteRows_duck_def)
    with o(1) failed show ?thesis by blast
  next
    case (Inr ph)
    note o2 = o(2) [OF Inr]
    have fit: "columns ph \<noteq> []" "\<forall>row \<in> set rows. clean_row ph row"
      using assms(3) o2 by (simp_all add: rows_fit_def)
    obtain b w2 where b: "(if rows \<noteq> [] then InsertBatch E overwrite_table rows ph w1 else (Inr (), w1)) = (b, w2)"
      by fastforce
    have b2: "quiet w1 w2 \<and> (\<forall>u. b = Inr u \<longrightarrow> temp_rows w2 overwrite_table = rows)"
    proof (cases "rows = []")
      case True
      with b o2 show ?thesis by (auto simp: quiet_def)
    next
      case False
      with b have "InsertBatch E overwrite_table rows ph w1 = (b, w2)" by simp
      from InsertBatch_effect [OF this ok(2) fit(2) False fit(1)] o2 show ?thesis by simp
    qed
    then have q2: "quiet w w2" using o(1) by (blast intro: quiet_trans)
    show ?thesis
    proof (cases b)
      case bl: (Inl e)
      with assms(1) ens q Inr b have "r = Inl e" "w' = w2" by (simp_all add: OverwriteRows_duck_def)
      with q2 failed show ?thesis by blast
    next
      case br: (Inr u1)
      have "ReplaceParquet E ''OverwriteRows'' overwrite_table tid w2 = (r, w')"
        using assms(1) ens q Inr b br by (simp add: OverwriteRows_duck_def)
      with b2 br q2 staged show ?thesis by blast
    qed
  qed
qed

lemma ReplaceParquet_after_stage:
  assumes "ReplaceParquet E tag tbl tid w3 = (r, w')" "quiet w w3" "store_ok E w tid"
  shows "case r of Inr _ \<Rightarrow> replaced E tid (temp_rows w3 tbl) w w' | Inl _ \<Rightarrow> unchanged E tid w w'"
proof -
  have "store_ok E w3 tid" using assms(2,3) by (simp add: store_ok_quiet)
  note ok = store_ok_facts [OF this]
  from ReplaceParquet_effect [OF assms(1) ok(1,4-6)] quiet_unchanged [OF assms(2) store_ok_facts(5) [OF assms(3)]]
  show ?thesis by (cases r) (auto intro: unchanged_replaced unchanged_trans)
qed

lemma AppendRows_effect:
  assumes "AppendRows_duck E w tid rows = (r, w')" "rows \<noteq> []" "store_ok E w tid" "rows_fit E w tid rows"
  shows "case r of
      Inr _ \<Rightarrow> replaced E tid (parquet_rows w (TableParquetPath E tid) @ rows) w w'
    | Inl _ \<Rightarrow> unchanged E tid w w'"
  using assms
proof (cases rule: AppendRows_stages)
  case (failed e)
  with quiet_unchanged [OF failed(2) store_ok_facts(5) [OF assms(3)]] show ?thesis by simp
next
  case (staged w3)
  from ReplaceParquet_after_stage [OF staged(2,1) assms(3), unfolded staged(3)] show ?thesis .
qed

lemma OverwriteRows_effect:
  assumes "OverwriteRows_duck E w tid rows = (r, w')" "store_ok E w tid" "rows_fit E w tid rows"
  shows "case r of Inr _ \<Rightarrow> replaced E tid rows w w' | Inl _ \<Rightarrow> unchanged E tid w w'"
  using assms
proof (cases rule: OverwriteRows_stages)
  case (failed e)
  with quiet_unchanged [OF failed(2) store_ok_facts(5) [OF assms(2)]] show ?thesis by simp
next
  case (staged w3)
  from ReplaceParquet_after_stage [OF staged(2,1) assms(2), unfolded staged(3)] show ?thesis .
qed

subsection \<open>The store keeps the storage contract\<close>

lemma frame_physical_schema:
  assumes "frame E tid w w'" "safe_table tid" "safe_table t2"
  shows "physical_schema E w' t2 = physical_schema E w t2"
proof -
  have "files w' (TableMetaPath E t2) = files w (TableMetaPath E t2)"
    using assms touched_other(1) [of tid t2 E] by (auto simp: frame_def)
  then show ?thesis by (simp add: physical_schema_def meta_text_def)
qed

lemma frame_rows:
  assumes "frame E tid w w'" "safe_table tid" "t2 \<noteq> tid"
  shows "rows_of_duck E w' t2 = rows_of_duck E w t2"
proof (cases "safe_table t2")
  case True
  have "\<not> touched E tid (TableParquetPath E t2)"
    using touched_other(2) [OF assms(2) True] assms(3) by metis
  then show ?thesis using assms(1) by (simp add: frame_def rows_of_duck_def parquet_rows_def)
qed (simp add: rows_of_duck_def)

lemma frame_ok_row:
  assumes "frame E tid w w'" "safe_table tid" "log_ok E w' tid" "duck_ok_row E w t2 row"
  shows "duck_ok_row E w' t2 row"
  using assms frame_log_ok [OF assms(1,2)] frame_physical_schema [OF assms(1,2)]
  by (cases "t2 = tid") (auto simp: duck_ok_row_def store_ok_def frame_def)

lemma ok_rows_fit:
  assumes "rs \<noteq> []" "\<And>r. r \<in> set rs \<Longrightarrow> duck_ok_row E w t r"
  shows "store_ok E w t" "rows_fit E w t rs"
  using assms by (cases rs; auto simp: duck_ok_row_def rows_fit_def)+

lemma AppendRows_duck_Nil: "AppendRows_duck E w tid [] = (r, w') \<Longrightarrow> w' = w"
  by (auto simp: AppendRows_duck_def split: sum.splits)

interpretation duck: storage_contract "duckdb_storage E" "rows_of_duck E" "duck_ok_row E" for E
proof unfold_locales
  fix rs st t u st'
  assume ok: "\<And>r. r \<in> set rs \<Longrightarrow> duck_ok_row E st t r"
    and run: "StorageAppendRows (duckdb_storage E) st t rs = (Inr u, st')"
  then have app: "AppendRows_duck E st t rs = (Inr u, st')" by (simp add: duckdb_storage_def)
  show "rows_of_duck E st' = (rows_of_duck E st)(t := rows_of_duck E st t @ rs)"
  proof (cases "rs = []")
    case True
    with app show ?thesis using AppendRows_duck_Nil by fastforce
  next
    case False
    have safe: "safe_table t" using ok [of "hd rs"] False by (simp add: duck_ok_row_def store_ok_def)
    have rep: "replaced E t (parquet_rows st (TableParquetPath E t) @ rs) st st'"
      using AppendRows_effect [OF app False ok_rows_fit [OF False ok]] by simp
    show ?thesis
    proof
      fix t2
      show "rows_of_duck E st' t2 = ((rows_of_duck E st)(t := rows_of_duck E st t @ rs)) t2"
        using rep safe frame_rows [of E t st st' t2]
        by (cases "t2 = t") (auto simp: replaced_def rows_of_duck_def parquet_rows_def)
    qed
  qed
next
  fix rs st t e st'
  assume ok: "\<And>r. r \<in> set rs \<Longrightarrow> duck_ok_row E st t r"
    and run: "StorageAppendRows (duckdb_storage E) st t rs = (Inl e, st')"
  then have app: "AppendRows_duck E st t rs = (Inl e, st')" by (simp add: duckdb_storage_def)
  show "rows_of_duck E st' = rows_of_duck E st"
  proof (cases "rs = []")
    case True
    with app show ?thesis using AppendRows_duck_Nil by fastforce
  next
    case False
    have safe: "safe_table t" using ok [of "hd rs"] False by (simp add: duck_ok_row_def store_ok_def)
    have un: "unchanged E t st st'" using AppendRows_effect [OF app False ok_rows_fit [OF False ok]] by simp
    show ?thesis
    proof
      fix t2
      show "rows_of_duck E st' t2 = rows_of_duck E st t2"
        using un safe frame_rows [of E t st st' t2]
        by (cases "t2 = t") (auto simp: unchanged_def rows_of_duck_def parquet_rows_def)
    qed
  qed
next
  fix rs st t q st' t' x
  assume ok: "\<And>r. r \<in> set rs \<Longrightarrow> duck_ok_row E st t r"
    and run: "StorageAppendRows (duckdb_storage E) st t rs = (q, st')" and x: "duck_ok_row E st t' x"
  then have app: "AppendRows_duck E st t rs = (q, st')" by (simp add: duckdb_storage_def)
  show "duck_ok_row E st' t' x"
  proof (cases "rs = []")
    case True
    with app x show ?thesis using AppendRows_duck_Nil by fastforce
  next
    case False
    have "safe_table t" using ok [of "hd rs"] False by (simp add: duck_ok_row_def store_ok_def)
    moreover have "frame E t st st' \<and> log_ok E st' t"
      using AppendRows_effect [OF app False ok_rows_fit [OF False ok]] by (cases q) (auto simp: replaced_def unchanged_def)
    ultimately show ?thesis using x frame_ok_row by blast
  qed
qed

subsection \<open>Mutations and the history\<close>

lemma Snapshot_files:
  assumes "SnapshotTempTableToParquet E tag tbl tmp P w = (Inr u, w')"
  shows "files w' = (files w)(tmp := None, P \<mapsto> ParquetFile (temp_rows w tbl))"
  using assms
  by (auto simp: SnapshotTempTableToParquet_def RunSql_def fs_rename_def fs_remove_def TryDropTempTable_def
      temp_rows_def Let_def split: option.splits sum.splits prod.splits)

lemma quiet_represents: "quiet w w' \<Longrightarrow> represents E tid w' index H = represents E tid w index H"
  by (simp add: quiet_def represents_def)

lemma Archive_read_ok:
  assumes "represents E tid w index H" "ArchiveParquetBeforeReplace E tid live m w = (Inr u, w')"
  shows "io_fault E w (IoOpenRead (TableVersionsIndexPath E tid)) = None"
proof (rule ccontr)
  assume "io_fault E w (IoOpenRead (TableVersionsIndexPath E tid)) \<noteq> None"
  then have "\<exists>e. LoadVersionIndexOrInit E tid w = Inl e"
    using assms(1) by (auto simp: represents_def LoadVersionIndexOrInit_def fs_exists_def ReadFile_def)
  then show False using assms(2) by (auto simp: ArchiveParquetBeforeReplace_def split: if_splits)
qed

lemma ReplaceParquet_represents:
  assumes "ReplaceParquet E tag tbl tid w = (Inr u, w')" "represents E tid w index H"
    and "absl_api (absl_fns E)" "safe_table tid" "fst (last H) < clock_ms w" "in_int64 (clock_ms w)"
  shows "represents E tid w' (pruned_index index H (clock_ms w))
    (prune_history (clock_ms w) H @ [(clock_ms w, temp_rows w tbl)])"
proof -
  obtain u1 w1 where a: "ArchiveParquetBeforeReplace E tid (TableParquetPath E tid) (clock_ms w) w = (Inr u1, w1)"
    and s: "SnapshotTempTableToParquet E tag tbl (TableParquetPath E tid @ ''.tmp'') (TableParquetPath E tid) w1 = (Inr u, w')"
    using assms(1) by (auto simp: ReplaceParquet_def Let_def split: prod.splits sum.splits)
  have "temp_tables w1 = temp_tables w"
    using a by (auto simp: ArchiveParquetBeforeReplace_def WriteVersionIndex_def PruneOldVersions_def remove_all_other
        fs_copy_file_def fs_create_directories_def Let_def dest!: WriteFileAtomic_ok
        split: if_splits sum.splits option.splits prod.splits)
  then have "temp_rows w1 tbl = temp_rows w tbl" by (simp add: temp_rows_def)
  with Snapshot_files [OF s] show ?thesis
    by (intro Archive_represents [OF assms(3,4,2) a Archive_read_ok [OF assms(2) a] assms(5,6)]) simp
qed

lemma AppendRows_represents:
  assumes "AppendRows_duck E w tid rows = (Inr u, w')" "rows \<noteq> []" "store_ok E w tid" "rows_fit E w tid rows"
    and "represents E tid w index H" "fst (last H) < clock_ms w"
  shows "represents E tid w' (pruned_index index H (clock_ms w))
    (prune_history (clock_ms w) H @ [(clock_ms w, snd (last H) @ rows)])"
  using assms(1-4)
proof (cases rule: AppendRows_stages)
  case (staged w3)
  note ok = store_ok_facts [OF assms(3)]
  have live: "parquet_rows w (TableParquetPath E tid) = snd (last H)"
    using assms(5) by (simp add: represents_def parquet_rows_def)
  have "clock_ms w3 = clock_ms w" "represents E tid w3 index H"
    using staged(1) assms(5) by (simp_all add: quiet_represents) (simp add: quiet_def)
  with ReplaceParquet_represents [OF staged(2) _ ok(1,4)] assms(6) ok(6) staged(3) live show ?thesis by simp
qed simp

subsection \<open>Creating tables\<close>

lemma CreateTable_ok:
  assumes "CreateTable E w tid schema = (Inr u, w')" "safe_table tid" "columns (ParquetStorageSchema (absl_fns E) schema) \<noteq> []"
  obtains json where "RenderTableMetaJson E schema = Inr json"
    "files w' (TableMetaPath E tid) = Some (TextFile json)" "files w' (TableParquetPath E tid) = Some (ParquetFile [])"
    "files w' (TableVersionsIndexPath E tid) = Some (TextFile (RenderVersionIndexJson
       \<lparr>created_ts_ms = clock_ms w, current_ts_ms = clock_ms w, versions = []\<rparr>))"
    "fs_exists w' (DatasetDir E tid)"
proof -
  let ?ph = "ParquetStorageSchema (absl_fns E) schema" and ?M = "TableMetaPath E tid" and ?P = "TableParquetPath E tid"
  have cols: "columns schema \<noteq> []" using assms(3) by (auto simp: ParquetStorageSchema_def StripMeasureColumns_def)
  obtain json w1 where j: "RenderTableMetaJson E schema = Inr json" "WriteFileAtomic E ?M json w = (Inr (), w1)"
    "fs_exists w (DatasetDir E tid)" "\<not> fs_exists w ?M"
    using assms(1) cols assms(3) by (auto simp: CreateTable_def Let_def split: if_splits sum.splits prod.splits)
  note f1 = WriteFileAtomic_ok [OF j(2)]
  have tbl: "table_id tid \<noteq> []" using assms(2) by (simp add: safe_table_def safe_id_def)
  obtain w2 where w2: "RunSql E (CreateTempTable mkempty_table ?ph) w1 = (Inr (), w2)"
    using assms(1,3) cols j tbl by (auto simp: CreateTable_def Let_def split: if_splits sum.splits prod.splits)
  obtain w3 where w3: "RunSql E (CopyToParquet mkempty_table ?P) w2 = (Inr (), w3)"
    using assms(1,3) cols j tbl w2 by (auto simp: CreateTable_def Let_def split: if_splits sum.splits prod.splits)
  obtain w4 where w4: "RunSql E (DropTableStmt mkempty_table) w3 = (Inr (), w4)"
    using assms(1,3) cols j tbl w2 w3 by (auto simp: CreateTable_def Let_def split: if_splits sum.splits prod.splits)
  have init: "InitVersionIndex E tid (clock_ms w4) w4 = (Inr u, w')"
    using assms(1,3) cols j tbl w2 w3 w4 by (simp add: CreateTable_def Let_def split: if_splits)
  have f4: "files w4 = (files w1)(?P \<mapsto> ParquetFile [])" "dirs w4 = dirs w1" "clock_ms w4 = clock_ms w1"
    using RunSql_ok [OF w2] RunSql_ok [OF w3] RunSql_ok [OF w4] by (simp_all add: temp_rows_def)
  have f': "files w' = (files w4)(TableVersionsIndexPath E tid @ ''.tmp'' := None, TableVersionsIndexPath E tid \<mapsto>
      TextFile (RenderVersionIndexJson \<lparr>created_ts_ms = clock_ms w4, current_ts_ms = clock_ms w4, versions = []\<rparr>))" "dirs w' = dirs w4"
    using WriteFileAtomic_ok [OF init [unfolded InitVersionIndex_def WriteVersionIndex_def]] by simp_all
  have paths: "?M \<noteq> ?P" "?M \<noteq> TableVersionsIndexPath E tid" "?M \<noteq> TableVersionsIndexPath E tid @ ''.tmp''"
    using touched_other(1) [OF assms(2,2)] touchedI by metis+
  have pi: "?P \<noteq> TableVersionsIndexPath E tid" "?P \<noteq> TableVersionsIndexPath E tid @ ''.tmp''"
    using own_paths_distinct(4,5) [OF assms(2), of "''x''" E] by (simp_all add: local_file_def)
  have "fs_exists w' (DatasetDir E tid)"
  proof -
    have ne: "DatasetDir E tid \<noteq> table_path E tid sfx" for sfx
    proof
      assume "DatasetDir E tid = table_path E tid sfx"
      then have "length (DatasetDir E tid) = length (table_path E tid sfx)" by simp
      then show False using tbl by (simp add: table_path_def path_join_def safe_table_def safe_id_def
          hd_no_slash hd_append split: if_splits) (use assms(2) hd_no_slash in \<open>auto simp: safe_table_def safe_id_def\<close>)
    qed
    show ?thesis
      using j(3) f1 f4 f' ne [of "''.meta.json.tmp''"] ne [of "''.versions.json.tmp''"]
      by (auto simp: fs_exists_def table_paths table_path_append [OF assms(2)])
  qed
  with that [OF j(1)] f1 f4 f' paths pi show ?thesis by simp
qed

subsection \<open>A concrete store\<close>

definition id_row :: "string \<Rightarrow> Row" where
  "id_row s = \<lparr>cells = [VString s]\<rparr>"

definition empty_world :: World where
  "empty_world = \<lparr>files = (\<lambda>p. None), dirs = {DatasetDir json_env sample_tid}, temp_tables = (\<lambda>t. None), clock_ms = 5\<rparr>"

definition json_world :: World where
  "json_world =
     empty_world\<lparr>clock_ms := 9, files := [TableMetaPath json_env sample_tid \<mapsto> TextFile (meta_head @ id_json @ ''}'' @ [CHR 0x0A]),
       TableVersionsIndexPath json_env sample_tid \<mapsto> TextFile (RenderVersionIndexJson sample_index),
       TableParquetPath json_env sample_tid \<mapsto> ParquetFile [id_row ''a'']]\<rparr>"

lemma json_append_runs: "\<exists>w'. AppendRows_duck json_env json_world sample_tid [id_row ''b''] = (Inr (), w')"
proof -
  have "fst (AppendRows_duck json_env json_world sample_tid [id_row ''b'']) = Inr ()" by code_simp
  then show ?thesis by (metis prod.collapse)
qed

lemma json_overwrite_runs: "\<exists>w'. OverwriteRows_duck json_env json_world sample_tid [id_row ''b''] = (Inr (), w')"
proof -
  have "fst (OverwriteRows_duck json_env json_world sample_tid [id_row ''b'']) = Inr ()" by code_simp
  then show ?thesis by (metis prod.collapse)
qed

lemma json_create_runs: "\<exists>w'. CreateTable json_env empty_world sample_tid id_schema = (Inr (), w')"
proof -
  have "fst (CreateTable json_env empty_world sample_tid id_schema) = Inr ()" by code_simp
  then show ?thesis by (metis prod.collapse)
qed

lemma json_env_simps:
  "absl_fns json_env = absl_ref" "lit_fns json_env = sample_lit" "duck_carry json_env schema row = row"
  "io_fault json_env w op = None"
  by (simp_all add: json_env_def)

lemma json_represents: "represents json_env sample_tid json_world sample_index [(5, [id_row ''a''])]"
  using table_paths_distinct(5) [OF sample_safe, of json_env]
  by (simp add: represents_def json_world_def sample_index_def index_ok_def in_int64_def int64_defs)

lemma json_store_ok: "store_ok json_env json_world sample_tid"
proof -
  have "log_ok json_env json_world sample_tid"
    using json_represents
    by (auto simp: log_ok_def represents_def local_index_def sample_index_def json_world_def empty_world_def
        sample_tid_def json_env_def TableVersionsIndexPath_def DatasetDir_def path_join_def)
  then show ?thesis
    by (simp add: store_ok_def json_env_simps sample_lit_def number_text_dec absl_ref.absl_api_axioms json_world_def int64_defs in_int64_def)
qed

lemma json_rows_fit: "rows_fit json_env json_world sample_tid [id_row ''b'']"
proof -
  have "physical_schema json_env json_world sample_tid = Some id_schema" by code_simp
  moreover have "clean_row id_schema (id_row ''b'')" by code_simp
  moreover have "columns id_schema \<noteq> []" by code_simp
  ultimately show ?thesis by (simp add: rows_fit_def)
qed

subsection \<open>The text of a read stream\<close>

text \<open>The conditions a read stream's query has to carry, and a \<open>WHERE\<close> clause of them.\<close>

definition read_conditions :: "ReadFilter \<Rightarrow> string list" where
  "read_conditions rf =
     (case where_sql rf of
        Some (c # s) \<Rightarrow> [''('' @ (c # s) @ '')'']
      | _ \<Rightarrow> (case equality_predicate rf of
                Some pred \<Rightarrow> [drop 7 (RenderPredicateClause pred)]
              | None \<Rightarrow> [])) @
     (if row_start rf > 0 then [''file_row_number >= '' @ dec (row_start rf)] else []) @
     (if row_end rf \<ge> 0 then [''file_row_number < '' @ dec (row_end rf)] else [])"

definition where_text :: "string list \<Rightarrow> string" where
  "where_text conds = (if conds = [] then [] else '' WHERE '' @ join_str '' AND '' conds)"

lemma AppendReadStreamFilters_text:
  assumes "\<not> StrContains sql '' WHERE ''"
  shows "AppendReadStreamFilters rf sql = sql @ where_text (read_conditions rf)"
proof -
  have hit: "StrContains (sql @ CHR '' '' # CHR ''W'' # CHR ''H'' # CHR ''E'' # CHR ''R'' # CHR ''E'' # CHR '' '' # v) '' WHERE ''" for v
    using find_sub_append_hit [of sql "'' WHERE ''" v] by (auto simp: StrContains_def)
  show ?thesis
    using assms
    by (auto simp: AppendReadStreamFilters_def filter_clause_def read_conditions_def where_text_def hit Let_def
        RenderWhereSqlClause_def RenderPredicateClause_def RenderRowPartitionClause_def
        split: option.splits list.splits)
qed

subsection \<open>Properties\<close>







text \<open>
  C15 (a created table is there, empty, with its schema). After a successful \<open>CreateTable\<close> of a
  schema with at least one stored column, \<open>GetSchema\<close> returns that schema, the table has no
  rows, and its history is the one empty snapshot that is live from its creation. The schema
  is written with canonical columns, and its sidecar does not read as that of a view.
\<close>

theorem create_table_establishes:
  assumes "CreateTable E w tid schema = (Inr u, w')" "safe_table tid"
    and "columns (ParquetStorageSchema (absl_fns E) schema) \<noteq> []" "list_all canonical_column (columns schema)"
    and "proto_json_ok E" "io_fault E w' (IoOpenRead (TableMetaPath E tid)) = None" "in_int64 (clock_ms w)"
    and "\<And>json. RenderTableMetaJson E schema = Inr json \<Longrightarrow>
      \<not> EqualsIgnoreCase (ri_table_type (ParseTableResourceInfo json)) ''VIEW''"
  shows "GetSchema_duck E w' tid = Inr schema \<and> rows_of_duck E w' tid = [] \<and>
    (\<exists>index. represents E tid w' index [(clock_ms w, [])])"
proof -
  obtain json where j: "RenderTableMetaJson E schema = Inr json"
    "files w' (TableMetaPath E tid) = Some (TextFile json)" "files w' (TableParquetPath E tid) = Some (ParquetFile [])"
    "files w' (TableVersionsIndexPath E tid) = Some (TextFile (RenderVersionIndexJson
       \<lparr>created_ts_ms = clock_ms w, current_ts_ms = clock_ms w, versions = []\<rparr>))"
    "fs_exists w' (DatasetDir E tid)"
    using CreateTable_ok [OF assms(1-3)] by blast
  have "GetSchema_duck E w' tid = Inr schema"
    using j assms(6,8) RenderTableMetaJson_reads [OF assms(5) j(1) assms(4)]
    by (simp add: GetSchema_duck_def EnsureTableMetaExists_def ReadFile_def fs_exists_def)
  moreover have "represents E tid w' \<lparr>created_ts_ms = clock_ms w, current_ts_ms = clock_ms w, versions = []\<rparr>
      [(clock_ms w, [])]"
    using j assms(7) by (simp add: represents_def index_ok_def)
  ultimately show ?thesis using j(3) by (auto simp: rows_of_duck_def parquet_rows_def)
qed

theorem create_table_establishes_witness:
  "\<exists>w'. CreateTable json_env empty_world sample_tid id_schema = (Inr (), w') \<and>
     GetSchema_duck json_env w' sample_tid = Inr id_schema \<and> rows_of_duck json_env w' sample_tid = []"
proof -
  obtain w' where run: "CreateTable json_env empty_world sample_tid id_schema = (Inr (), w')"
    using json_create_runs by blast
  have "\<not> EqualsIgnoreCase (ri_table_type (ParseTableResourceInfo (meta_head @ id_json @ ''}'' @ [CHR 0x0A]))) ''VIEW''"
    by code_simp
  moreover have "RenderTableMetaJson json_env id_schema = Inr (meta_head @ id_json @ ''}'' @ [CHR 0x0A])" by code_simp
  moreover have "columns (ParquetStorageSchema (absl_fns json_env) id_schema) \<noteq> []" by code_simp
  moreover have "list_all canonical_column (columns id_schema)" by code_simp
  moreover have "in_int64 (clock_ms empty_world)" by code_simp
  ultimately show ?thesis
    using create_table_establishes [OF run sample_safe _ _ json_env_ok] run by (simp add: json_env_simps)
qed

text \<open>
  C21 (a read stream carries every condition). Unless the text before the conditions contains
  the word \<open>WHERE\<close> between blanks, the query of a read stream is that text, one \<open>WHERE\<close> clause
  with the conjunction of the caller's restriction and the bounds of the stream's row range,
  then order, limit and offset.
\<close>

theorem read_stream_sql_reference:
  assumes "\<not> StrContains (''SELECT '' @ cols @ '' FROM read_parquet('' @ quoted path @ '', file_row_number = true)'') '' WHERE ''"
  shows "BuildReadStreamSql path cols rf =
    AppendReadStreamPagination rf
      (''SELECT '' @ cols @ '' FROM read_parquet('' @ quoted path @ '', file_row_number = true)'' @
       where_text (read_conditions rf))"
  using AppendReadStreamFilters_text [OF assms] by (simp add: BuildReadStreamSql_def)

theorem read_stream_sql_reference_witness:
  "BuildReadStreamSql ''/t.parquet'' ''*''
     \<lparr>row_limit = 0, rf_offset = 0, selected_fields = [], row_restriction = [], where_sql = Some ''x = 1'',
      equality_predicate = None, row_start = 2, row_end = 5\<rparr> =
   ''SELECT * FROM read_parquet('' @ quoted ''/t.parquet'' @ '', file_row_number = true)'' @
   '' WHERE (x = 1) AND file_row_number >= 2 AND file_row_number < 5 ORDER BY file_row_number''"
proof -
  have "\<not> StrContains (''SELECT '' @ ''*'' @ '' FROM read_parquet('' @ quoted ''/t.parquet'' @ '', file_row_number = true)'') '' WHERE ''"
    by code_simp
  from read_stream_sql_reference [OF this] show ?thesis
    by (simp add: read_conditions_def where_text_def AppendReadStreamPagination_def dec_def) code_simp
qed

text \<open>
  A column name can break the row range. The code looks for \<open>WHERE\<close> in the whole query:
  with a column whose quoted name contains that word between blanks, the bound of the row range
  is joined by \<open>AND\<close> straight to the \<open>FROM\<close> clause.
\<close>

theorem read_stream_and_without_where:
  "BuildReadStreamSql ''/t.parquet'' (QuoteIdent ''a WHERE b'')
     \<lparr>row_limit = 0, rf_offset = 0, selected_fields = [], row_restriction = [], where_sql = None,
      equality_predicate = None, row_start = 2, row_end = - 1\<rparr> =
   ''SELECT '' @ QuoteIdent ''a WHERE b'' @ '' FROM read_parquet('' @ quoted ''/t.parquet'' @
   '', file_row_number = true) AND file_row_number >= 2 ORDER BY file_row_number''"
  by code_simp

end
