(* ===== verification/Storage_Read.thy ===== *)
theory Storage_Read
  imports Storage_Value "HOL-Library.Word"
begin

section \<open>The Storage Read API service\<close>

text \<open>
  The handlers of \<open>frontend/handlers/storage_read.cc\<close>, \<open>storage_read_streams.cc\<close>,
  \<open>storage_read_internal.cc\<close> and the row-restriction lowering of
  \<open>storage_row_restriction_analyze.cc\<close>. A session pins a table, its schema, the lowered filter
  and the row count; its streams are row ranges of the stored file. The locked sections of the
  handlers are the steps of \<open>read_step\<close>, whose reachable states keep \<open>read_inv\<close>.

  The GoogleSQL analyzer, the expression transpiler and the time and number formats of Abseil are
  fields of \<open>ReadEnv\<close>. Doubles are their 64 bits: the comparison with 0 and 1 and the product
  with a row count are computed on them.
\<close>

subsection \<open>Doubles in the open unit interval\<close>

function bit_len :: "int \<Rightarrow> nat" where
  "bit_len n = (if n \<le> 0 then 0 else Suc (bit_len (n div 2)))"
  by auto

termination
  by (relation "measure nat") auto

declare bit_len.simps [simp del]

text \<open>Rounding to 53 significant bits, ties to even.\<close>

definition round53 :: "int \<Rightarrow> int" where
  "round53 n =
     (let k = bit_len n - 53; q = n div 2 ^ k; r = n mod 2 ^ k
      in if k = 0 then n
         else if 2 * r > 2 ^ k \<or> 2 * r = 2 ^ k \<and> odd q then (q + 1) * 2 ^ k else q * 2 ^ k)"

definition double_exponent :: "double \<Rightarrow> int" where
  "double_exponent d = uint d div 2 ^ 52 mod 2048"

definition double_fraction :: "double \<Rightarrow> int" where
  "double_fraction d = uint d mod 2 ^ 52"

definition double_negative :: "double \<Rightarrow> bool" where
  "double_negative d \<longleftrightarrow> uint d div 2 ^ 63 = 1"

text \<open>\<open>d > 0.0 \&\& d < 1.0\<close>; false for every NaN.\<close>

definition in_unit_interval :: "double \<Rightarrow> bool" where
  "in_unit_interval d \<longleftrightarrow>
     \<not> double_negative d \<and> double_exponent d \<le> 1022 \<and> (double_exponent d \<noteq> 0 \<or> double_fraction d \<noteq> 0)"

text \<open>
  \<open>floor(static_cast<double>(n) * d)\<close> for a double in the unit interval: both the conversion and
  the product are rounded to 53 significant bits; products below the normal range are below 1.
\<close>

definition floor_scaled :: "int \<Rightarrow> double \<Rightarrow> int" where
  "floor_scaled n d =
     (let e = double_exponent d; m = (if e = 0 then double_fraction d else 2 ^ 52 + double_fraction d)
      in round53 (round53 n * m) div 2 ^ nat (1075 - max e 1))"

subsection \<open>Schemas and cells\<close>

datatype 'e ResolvedScan =
    FilterScan 'e
  | ProjectScan "'e ResolvedScan"
  | OrderByScan "'e ResolvedScan"
  | LimitOffsetScan "'e ResolvedScan"
  | OtherScan

datatype 'e ResolvedStatement = QueryStmt "'e ResolvedScan" | OtherStmt string

record ('st, 'e) ReadEnv =
  re_absl :: absl
  StrCatDouble :: "double \<Rightarrow> string"
  ParseTime :: "string \<Rightarrow> string \<Rightarrow> int option"
  AnalyzeStatement :: "'st \<Rightarrow> TableId \<Rightarrow> string \<Rightarrow> string + 'e ResolvedStatement option"
  Transpile :: "'e \<Rightarrow> string"

definition SchemasEqualByShape :: "TableSchema \<Rightarrow> TableSchema \<Rightarrow> bool" where
  "SchemasEqualByShape a b \<longleftrightarrow>
     length (columns a) = length (columns b) \<and>
     list_all2 (\<lambda>x y. col_name x = col_name y \<and> col_type x = col_type y \<and> col_mode x = col_mode y)
       (columns a) (columns b)"

fun find_column_from :: "nat \<Rightarrow> ColumnSchema list \<Rightarrow> string \<Rightarrow> nat option" where
  "find_column_from i [] name = None"
| "find_column_from i (c # cs) name = (if col_name c = name then Some i else find_column_from (Suc i) cs name)"

definition FindColumnByName :: "TableSchema \<Rightarrow> string \<Rightarrow> nat option" where
  "FindColumnByName schema name = find_column_from 0 (columns schema) name"

definition ProjectSchemaForResponse :: "TableSchema \<Rightarrow> string list \<Rightarrow> TableSchema" where
  "ProjectSchemaForResponse schema field_names =
     \<lparr>columns = concat (map (\<lambda>name. case FindColumnByName schema name of
                                      Some idx \<Rightarrow> [columns schema ! idx] | None \<Rightarrow> []) field_names)\<rparr>"

definition NormalizeTimestampOffsetSuffix :: "string \<Rightarrow> string" where
  "NormalizeTimestampOffsetSuffix s =
     (let n = length s
      in if n \<ge> 3 \<and> (s ! (n - 3) = CHR ''+'' \<or> s ! (n - 3) = CHR ''-'') \<and>
            ascii_isdigit (s ! (n - 2)) \<and> ascii_isdigit (s ! (n - 1))
         then if CHR '':'' \<notin> set s \<and> CHR ''T'' \<notin> set s then s else s @ '':00''
         else s)"

definition IsAllDigits :: "string \<Rightarrow> bool" where
  "IsAllDigits s \<longleftrightarrow> s \<noteq> [] \<and> list_all ascii_isdigit s"

text \<open>The formats that are tried in turn; the first is \<open>absl::RFC3339_full\<close>.\<close>

definition timestamp_formats :: "string list" where
  "timestamp_formats =
     [''%Y-%m-%d%ET%H:%M:%E*S%Ez'', ''%Y-%m-%d %H:%M:%E*S%Ez'', ''%Y-%m-%dT%H:%M:%E*S%Ez'',
      ''%Y-%m-%d %H:%M:%E*S'', ''%Y-%m-%dT%H:%M:%E*S'', ''%Y-%m-%d'']"

fun first_parse :: "(string \<Rightarrow> string \<Rightarrow> int option) \<Rightarrow> string list \<Rightarrow> string \<Rightarrow> int option" where
  "first_parse p [] s = None"
| "first_parse p (f # fs) s = (case p f s of Some t \<Rightarrow> Some t | None \<Rightarrow> first_parse p fs s)"

definition ParseTimestampWireString :: "('st, 'e) ReadEnv \<Rightarrow> string \<Rightarrow> int StatusOr" where
  "ParseTimestampWireString R body =
     (let stripped = (if suffix '' UTC'' body then take (length body - 4) body else body)
      in case first_parse (ParseTime R) timestamp_formats (NormalizeTimestampOffsetSuffix stripped) of
           Some t \<Rightarrow> Inr t
         | None \<Rightarrow> Inl (Status kInvalidArgument
                     (''StorageRead: invalid TIMESTAMP value '' @ [CHR 0x27] @ body @ [CHR 0x27])))"

definition TimestampValueToMicrosString :: "('st, 'e) ReadEnv \<Rightarrow> Value \<Rightarrow> string StatusOr" where
  "TimestampValueToMicrosString R v =
     (case v of
        VNull \<Rightarrow> Inl (Status kInvalidArgument ''StorageRead: TIMESTAMP cell is NULL'')
      | VInt64 i \<Rightarrow> Inr (dec i)
      | VString s \<Rightarrow>
          (if IsAllDigits s then Inr s
           else map_sum (\<lambda>e. e) dec (ParseTimestampWireString R s))
      | _ \<Rightarrow> Inl (Status kInvalidArgument ''StorageRead: TIMESTAMP cell has unsupported kind''))"

definition ValueToCellForStorageRead :: "('st, 'e) ReadEnv \<Rightarrow> Value \<Rightarrow> ColumnType \<Rightarrow> Cell" where
  "ValueToCellForStorageRead R v column_type =
     (if column_type = kTimestamp \<and> v \<noteq> VNull then
        (case TimestampValueToMicrosString R v of
           Inr micros \<Rightarrow> CellString micros
         | Inl e \<Rightarrow> ValueToCell (StrCatDouble R) v)
      else ValueToCell (StrCatDouble R) v)"

subsection \<open>The row restriction\<close>

definition Trim :: "string \<Rightarrow> string" where
  "Trim s = trim_right (trim_left s)"

fun FindFilterExpr :: "'e ResolvedScan \<Rightarrow> 'e option" where
  "FindFilterExpr (FilterScan e) = Some e"
| "FindFilterExpr (ProjectScan s) = FindFilterExpr s"
| "FindFilterExpr (OrderByScan s) = FindFilterExpr s"
| "FindFilterExpr (LimitOffsetScan s) = FindFilterExpr s"
| "FindFilterExpr OtherScan = None"

definition TranspileRowRestriction :: "('st, 'e) ReadEnv \<Rightarrow> string \<Rightarrow> TableId \<Rightarrow> 'st \<Rightarrow> string StatusOr" where
  "TranspileRowRestriction R restriction table st =
     (let trimmed = Trim restriction
      in if trimmed = [] then Inr []
         else let sql = ''SELECT * FROM `'' @ project_id table @ ''.'' @ dataset_id table @ ''.'' @ table_id table @
                        ''` WHERE ('' @ trimmed @ '')''
         in case AnalyzeStatement R st table sql of
              Inl msg \<Rightarrow> Inl (Status kInvalidArgument (''row_restriction: '' @ msg))
            | Inr None \<Rightarrow> Inl (Status kInternal ''row_restriction: analyzer returned no resolved statement'')
            | Inr (Some (OtherStmt k)) \<Rightarrow>
                Inl (Status kInvalidArgument (''row_restriction: expected a boolean filter expression; got '' @ k))
            | Inr (Some (QueryStmt scan)) \<Rightarrow>
                (case FindFilterExpr scan of
                   None \<Rightarrow> Inl (Status kInvalidArgument ''row_restriction: analyzer did not produce a filter expression'')
                 | Some e \<Rightarrow>
                     (if Transpile R e = []
                      then Inl (Status kInvalidArgument
                             (''row_restriction: expression is not supported by the DuckDB transpiler in this emulator profile: '' @
                              restriction))
                      else Inr (Transpile R e))))"

subsection \<open>Messages and sessions\<close>

record ReadOptions =
  ro_selected_fields :: "string list"
  ro_row_restriction :: string

record ReadSession =
  rs_name :: string
  rs_table :: string
  rs_schema :: "TableSchemaProto option"
  rs_read_options :: "ReadOptions option"
  rs_streams :: "string list"

record CreateReadSessionRequest =
  cr_parent :: string
  cr_read_session :: ReadSession
  cr_max_stream_count :: int

record ReadRowsResponse =
  rr_rows :: "Cell list list"
  rr_row_count :: int

record StreamPartition =
  sp_name :: string
  sp_row_start :: int
  sp_row_end :: int

record SessionState =
  ses_table :: TableId
  ses_schema :: TableSchema
  ses_where_sql :: "string option"
  ses_selected_fields :: "string list"
  ses_total_rows :: int
  ses_streams :: "string \<rightharpoonup> StreamPartition"
  next_split_id :: int

record ReadService =
  next_session_id :: int
  sessions :: "string \<rightharpoonup> SessionState"

definition kPublicDataProject :: string where
  "kPublicDataProject = ''bigquery-public-data''"

definition kMaxStreamCount :: int where
  "kMaxStreamCount = 1000"

definition kReadRowsBatchSize :: int where
  "kReadRowsBatchSize = 100"

subsection \<open>CreateReadSession\<close>

definition ParseReadSessionWhereSql ::
  "('st, 'e) ReadEnv \<Rightarrow> ReadSession \<Rightarrow> TableId \<Rightarrow> 'st \<Rightarrow> string option StatusOr" where
  "ParseReadSessionWhereSql R read_session table st =
     (case rs_read_options read_session of
        None \<Rightarrow> Inr None
      | Some opts \<Rightarrow>
          (if ro_row_restriction opts = [] then Inr None
           else map_sum (\<lambda>e. e) Some (TranspileRowRestriction R (ro_row_restriction opts) table st)))"

fun check_fields :: "TableSchema \<Rightarrow> string list \<Rightarrow> string list StatusOr" where
  "check_fields schema [] = Inr []"
| "check_fields schema (name # names) =
     (if name = []
      then Inl (Status kInvalidArgument
             ''StorageRead.CreateReadSession: read_options.selected_fields entries must be non-empty'')
      else if FindColumnByName schema name = None
      then Inl (Status kInvalidArgument
             (''StorageRead.CreateReadSession: read_options.selected_fields names unknown column `'' @ name @
              ''` (table has no top-level column with that name)''))
      else case check_fields schema names of Inl e \<Rightarrow> Inl e | Inr rest \<Rightarrow> Inr (name # rest))"

definition ParseReadSessionSelectedFields :: "ReadSession \<Rightarrow> TableSchema \<Rightarrow> string list StatusOr" where
  "ParseReadSessionSelectedFields read_session schema =
     (case rs_read_options read_session of None \<Rightarrow> Inr [] | Some opts \<Rightarrow> check_fields schema (ro_selected_fields opts))"

definition NegotiateStreamCount :: "int \<Rightarrow> int \<Rightarrow> int" where
  "NegotiateStreamCount requested total_rows =
     (if requested \<le> 0 then 1
      else if total_rows \<le> 0 then 1
      else min (min requested kMaxStreamCount) total_rows)"

definition BuildPartitions :: "string \<Rightarrow> int \<Rightarrow> int \<Rightarrow> StreamPartition list" where
  "BuildPartitions session_name stream_count total_rows =
     map (\<lambda>i. \<lparr>sp_name = session_name @ ''/streams/'' @ dec i,
               sp_row_start = (total_rows * i) div stream_count,
               sp_row_end = (total_rows * (i + 1)) div stream_count\<rparr>) [0..stream_count - 1]"

definition ParseParent :: "absl \<Rightarrow> string \<Rightarrow> GrpcStatus + string" where
  "ParseParent A parent =
     (if parent = []
      then Inl (GrpcStatus INVALID_ARGUMENT
             ''StorageRead.CreateReadSession: parent is required (expected form projects/{project_id})'')
      else let parts = StrSplit A parent (CHR ''/'')
      in if length parts \<noteq> 2 \<or> parts ! 0 \<noteq> ''projects'' \<or> parts ! 1 = []
         then Inl (GrpcStatus INVALID_ARGUMENT
                (''StorageRead.CreateReadSession: malformed parent (expected form projects/{project_id}): '' @ parent))
         else Inr (parts ! 1))"

definition ParseTablePath :: "absl \<Rightarrow> string \<Rightarrow> GrpcStatus + TableId" where
  "ParseTablePath A table_path =
     (if table_path = []
      then Inl (GrpcStatus INVALID_ARGUMENT
             (''StorageRead.CreateReadSession: read_session.table is required (expected form '' @
              ''projects/{project_id}/datasets/{dataset_id}/tables/{table_id})''))
      else let parts = StrSplit A table_path (CHR ''/'')
      in if length parts \<noteq> 6 \<or> parts ! 0 \<noteq> ''projects'' \<or> parts ! 2 \<noteq> ''datasets'' \<or> parts ! 4 \<noteq> ''tables'' \<or>
            parts ! 1 = [] \<or> parts ! 3 = [] \<or> parts ! 5 = []
         then Inl (GrpcStatus INVALID_ARGUMENT
                (''StorageRead.CreateReadSession: malformed read_session.table (expected form '' @
                 ''projects/{project_id}/datasets/{dataset_id}/tables/{table_id}): '' @ table_path))
         else Inr \<lparr>project_id = parts ! 1, dataset_id = parts ! 3, table_id = parts ! 5\<rparr>)"

definition session_prefix :: "string \<Rightarrow> string" where
  "session_prefix project = ''projects/'' @ project @ ''/locations/-/sessions/s''"

definition NewSessionId :: "string \<Rightarrow> ReadService \<Rightarrow> string \<times> ReadService" where
  "NewSessionId project svc =
     (session_prefix project @ dec (next_session_id svc), svc\<lparr>next_session_id := next_session_id svc + 1\<rparr>)"

definition ParseReadStreamName :: "string \<Rightarrow> GrpcStatus + string \<times> string" where
  "ParseReadStreamName read_stream =
     (if read_stream = [] then Inl (GrpcStatus INVALID_ARGUMENT ''StorageRead: read_stream is required'')
      else case rfind_sub ''/streams/'' read_stream of
             None \<Rightarrow> Inl (GrpcStatus INVALID_ARGUMENT
                      (''StorageRead: malformed read_stream (expected {session_name}/streams/{id}): '' @ read_stream))
           | Some pos \<Rightarrow>
               (if pos + 9 \<ge> length read_stream
                then Inl (GrpcStatus INVALID_ARGUMENT
                      (''StorageRead: malformed read_stream (expected {session_name}/streams/{id}): '' @ read_stream))
                else Inr (take pos read_stream, drop (pos + 9) read_stream)))"

text \<open>\<open>std::map::emplace\<close>: an existing entry is kept.\<close>

definition map_emplace :: "'k \<Rightarrow> 'v \<Rightarrow> ('k \<rightharpoonup> 'v) \<Rightarrow> 'k \<rightharpoonup> 'v" where
  "map_emplace k v m = (if m k = None then m(k \<mapsto> v) else m)"

definition stream_map :: "StreamPartition list \<Rightarrow> string \<rightharpoonup> StreamPartition" where
  "stream_map parts = foldl (\<lambda>m p. map_emplace (sp_name p) p m) Map.empty parts"

definition OpenSession ::
  "string \<Rightarrow> TableId \<Rightarrow> TableSchema \<Rightarrow> string option \<Rightarrow> string list \<Rightarrow> int \<Rightarrow> int \<Rightarrow> ReadService \<Rightarrow>
   (string \<times> StreamPartition list) \<times> ReadService" where
  "OpenSession project table schema wh selected total_rows stream_count svc =
     (let (session_name, svc1) = NewSessionId project svc;
          partitions = BuildPartitions session_name stream_count total_rows;
          state = \<lparr>ses_table = table, ses_schema = schema, ses_where_sql = wh, ses_selected_fields = selected,
                   ses_total_rows = total_rows, ses_streams = stream_map partitions, next_split_id = 0\<rparr>
      in ((session_name, partitions), svc1\<lparr>sessions := map_emplace session_name state (sessions svc1)\<rparr>))"

definition CreateReadSession ::
  "('st, 'e) ReadEnv \<Rightarrow> 'st Storage \<Rightarrow> CreateReadSessionRequest option \<Rightarrow> 'st \<Rightarrow> ReadService \<Rightarrow>
   (GrpcStatus + ReadSession) \<times> ReadService" where
  "CreateReadSession R S request st svc =
     (case request of
        None \<Rightarrow> (Inl (GrpcStatus INTERNAL ''StorageRead.CreateReadSession: request and response must be non-null''), svc)
      | Some req \<Rightarrow>
     (case ParseParent (re_absl R) (cr_parent req) of
        Inl e \<Rightarrow> (Inl e, svc)
      | Inr project \<Rightarrow>
     (case ParseTablePath (re_absl R) (rs_table (cr_read_session req)) of
        Inl e \<Rightarrow> (Inl e, svc)
      | Inr table \<Rightarrow>
     (if project_id table \<noteq> project \<and> project_id table \<noteq> kPublicDataProject
      then (Inl (GrpcStatus INVALID_ARGUMENT
              (''StorageRead.CreateReadSession: parent project ('' @ project @
               '') does not match read_session.table project ('' @ project_id table @ '')'')), svc)
      else case GetSchema S st table of
        Inl e \<Rightarrow> (Inl (AbslToGrpcStatus e), svc)
      | Inr schema \<Rightarrow>
     (case ParseReadSessionWhereSql R (cr_read_session req) table st of
        Inl e \<Rightarrow> (Inl (AbslToGrpcStatus e), svc)
      | Inr wh \<Rightarrow>
     (case ParseReadSessionSelectedFields (cr_read_session req) schema of
        Inl e \<Rightarrow> (Inl (AbslToGrpcStatus e), svc)
      | Inr selected \<Rightarrow>
     (case CountRows S st table of
        Inl e \<Rightarrow> (Inl (AbslToGrpcStatus e), svc)
      | Inr total_rows \<Rightarrow>
     (let stream_count = NegotiateStreamCount (cr_max_stream_count req) total_rows;
          ((session_name, partitions), svc') = OpenSession project table schema wh selected total_rows stream_count svc
      in (Inr \<lparr>rs_name = session_name, rs_table = rs_table (cr_read_session req),
               rs_schema = Some (TableSchemaToProto
                 (if selected = [] then schema else ProjectSchemaForResponse schema selected)),
               rs_read_options = rs_read_options (cr_read_session req),
               rs_streams = map sp_name partitions\<rparr>, svc')))))))))"

subsection \<open>ReadRows\<close>

definition page_response :: "Cell list list \<Rightarrow> ReadRowsResponse" where
  "page_response page = \<lparr>rr_rows = page, rr_row_count = int (length page)\<rparr>"

definition row_cells :: "('st, 'e) ReadEnv \<Rightarrow> TableSchema \<Rightarrow> Row \<Rightarrow> Cell list" where
  "row_cells R row_schema row =
     map (\<lambda>(v, c). ValueToCellForStorageRead R v (col_type c)) (zip (cells row) (columns row_schema))"

definition client_cancelled :: GrpcStatus where
  "client_cancelled = GrpcStatus ABORTED ''StorageRead.ReadRows: client cancelled mid-stream''"

text \<open>\<open>sent n\<close> says whether the write of page number \<open>n\<close> reaches the client.\<close>

fun StreamRowsToWriter ::
  "('st, 'e) ReadEnv \<Rightarrow> Row list \<Rightarrow> TableSchema \<Rightarrow> int \<Rightarrow> (nat \<Rightarrow> bool) \<Rightarrow> Cell list list \<Rightarrow> nat \<Rightarrow>
   (GrpcStatus + unit) \<times> ReadRowsResponse list" where
  "StreamRowsToWriter R [] row_schema batch_size sent page n =
     (if page \<noteq> [] then (if sent n then (Inr (), [page_response page]) else (Inl client_cancelled, []))
      else (Inr (), []))"
| "StreamRowsToWriter R (row # rows) row_schema batch_size sent page n =
     (if length (cells row) \<noteq> length (columns row_schema)
      then (Inl (GrpcStatus INTERNAL
              (''StorageRead.ReadRows: row cell count '' @ dec_nat (length (cells row)) @
               '' does not match schema column count '' @ dec_nat (length (columns row_schema)))), [])
      else let page' = page @ [row_cells R row_schema row]
      in if int (length page') \<ge> batch_size
         then if \<not> sent n then (Inl client_cancelled, [])
              else case StreamRowsToWriter R rows row_schema batch_size sent [] (Suc n) of
                     (r, out) \<Rightarrow> (r, page_response page' # out)
         else StreamRowsToWriter R rows row_schema batch_size sent page' n)"

definition schema_changed :: "TableId \<Rightarrow> GrpcStatus" where
  "schema_changed table =
     GrpcStatus FAILED_PRECONDITION
       (''StorageRead.ReadRows: table schema for '' @ project_id table @ ''.'' @ dataset_id table @ ''.'' @
        table_id table @ '' changed since CreateReadSession; open a new session'')"

definition ReadRows_rpc ::
  "('st, 'e) ReadEnv \<Rightarrow> 'st Storage \<Rightarrow> (string \<times> int) option \<Rightarrow> (nat \<Rightarrow> bool) option \<Rightarrow> 'st \<Rightarrow> ReadService \<Rightarrow>
   (GrpcStatus + unit) \<times> ReadRowsResponse list" where
  "ReadRows_rpc R S request writer st svc =
     (case request of
        None \<Rightarrow> (Inl (GrpcStatus INTERNAL ''StorageRead.ReadRows: request must be non-null''), [])
      | Some (read_stream, offset) \<Rightarrow>
     (case ParseReadStreamName read_stream of
        Inl e \<Rightarrow> (Inl e, [])
      | Inr (session_name, stream_key) \<Rightarrow>
     (case sessions svc session_name of
        None \<Rightarrow> (Inl (GrpcStatus NOT_FOUND
                  (''StorageRead.ReadRows: no such session (call CreateReadSession first): '' @ session_name)), [])
      | Some session \<Rightarrow>
     (case ses_streams session read_stream of
        None \<Rightarrow> (Inl (GrpcStatus NOT_FOUND (''StorageRead.ReadRows: no such stream: '' @ read_stream)), [])
      | Some part \<Rightarrow>
     (case GetSchema S st (ses_table session) of
        Inl e \<Rightarrow> (Inl (AbslToGrpcStatus e), [])
      | Inr live_schema \<Rightarrow>
     (if \<not> SchemasEqualByShape (ses_schema session) live_schema then (Inl (schema_changed (ses_table session)), [])
      else case writer of
        None \<Rightarrow> (Inl (GrpcStatus INTERNAL ''StorageRead.ReadRows: writer must be non-null''), [])
      | Some sent \<Rightarrow>
     (case CreateReadStream S st (ses_table session)
             (default_ReadFilter\<lparr>rf_offset := offset, row_limit := 0, where_sql := ses_where_sql session,
                selected_fields := ses_selected_fields session,
                row_start := sp_row_start part, row_end := sp_row_end part\<rparr>) of
        Inl e \<Rightarrow> (Inl (AbslToGrpcStatus e), [])
      | Inr rows \<Rightarrow>
          StreamRowsToWriter R rows
            (if ses_selected_fields session = [] then ses_schema session
             else ProjectSchemaForResponse (ses_schema session) (ses_selected_fields session))
            kReadRowsBatchSize sent [] 0)))))))"

subsection \<open>SplitReadStream\<close>

definition split_name :: "string \<Rightarrow> int \<Rightarrow> string \<Rightarrow> string" where
  "split_name session_name split_id child = session_name @ ''/streams/split'' @ dec split_id @ child"

definition SplitSession ::
  "string \<Rightarrow> string \<Rightarrow> double \<Rightarrow> SessionState \<Rightarrow> (GrpcStatus + string \<times> string) \<times> SessionState" where
  "SplitSession session_name name fraction session =
     (case ses_streams session name of
        None \<Rightarrow> (Inl (GrpcStatus NOT_FOUND (''StorageRead.SplitReadStream: no such stream: '' @ name)), session)
      | Some original \<Rightarrow>
     (let range_start = sp_row_start original;
          range_end = (if sp_row_end original < 0 then ses_total_rows session else sp_row_end original);
          span = range_end - range_start
      in if span \<le> 1
         then (Inl (GrpcStatus FAILED_PRECONDITION
                 (''StorageRead.SplitReadStream: stream cannot be split (remaining range has '' @ dec span @
                  '' row(s)): '' @ name)), session)
         else let split_at = range_start + floor_scaled span fraction
         in if split_at \<le> range_start \<or> split_at \<ge> range_end
            then (Inl (GrpcStatus FAILED_PRECONDITION
                    ''StorageRead.SplitReadStream: split point leaves an empty child stream''), session)
            else let split_id = next_split_id session;
                     primary = \<lparr>sp_name = split_name session_name split_id ''p'', sp_row_start = range_start,
                                sp_row_end = split_at\<rparr>;
                     remainder = \<lparr>sp_name = split_name session_name split_id ''r'', sp_row_start = split_at,
                                  sp_row_end = sp_row_end original\<rparr>
            in (Inr (sp_name primary, sp_name remainder),
                session\<lparr>next_split_id := split_id + 1,
                        ses_streams := map_emplace (sp_name remainder) remainder
                          (map_emplace (sp_name primary) primary (ses_streams session))\<rparr>)))"

definition SplitReadStream ::
  "('st, 'e) ReadEnv \<Rightarrow> (string \<times> double) option \<Rightarrow> ReadService \<Rightarrow> (GrpcStatus + string \<times> string) \<times> ReadService" where
  "SplitReadStream R request svc =
     (case request of
        None \<Rightarrow> (Inl (GrpcStatus INTERNAL ''StorageRead.SplitReadStream: request and response must be non-null''), svc)
      | Some (name, fraction) \<Rightarrow>
     (if name = [] then (Inl (GrpcStatus INVALID_ARGUMENT ''StorageRead.SplitReadStream: name is required''), svc)
      else if \<not> in_unit_interval fraction
      then (Inl (GrpcStatus INVALID_ARGUMENT
              (''StorageRead.SplitReadStream: fraction must be in (0.0, 1.0); got '' @ StrCatDouble R fraction)), svc)
      else case ParseReadStreamName name of
        Inl e \<Rightarrow> (Inl e, svc)
      | Inr (session_name, stream_key) \<Rightarrow>
     (case sessions svc session_name of
        None \<Rightarrow> (Inl (GrpcStatus NOT_FOUND (''StorageRead.SplitReadStream: no such session: '' @ session_name)), svc)
      | Some session \<Rightarrow>
          (case SplitSession session_name name fraction session of
             (r, session') \<Rightarrow> (r, svc\<lparr>sessions := (sessions svc)(session_name \<mapsto> session')\<rparr>)))))"

subsection \<open>Ranges\<close>

text \<open>\<open>tiles a b ps\<close>: the ranges follow each other without gap or overlap from \<open>a\<close> to \<open>b\<close>.\<close>

fun tiles :: "int \<Rightarrow> int \<Rightarrow> StreamPartition list \<Rightarrow> bool" where
  "tiles a b [] \<longleftrightarrow> a = b"
| "tiles a b (p # ps) \<longleftrightarrow> sp_row_start p = a \<and> a \<le> sp_row_end p \<and> tiles (sp_row_end p) b ps"

definition range_rows :: "'a list \<Rightarrow> StreamPartition \<Rightarrow> 'a list" where
  "range_rows rows p = take (nat (sp_row_end p - sp_row_start p)) (drop (nat (sp_row_start p)) rows)"

lemma tiles_le: "tiles a b ps \<Longrightarrow> a \<le> b"
  by (induction ps arbitrary: a) fastforce+

lemma tiles_bounds: "tiles a b ps \<Longrightarrow> p \<in> set ps \<Longrightarrow> a \<le> sp_row_start p \<and> sp_row_start p \<le> sp_row_end p \<and> sp_row_end p \<le> b"
  by (induction ps arbitrary: a) (fastforce dest: tiles_le)+

lemma tiles_rows:
  assumes "tiles a b ps" "0 \<le> a"
  shows "concat (map (range_rows rows) ps) = take (nat (b - a)) (drop (nat a) rows)"
  using assms
proof (induction ps arbitrary: a)
  case (Cons p ps)
  let ?m = "sp_row_end p"
  have m: "sp_row_start p = a" "a \<le> ?m" "tiles ?m b ps" "?m \<le> b" using Cons.prems tiles_le by auto
  have "nat (b - a) = nat (?m - a) + nat (b - ?m)" "nat ?m = nat (?m - a) + nat a" using m Cons.prems by auto
  then have "take (nat (b - a)) (drop (nat a) rows) =
      take (nat (?m - a)) (drop (nat a) rows) @ take (nat (b - ?m)) (drop (nat ?m) rows)"
    by (simp only: take_add drop_drop)
  with Cons.IH [OF m(3)] m Cons.prems show ?case by (simp add: range_rows_def)
qed simp

lemma BuildPartitions_tiles:
  assumes "0 < k" "0 \<le> n"
  shows "tiles 0 n (BuildPartitions session k n)"
proof -
  define f where "f i = \<lparr>sp_name = session @ ''/streams/'' @ dec i, sp_row_start = (n * i) div k,
      sp_row_end = (n * (i + 1)) div k\<rparr>" for i
  have mono: "n * i div k \<le> n * (i + 1) div k" for i
    using assms by (intro zdiv_mono1) (simp_all add: algebra_simps)
  have "tiles (n * i div k) (n * j div k) (map f [i..j - 1])" if "i \<le> j" for i j
    using that
  proof (induction "nat (j - i)" arbitrary: i)
    case (Suc d)
    then have "[i..j - 1] = i # [i + 1..j - 1]" by (intro upto_rec1) simp
    moreover have "tiles (n * (i + 1) div k) (n * j div k) (map f [i + 1..j - 1])"
      using Suc.hyps(2) by (intro Suc.hyps(1)) simp_all
    ultimately show ?case using mono by (simp add: f_def)
  qed simp
  from this [of 0 k] assms have "tiles 0 n (map f [0..k - 1])" by simp
  then show ?thesis by (simp add: BuildPartitions_def f_def [abs_def])
qed

lemma NegotiateStreamCount_bounds:
  "0 < NegotiateStreamCount requested n" "NegotiateStreamCount requested n \<le> kMaxStreamCount"
  "0 < n \<Longrightarrow> NegotiateStreamCount requested n \<le> n" "0 < requested \<Longrightarrow> NegotiateStreamCount requested n \<le> requested"
  by (auto simp: NegotiateStreamCount_def kMaxStreamCount_def)

text \<open>With at most as many streams as rows, no stream is empty.\<close>

lemma BuildPartitions_nonempty:
  assumes "0 < k" "k \<le> n" "p \<in> set (BuildPartitions session k n)"
  shows "sp_row_start p < sp_row_end p"
proof -
  obtain i where i: "sp_row_start p = n * i div k" "sp_row_end p = n * (i + 1) div k"
    using assms(3) by (auto simp: BuildPartitions_def)
  have "n * i div k + 1 = (n * i + k) div k" using assms(1) by (simp add: div_add_self2)
  also have "\<dots> \<le> n * (i + 1) div k" using assms by (intro zdiv_mono1) (simp_all add: algebra_simps)
  finally show ?thesis using i by simp
qed

text \<open>The products stay in 64 bits for every row count below \<open>2 ^ 53\<close>.\<close>

lemma partition_products_fit:
  assumes "0 \<le> n" "n < 2 ^ 53" "0 \<le> i" "i \<le> NegotiateStreamCount requested n"
  shows "in_int64 (n * i)"
proof -
  have "i \<le> 1000" using assms(4) NegotiateStreamCount_bounds(2) [of requested n] by (simp add: kMaxStreamCount_def)
  then have "n * i \<le> n * 1000" using assms by (intro mult_left_mono) simp_all
  moreover have "0 \<le> n * i" using assms by simp
  ultimately show ?thesis using assms(2) by (simp add: int64_defs)
qed

subsection \<open>Stream names\<close>

lemma dec_no_slash: "CHR ''/'' \<notin> set (dec i)"
  by (rule dec_no_char) simp_all

lemma rfind_streams:
  assumes "CHR ''/'' \<notin> set v"
  shows "rfind_sub ''/streams/'' (u @ ''/streams/'' @ v) = Some (length u)"
proof (induction u)
  case Nil
  have none: "rfind_sub ''/streams/'' s = None" if "\<And>a b. s = a @ ''/streams/'' @ b \<Longrightarrow> False" for s
    using rfind_sub_Some [of "''/streams/''" s] that by (cases "rfind_sub ''/streams/'' s") auto
  have "rfind_sub ''/streams/'' (''streams/'' @ v) = None"
  proof (rule none)
    fix a b assume eq: "''streams/'' @ v = a @ ''/streams/'' @ b"
    have "count_list (''streams/'' @ v) (CHR ''/'') = 1" using assms by (simp add: count_list_0_iff)
    moreover have "count_list (a @ ''/streams/'' @ b) (CHR ''/'') \<ge> 2" by simp
    ultimately show False using arg_cong [OF eq, of "\<lambda>s. count_list s (CHR ''/'')"] by linarith
  qed
  then show ?case by simp
qed simp

lemma ParseReadStreamName_ok:
  assumes "CHR ''/'' \<notin> set key" "key \<noteq> []"
  shows "ParseReadStreamName (session @ ''/streams/'' @ key) = Inr (session, key)"
  using rfind_streams [OF assms(1), of session] assms(2) by (simp add: ParseReadStreamName_def)

lemma after_last_slash:
  assumes "u @ CHR ''/'' # a = v @ CHR ''/'' # b" "CHR ''/'' \<notin> set a" "CHR ''/'' \<notin> set b"
  shows "u = v \<and> a = b"
proof -
  have "takeWhile (\<lambda>c. c \<noteq> CHR ''/'') (rev a @ CHR ''/'' # rev u) = rev a"
    "takeWhile (\<lambda>c. c \<noteq> CHR ''/'') (rev b @ CHR ''/'' # rev v) = rev b"
    using assms(2,3) by (auto intro!: takeWhile_append_stop)
  moreover have "rev a @ CHR ''/'' # rev u = rev b @ CHR ''/'' # rev v"
    using arg_cong [OF assms(1), of rev] by simp
  ultimately show ?thesis by (metis append_same_eq assms(1) rev_rev_ident)
qed

lemma session_name_inj: "session_prefix p @ dec n = session_prefix q @ dec m \<Longrightarrow> n = m"
  using after_last_slash [of "''projects/'' @ p @ ''/locations/-/sessions''" "CHR ''s'' # dec n"
      "''projects/'' @ q @ ''/locations/-/sessions''" "CHR ''s'' # dec m"]
  by (simp add: session_prefix_def dec_no_slash dec_inj)

lemma split_name_eq:
  "split_name s n [c] = split_name s m [d] \<longleftrightarrow> n = m \<and> c = d"
  by (auto simp: split_name_def dec_inj)

lemma split_name_not_initial: "split_name s n c \<noteq> s @ ''/streams/'' @ dec i"
proof
  assume "split_name s n c = s @ ''/streams/'' @ dec i"
  then have "dec i = ''split'' @ dec n @ c" by (simp add: split_name_def)
  then have "CHR ''s'' \<in> set (dec i)" by simp
  then show False using dec_no_char [of "CHR ''s''" i] by simp
qed

subsection \<open>The sessions of a service\<close>

definition stream_key_ok :: "string \<Rightarrow> string \<Rightarrow> bool" where
  "stream_key_ok session k \<longleftrightarrow> (\<exists>key. k = session @ ''/streams/'' @ key \<and> key \<noteq> [] \<and> CHR ''/'' \<notin> set key)"

definition partition_ok :: "string \<Rightarrow> int \<Rightarrow> string \<Rightarrow> StreamPartition \<Rightarrow> bool" where
  "partition_ok session trows k p \<longleftrightarrow>
     sp_name p = k \<and> 0 \<le> sp_row_start p \<and> sp_row_start p \<le> sp_row_end p \<and> sp_row_end p \<le> trows \<and>
     stream_key_ok session k"

definition session_ok :: "string \<Rightarrow> SessionState \<Rightarrow> bool" where
  "session_ok name ses \<longleftrightarrow>
     (\<forall>k p. ses_streams ses k = Some p \<longrightarrow> partition_ok name (ses_total_rows ses) k p) \<and>
     (\<forall>n \<ge> next_split_id ses. ses_streams ses (split_name name n ''p'') = None \<and>
        ses_streams ses (split_name name n ''r'') = None)"

definition read_inv :: "ReadService \<Rightarrow> bool" where
  "read_inv svc \<longleftrightarrow>
     (\<forall>name ses. sessions svc name = Some ses \<longrightarrow> session_ok name ses) \<and>
     (\<forall>project n. next_session_id svc \<le> n \<longrightarrow> sessions svc (session_prefix project @ dec n) = None)"

inductive read_step :: "('st, 'e) ReadEnv \<Rightarrow> 'st Storage \<Rightarrow> ReadService \<Rightarrow> ReadService \<Rightarrow> bool"
  for R S where
  create: "CreateReadSession R S request st svc = (r, svc') \<Longrightarrow> read_step R S svc svc'"
| split: "SplitReadStream R sreq svc = (q, svc') \<Longrightarrow> read_step R S svc svc'"

definition initial_read_service :: ReadService where
  "initial_read_service = \<lparr>next_session_id = 1, sessions = Map.empty\<rparr>"

definition read_reachable :: "('st, 'e) ReadEnv \<Rightarrow> 'st Storage \<Rightarrow> ReadService \<Rightarrow> bool" where
  "read_reachable R S svc \<longleftrightarrow> (read_step R S)\<^sup>*\<^sup>* initial_read_service svc"

text \<open>What the count of a store promises: it is never negative.\<close>

definition counts_rows :: "'st Storage \<Rightarrow> bool" where
  "counts_rows S \<longleftrightarrow> (\<forall>st t n. CountRows S st t = Inr n \<longrightarrow> 0 \<le> n)"

lemma stream_map_distinct:
  assumes "distinct (map sp_name ps)"
  shows "stream_map ps k = (case find (\<lambda>p. sp_name p = k) ps of None \<Rightarrow> None | Some p \<Rightarrow> Some p)"
proof -
  have "foldl (\<lambda>m p. map_emplace (sp_name p) p m) m ps k =
      (case m k of Some q \<Rightarrow> Some q | None \<Rightarrow> find (\<lambda>p. sp_name p = k) ps)" for m
    by (induction ps arbitrary: m) (auto simp: map_emplace_def split: option.splits)
  from this [of Map.empty] show ?thesis by (simp add: stream_map_def split: option.splits)
qed

lemma BuildPartitions_distinct: "distinct (map sp_name (BuildPartitions session k n))"
  by (auto simp: BuildPartitions_def distinct_map inj_on_def dec_inj)

lemma stream_map_parts:
  "p \<in> set (BuildPartitions session k n) \<Longrightarrow> stream_map (BuildPartitions session k n) (sp_name p) = Some p"
proof -
  assume p: "p \<in> set (BuildPartitions session k n)"
  then obtain q where q: "find (\<lambda>q. sp_name q = sp_name p) (BuildPartitions session k n) = Some q"
    by (cases "find (\<lambda>q. sp_name q = sp_name p) (BuildPartitions session k n)") (auto simp: find_None_iff)
  then have "sp_name q = sp_name p" "q \<in> set (BuildPartitions session k n)" by (auto simp: find_Some_iff)
  with p BuildPartitions_distinct [of session k n] have "q = p" by (auto simp: distinct_map inj_on_def)
  with q show ?thesis by (simp add: stream_map_distinct [OF BuildPartitions_distinct])
qed

lemma stream_map_only:
  assumes "stream_map (BuildPartitions session k n) key = Some p"
  shows "p \<in> set (BuildPartitions session k n)" "sp_name p = key"
  using assms by (auto simp: stream_map_distinct [OF BuildPartitions_distinct] find_Some_iff split: option.splits)

lemma opened_session_ok:
  assumes "0 < k" "0 \<le> n" "ses_streams ses = stream_map (BuildPartitions name k n)" "ses_total_rows ses = n"
  shows "session_ok name ses"
proof -
  have "partition_ok name n key p" if "stream_map (BuildPartitions name k n) key = Some p" for key p
  proof -
    note q = stream_map_only [OF that]
    obtain i where "key = name @ ''/streams/'' @ dec i" using q by (auto simp: BuildPartitions_def)
    then have "stream_key_ok name key" using dec_no_slash [of i] by (simp add: stream_key_ok_def)
    then show ?thesis
      using q tiles_bounds [OF BuildPartitions_tiles [OF assms(1,2)] q(1)]
      by (auto simp: partition_ok_def)
  qed
  moreover have "stream_map (BuildPartitions name k n) (split_name name m c) = None" for m c
  proof (cases "stream_map (BuildPartitions name k n) (split_name name m c)")
    case (Some p)
    obtain i where "sp_name p = name @ ''/streams/'' @ dec i"
      using stream_map_only(1) [OF Some] by (auto simp: BuildPartitions_def)
    then show ?thesis using split_name_not_initial [of name m c i] stream_map_only(2) [OF Some] by simp
  qed
  ultimately show ?thesis using assms(3,4) by (simp add: session_ok_def)
qed

lemma CreateReadSession_cases:
  assumes "CreateReadSession R S request st svc = (r, svc')"
  obtains (error) e where "r = Inl e" "svc' = svc"
  | (ok) req project table schema wh selected trows where
      "request = Some req" "GetSchema S st table = Inr schema" "CountRows S st table = Inr trows"
      "ParseTablePath (re_absl R) (rs_table (cr_read_session req)) = Inr table"
      "ParseReadSessionWhereSql R (cr_read_session req) table st = Inr wh"
      "ParseReadSessionSelectedFields (cr_read_session req) schema = Inr selected"
      "svc' = snd (OpenSession project table schema wh selected trows (NegotiateStreamCount (cr_max_stream_count req) trows) svc)"
      "\<exists>resp. r = Inr resp \<and> rs_name resp = session_prefix project @ dec (next_session_id svc) \<and>
         rs_streams resp = map sp_name (BuildPartitions (rs_name resp) (NegotiateStreamCount (cr_max_stream_count req) trows) trows)"
  using assms
  by (auto simp: CreateReadSession_def OpenSession_def NewSessionId_def Let_def split: option.splits sum.splits if_splits)

lemma OpenSession_sessions:
  assumes "read_inv svc"
  shows "sessions (snd (OpenSession project table schema wh selected trows k svc)) =
    (sessions svc)(session_prefix project @ dec (next_session_id svc) \<mapsto>
      \<lparr>ses_table = table, ses_schema = schema, ses_where_sql = wh, ses_selected_fields = selected,
       ses_total_rows = trows,
       ses_streams = stream_map (BuildPartitions (session_prefix project @ dec (next_session_id svc)) k trows),
       next_split_id = 0\<rparr>)"
    "next_session_id (snd (OpenSession project table schema wh selected trows k svc)) = next_session_id svc + 1"
  using assms by (auto simp: OpenSession_def NewSessionId_def map_emplace_def read_inv_def Let_def)

lemma create_keeps_inv:
  assumes "read_inv svc" "counts_rows S" "CreateReadSession R S request st svc = (r, svc')"
  shows "read_inv svc'"
  using assms(3)
proof (cases rule: CreateReadSession_cases)
  case (ok req project table schema wh selected trows)
  let ?k = "NegotiateStreamCount (cr_max_stream_count req) trows"
  have "0 \<le> trows" using assms(2) ok(3) by (auto simp: counts_rows_def)
  then have "session_ok (session_prefix project @ dec (next_session_id svc))
      \<lparr>ses_table = table, ses_schema = schema, ses_where_sql = wh, ses_selected_fields = selected,
       ses_total_rows = trows,
       ses_streams = stream_map (BuildPartitions (session_prefix project @ dec (next_session_id svc)) ?k trows),
       next_split_id = 0\<rparr>"
    by (intro opened_session_ok [of ?k trows]) (simp_all add: NegotiateStreamCount_bounds)
  then show ?thesis
    using assms(1) unfolding ok(7) read_inv_def OpenSession_sessions [OF assms(1)]
    by (auto dest: session_name_inj)
qed (use assms(1) in simp)

lemma SplitSession_cases:
  assumes "SplitSession sname name f ses = (r, ses')"
  obtains (error) e where "r = Inl e" "ses' = ses"
  | (ok) original m where "ses_streams ses name = Some original"
      "sp_row_start original < m"
      "m < (if sp_row_end original < 0 then ses_total_rows ses else sp_row_end original)"
      "r = Inr (split_name sname (next_split_id ses) ''p'', split_name sname (next_split_id ses) ''r'')"
      "ses' = ses\<lparr>next_split_id := next_split_id ses + 1,
         ses_streams := map_emplace (split_name sname (next_split_id ses) ''r'')
           \<lparr>sp_name = split_name sname (next_split_id ses) ''r'', sp_row_start = m, sp_row_end = sp_row_end original\<rparr>
           (map_emplace (split_name sname (next_split_id ses) ''p'')
             \<lparr>sp_name = split_name sname (next_split_id ses) ''p'', sp_row_start = sp_row_start original, sp_row_end = m\<rparr>
             (ses_streams ses))\<rparr>"
proof (cases "\<exists>e. r = Inl e")
  case True
  then show ?thesis
    using assms error by (auto simp: SplitSession_def Let_def split: option.splits if_splits)
next
  case False
  then obtain original where o: "ses_streams ses name = Some original"
    using assms by (auto simp: SplitSession_def split: option.splits)
  show ?thesis
    using assms False o
    by (intro ok [OF o, of "sp_row_start original + floor_scaled
        ((if sp_row_end original < 0 then ses_total_rows ses else sp_row_end original) - sp_row_start original) f"])
      (auto simp: SplitSession_def Let_def split: if_splits)
qed

lemma split_key_ok: "c \<noteq> CHR ''/'' \<Longrightarrow> stream_key_ok sname (split_name sname n [c])"
  using dec_no_slash [of n] by (auto simp: stream_key_ok_def split_name_def)

lemma split_streams:
  assumes "session_ok sname ses" "n = next_split_id ses"
  shows "map_emplace (split_name sname n ''r'') q (map_emplace (split_name sname n ''p'') p (ses_streams ses)) =
    (ses_streams ses)(split_name sname n ''p'' \<mapsto> p, split_name sname n ''r'' \<mapsto> q)"
  using assms by (simp add: session_ok_def map_emplace_def split_name_eq)

lemma split_session_ok:
  assumes "session_ok sname ses" "SplitSession sname name f ses = (r, ses')"
  shows "session_ok sname ses'"
  using assms(2)
proof (cases rule: SplitSession_cases)
  case (ok original m)
  let ?n = "next_split_id ses"
  let ?p = "\<lparr>sp_name = split_name sname ?n ''p'', sp_row_start = sp_row_start original, sp_row_end = m\<rparr>"
  let ?q = "\<lparr>sp_name = split_name sname ?n ''r'', sp_row_start = m, sp_row_end = sp_row_end original\<rparr>"
  have o: "partition_ok sname (ses_total_rows ses) name original" using assms(1) ok(1) by (simp add: session_ok_def)
  then have pq: "partition_ok sname (ses_total_rows ses) (split_name sname ?n ''p'') ?p"
    "partition_ok sname (ses_total_rows ses) (split_name sname ?n ''r'') ?q"
    using ok(2,3) by (simp_all add: partition_ok_def split_key_ok)
  have "ses_streams ses' = (ses_streams ses)(split_name sname ?n ''p'' \<mapsto> ?p, split_name sname ?n ''r'' \<mapsto> ?q)"
    "ses_total_rows ses' = ses_total_rows ses" "next_split_id ses' = ?n + 1"
    using split_streams [OF assms(1) refl] ok(5) by simp_all
  then show ?thesis using assms(1) pq by (auto simp: session_ok_def split_name_eq)
qed (use assms(1) in simp)

lemma SplitReadStream_cases:
  assumes "SplitReadStream R sreq svc = (r, svc')"
  obtains (error) e where "r = Inl e" "svc' = svc"
  | (split) name f sname key ses ses' where "sreq = Some (name, f)" "ParseReadStreamName name = Inr (sname, key)"
      "in_unit_interval f" "sessions svc sname = Some ses"
      "SplitSession sname name f ses = (r, ses')" "svc' = svc\<lparr>sessions := (sessions svc)(sname \<mapsto> ses')\<rparr>"
proof (cases "\<exists>name f sname key ses. sreq = Some (name, f) \<and> name \<noteq> [] \<and> in_unit_interval f \<and>
    ParseReadStreamName name = Inr (sname, key) \<and> sessions svc sname = Some ses")
  case True
  then obtain name f sname key ses where *: "sreq = Some (name, f)" "name \<noteq> []" "in_unit_interval f"
    "ParseReadStreamName name = Inr (sname, key)" "sessions svc sname = Some ses" by blast
  obtain q ses' where q: "SplitSession sname name f ses = (q, ses')" by (metis surj_pair)
  have "(r, svc') = (q, svc\<lparr>sessions := (sessions svc)(sname \<mapsto> ses')\<rparr>)"
    using assms * q by (simp add: SplitReadStream_def)
  with split [OF *(1,4,3,5)] q show ?thesis by simp
next
  case False
  have "\<exists>e. (r, svc') = (Inl e, svc)"
    using False unfolding assms [symmetric] SplitReadStream_def by (fastforce split: option.split sum.split prod.split)
  with error show ?thesis by blast
qed

lemma split_keeps_inv:
  assumes "read_inv svc" "SplitReadStream R sreq svc = (r, svc')"
  shows "read_inv svc'"
  using assms(2)
proof (cases rule: SplitReadStream_cases)
  case (split name f sname key ses ses')
  have "session_ok sname ses'"
    using split_session_ok [OF _ split(5)] assms(1) split(4) by (simp add: read_inv_def)
  moreover have "session_prefix project @ dec n \<noteq> sname" if "next_session_id svc \<le> n" for project n
    using assms(1) split(4) that by (auto simp: read_inv_def)
  ultimately show ?thesis using assms(1) split(6) by (auto simp: read_inv_def)
qed (use assms(1) in simp)

lemma read_reachable_inv:
  assumes "read_reachable R S svc" "counts_rows S"
  shows "read_inv svc"
  using assms(1) unfolding read_reachable_def
proof (induction rule: rtranclp_induct)
  case base
  show ?case by (simp add: initial_read_service_def read_inv_def)
next
  case (step svc svc')
  from step.hyps(2) show ?case
    by cases (use step.IH create_keeps_inv [OF _ assms(2)] split_keeps_inv in blast)+
qed

subsection \<open>Pages\<close>

lemma StreamRowsToWriter_all:
  assumes "\<forall>row \<in> set rows. length (cells row) = length (columns sch)" "\<forall>n. sent n"
    and "StreamRowsToWriter R rows sch b sent page n = (r, out)" "int (length page) < b"
  shows "r = Inr () \<and> concat (map rr_rows out) = page @ map (row_cells R sch) rows \<and>
    (\<forall>resp \<in> set out. rr_row_count resp = int (length (rr_rows resp)) \<and> 0 < rr_row_count resp \<and> rr_row_count resp \<le> b)"
  using assms
proof (induction rows arbitrary: page n r out)
  case Nil
  then show ?case by (auto simp: page_response_def split: if_splits)
next
  case (Cons row rows)
  let ?page = "page @ [row_cells R sch row]"
  show ?case
  proof (cases "int (length ?page) \<ge> b")
    case True
    obtain q o1 where q: "StreamRowsToWriter R rows sch b sent [] (Suc n) = (q, o1)" by (metis surj_pair)
    have "sent n" using Cons.prems(2) by blast
    then have "(r, out) = (q, page_response ?page # o1)" using Cons.prems(1,3) q True by (simp add: Let_def)
    then have "out = page_response ?page # o1" "r = q" by simp_all
    moreover have "0 < b" using Cons.prems(4) by simp
    ultimately show ?thesis using Cons.IH [OF _ _ q] Cons.prems True by (auto simp: page_response_def)
  next
    case False
    have "StreamRowsToWriter R rows sch b sent ?page n = (r, out)"
      using Cons.prems(1,3) False by (auto simp: Let_def)
    from Cons.IH [OF _ Cons.prems(2) this] Cons.prems(1) False show ?thesis by auto
  qed
qed

subsection \<open>Reading a whole session\<close>

text \<open>
  What the read service needs of a store: for a table it can read, the count is the number of its
  rows and a row range without filter or projection yields the rows of that range.
\<close>

definition range_filter :: "int \<Rightarrow> int \<Rightarrow> ReadFilter" where
  "range_filter a b = default_ReadFilter\<lparr>row_start := a, row_end := b\<rparr>"

locale read_contract =
  fixes S :: "'st Storage"
    and rows_of :: "'st \<Rightarrow> TableId \<Rightarrow> Row list"
    and readable :: "'st \<Rightarrow> TableId \<Rightarrow> bool"
  assumes count_rows: "readable st t \<Longrightarrow> CountRows S st t = Inr (int (length (rows_of st t)))"
    and range_reads: "\<lbrakk>readable st t; 0 \<le> a; a \<le> b; b \<le> int (length (rows_of st t))\<rbrakk> \<Longrightarrow>
      CreateReadStream S st t (range_filter a b) = Inr (take (nat (b - a)) (drop (nat a) (rows_of st t)))"
    and row_shape: "\<lbrakk>readable st t; GetSchema S st t = Inr schema; row \<in> set (rows_of st t)\<rbrakk> \<Longrightarrow>
      length (cells row) = length (columns schema)"

text \<open>The rows that the pages of reading the given streams in turn hold.\<close>

definition read_all ::
  "('st, 'e) ReadEnv \<Rightarrow> 'st Storage \<Rightarrow> string list \<Rightarrow> 'st \<Rightarrow> ReadService \<Rightarrow> Cell list list" where
  "read_all R S names st svc =
     concat (map (\<lambda>name. concat (map rr_rows (snd (ReadRows_rpc R S (Some (name, 0)) (Some (\<lambda>n. True)) st svc)))) names)"

lemma SchemasEqualByShape_refl [simp]: "SchemasEqualByShape a a"
  by (simp add: SchemasEqualByShape_def list.rel_refl)

context read_contract begin

lemma read_range:
  assumes "readable st t" "GetSchema S st t = Inr schema" "sessions svc sname = Some ses"
    and "session_ok sname ses" "ses_streams ses name = Some p"
    and "ses_table ses = t" "ses_schema ses = schema" "ses_where_sql ses = None" "ses_selected_fields ses = []"
    and "ses_total_rows ses \<le> int (length (rows_of st t))"
  shows "\<exists>out. ReadRows_rpc R S (Some (name, 0)) (Some (\<lambda>n. True)) st svc = (Inr (), out) \<and>
    concat (map rr_rows out) = map (row_cells R schema) (range_rows (rows_of st t) p) \<and>
    (\<forall>resp \<in> set out. rr_row_count resp = int (length (rr_rows resp)) \<and> rr_row_count resp \<le> kReadRowsBatchSize)"
proof -
  have ok: "partition_ok sname (ses_total_rows ses) name p" using assms(4,5) by (simp add: session_ok_def)
  then obtain key where "name = sname @ ''/streams/'' @ key" "key \<noteq> []" "CHR ''/'' \<notin> set key"
    by (auto simp: partition_ok_def stream_key_ok_def)
  then have parse: "ParseReadStreamName name = Inr (sname, key)" using ParseReadStreamName_ok by blast
  let ?rows = "range_rows (rows_of st t) p"
  have filt: "default_ReadFilter\<lparr>rf_offset := 0, row_limit := 0, where_sql := None, selected_fields := [],
      row_start := sp_row_start p, row_end := sp_row_end p\<rparr> = range_filter (sp_row_start p) (sp_row_end p)"
    by (simp add: range_filter_def default_ReadFilter_def)
  have range: "CreateReadStream S st t (range_filter (sp_row_start p) (sp_row_end p)) = Inr ?rows"
    unfolding range_rows_def using ok assms(10) by (intro range_reads [OF assms(1)]) (auto simp: partition_ok_def)
  obtain r out where run: "StreamRowsToWriter R ?rows schema kReadRowsBatchSize (\<lambda>n. True) [] 0 = (r, out)"
    by (metis surj_pair)
  have "length (cells row) = length (columns schema)" if "row \<in> set ?rows" for row
    using row_shape [OF assms(1,2)] that by (auto simp: range_rows_def dest!: in_set_takeD in_set_dropD)
  then have "r = Inr () \<and> concat (map rr_rows out) = [] @ map (row_cells R schema) ?rows \<and>
    (\<forall>resp \<in> set out. rr_row_count resp = int (length (rr_rows resp)) \<and> 0 < rr_row_count resp \<and> rr_row_count resp \<le> kReadRowsBatchSize)"
    by (intro StreamRowsToWriter_all [OF _ _ run]) (auto simp: kReadRowsBatchSize_def)
  moreover have "ReadRows_rpc R S (Some (name, 0)) (Some (\<lambda>n. True)) st svc = (r, out)"
    using parse assms(2,3,5-9) filt range run by (simp add: ReadRows_rpc_def)
  ultimately show ?thesis by auto
qed

lemma created_session_reads_all:
  assumes "read_inv svc" "CreateReadSession R S (Some req) st svc = (Inr resp, svc')"
    and "rs_read_options (cr_read_session req) = None"
    and "ParseTablePath (re_absl R) (rs_table (cr_read_session req)) = Inr t" "readable st t"
  shows "\<exists>schema. GetSchema S st t = Inr schema \<and>
    read_all R S (rs_streams resp) st svc' = map (row_cells R schema) (rows_of st t)"
  using assms(2)
proof (cases rule: CreateReadSession_cases)
  case (ok req' project table schema wh selected n)
  let ?k = "NegotiateStreamCount (cr_max_stream_count req) n" and ?sn = "session_prefix project @ dec (next_session_id svc)"
  let ?parts = "BuildPartitions ?sn ?k n"
  have t: "table = t" "req' = req" using ok assms(4) by simp_all
  have n: "n = int (length (rows_of st t))" using count_rows [OF assms(5)] ok(3) t by simp
  have opts: "wh = None" "selected = []"
    using ok(5,6) assms(3) t by (simp_all add: ParseReadSessionWhereSql_def ParseReadSessionSelectedFields_def)
  note sess = OpenSession_sessions(1) [OF assms(1), of project table schema wh selected n ?k]
  obtain ses where ses: "sessions svc' ?sn = Some ses" "ses_streams ses = stream_map ?parts" "ses_total_rows ses = n"
    "ses_table ses = t" "ses_schema ses = schema" "ses_where_sql ses = None" "ses_selected_fields ses = []"
    using ok(7) sess t opts by simp
  have sok: "session_ok ?sn ses" by (intro opened_session_ok [OF _ _ ses(2,3)]) (simp_all add: NegotiateStreamCount_bounds n)
  have "concat (map rr_rows (snd (ReadRows_rpc R S (Some (sp_name p, 0)) (Some (\<lambda>n. True)) st svc'))) =
      map (row_cells R schema) (range_rows (rows_of st t) p)" if "p \<in> set ?parts" for p
  proof -
    have "ses_streams ses (sp_name p) = Some p" using stream_map_parts [OF that] ses(2) by simp
    from read_range [OF assms(5) ok(2) [unfolded t] ses(1) sok this ses(4-7), of R] n ses(3) show ?thesis by auto
  qed
  then have eq: "map (\<lambda>p. concat (map rr_rows (snd (ReadRows_rpc R S (Some (sp_name p, 0)) (Some (\<lambda>n. True)) st svc')))) ?parts =
      map (\<lambda>p. map (row_cells R schema) (range_rows (rows_of st t) p)) ?parts" by simp
  have "rs_streams resp = map sp_name ?parts" using ok(8) t by auto
  then have "read_all R S (rs_streams resp) st svc' =
      concat (map (\<lambda>p. concat (map rr_rows (snd (ReadRows_rpc R S (Some (sp_name p, 0)) (Some (\<lambda>n. True)) st svc')))) ?parts)"
    by (simp add: read_all_def comp_def)
  also have "\<dots> = map (row_cells R schema) (concat (map (range_rows (rows_of st t)) ?parts))"
    unfolding eq by (simp add: map_concat comp_def)
  also have "concat (map (range_rows (rows_of st t)) ?parts) = rows_of st t"
    using tiles_rows [OF BuildPartitions_tiles [of ?k n ?sn], of "rows_of st t"] n by (simp add: NegotiateStreamCount_bounds)
  finally show ?thesis using ok(2) t by blast
qed simp

end

subsection \<open>Sample data for the witnesses\<close>

text \<open>A store with one table of ten rows that it counts but does not hold.\<close>

definition ten_rows :: "unit Storage" where
  "ten_rows =
     \<lparr>GetSchema = (\<lambda>st t. Inr \<lparr>columns = []\<rparr>), StorageAppendRows = (\<lambda>st t rows. (Inr (), ())),
      CreateReadStream = (\<lambda>st t f. Inr []), CountRows = (\<lambda>st t. Inr 10)\<rparr>"

definition plain_read_env :: "('st, unit) ReadEnv" where
  "plain_read_env =
     \<lparr>re_absl = absl_ref, StrCatDouble = (\<lambda>d. []), ParseTime = (\<lambda>f s. None),
      AnalyzeStatement = (\<lambda>st t s. Inl []), Transpile = (\<lambda>e. [])\<rparr>"

definition read_request :: "int \<Rightarrow> CreateReadSessionRequest" where
  "read_request k =
     \<lparr>cr_parent = ''projects/p'',
      cr_read_session = \<lparr>rs_name = [], rs_table = ''projects/p/datasets/d/tables/t'', rs_schema = None,
        rs_read_options = None, rs_streams = []\<rparr>,
      cr_max_stream_count = k\<rparr>"

definition three_streams :: ReadService where
  "three_streams = snd (CreateReadSession plain_read_env ten_rows (Some (read_request 3)) () initial_read_service)"

lemma ten_rows_counts: "counts_rows ten_rows"
  by (simp add: counts_rows_def ten_rows_def)

lemma initial_reachable: "read_reachable R S initial_read_service"
  by (simp add: read_reachable_def)

lemma three_streams_reachable: "read_reachable plain_read_env ten_rows three_streams"
proof -
  have "read_step plain_read_env ten_rows initial_read_service three_streams"
    by (rule read_step.create [of _ _ "Some (read_request 3)" "()"]) (simp add: three_streams_def prod_eq_iff)
  then show ?thesis by (simp add: read_reachable_def)
qed

text \<open>The double 0.5.\<close>

definition half :: double where
  "half = 0x3FE0000000000000"

subsection \<open>Properties\<close>

text \<open>
  C17 (the streams of a session tile the table). A created session is stored under the name it
  is answered with. Its streams, at most a thousand and no more than were asked for, are ranges
  that follow each other from row 0 to the row count without gap or overlap, and none is empty
  unless the table is.
\<close>

theorem session_streams_tile:
  assumes "read_reachable R S svc" "counts_rows S" "CreateReadSession R S (Some req) st svc = (Inr resp, svc')"
  shows "\<exists>ses parts. sessions svc' (rs_name resp) = Some ses \<and> rs_streams resp = map sp_name parts \<and>
    (\<forall>p \<in> set parts. ses_streams ses (sp_name p) = Some p) \<and> tiles 0 (ses_total_rows ses) parts \<and>
    0 < length parts \<and> int (length parts) \<le> max 1 (min 1000 (cr_max_stream_count req)) \<and>
    (0 < ses_total_rows ses \<longrightarrow> (\<forall>p \<in> set parts. sp_row_start p < sp_row_end p))"
  using assms(3)
proof (cases rule: CreateReadSession_cases)
  case (ok req' project table schema wh selected n)
  let ?k = "NegotiateStreamCount (cr_max_stream_count req) n" and ?sn = "session_prefix project @ dec (next_session_id svc)"
  let ?parts = "BuildPartitions ?sn ?k n"
  have n: "0 \<le> n" using ok(3) assms(2) by (auto simp: counts_rows_def)
  have req: "req' = req" using ok(1) by simp
  note sess = OpenSession_sessions(1) [OF read_reachable_inv [OF assms(1,2)], of project table schema wh selected n ?k]
  obtain ses where ses: "sessions svc' ?sn = Some ses" "ses_streams ses = stream_map ?parts" "ses_total_rows ses = n"
    using ok(7) sess req by simp
  have "length ?parts = nat ?k" by (simp add: BuildPartitions_def)
  moreover have "?k \<le> max 1 (min 1000 (cr_max_stream_count req))"
    by (auto simp: NegotiateStreamCount_def kMaxStreamCount_def)
  moreover have "0 < n \<longrightarrow> (\<forall>p \<in> set ?parts. sp_row_start p < sp_row_end p)"
    using BuildPartitions_nonempty NegotiateStreamCount_bounds by blast
  ultimately show ?thesis
    using ok(8) req ses stream_map_parts BuildPartitions_tiles [OF NegotiateStreamCount_bounds(1) n]
      NegotiateStreamCount_bounds(1) [of "cr_max_stream_count req" n]
    by (intro exI [of _ ses] exI [of _ ?parts]) auto
qed simp

theorem session_streams_tile_witness:
  "\<exists>resp svc' ses parts. CreateReadSession plain_read_env ten_rows (Some (read_request 3)) () initial_read_service = (Inr resp, svc') \<and>
     sessions svc' (rs_name resp) = Some ses \<and> rs_streams resp = map sp_name parts \<and> tiles 0 (ses_total_rows ses) parts"
proof -
  let ?run = "CreateReadSession plain_read_env ten_rows (Some (read_request 3)) () initial_read_service"
  have "\<not> isl (fst ?run)" by code_simp
  then obtain resp svc' where run: "?run = (Inr resp, svc')" by (metis prod.collapse sum.collapse(2))
  from session_streams_tile [OF initial_reachable ten_rows_counts run] run show ?thesis by blast
qed

text \<open>
  C9 (a split divides its stream). In every reachable state of the service, a successful
  \<open>SplitReadStream\<close> adds two streams whose ranges are not empty and together are exactly the
  range of the split stream, and leaves every other stream of the session as it was.
\<close>

theorem split_divides_stream:
  assumes "read_reachable R S svc" "counts_rows S" "SplitReadStream R (Some (name, f)) svc = (Inr (pname, rname), svc')"
  shows "\<exists>sname ses ses' original p q. sessions svc sname = Some ses \<and> ses_streams ses name = Some original \<and>
    sessions svc' = (sessions svc)(sname \<mapsto> ses') \<and>
    ses_streams ses' = (ses_streams ses)(pname \<mapsto> p, rname \<mapsto> q) \<and>
    ses_streams ses pname = None \<and> ses_streams ses rname = None \<and> pname \<noteq> rname \<and>
    tiles (sp_row_start original) (sp_row_end original) [p, q] \<and>
    sp_row_start p < sp_row_end p \<and> sp_row_start q < sp_row_end q"
  using assms(3)
proof (cases rule: SplitReadStream_cases)
  case (split name' f' sname key ses ses')
  have nm: "name' = name" "f' = f" using split(1) by simp_all
  have sok: "session_ok sname ses"
    using read_reachable_inv [OF assms(1,2)] split(4) by (simp add: read_inv_def)
  from split(5) show ?thesis
  proof (cases rule: SplitSession_cases)
    case (ok original m)
    let ?P = "split_name sname (next_split_id ses) ''p''" and ?R = "split_name sname (next_split_id ses) ''r''"
    let ?p = "\<lparr>sp_name = ?P, sp_row_start = sp_row_start original, sp_row_end = m\<rparr>"
    let ?q = "\<lparr>sp_name = ?R, sp_row_start = m, sp_row_end = sp_row_end original\<rparr>"
    have "partition_ok sname (ses_total_rows ses) name original" using sok ok(1) nm by (simp add: session_ok_def)
    then have "\<not> sp_row_end original < 0" by (simp add: partition_ok_def)
    moreover have "pname = ?P" "rname = ?R" using ok(4) by simp_all
    moreover have "ses_streams ses' = (ses_streams ses)(?P \<mapsto> ?p, ?R \<mapsto> ?q)"
      using split_streams [OF sok refl] ok(5) by simp
    moreover have "ses_streams ses ?P = None" "ses_streams ses ?R = None" using sok by (simp_all add: session_ok_def)
    ultimately show ?thesis
      using ok(1-3) split(4,6) nm
      by (intro exI [of _ sname] exI [of _ ses] exI [of _ ses'] exI [of _ original] exI [of _ ?p] exI [of _ ?q])
        (simp add: split_name_eq)
  qed simp
qed simp

theorem split_divides_stream_witness:
  "\<exists>pname rname svc' sname ses'. SplitReadStream (plain_read_env :: (unit, unit) ReadEnv)
       (Some (''projects/p/locations/-/sessions/s1/streams/0'', half)) three_streams = (Inr (pname, rname), svc') \<and>
     sessions svc' sname = Some ses' \<and> ses_streams ses' pname \<noteq> None \<and> ses_streams ses' rname \<noteq> None"
proof -
  let ?run = "SplitReadStream (plain_read_env :: (unit, unit) ReadEnv)
    (Some (''projects/p/locations/-/sessions/s1/streams/0'', half)) three_streams"
  have "\<not> isl (fst ?run)" by code_simp
  then obtain pn rn svc' where run: "?run = (Inr (pn, rn), svc')" by (metis prod.collapse sum.collapse(2))
  from split_divides_stream [OF three_streams_reachable ten_rows_counts run] obtain sname ses ses' p q
    where *: "sessions three_streams sname = Some ses" "sessions svc' = (sessions three_streams)(sname \<mapsto> ses')"
      "ses_streams ses' = (ses_streams ses)(pn \<mapsto> p, rn \<mapsto> q)" by blast
  then have "sessions svc' sname = Some ses'" "ses_streams ses' pn \<noteq> None" "ses_streams ses' rn \<noteq> None" by simp_all
  with run show ?thesis by blast
qed

end
