(* ===== verification/Duckdb_Read.thy ===== *)
theory Duckdb_Read
  imports Duckdb_Storage Storage_Read
begin

section \<open>The read service on the DuckDB store\<close>

text \<open>
  The DuckDB store keeps the read contract for every table it can read: the table has a schema
  without measure columns and a data file, and the database answers the two queries the store
  renders as documented, the count with the number of rows and a row range, in file order, with
  the rows of the range, each cell reading back as it was stored.
\<close>

definition count_sql :: "string \<Rightarrow> string" where
  "count_sql path = ''SELECT COUNT(*) FROM read_parquet('' @ quoted path @ '', file_row_number = true)''"

definition range_sql :: "DuckEnv \<Rightarrow> TableId \<Rightarrow> TableSchema \<Rightarrow> int \<Rightarrow> int \<Rightarrow> string" where
  "range_sql E tid schema a b =
     BuildReadStreamSql (TableParquetPath E tid) (RenderColumnIdentList schema) (range_filter a b)"

definition answers_count :: "DuckEnv \<Rightarrow> World \<Rightarrow> TableId \<Rightarrow> bool" where
  "answers_count E w tid \<longleftrightarrow>
     (\<exists>c. duck_query E w (count_sql (TableParquetPath E tid)) = Inr \<lparr>column_count = 1, result_rows = [[c]]\<rparr> \<and>
       value_int64 c = int (length (rows_of_duck E w tid)))"

definition answers_ranges :: "DuckEnv \<Rightarrow> World \<Rightarrow> TableId \<Rightarrow> TableSchema \<Rightarrow> bool" where
  "answers_ranges E w tid schema \<longleftrightarrow>
     (\<forall>a b. 0 \<le> a \<and> a \<le> b \<and> b \<le> int (length (rows_of_duck E w tid)) \<longrightarrow>
       (\<exists>res. duck_query E w (range_sql E tid schema a b) = Inr res \<and> column_count res = length (columns schema) \<and>
          list_all2 (\<lambda>cs row. ReadCells E cs (columns schema) = Inr (cells row)) (result_rows res)
            (take (nat (b - a)) (drop (nat a) (rows_of_duck E w tid)))))"

definition duck_readable :: "DuckEnv \<Rightarrow> World \<Rightarrow> TableId \<Rightarrow> bool" where
  "duck_readable E w tid \<longleftrightarrow>
     safe_table tid \<and> fs_exists w (TableParquetPath E tid) \<and> answers_count E w tid \<and>
     (\<exists>schema. GetSchema_duck E w tid = Inr schema \<and> ParquetStorageSchema (absl_fns E) schema = schema \<and>
        answers_ranges E w tid schema \<and>
        (\<forall>row \<in> set (rows_of_duck E w tid). length (cells row) = length (columns schema)))"

lemma GetSchema_reads:
  assumes "GetSchema_duck E w tid = Inr schema"
  shows "EnsureTableMetaExists E tid w = Inr ()" "ReadTableSchema E tid w = Inr schema"
  using assms by (auto simp: GetSchema_duck_def ReadTableSchema_def split: sum.splits if_splits)

lemma ReadRows_list_all2:
  "list_all2 (\<lambda>cs row. ReadCells E cs cols = Inr (cells row)) rs rows \<Longrightarrow> ReadRows E rs cols = Inr rows"
  by (induction rule: list_all2_induct) auto

lemma ReadCells_length: "ReadCells E cs cols = Inr vs \<Longrightarrow> length vs \<le> length cols"
  by (induction E cs cols arbitrary: vs rule: ReadCells.induct) (auto split: sum.splits)

lemma ReadRows_shape:
  "ReadRows E rs cols = Inr rows \<Longrightarrow> row \<in> set rows \<Longrightarrow> length (cells row) \<le> length cols"
proof (induction rs arbitrary: rows)
  case (Cons r rs)
  then obtain vs rest where "ReadCells E r cols = Inr vs" "ReadRows E rs cols = Inr rest" "rows = \<lparr>cells = vs\<rparr> # rest"
    by (auto split: sum.splits)
  with Cons ReadCells_length [of E r cols vs] show ?case by auto
qed simp

lemma CountRows_answer:
  assumes "CountRows_duck E w tid = Inr n"
  shows "n = 0 \<or> (\<exists>sql res. duck_query E w sql = Inr res \<and> length (result_rows res) = 1 \<and>
    n = value_int64 (hd (hd (result_rows res))))"
proof (cases "fs_exists w (TableParquetPath E tid)")
  case True
  with assms have "CountParquetRows E (TableParquetPath E tid) [] w = Inr n"
    by (simp add: CountRows_duck_def split: sum.splits)
  then show ?thesis unfolding CountParquetRows_def Let_def by (force split: sum.splits if_splits)
next
  case False
  with assms show ?thesis by (simp add: CountRows_duck_def split: sum.splits)
qed

interpretation duck_read: read_contract "duckdb_storage E" "rows_of_duck E" "duck_readable E" for E
proof unfold_locales
  fix w t assume r: "duck_readable E w t"
  then obtain schema where "GetSchema_duck E w t = Inr schema" by (auto simp: duck_readable_def)
  note meta = GetSchema_reads(1) [OF this]
  obtain c where c: "duck_query E w (count_sql (TableParquetPath E t)) = Inr \<lparr>column_count = 1, result_rows = [[c]]\<rparr>"
    "value_int64 c = int (length (rows_of_duck E w t))"
    using r by (auto simp: duck_readable_def answers_count_def)
  show "CountRows (duckdb_storage E) w t = Inr (int (length (rows_of_duck E w t)))"
    using r meta c
    by (simp add: duckdb_storage_def CountRows_duck_def CountParquetRows_def duck_readable_def count_sql_def RenderWhereSqlClause_def)
next
  fix w t and a b :: int
  assume r: "duck_readable E w t" and ab: "0 \<le> a" "a \<le> b" "b \<le> int (length (rows_of_duck E w t))"
  let ?rows = "take (nat (b - a)) (drop (nat a) (rows_of_duck E w t))"
  obtain schema where s: "GetSchema_duck E w t = Inr schema" "ParquetStorageSchema (absl_fns E) schema = schema"
    "answers_ranges E w t schema" "fs_exists w (TableParquetPath E t)"
    using r by (auto simp: duck_readable_def)
  obtain res where res: "duck_query E w (range_sql E t schema a b) = Inr res" "column_count res = length (columns schema)"
    "list_all2 (\<lambda>cs row. ReadCells E cs (columns schema) = Inr (cells row)) (result_rows res) ?rows"
    using s(3) ab by (auto simp: answers_ranges_def)
  have "PlanReadStreamProjection schema (range_filter a b) =
      Inr \<lparr>effective_schema = schema, select_cols = RenderColumnIdentList schema\<rparr>"
    by (simp add: PlanReadStreamProjection_def range_filter_def default_ReadFilter_def)
  with s GetSchema_reads [OF s(1)] res ReadRows_list_all2 [OF res(3)]
  show "CreateReadStream (duckdb_storage E) w t (range_filter a b) = Inr ?rows"
    by (simp add: duckdb_storage_def CreateReadStream_duck_def ExecuteSelect_def range_sql_def [symmetric] Let_def)
next
  fix w t schema row
  assume "duck_readable E w t" "GetSchema (duckdb_storage E) w t = Inr schema" "row \<in> set (rows_of_duck E w t)"
  then show "length (cells row) = length (columns schema)"
    by (auto simp: duck_readable_def duckdb_storage_def)
qed

subsection \<open>Sample data for the witnesses\<close>

definition text_cell :: "string \<Rightarrow> DuckCell" where
  "text_cell s =
     \<lparr>value_is_null = False, value_varchar = Some s, value_boolean = False, value_int64 = 1, value_double = 0, value_blob = None\<rparr>"

text \<open>A database that answers the queries for the table of one row in \<open>json_world\<close>.\<close>

definition answer :: "World \<Rightarrow> string \<Rightarrow> string + DuckResult" where
  "answer w sql =
     Inr \<lparr>column_count = 1, result_rows =
       (if sql = count_sql (TableParquetPath json_env sample_tid) \<or> sql = range_sql json_env sample_tid id_schema 0 1
        then [[text_cell ''a'']] else [])\<rparr>"

definition read_env :: DuckEnv where
  "read_env = json_env\<lparr>duck_query := answer\<rparr>"

lemma read_env_paths: "TableParquetPath read_env = TableParquetPath json_env"
  by (simp add: fun_eq_iff TableParquetPath_def DatasetDir_def read_env_def)

lemma read_env_rows: "rows_of_duck read_env json_world sample_tid = [id_row ''a'']"
  by (simp add: rows_of_duck_def parquet_rows_def json_world_def read_env_paths)

lemma read_env_ranges: "answers_ranges read_env json_world sample_tid id_schema"
proof -
  have cells: "ReadCells read_env [text_cell ''a''] (columns id_schema) = Inr (cells (id_row ''a''))" by code_simp
  have col: "length (columns id_schema) = 1" by code_simp
  have sql: "range_sql read_env sample_tid id_schema a b = range_sql json_env sample_tid id_schema a b" for a b
    by (simp add: range_sql_def read_env_paths)
  have ne: "range_sql json_env sample_tid id_schema 0 0 \<noteq> range_sql json_env sample_tid id_schema 0 1"
    "range_sql json_env sample_tid id_schema 1 1 \<noteq> range_sql json_env sample_tid id_schema 0 1"
    "range_sql json_env sample_tid id_schema 0 0 \<noteq> count_sql (TableParquetPath json_env sample_tid)"
    "range_sql json_env sample_tid id_schema 1 1 \<noteq> count_sql (TableParquetPath json_env sample_tid)"
    by code_simp+
  have "\<exists>res. duck_query read_env json_world (range_sql read_env sample_tid id_schema a b) = Inr res \<and>
      column_count res = length (columns id_schema) \<and>
      list_all2 (\<lambda>cs row. ReadCells read_env cs (columns id_schema) = Inr (cells row)) (result_rows res)
        (take (nat (b - a)) (drop (nat a) [id_row ''a'']))" if "0 \<le> a" "a \<le> b" "b \<le> 1" for a b
  proof -
    have "(a = 0 \<and> b = 0) \<or> (a = 0 \<and> b = 1) \<or> (a = 1 \<and> b = 1)" using that by arith
    then show ?thesis
      unfolding sql by (elim disjE conjE) (use cells col ne in \<open>simp_all add: read_env_def answer_def\<close>)
  qed
  then show ?thesis by (simp add: answers_ranges_def read_env_rows)
qed

lemma read_env_readable: "duck_readable read_env json_world sample_tid"
proof -
  have "GetSchema_duck read_env json_world sample_tid = Inr id_schema" by code_simp
  moreover have "ParquetStorageSchema (absl_fns read_env) id_schema = id_schema" by code_simp
  moreover have "fs_exists json_world (TableParquetPath read_env sample_tid)" by code_simp
  moreover have "answers_count read_env json_world sample_tid"
    unfolding answers_count_def read_env_rows read_env_paths
    by (intro exI [of _ "text_cell ''a''"]) (simp add: read_env_def answer_def text_cell_def)
  moreover have "length (cells (id_row ''a'')) = length (columns id_schema)" by code_simp
  ultimately show ?thesis using read_env_ranges by (auto simp: duck_readable_def read_env_rows)
qed

lemma read_env_counts: "counts_rows (duckdb_storage read_env)"
proof -
  have "0 \<le> n" if "CountRows_duck read_env w t = Inr n" for w t n
    using CountRows_answer [OF that] by (auto simp: read_env_def answer_def text_cell_def split: if_splits)
  then show ?thesis by (simp add: counts_rows_def duckdb_storage_def)
qed

text \<open>A table with a measure column, and a read session on it.\<close>

definition measure_schema :: TableSchema where
  "measure_schema =
     \<lparr>columns = [ColumnSchema ''id'' kString kNullable [] [] [],
       ColumnSchema ''total'' kString kNullable ''bqemu_measure:SUM(x):id'' [] []]\<rparr>"

definition measure_json :: string where
  "measure_json =
     ''{ '' @ json_name ''fields'' @ '': [ { '' @ json_name ''name'' @ '': '' @ json_name ''id'' @ '', '' @
     json_name ''type'' @ '': '' @ json_name ''STRING'' @ '' }, { '' @ json_name ''name'' @ '': '' @ json_name ''total'' @ '', '' @
     json_name ''type'' @ '': '' @ json_name ''STRING'' @ '', '' @ json_name ''description'' @ '': '' @
     json_name ''bqemu_measure:SUM(x):id'' @ '' } ] }''"

definition measure_env :: DuckEnv where
  "measure_env =
     json_env\<lparr>JsonStringToMessage := (\<lambda>s. if s = measure_json then Inr (TableSchemaToProto measure_schema) else Inl ''unsupported''),
       duck_query := (\<lambda>w sql. Inr \<lparr>column_count = 1, result_rows = [[text_cell ''a'']]\<rparr>)\<rparr>"

definition measure_world :: World where
  "measure_world =
     json_world\<lparr>files := (files json_world)(TableMetaPath json_env sample_tid \<mapsto> TextFile (meta_head @ measure_json @ ''}''))\<rparr>"

definition measure_session :: SessionState where
  "measure_session =
     \<lparr>ses_table = sample_tid, ses_schema = measure_schema, ses_where_sql = None, ses_selected_fields = [],
      ses_total_rows = 1, ses_streams = [''s/streams/0'' \<mapsto> \<lparr>sp_name = ''s/streams/0'', sp_row_start = 0, sp_row_end = 1\<rparr>],
      next_split_id = 0\<rparr>"

definition measure_reader :: ReadService where
  "measure_reader = \<lparr>next_session_id = 2, sessions = [''s'' \<mapsto> measure_session]\<rparr>"

subsection \<open>Properties\<close>

text \<open>
  C4 (the streams of a session together read the table). A session opened on a readable table
  of the DuckDB store without read options yields, stream after stream, every row of the table
  exactly once, in order and cell by cell as it is stored.
\<close>

theorem session_reads_table:
  assumes "read_reachable R (duckdb_storage E) svc" "counts_rows (duckdb_storage E)"
    and "CreateReadSession R (duckdb_storage E) (Some req) w svc = (Inr resp, svc')"
    and "rs_read_options (cr_read_session req) = None"
    and "ParseTablePath (re_absl R) (rs_table (cr_read_session req)) = Inr t" "duck_readable E w t"
  shows "\<exists>schema. GetSchema_duck E w t = Inr schema \<and>
    read_all R (duckdb_storage E) (rs_streams resp) w svc' = map (row_cells R schema) (rows_of_duck E w t)"
  using duck_read.created_session_reads_all [OF read_reachable_inv [OF assms(1,2)] assms(3-6)]
  by (simp add: duckdb_storage_def)

theorem session_reads_table_witness:
  "\<exists>resp svc'. CreateReadSession plain_read_env (duckdb_storage read_env) (Some (read_request 3)) json_world initial_read_service = (Inr resp, svc') \<and>
     read_all plain_read_env (duckdb_storage read_env) (rs_streams resp) json_world svc' = [[CellString ''a'']]"
proof -
  let ?run = "CreateReadSession plain_read_env (duckdb_storage read_env) (Some (read_request 3)) json_world initial_read_service"
  have "\<not> isl (fst ?run)" by code_simp
  then obtain resp svc' where run: "?run = (Inr resp, svc')" by (metis prod.collapse sum.collapse(2))
  have path: "ParseTablePath (re_absl (plain_read_env :: (World, unit) ReadEnv)) (rs_table (cr_read_session (read_request 3))) = Inr sample_tid"
    by code_simp
  have opts: "rs_read_options (cr_read_session (read_request 3)) = None" by (simp add: read_request_def)
  obtain schema where s: "GetSchema_duck read_env json_world sample_tid = Inr schema"
    "read_all plain_read_env (duckdb_storage read_env) (rs_streams resp) json_world svc' =
      map (row_cells (plain_read_env :: (World, unit) ReadEnv) schema) (rows_of_duck read_env json_world sample_tid)"
    using session_reads_table [OF initial_reachable read_env_counts run opts path read_env_readable] by blast
  have "GetSchema_duck read_env json_world sample_tid = Inr id_schema" by code_simp
  with s have "schema = id_schema" by simp
  moreover have "row_cells (plain_read_env :: (World, unit) ReadEnv) id_schema (id_row ''a'') = [CellString ''a'']" by code_simp
  ultimately show ?thesis using run s by (simp add: read_env_rows)
qed

text \<open>
  A table with a measure column cannot be read as a whole. A session pins all columns of
  the table, the store returns the stored ones only. When the table has a measure column and the
  session selects no fields, reading a stream that has a row fails with an internal error and
  delivers nothing.
\<close>

theorem measure_table_unreadable:
  assumes "ReadRows_rpc R (duckdb_storage E) (Some (name, off)) (Some sent) w svc = (r, out)"
    and "ParseReadStreamName name = Inr (sname, key)" "sessions svc sname = Some ses" "ses_streams ses name = Some part"
    and "GetSchema_duck E w (ses_table ses) = Inr (ses_schema ses)" "ses_selected_fields ses = []"
    and "column \<in> set (columns (ses_schema ses))" "ParseMeasureColumnSpec (absl_fns E) column \<noteq> None"
    and "CreateReadStream_duck E w (ses_table ses)
      (default_ReadFilter\<lparr>rf_offset := off, where_sql := ses_where_sql ses, row_start := sp_row_start part,
         row_end := sp_row_end part\<rparr>) = Inr (row # rows)"
  shows "(\<exists>msg. r = Inl (GrpcStatus INTERNAL msg)) \<and> out = []"
proof -
  let ?f = "default_ReadFilter\<lparr>rf_offset := off, where_sql := ses_where_sql ses, row_start := sp_row_start part,
         row_end := sp_row_end part\<rparr>"
  let ?ph = "ParquetStorageSchema (absl_fns E) (ses_schema ses)"
  have fewer: "length (columns ?ph) < length (columns (ses_schema ses))"
    using assms(7,8) by (auto simp: ParquetStorageSchema_def StripMeasureColumns_def intro: length_filter_less)
  note meta = GetSchema_reads [OF assms(5)]
  have plan: "PlanReadStreamProjection ?ph ?f = Inr \<lparr>effective_schema = ?ph, select_cols = RenderColumnIdentList ?ph\<rparr>"
    by (simp add: PlanReadStreamProjection_def default_ReadFilter_def)
  then have "\<exists>rs. ReadRows E rs (columns ?ph) = Inr (row # rows)"
    using assms(9) meta by (auto simp: CreateReadStream_duck_def ExecuteSelect_def Let_def split: if_splits sum.splits)
  then have "length (cells row) < length (columns (ses_schema ses))"
    using ReadRows_shape fewer by (metis list.set_intros(1) le_less_trans)
  moreover have "default_ReadFilter\<lparr>rf_offset := off, row_limit := 0, where_sql := ses_where_sql ses,
      selected_fields := [], row_start := sp_row_start part, row_end := sp_row_end part\<rparr> = ?f"
    by (simp add: default_ReadFilter_def)
  ultimately show ?thesis
    using assms(1-6,9) by (auto simp: ReadRows_rpc_def duckdb_storage_def)
qed

theorem measure_table_unreadable_witness:
  "\<exists>msg. ReadRows_rpc plain_read_env (duckdb_storage measure_env) (Some (''s/streams/0'', 0)) (Some (\<lambda>n. True)) measure_world measure_reader =
     (Inl (GrpcStatus INTERNAL msg), [])"
proof -
  obtain r out where run: "ReadRows_rpc plain_read_env (duckdb_storage measure_env) (Some (''s/streams/0'', 0)) (Some (\<lambda>n. True))
      measure_world measure_reader = (r, out)" by (metis surj_pair)
  have name: "ParseReadStreamName ''s/streams/0'' = Inr (''s'', ''0'')" by code_simp
  have schema: "GetSchema_duck measure_env measure_world (ses_table measure_session) = Inr (ses_schema measure_session)" by code_simp
  have col: "columns measure_schema ! 1 \<in> set (columns (ses_schema measure_session))"
    by (simp add: measure_schema_def measure_session_def)
  have spec: "ParseMeasureColumnSpec (absl_fns measure_env) (columns measure_schema ! 1) \<noteq> None" by code_simp
  have ses: "sessions measure_reader ''s'' = Some measure_session" by (simp add: measure_reader_def)
  have part: "ses_streams measure_session ''s/streams/0'' = Some \<lparr>sp_name = ''s/streams/0'', sp_row_start = 0, sp_row_end = 1\<rparr>"
    by (simp add: measure_session_def)
  have sel: "ses_selected_fields measure_session = []" by (simp add: measure_session_def)
  have stream: "CreateReadStream_duck measure_env measure_world (ses_table measure_session)
      (default_ReadFilter\<lparr>rf_offset := 0, where_sql := ses_where_sql measure_session,
        row_start := sp_row_start \<lparr>sp_name = ''s/streams/0'', sp_row_start = 0, sp_row_end = 1\<rparr>,
        row_end := sp_row_end \<lparr>sp_name = ''s/streams/0'', sp_row_start = 0, sp_row_end = 1\<rparr>\<rparr>) = Inr [id_row ''a'']" by code_simp
  show ?thesis
    using measure_table_unreadable [OF run name ses part schema sel col spec stream] run by auto
qed

end
