(* ===== verification/Duckdb_Tombstone.thy ===== *)
theory Duckdb_Tombstone
  imports Duckdb_Storage
begin

section \<open>Dropping and restoring tables\<close>

text \<open>
  A dropped table is not deleted: \<open>duckdb_storage_version_log_tombstone.cc\<close> moves its sidecar,
  its Parquet file, its version index and its archived snapshots into a directory named after the
  time of the drop, from which it can be restored. The model follows \<open>DropTable\<close>,
  \<open>RestoreTable\<close>, \<open>ListTables\<close> and \<open>ListDatasets\<close> of \<open>duckdb_storage_catalog.cc\<close> and the
  functions they call.

  The order and the errors of a directory listing are the parameter \<open>ls\<close>; what the theorems use
  of it is that it names the entries of the directory.

  The main result is that a drop followed by a restore gives back every file of the data
  directory, whatever the table holds.
\<close>

subsection \<open>Paths\<close>

type_synonym Listing = "World \<Rightarrow> string \<Rightarrow> string + string list"

definition DatasetTombstoneKey :: "TableId \<Rightarrow> string" where
  "DatasetTombstoneKey tid = project_id tid @ ''.'' @ dataset_id tid"

definition tombstone_root :: "DuckEnv \<Rightarrow> TableId \<Rightarrow> string" where
  "tombstone_root E tid =
     path_join (path_join (path_join (data_dir E) ''.tombstones'') (DatasetTombstoneKey tid)) (table_id tid)"

definition TableTombstoneDir :: "DuckEnv \<Rightarrow> TableId \<Rightarrow> int \<Rightarrow> string" where
  "TableTombstoneDir E tid deleted_ms = path_join (tombstone_root E tid) (dec deleted_ms)"

definition path_filename :: "string \<Rightarrow> string" where
  "path_filename p = rev (takeWhile (\<lambda>c. c \<noteq> CHR ''/'') (rev p))"

subsection \<open>Moving files and directories\<close>

text \<open>
  \<open>fs::rename\<close> of a file or of a directory with everything below it. The system may refuse it
  through \<open>io_fault\<close>, as it does when the target is a directory that is not empty.
\<close>

definition move_tree :: "string \<Rightarrow> string \<Rightarrow> World \<Rightarrow> World" where
  "move_tree a b w =
     w\<lparr>files := (\<lambda>p. if prefix (b @ ''/'') p then files w (a @ drop (length b) p)
                    else if prefix (a @ ''/'') p then None else files w p),
       dirs := insert b ((\<lambda>p. b @ drop (length a) p) ` {p \<in> dirs w. prefix (a @ ''/'') p} \<union>
                 {p \<in> dirs w. p \<noteq> a \<and> \<not> prefix (a @ ''/'') p})\<rparr>"

definition fs_move :: "DuckEnv \<Rightarrow> string \<Rightarrow> string \<Rightarrow> World \<Rightarrow> string option \<times> World" where
  "fs_move E a b w =
     (case io_fault E w (IoRename a b) of
        Some ec \<Rightarrow> (Some ec, w)
      | None \<Rightarrow>
          (case files w a of
             Some d \<Rightarrow>
               if b \<in> dirs w then (Some ''Is a directory'', w)
               else (None, w\<lparr>files := (files w)(a := None, b \<mapsto> d)\<rparr>)
           | None \<Rightarrow>
               if a \<notin> dirs w then (Some ''No such file or directory'', w)
               else if files w b \<noteq> None then (Some ''Not a directory'', w)
               else (None, move_tree a b w)))"

definition move_if_exists :: "DuckEnv \<Rightarrow> string \<Rightarrow> string \<Rightarrow> World \<Rightarrow> unit StatusOr \<times> World" where
  "move_if_exists E tombstone_dir src_path w =
     (if \<not> fs_exists w src_path then (Inr (), w)
      else let dest = path_join tombstone_dir (path_filename src_path)
           in case fs_move E src_path dest w of
                (Some ec, w1) \<Rightarrow>
                  (Inl (FilesystemStatus (''failed to move '' @ src_path @ '' -> '' @ dest) ec), w1)
              | (None, w1) \<Rightarrow> (Inr (), w1))"

definition MoveTableToTombstone :: "DuckEnv \<Rightarrow> TableId \<Rightarrow> int \<Rightarrow> World \<Rightarrow> unit StatusOr \<times> World" where
  "MoveTableToTombstone E tid deleted_ms w =
     (let tombstone_dir = TableTombstoneDir E tid deleted_ms
      in case fs_create_directories E tombstone_dir w of
        (Some ec, w1) \<Rightarrow> (Inl (FilesystemStatus (''failed to create tombstone dir: '' @ tombstone_dir) ec), w1)
      | (None, w1) \<Rightarrow>
     (case move_if_exists E tombstone_dir (TableMetaPath E tid) w1 of
        (Inl e, w2) \<Rightarrow> (Inl e, w2)
      | (Inr _, w2) \<Rightarrow>
     (case move_if_exists E tombstone_dir (TableParquetPath E tid) w2 of
        (Inl e, w3) \<Rightarrow> (Inl e, w3)
      | (Inr _, w3) \<Rightarrow>
     (case move_if_exists E tombstone_dir (TableVersionsIndexPath E tid) w3 of
        (Inl e, w4) \<Rightarrow> (Inl e, w4)
      | (Inr _, w4) \<Rightarrow>
          if \<not> fs_exists w4 (TableVersionsDir E tid) then (Inr (), w4)
          else let dest = path_join tombstone_dir (table_id tid @ ''.versions'')
               in case fs_move E (TableVersionsDir E tid) dest w4 of
                    (Some ec, w5) \<Rightarrow> (Inl (FilesystemStatus (''failed to move versions dir to '' @ dest) ec), w5)
                  | (None, w5) \<Rightarrow> (Inr (), w5)))))"

subsection \<open>The latest tombstone\<close>

definition no_tombstones :: "TableId \<Rightarrow> Status" where
  "no_tombstones tid = Status kNotFound (''no tombstones for table '' @ table_dotted tid)"

definition latest_entry :: "absl \<Rightarrow> World \<Rightarrow> string \<Rightarrow> string list \<Rightarrow> int option" where
  "latest_entry A w root names =
     foldl (\<lambda>best name.
       if path_join root name \<notin> dirs w then best
       else case SimpleAtoi A name of
              None \<Rightarrow> best
            | Some deleted_ms \<Rightarrow>
                (case best of
                   None \<Rightarrow> Some deleted_ms
                 | Some b \<Rightarrow> if deleted_ms > b then Some deleted_ms else best)) None names"

definition LatestTombstoneMs :: "DuckEnv \<Rightarrow> Listing \<Rightarrow> World \<Rightarrow> TableId \<Rightarrow> int StatusOr" where
  "LatestTombstoneMs E ls w tid =
     (let root = tombstone_root E tid
      in if \<not> fs_exists w root then Inl (no_tombstones tid)
         else case latest_entry (absl_fns E) w root (case ls w root of Inl ec \<Rightarrow> [] | Inr names \<Rightarrow> names) of
                None \<Rightarrow> Inl (no_tombstones tid)
              | Some best \<Rightarrow> Inr best)"

subsection \<open>Restoring\<close>

definition move_entry :: "DuckEnv \<Rightarrow> string \<Rightarrow> string \<Rightarrow> string \<Rightarrow> World \<Rightarrow> unit StatusOr \<times> World" where
  "move_entry E tombstone_dir ds_dir name w =
     (let src = path_join tombstone_dir name; dest = path_join ds_dir name
      in if \<not> fs_exists w src then (Inr (), w)
         else case fs_move E src dest w of
                (Some ec, w1) \<Rightarrow> (Inl (FilesystemStatus (''failed to restore '' @ src @ '' -> '' @ dest) ec), w1)
              | (None, w1) \<Rightarrow> (Inr (), w1))"

text \<open>\<open>fs::remove\<close> of a directory fails, and its error is ignored, unless the directory is empty.\<close>

definition fs_remove_empty_dir :: "Listing \<Rightarrow> string \<Rightarrow> World \<Rightarrow> World" where
  "fs_remove_empty_dir ls dir w = (if ls w dir = Inr [] then w\<lparr>dirs := dirs w - {dir}\<rparr> else w)"

definition RestoreFiles :: "DuckEnv \<Rightarrow> Listing \<Rightarrow> TableId \<Rightarrow> string \<Rightarrow> World \<Rightarrow> unit StatusOr \<times> World" where
  "RestoreFiles E ls tid tombstone_dir w =
     (let ds_dir = DatasetDir E tid
      in case move_entry E tombstone_dir ds_dir (path_filename (table_id tid @ ''.meta.json'')) w of
        (Inl e, w1) \<Rightarrow> (Inl e, w1)
      | (Inr _, w1) \<Rightarrow>
     (case move_entry E tombstone_dir ds_dir (path_filename (table_id tid @ ''.parquet'')) w1 of
        (Inl e, w2) \<Rightarrow> (Inl e, w2)
      | (Inr _, w2) \<Rightarrow>
     (case move_entry E tombstone_dir ds_dir (path_filename (table_id tid @ ''.versions.json'')) w2 of
        (Inl e, w3) \<Rightarrow> (Inl e, w3)
      | (Inr _, w3) \<Rightarrow>
     (let versions_src = path_join tombstone_dir (table_id tid @ ''.versions'');
          versions_dest = path_join ds_dir (table_id tid @ ''.versions'')
      in if \<not> fs_exists w3 versions_src then (Inr (), fs_remove_empty_dir ls tombstone_dir w3)
         else case fs_move E versions_src versions_dest w3 of
                (Some ec, w4) \<Rightarrow>
                  (Inl (FilesystemStatus (''failed to restore versions dir to '' @ versions_dest) ec), w4)
              | (None, w4) \<Rightarrow> (Inr (), fs_remove_empty_dir ls tombstone_dir w4)))))"

definition RestoreTableFromTombstone ::
  "DuckEnv \<Rightarrow> Listing \<Rightarrow> TableId \<Rightarrow> int \<Rightarrow> World \<Rightarrow> unit StatusOr \<times> World" where
  "RestoreTableFromTombstone E ls tid deleted_ms w =
     (case (if deleted_ms = 0 then LatestTombstoneMs E ls w tid else Inr deleted_ms) of
        Inl e \<Rightarrow> (Inl e, w)
      | Inr chosen \<Rightarrow>
          (if fs_exists w (TableMetaPath E tid)
           then (Inl (Status kAlreadyExists (''table already exists: '' @ table_dotted tid)), w)
           else
             (let tombstone_dir = TableTombstoneDir E tid chosen
              in if \<not> fs_exists w tombstone_dir
                 then (Inl (Status kNotFound
                        (''tombstone not found for table '' @ table_dotted tid @ '' at '' @ dec chosen)), w)
                 else case fs_create_directories E (DatasetDir E tid) w of
                        (Some ec, w1) \<Rightarrow>
                          (Inl (FilesystemStatus (''failed to create dataset dir: '' @ DatasetDir E tid) ec), w1)
                      | (None, w1) \<Rightarrow> RestoreFiles E ls tid tombstone_dir w1)))"

definition DropTable :: "DuckEnv \<Rightarrow> World \<Rightarrow> TableId \<Rightarrow> unit StatusOr \<times> World" where
  "DropTable E w tid =
     (if \<not> fs_exists w (DatasetDir E tid) then (Inl (dataset_not_found tid), w)
      else if \<not> fs_exists w (TableMetaPath E tid) then (Inl (table_not_found tid), w)
      else MoveTableToTombstone E tid (clock_ms w) w)"

definition RestoreTable :: "DuckEnv \<Rightarrow> Listing \<Rightarrow> World \<Rightarrow> TableId \<Rightarrow> int \<Rightarrow> unit StatusOr \<times> World" where
  "RestoreTable E ls w tid deleted_ms = RestoreTableFromTombstone E ls tid deleted_ms w"

subsection \<open>Relocations\<close>

text \<open>
  The files below \<open>a\<close> whose rest of the path is in \<open>X\<close>, moved below \<open>b\<close>. The moves of a drop
  are relocations of disjoint sets, so together they are one, and it is undone by the
  relocation in the other direction.
\<close>

definition relocate :: "string set \<Rightarrow> string \<Rightarrow> string \<Rightarrow> (string \<rightharpoonup> 'd) \<Rightarrow> (string \<rightharpoonup> 'd)" where
  "relocate X a b f p =
     (if \<exists>x \<in> X. p = b @ x then f (a @ drop (length b) p)
      else if \<exists>x \<in> X. p = a @ x then None else f p)"

definition apart :: "string \<Rightarrow> string \<Rightarrow> bool" where
  "apart a b \<longleftrightarrow> (\<forall>x y. a @ x \<noteq> b @ y)"

lemma apart_sym: "apart a b \<Longrightarrow> apart b a"
  unfolding apart_def by metis

lemma relocate_simps:
  assumes "apart a b"
  shows "relocate X a b f (b @ x) = (if x \<in> X then f (a @ x) else f (b @ x))"
    "relocate X a b f (a @ x) = (if x \<in> X then None else f (a @ x))"
    "(\<And>x. p \<noteq> a @ x) \<Longrightarrow> (\<And>x. p \<noteq> b @ x) \<Longrightarrow> relocate X a b f p = f p"
proof -
  have ab: "b @ y \<noteq> a @ x" "a @ x \<noteq> b @ y" for x y using assms unfolding apart_def by metis+
  show "relocate X a b f (b @ x) = (if x \<in> X then f (a @ x) else f (b @ x))"
    by (auto simp: relocate_def ab)
  show "relocate X a b f (a @ x) = (if x \<in> X then None else f (a @ x))"
    by (auto simp: relocate_def ab)
  show "(\<And>x. p \<noteq> a @ x) \<Longrightarrow> (\<And>x. p \<noteq> b @ x) \<Longrightarrow> relocate X a b f p = f p"
    unfolding relocate_def by auto
qed

lemma side_cases:
  obtains (left) x where "p = a @ x" | (right) x where "p = b @ x"
  | (neither) "\<And>x. p \<noteq> a @ x" "\<And>x. p \<noteq> b @ (x :: string)"
  by blast

lemma relocate_relocate:
  assumes "apart a b" "X \<inter> Y = {}"
  shows "relocate Y a b (relocate X a b f) = relocate (X \<union> Y) a b f"
proof
  fix p
  show "relocate Y a b (relocate X a b f) p = relocate (X \<union> Y) a b f p"
    by (cases p rule: side_cases [where a = a and b = b])
      (use assms(2) in \<open>auto simp: relocate_simps [OF assms(1)]\<close>)
qed

lemma relocate_back:
  assumes "apart a b" "\<And>x. x \<in> X \<Longrightarrow> f (b @ x) = None"
  shows "relocate X b a (relocate X a b f) = f"
proof
  fix p
  note fwd = relocate_simps [OF assms(1)] and bwd = relocate_simps [OF apart_sym [OF assms(1)]]
  show "relocate X b a (relocate X a b f) p = f p"
    by (cases p rule: side_cases [where a = a and b = b]) (auto simp: fwd bwd assms(2))
qed

lemma relocate_absent:
  assumes "apart a b" "\<And>x. x \<in> X \<Longrightarrow> f (b @ x) = None" "\<And>x. x \<in> X \<Longrightarrow> f (a @ x) = None"
  shows "relocate X a b f = f"
proof
  fix p
  show "relocate X a b f p = f p"
    by (cases p rule: side_cases [where a = a and b = b]) (auto simp: relocate_simps [OF assms(1)] assms(2,3))
qed

lemma relocate_single:
  assumes "apart a b"
  shows "relocate {x} a b f = f(a @ x := None, b @ x := f (a @ x))"
proof
  fix p
  have ab: "b @ y \<noteq> a @ x" "a @ x \<noteq> b @ y" for x y using assms unfolding apart_def by metis+
  show "relocate {x} a b f p = (f(a @ x := None, b @ x := f (a @ x))) p"
    by (cases p rule: side_cases [where a = a and b = b]) (auto simp: relocate_simps [OF assms] ab)
qed

definition below :: "string \<Rightarrow> string set" where
  "below d = {d @ ''/'' @ y | y. True}"

lemma move_tree_files:
  assumes "apart a b"
  shows "files (move_tree (a @ d) (b @ d) w) = relocate (below d) a b (files w)"
proof
  fix p
  have ab: "b @ y \<noteq> a @ x" "a @ x \<noteq> b @ y" for x y using assms unfolding apart_def by metis+
  show "files (move_tree (a @ d) (b @ d) w) p = relocate (below d) a b (files w) p"
  proof (cases p rule: side_cases [where a = a and b = b])
    case (left x)
    then show ?thesis
      using ab by (auto simp: relocate_simps [OF assms] move_tree_def below_def prefix_def)
  next
    case (right x)
    then show ?thesis
      using ab by (auto simp: relocate_simps [OF assms] move_tree_def below_def prefix_def)
  next
    case neither
    then have "\<not> prefix (a @ d @ ''/'') p" "\<not> prefix (b @ d @ ''/'') p" by (auto simp: prefix_def)
    with neither show ?thesis by (simp add: relocate_simps [OF assms] move_tree_def)
  qed
qed

subsection \<open>The two places of a table\<close>

definition live_prefix :: "DuckEnv \<Rightarrow> TableId \<Rightarrow> string" where
  "live_prefix E tid = dir_prefix (data_dir E) @ project_id tid @ ''/'' @ dataset_id tid @ ''/''"

definition tomb_prefix :: "DuckEnv \<Rightarrow> TableId \<Rightarrow> int \<Rightarrow> string" where
  "tomb_prefix E tid ms =
     dir_prefix (data_dir E) @ ''.tombstones'' @ ''/'' @ DatasetTombstoneKey tid @ ''/'' @ table_id tid @ ''/'' @ dec ms @ ''/''"

definition meta_name :: "TableId \<Rightarrow> string" where "meta_name tid = table_id tid @ ''.meta.json''"

definition parquet_name :: "TableId \<Rightarrow> string" where "parquet_name tid = table_id tid @ ''.parquet''"

definition index_name :: "TableId \<Rightarrow> string" where "index_name tid = table_id tid @ ''.versions.json''"

definition versions_name :: "TableId \<Rightarrow> string" where "versions_name tid = table_id tid @ ''.versions''"

lemmas names = meta_name_def parquet_name_def index_name_def versions_name_def

definition own_files :: "TableId \<Rightarrow> string set" where
  "own_files tid = {meta_name tid, parquet_name tid, index_name tid}"

lemma path_join_dir: "b \<noteq> [] \<Longrightarrow> hd b \<noteq> CHR ''/'' \<Longrightarrow> path_join a b = dir_prefix a @ b"
  by (simp add: path_join_safe dir_prefix_def)

lemma dec_safe: "dec n \<noteq> []" "CHR ''/'' \<notin> set (dec n)" "hd (dec n) \<noteq> CHR ''/''"
  using dec_no_char [of "CHR ''/''" n] hd_no_slash [of "dec n"] by auto

lemma key_safe:
  assumes "safe_table tid"
  shows "DatasetTombstoneKey tid \<noteq> []" "CHR ''/'' \<notin> set (DatasetTombstoneKey tid)"
  using assms by (auto simp: DatasetTombstoneKey_def safe_table_def safe_id_def)

lemma table_safe:
  assumes "safe_table tid"
  shows "table_id tid \<noteq> []" "CHR ''/'' \<notin> set (table_id tid)" "hd (table_id tid) \<noteq> CHR ''/''"
  using assms hd_no_slash [of "table_id tid"] by (auto simp: safe_table_def safe_id_def)

lemma tombstone_root_path:
  assumes "safe_table tid"
  shows "tombstone_root E tid =
    dir_prefix (data_dir E) @ ''.tombstones'' @ ''/'' @ DatasetTombstoneKey tid @ ''/'' @ table_id tid"
proof -
  note k = key_safe [OF assms] hd_no_slash [OF key_safe(2) [OF assms] key_safe(1) [OF assms]] and t = table_safe [OF assms]
  have 1: "path_join (data_dir E) ''.tombstones'' = dir_prefix (data_dir E) @ ''.tombstones''"
    by (rule path_join_dir) simp_all
  have 2: "path_join (path_join (data_dir E) ''.tombstones'') (DatasetTombstoneKey tid) =
      dir_prefix (data_dir E) @ ''.tombstones'' @ ''/'' @ DatasetTombstoneKey tid"
    unfolding 1 using k dir_prefix_safe [of "''.tombstones''" "dir_prefix (data_dir E)"] by (subst path_join_dir) simp_all
  show ?thesis
    unfolding tombstone_root_def 2
    using t k dir_prefix_safe [of "DatasetTombstoneKey tid" "dir_prefix (data_dir E) @ ''.tombstones'' @ ''/''"]
    by (subst path_join_dir) simp_all
qed

lemma tombstone_dir_path:
  assumes "safe_table tid"
  shows "TableTombstoneDir E tid ms @ ''/'' = tomb_prefix E tid ms"
    "x \<noteq> [] \<Longrightarrow> hd x \<noteq> CHR ''/'' \<Longrightarrow> path_join (TableTombstoneDir E tid ms) x = tomb_prefix E tid ms @ x"
proof -
  let ?r = "dir_prefix (data_dir E) @ ''.tombstones'' @ ''/'' @ DatasetTombstoneKey tid @ ''/''"
  have d: "TableTombstoneDir E tid ms = ?r @ table_id tid @ ''/'' @ dec ms"
    unfolding TableTombstoneDir_def using dec_safe [of ms] table_safe [OF assms] dir_prefix_safe [of "table_id tid" ?r]
    by (subst path_join_dir) (simp_all add: tombstone_root_path [OF assms])
  then show "TableTombstoneDir E tid ms @ ''/'' = tomb_prefix E tid ms" by (simp add: tomb_prefix_def)
  show "x \<noteq> [] \<Longrightarrow> hd x \<noteq> CHR ''/'' \<Longrightarrow> path_join (TableTombstoneDir E tid ms) x = tomb_prefix E tid ms @ x"
    using dir_prefix_safe [of "dec ms" "?r @ table_id tid @ ''/''"] dec_safe [of ms] d
    by (subst path_join_dir) (simp_all add: tomb_prefix_def)
qed

lemma live_paths:
  assumes "safe_table tid"
  shows "TableMetaPath E tid = live_prefix E tid @ meta_name tid"
    "TableParquetPath E tid = live_prefix E tid @ parquet_name tid"
    "TableVersionsIndexPath E tid = live_prefix E tid @ index_name tid"
    "TableVersionsDir E tid = live_prefix E tid @ versions_name tid"
    "path_join (DatasetDir E tid) (table_id tid @ sfx) = live_prefix E tid @ table_id tid @ sfx"
  unfolding table_paths table_path_def dataset_path [OF assms] by (simp_all add: live_prefix_def names)

lemma live_tomb_apart: "safe_table tid \<Longrightarrow> apart (live_prefix E tid) (tomb_prefix E tid ms)"
proof (unfold apart_def, intro allI notI)
  fix x y
  assume s: "safe_table tid" and eq: "live_prefix E tid @ x = tomb_prefix E tid ms @ y"
  have "project_id tid = ''.tombstones''" "dataset_id tid = DatasetTombstoneKey tid"
    using eq s key_safe [OF s]
    by (simp_all add: live_prefix_def tomb_prefix_def slash_free_split safe_table_def safe_id_def
        slash_free_split [where b = "''.tombstones''", simplified])
  then have "length (dataset_id tid) = length (''.tombstones.'' @ dataset_id tid)"
    by (simp add: DatasetTombstoneKey_def)
  then show False by simp
qed

lemma name_filename:
  assumes "safe_table tid" "CHR ''/'' \<notin> set sfx"
  shows "path_filename (live_prefix E tid @ table_id tid @ sfx) = table_id tid @ sfx"
    "path_filename (table_id tid @ sfx) = table_id tid @ sfx"
proof -
  have n: "CHR ''/'' \<notin> set (rev (table_id tid @ sfx))" using assms table_safe by auto
  have "takeWhile (\<lambda>c. c \<noteq> CHR ''/'') (rev (table_id tid @ sfx) @ CHR ''/'' # z) = rev (table_id tid @ sfx)" for z
    using n by (intro takeWhile_append_stop) auto
  moreover have "rev (live_prefix E tid @ table_id tid @ sfx) =
      rev (table_id tid @ sfx) @ CHR ''/'' # rev (dir_prefix (data_dir E) @ project_id tid @ ''/'' @ dataset_id tid)"
    by (simp add: live_prefix_def)
  ultimately show "path_filename (live_prefix E tid @ table_id tid @ sfx) = table_id tid @ sfx"
    unfolding path_filename_def by (metis rev_rev_ident)
  have "takeWhile (\<lambda>c. c \<noteq> CHR ''/'') (rev (table_id tid @ sfx)) = rev (table_id tid @ sfx)"
    using n by (auto simp: takeWhile_eq_all_conv)
  then show "path_filename (table_id tid @ sfx) = table_id tid @ sfx"
    unfolding path_filename_def by (metis rev_rev_ident)
qed

subsection \<open>The moves as relocations\<close>

definition no_fault :: "DuckEnv \<Rightarrow> bool" where
  "no_fault E \<longleftrightarrow> (\<forall>w op. io_fault E w op = None)"

definition moved :: "string \<Rightarrow> string \<Rightarrow> TableId \<Rightarrow> World \<Rightarrow> World" where
  "moved a b tid w =
     (let w' = w\<lparr>files := relocate (own_files tid) a b (files w)\<rparr>
      in if a @ versions_name tid \<in> dirs w then move_tree (a @ versions_name tid) (b @ versions_name tid) w' else w')"

text \<open>
  The shape of a table at \<open>a\<close> that can be moved to \<open>b\<close>: its files are files, its versions are a
  directory, and there is nothing at the target.
\<close>

definition movable :: "string \<Rightarrow> string \<Rightarrow> TableId \<Rightarrow> World \<Rightarrow> bool" where
  "movable a b tid w \<longleftrightarrow>
     (\<forall>x \<in> own_files tid. a @ x \<notin> dirs w \<and> b @ x \<notin> dirs w \<and> files w (b @ x) = None) \<and>
     files w (a @ versions_name tid) = None \<and> files w (b @ versions_name tid) = None \<and>
     (\<forall>x \<in> below (versions_name tid). files w (b @ x) = None) \<and>
     (\<forall>x \<in> below (versions_name tid). files w (a @ x) \<noteq> None \<longrightarrow> a @ versions_name tid \<in> dirs w)"

lemma movableD:
  assumes "movable a b tid w" "x \<in> own_files tid"
  shows "a @ x \<notin> dirs w" "b @ x \<notin> dirs w" "files w (b @ x) = None"
  using assms by (auto simp: movable_def)

lemma names_distinct:
  "meta_name tid \<noteq> parquet_name tid" "meta_name tid \<noteq> index_name tid" "parquet_name tid \<noteq> index_name tid"
  "versions_name tid \<notin> own_files tid"
  by (simp_all add: names own_files_def)

lemma below_own: "safe_table tid \<Longrightarrow> own_files tid \<inter> below (versions_name tid) = {}"
  using table_safe(2) [of tid] by (auto simp: own_files_def names below_def)

text \<open>One file, moved when it exists; nothing to do otherwise.\<close>

lemma move_file_step:
  assumes "no_fault E" "apart a b" "a @ x \<notin> dirs w" "b @ x \<notin> dirs w" "files w (b @ x) = None"
  shows "(if \<not> fs_exists w (a @ x) then (Inr (), w)
      else case fs_move E (a @ x) (b @ x) w of (Some ec, w1) \<Rightarrow> (Inl (err ec), w1) | (None, w1) \<Rightarrow> (Inr (), w1)) =
    (Inr (), w\<lparr>files := relocate {x} a b (files w)\<rparr>)"
proof (cases "files w (a @ x)")
  case None
  then have "relocate {x} a b (files w) = files w" using assms(5) by (auto simp: relocate_single [OF assms(2)])
  with None assms show ?thesis by (simp add: fs_exists_def)
next
  case (Some d)
  then show ?thesis
    using assms by (simp add: fs_exists_def fs_move_def no_fault_def relocate_single [OF assms(2)])
qed

lemma move_file_next:
  assumes "no_fault E" "apart a b" "movable a b tid w" "x \<in> own_files tid" "X \<subseteq> own_files tid" "x \<notin> X"
  shows "(if \<not> fs_exists (w\<lparr>files := relocate X a b (files w)\<rparr>) (a @ x)
      then (Inr (), w\<lparr>files := relocate X a b (files w)\<rparr>)
      else case fs_move E (a @ x) (b @ x) (w\<lparr>files := relocate X a b (files w)\<rparr>) of
             (Some ec, w1) \<Rightarrow> (Inl (err ec), w1) | (None, w1) \<Rightarrow> (Inr (), w1)) =
    (Inr (), w\<lparr>files := relocate (insert x X) a b (files w)\<rparr>)"
proof -
  let ?w = "w\<lparr>files := relocate X a b (files w)\<rparr>"
  note m = movableD [OF assms(3,4)]
  have "files ?w (b @ x) = None" using m(3) assms(6) by (simp add: relocate_simps [OF assms(2)])
  from move_file_step [OF assms(1,2), of x ?w, OF _ _ this, of err] m(1,2)
  have "(if \<not> fs_exists ?w (a @ x) then (Inr (), ?w)
      else case fs_move E (a @ x) (b @ x) ?w of (Some ec, w1) \<Rightarrow> (Inl (err ec), w1) | (None, w1) \<Rightarrow> (Inr (), w1)) =
    (Inr (), w\<lparr>files := relocate {x} a b (relocate X a b (files w))\<rparr>)" by simp
  moreover have "relocate {x} a b (relocate X a b (files w)) = relocate (insert x X) a b (files w)"
    using relocate_relocate [OF assms(2), of X "{x}" "files w"] assms(6) by simp
  ultimately show ?thesis by simp
qed

lemma own_file_chain:
  "meta_name tid \<in> own_files tid" "parquet_name tid \<in> own_files tid" "index_name tid \<in> own_files tid"
  "{} \<subseteq> own_files tid" "{meta_name tid} \<subseteq> own_files tid" "{parquet_name tid, meta_name tid} \<subseteq> own_files tid"
  "meta_name tid \<notin> {}" "parquet_name tid \<notin> {meta_name tid}" "index_name tid \<notin> {parquet_name tid, meta_name tid}"
  "insert (index_name tid) {parquet_name tid, meta_name tid} = own_files tid"
  using names_distinct [of tid] by (auto simp: own_files_def)

lemma relocate_empty: "relocate {} a b f = f"
  by (rule ext) (simp add: relocate_def)

text \<open>The directory of versions, moved when it exists.\<close>

lemma move_versions_step:
  assumes "no_fault E" "apart a b" "movable a b tid w"
  defines "w' \<equiv> w\<lparr>files := relocate (own_files tid) a b (files w)\<rparr>"
  shows "fs_exists w' (a @ versions_name tid) \<longleftrightarrow> a @ versions_name tid \<in> dirs w"
    "a @ versions_name tid \<in> dirs w \<Longrightarrow>
       fs_move E (a @ versions_name tid) (b @ versions_name tid) w' = (None, moved a b tid w)"
    "a @ versions_name tid \<notin> dirs w \<Longrightarrow> moved a b tid w = w'"
proof -
  have "files w' (a @ versions_name tid) = None" "files w' (b @ versions_name tid) = None"
    using assms(3) names_distinct(4) [of tid] by (auto simp: w'_def relocate_simps [OF assms(2)] movable_def)
  then show "fs_exists w' (a @ versions_name tid) \<longleftrightarrow> a @ versions_name tid \<in> dirs w"
    "a @ versions_name tid \<in> dirs w \<Longrightarrow>
       fs_move E (a @ versions_name tid) (b @ versions_name tid) w' = (None, moved a b tid w)"
    using assms(1) by (simp_all add: fs_exists_def fs_move_def no_fault_def moved_def Let_def w'_def)
  show "a @ versions_name tid \<notin> dirs w \<Longrightarrow> moved a b tid w = w'" by (simp add: moved_def w'_def)
qed

lemma moved_files:
  assumes "apart a b" "movable a b tid w" "safe_table tid"
  shows "files (moved a b tid w) = relocate (own_files tid \<union> below (versions_name tid)) a b (files w)"
proof (cases "a @ versions_name tid \<in> dirs w")
  case True
  then have "files (moved a b tid w) = relocate (below (versions_name tid)) a b (relocate (own_files tid) a b (files w))"
    by (simp add: moved_def Let_def move_tree_files [OF assms(1)])
  then show ?thesis using relocate_relocate [OF assms(1) below_own [OF assms(3)]] by simp
next
  case False
  let ?B = "below (versions_name tid)"
  have none: "files w (b @ x) = None" "files w (a @ x) = None" if "x \<in> ?B" for x
    using assms(2) False that by (auto simp: movable_def)
  have out: "x \<notin> own_files tid" if "x \<in> ?B" for x using below_own [OF assms(3)] that by auto
  have "relocate ?B a b (relocate (own_files tid) a b (files w)) = relocate (own_files tid) a b (files w)"
    using none out by (intro relocate_absent [OF assms(1)]) (auto simp: relocate_simps [OF assms(1)])
  then show ?thesis
    using False relocate_relocate [OF assms(1) below_own [OF assms(3)], of "files w"] by (simp add: moved_def)
qed

lemma moved_dirs:
  assumes "apart a b"
  shows "b @ x \<in> dirs (moved a b tid w) \<Longrightarrow> x = versions_name tid \<and> a @ x \<in> dirs w \<or> x \<in> below (versions_name tid) \<or> b @ x \<in> dirs w"
    "a @ x \<in> dirs (moved a b tid w) \<Longrightarrow> a @ x \<in> dirs w"
    "(\<And>x. p \<noteq> a @ x) \<Longrightarrow> p \<in> dirs w \<Longrightarrow> p \<in> dirs (moved a b tid w)"
    "a @ versions_name tid \<in> dirs w \<Longrightarrow> b @ versions_name tid \<in> dirs (moved a b tid w)"
    "(\<And>x. p \<noteq> b @ x) \<Longrightarrow> p \<in> dirs (moved a b tid w) \<Longrightarrow> p \<in> dirs w"
proof -
  let ?v = "versions_name tid"
  have ab: "b @ y \<noteq> a @ x" "a @ x \<noteq> b @ y" for x y using assms unfolding apart_def by metis+
  have d: "dirs (moved a b tid w) = (if a @ ?v \<in> dirs w
      then insert (b @ ?v) ((\<lambda>p. (b @ ?v) @ drop (length (a @ ?v)) p) ` {p \<in> dirs w. prefix ((a @ ?v) @ ''/'') p} \<union>
        {p \<in> dirs w. p \<noteq> a @ ?v \<and> \<not> prefix ((a @ ?v) @ ''/'') p}) else dirs w)"
    by (simp add: moved_def move_tree_def Let_def)
  show "b @ x \<in> dirs (moved a b tid w) \<Longrightarrow> x = ?v \<and> a @ x \<in> dirs w \<or> x \<in> below ?v \<or> b @ x \<in> dirs w"
    unfolding d by (auto simp: below_def prefix_def split: if_splits)
  show "a @ x \<in> dirs (moved a b tid w) \<Longrightarrow> a @ x \<in> dirs w"
    unfolding d using ab by (auto split: if_splits)
  show "(\<And>x. p \<noteq> a @ x) \<Longrightarrow> p \<in> dirs w \<Longrightarrow> p \<in> dirs (moved a b tid w)"
    unfolding d by (auto simp: prefix_def)
  show "a @ ?v \<in> dirs w \<Longrightarrow> b @ ?v \<in> dirs (moved a b tid w)" unfolding d by simp
  show "(\<And>x. p \<noteq> b @ x) \<Longrightarrow> p \<in> dirs (moved a b tid w) \<Longrightarrow> p \<in> dirs w"
    unfolding d by (auto split: if_splits)
qed

lemma moved_movable:
  assumes "apart a b" "movable a b tid w" "safe_table tid"
  shows "movable b a tid (moved a b tid w)"
proof -
  let ?v = "versions_name tid" and ?w = "moved a b tid w"
  note f = moved_files [OF assms] relocate_simps [OF assms(1)] and d = moved_dirs [OF assms(1)]
  have vs: "?v \<notin> own_files tid \<union> below ?v" using names_distinct(4) by (auto simp: below_def)
  have "b @ x \<notin> dirs ?w \<and> a @ x \<notin> dirs ?w \<and> files ?w (a @ x) = None" if "x \<in> own_files tid" for x
    using movableD [OF assms(2) that] d(1,2) [of x tid w] that below_own [OF assms(3)] vs by (auto simp: f)
  moreover have "files ?w (b @ ?v) = None" "files ?w (a @ ?v) = None"
    using assms(2) vs by (auto simp: f movable_def)
  moreover have "files ?w (a @ x) = None" "files ?w (b @ x) \<noteq> None \<longrightarrow> b @ ?v \<in> dirs ?w" if "x \<in> below ?v" for x
    using assms(2) that d(4) [of tid w] by (auto simp: f movable_def)
  ultimately show ?thesis unfolding movable_def by blast
qed

lemma movable_more_dirs:
  assumes "movable a b tid w" "\<And>p x. p \<in> S \<Longrightarrow> x \<noteq> [] \<Longrightarrow> p \<noteq> a @ x \<and> p \<noteq> b @ x"
  shows "movable a b tid (w\<lparr>dirs := S \<union> dirs w\<rparr>)"
proof -
  have "x \<noteq> []" if "x \<in> own_files tid" for x using that by (auto simp: own_files_def names)
  then show ?thesis using assms unfolding movable_def by fastforce
qed

lemma own_suffix: "x \<in> own_files tid \<Longrightarrow> \<exists>sfx. x = table_id tid @ sfx \<and> CHR ''/'' \<notin> set sfx"
  by (auto simp: own_files_def names)

lemma MoveTable_moved:
  assumes "no_fault E" "safe_table tid"
    and m: "movable (live_prefix E tid) (tomb_prefix E tid ms) tid w1"
    and w1: "w1 = w\<lparr>dirs := insert (TableTombstoneDir E tid ms) (set (path_parents (TableTombstoneDir E tid ms)) \<union> dirs w)\<rparr>"
  shows "MoveTableToTombstone E tid ms w = (Inr (), moved (live_prefix E tid) (tomb_prefix E tid ms) tid w1)"
proof -
  let ?a = "live_prefix E tid" and ?b = "tomb_prefix E tid ms" and ?td = "TableTombstoneDir E tid ms"
  note ap = live_tomb_apart [OF assms(2), of E ms] and ch = own_file_chain [of tid]
  have dest: "path_join ?td (table_id tid @ sfx) = ?b @ table_id tid @ sfx" for sfx
    using table_safe [OF assms(2)] by (intro tombstone_dir_path(2) [OF assms(2)]) auto
  have one: "move_if_exists E ?td (?a @ x) (w1\<lparr>files := relocate X ?a ?b (files w1)\<rparr>) =
      (Inr (), w1\<lparr>files := relocate (insert x X) ?a ?b (files w1)\<rparr>)"
    if "x \<in> own_files tid" "X \<subseteq> own_files tid" "x \<notin> X" for x X
  proof -
    from own_suffix [OF that(1)] obtain sfx where sfx: "x = table_id tid @ sfx" "CHR ''/'' \<notin> set sfx" by blast
    have d: "path_join ?td (path_filename (?a @ x)) = ?b @ x"
      unfolding sfx(1) name_filename(1) [OF assms(2) sfx(2)] by (rule dest)
    show ?thesis
      unfolding move_if_exists_def Let_def d by (rule move_file_next [OF assms(1) ap m that])
  qed
  have 1: "move_if_exists E ?td (?a @ meta_name tid) w1 = (Inr (), w1\<lparr>files := relocate {meta_name tid} ?a ?b (files w1)\<rparr>)"
    using one [OF ch(1,4,7)] by (simp add: relocate_empty)
  note 2 = one [OF ch(2,5,8)] and 3 = one [OF ch(3,6,9)]
  note v = move_versions_step [OF assms(1) ap m]
  have "fs_create_directories E ?td w = (None, w1)" using assms(1) by (simp add: fs_create_directories_def no_fault_def w1)
  then show ?thesis
    using v dest [of "''.versions''"]
    by (simp add: MoveTableToTombstone_def Let_def 1 2 3 live_paths [OF assms(2)] ch(10) versions_name_def [symmetric])
qed

lemma RestoreFiles_moved:
  assumes "no_fault E" "safe_table tid"
    and m: "movable (tomb_prefix E tid ms) (live_prefix E tid) tid w"
  shows "RestoreFiles E ls tid (TableTombstoneDir E tid ms) w =
    (Inr (), fs_remove_empty_dir ls (TableTombstoneDir E tid ms) (moved (tomb_prefix E tid ms) (live_prefix E tid) tid w))"
proof -
  let ?a = "tomb_prefix E tid ms" and ?b = "live_prefix E tid" and ?td = "TableTombstoneDir E tid ms"
  note ap = apart_sym [OF live_tomb_apart [OF assms(2), of E ms]] and ch = own_file_chain [of tid]
  have src: "path_join ?td (table_id tid @ sfx) = ?a @ table_id tid @ sfx" for sfx
    using table_safe [OF assms(2)] by (intro tombstone_dir_path(2) [OF assms(2)]) auto
  note dest = live_paths(5) [OF assms(2), of E]
  have one: "move_entry E ?td (DatasetDir E tid) (path_filename x) (w\<lparr>files := relocate X ?a ?b (files w)\<rparr>) =
      (Inr (), w\<lparr>files := relocate (insert x X) ?a ?b (files w)\<rparr>)"
    if "x \<in> own_files tid" "X \<subseteq> own_files tid" "x \<notin> X" for x X
  proof -
    from own_suffix [OF that(1)] obtain sfx where sfx: "x = table_id tid @ sfx" "CHR ''/'' \<notin> set sfx" by blast
    have d: "path_filename x = x" "path_join ?td x = ?a @ x" "path_join (DatasetDir E tid) x = ?b @ x"
      unfolding sfx(1) by (simp_all only: name_filename(2) [OF assms(2) sfx(2)] src dest)
    show ?thesis
      unfolding move_entry_def Let_def d by (rule move_file_next [OF assms(1) ap m that])
  qed
  have 1: "move_entry E ?td (DatasetDir E tid) (path_filename (meta_name tid)) w =
      (Inr (), w\<lparr>files := relocate {meta_name tid} ?a ?b (files w)\<rparr>)"
    using one [OF ch(1,4,7)] by (simp add: relocate_empty)
  note 2 = one [OF ch(2,5,8)] and 3 = one [OF ch(3,6,9)]
  note v = move_versions_step [OF assms(1) ap m]
  show ?thesis
    using v src [of "''.versions''"] dest [of "''.versions''"]
    by (simp add: RestoreFiles_def Let_def 1 2 3 ch(10) names [symmetric])
qed

subsection \<open>The latest tombstone is found\<close>

lemma latest_entry_max:
  assumes "\<forall>n \<in> set names. path_join root n \<in> dirs w \<longrightarrow> (\<forall>u. SimpleAtoi A n = Some u \<longrightarrow> u \<le> t)"
    "n \<in> set names" "path_join root n \<in> dirs w" "SimpleAtoi A n = Some t"
  shows "latest_entry A w root names = Some t"
proof -
  define step where "step = (\<lambda>best name.
       if path_join root name \<notin> dirs w then best
       else case SimpleAtoi A name of
              None \<Rightarrow> best
            | Some deleted_ms \<Rightarrow>
                (case best of
                   None \<Rightarrow> Some deleted_ms
                 | Some b \<Rightarrow> if deleted_ms > b then Some deleted_ms else best))"
  have "foldl step best ns = Some t"
    if "\<forall>n \<in> set ns. path_join root n \<in> dirs w \<longrightarrow> (\<forall>u. SimpleAtoi A n = Some u \<longrightarrow> u \<le> t)"
      "n \<in> set ns \<or> best = Some t" "\<forall>b. best = Some b \<longrightarrow> b \<le> t" for ns best
    using that
  proof (induction ns arbitrary: best)
    case (Cons m ns)
    have "\<forall>b. step best m = Some b \<longrightarrow> b \<le> t"
      using Cons.prems by (auto simp: step_def split: option.splits if_splits)
    moreover have "n \<in> set ns \<or> step best m = Some t"
      using Cons.prems assms(3,4) by (fastforce simp: step_def split: option.splits if_splits)
    ultimately show ?case using Cons.IH [of "step best m"] Cons.prems(1) by simp
  qed simp
  from this [of names None] assms(1,2) show ?thesis by (simp add: latest_entry_def step_def)
qed

definition lists :: "Listing \<Rightarrow> World \<Rightarrow> string \<Rightarrow> bool" where
  "lists ls w d \<longleftrightarrow>
     (\<exists>names. ls w d = Inr names \<and>
        (\<forall>n. n \<in> set names \<longleftrightarrow> n \<noteq> [] \<and> CHR ''/'' \<notin> set n \<and> fs_exists w (path_join d n)))"

text \<open>The shape of a live table: its files are files and its versions lie in a directory.\<close>

definition table_shape :: "DuckEnv \<Rightarrow> World \<Rightarrow> TableId \<Rightarrow> bool" where
  "table_shape E w tid \<longleftrightarrow>
     (\<forall>p \<in> {TableMetaPath E tid, TableParquetPath E tid, TableVersionsIndexPath E tid}. p \<notin> dirs w) \<and>
     files w (TableVersionsDir E tid) = None \<and>
     (\<forall>f. files w (TableVersionsDir E tid @ ''/'' @ f) \<noteq> None \<longrightarrow> TableVersionsDir E tid \<in> dirs w)"

text \<open>There is nothing yet in the directory the table is moved to.\<close>

definition fresh_tombstone :: "DuckEnv \<Rightarrow> World \<Rightarrow> TableId \<Rightarrow> int \<Rightarrow> bool" where
  "fresh_tombstone E w tid ms \<longleftrightarrow> (\<forall>x. \<not> fs_exists w (TableTombstoneDir E tid ms @ ''/'' @ x))"

definition earlier_tombstones :: "DuckEnv \<Rightarrow> World \<Rightarrow> TableId \<Rightarrow> int \<Rightarrow> bool" where
  "earlier_tombstones E w tid ms \<longleftrightarrow>
     (\<forall>n u. CHR ''/'' \<notin> set n \<longrightarrow> path_join (tombstone_root E tid) n \<in> dirs w \<longrightarrow> SimpleAtoi (absl_fns E) n = Some u \<longrightarrow> u \<le> ms)"

lemma shape_movable:
  assumes "safe_table tid" "table_shape E w tid" "fresh_tombstone E w tid ms"
  shows "movable (live_prefix E tid) (tomb_prefix E tid ms) tid w"
proof -
  have "files w (tomb_prefix E tid ms @ x) = None \<and> tomb_prefix E tid ms @ x \<notin> dirs w" for x
    using assms(3) unfolding fresh_tombstone_def fs_exists_def tombstone_dir_path(1) [OF assms(1), symmetric] by auto
  then show ?thesis
    using assms(2) unfolding movable_def table_shape_def live_paths [OF assms(1)] own_files_def below_def by auto
qed

text \<open>The directory of a place and the directories above it are not below the other place.\<close>

lemma above_apart:
  assumes "apart a b" "d @ ''/'' = a" "p \<in> insert d (set (path_parents d))" "x \<noteq> []"
  shows "p \<noteq> a @ x \<and> p \<noteq> b @ x"
proof (intro conjI notI)
  have "prefix (p @ ''/'') (d @ ''/'')" using assms(3) by (auto simp: path_parents_iff prefix_def)
  then obtain r where r: "a = p @ ''/'' @ r" using assms(2) by (auto simp: prefix_def)
  show False if "p = a @ x" using arg_cong [OF r, of length] that by simp
  show False if "p = b @ x" using r that assms(1) unfolding apart_def by (metis append.assoc append_Nil2)
qed

subsection \<open>Drop and restore\<close>

lemma dataset_dir_prefix:
  assumes "safe_table tid"
  shows "DatasetDir E tid @ ''/'' = live_prefix E tid"
proof -
  have p: "project_id tid \<noteq> []" "CHR ''/'' \<notin> set (project_id tid)" "hd (project_id tid) \<noteq> CHR ''/''"
    and d: "dataset_id tid \<noteq> []" "hd (dataset_id tid) \<noteq> CHR ''/''"
    using assms hd_no_slash by (auto simp: safe_table_def safe_id_def)
  then show ?thesis
    by (simp add: DatasetDir_def path_join_dir dir_prefix_safe live_prefix_def)
qed

definition after_drop :: "DuckEnv \<Rightarrow> TableId \<Rightarrow> World \<Rightarrow> World" where
  "after_drop E tid w =
     (let td = TableTombstoneDir E tid (clock_ms w)
      in moved (live_prefix E tid) (tomb_prefix E tid (clock_ms w)) tid
           (w\<lparr>dirs := insert td (set (path_parents td) \<union> dirs w)\<rparr>))"

lemma drop_movable:
  assumes "safe_table tid" "table_shape E w tid" "fresh_tombstone E w tid (clock_ms w)"
  defines "td \<equiv> TableTombstoneDir E tid (clock_ms w)"
  shows "movable (live_prefix E tid) (tomb_prefix E tid (clock_ms w)) tid
    (w\<lparr>dirs := insert td (set (path_parents td) \<union> dirs w)\<rparr>)"
proof -
  note ap = apart_sym [OF live_tomb_apart [OF assms(1), of E "clock_ms w"]]
  have "movable (live_prefix E tid) (tomb_prefix E tid (clock_ms w)) tid
    (w\<lparr>dirs := insert td (set (path_parents td)) \<union> dirs w\<rparr>)"
    using above_apart [OF ap tombstone_dir_path(1) [OF assms(1)]]
    by (intro movable_more_dirs shape_movable assms(1-3)) (auto simp: td_def)
  then show ?thesis by simp
qed

lemma DropTable_runs:
  assumes "no_fault E" "safe_table tid" "table_shape E w tid" "fresh_tombstone E w tid (clock_ms w)"
    "fs_exists w (DatasetDir E tid)" "fs_exists w (TableMetaPath E tid)"
  shows "DropTable E w tid = (Inr (), after_drop E tid w)"
  using assms(5,6) MoveTable_moved [OF assms(1,2) drop_movable [OF assms(2-4)] refl]
  by (simp add: DropTable_def after_drop_def Let_def)

lemma after_drop_facts:
  assumes "safe_table tid" "table_shape E w tid" "fresh_tombstone E w tid (clock_ms w)"
  shows "files (after_drop E tid w) =
      relocate (own_files tid \<union> below (versions_name tid)) (live_prefix E tid) (tomb_prefix E tid (clock_ms w)) (files w)"
    "movable (tomb_prefix E tid (clock_ms w)) (live_prefix E tid) tid (after_drop E tid w)"
    "TableTombstoneDir E tid (clock_ms w) \<in> dirs (after_drop E tid w)"
    "p \<in> dirs (after_drop E tid w) \<Longrightarrow> (\<And>x. p \<noteq> tomb_prefix E tid (clock_ms w) @ x) \<Longrightarrow>
       p \<in> insert (TableTombstoneDir E tid (clock_ms w)) (set (path_parents (TableTombstoneDir E tid (clock_ms w))) \<union> dirs w)"
    "fs_exists w (DatasetDir E tid) \<Longrightarrow> fs_exists (after_drop E tid w) (DatasetDir E tid)"
proof -
  let ?a = "live_prefix E tid" and ?b = "tomb_prefix E tid (clock_ms w)" and ?td = "TableTombstoneDir E tid (clock_ms w)"
  note ap = live_tomb_apart [OF assms(1), of E "clock_ms w"] and m = drop_movable [OF assms]
  show f: "files (after_drop E tid w) = relocate (own_files tid \<union> below (versions_name tid)) ?a ?b (files w)"
    using moved_files [OF ap m assms(1)] by (simp add: after_drop_def Let_def)
  show "movable ?b ?a tid (after_drop E tid w)"
    using moved_movable [OF ap m assms(1)] by (simp add: after_drop_def Let_def)
  have "?td \<noteq> ?a @ x" for x
    using ap tombstone_dir_path(1) [OF assms(1), of E "clock_ms w"] unfolding apart_def by (metis append.assoc append_Nil2)
  then show "?td \<in> dirs (after_drop E tid w)"
    unfolding after_drop_def Let_def by (intro moved_dirs(3) [OF ap]) auto
  show "p \<in> insert ?td (set (path_parents ?td) \<union> dirs w)"
    if "p \<in> dirs (after_drop E tid w)" "\<And>x. p \<noteq> ?b @ x"
    using moved_dirs(5) [OF ap that(2)] that(1) unfolding after_drop_def Let_def by fastforce
  note ds = dataset_dir_prefix [OF assms(1), of E]
  have ne: "DatasetDir E tid \<noteq> ?a @ x" "DatasetDir E tid \<noteq> ?b @ x" for x
    using ap ds unfolding apart_def by (metis append.assoc append_Nil2 append_self_conv append_is_Nil_conv not_Cons_self2,
      metis append.assoc append_Nil2)
  have "files (after_drop E tid w) (DatasetDir E tid) = files w (DatasetDir E tid)"
    unfolding f by (intro relocate_simps(3) [OF ap] ne)
  moreover have "DatasetDir E tid \<in> dirs w \<Longrightarrow> DatasetDir E tid \<in> dirs (after_drop E tid w)"
    unfolding after_drop_def Let_def by (intro moved_dirs(3) [OF ap] ne) simp
  ultimately show "fs_exists w (DatasetDir E tid) \<Longrightarrow> fs_exists (after_drop E tid w) (DatasetDir E tid)"
    by (auto simp: fs_exists_def)
qed

lemma after_drop_root:
  assumes "safe_table tid"
  shows "tombstone_root E tid \<in> dirs (after_drop E tid w)"
proof -
  let ?r = "tombstone_root E tid" and ?td = "TableTombstoneDir E tid (clock_ms w)"
  note td = tombstone_dir_path(1) [OF assms, of E "clock_ms w"]
  have r: "?td = ?r @ ''/'' @ dec (clock_ms w)"
    using td by (simp add: tomb_prefix_def tombstone_root_path [OF assms])
  then have "?r \<in> set (path_parents ?td)"
    using table_safe(1) [OF assms] by (auto simp: path_parents_iff tombstone_root_path [OF assms] prefix_def)
  moreover have "?r \<noteq> live_prefix E tid @ x" for x
    using live_tomb_apart [OF assms, of E "clock_ms w"] td r unfolding apart_def by (metis append.assoc append_Nil2)
  ultimately show ?thesis
    unfolding after_drop_def Let_def by (intro moved_dirs(3) live_tomb_apart assms) auto
qed

text \<open>The directories of the table's tombstones after a drop: the earlier ones and the new one.\<close>

lemma after_drop_entries:
  assumes "safe_table tid" "table_shape E w tid" "fresh_tombstone E w tid (clock_ms w)"
    "n \<noteq> []" "CHR ''/'' \<notin> set n" "path_join (tombstone_root E tid) n \<in> dirs (after_drop E tid w)"
  shows "n = dec (clock_ms w) \<or> path_join (tombstone_root E tid) n \<in> dirs w"
proof -
  let ?r = "tombstone_root E tid" and ?t = "clock_ms w"
  have join: "path_join ?r n = dir_prefix ?r @ n" if "n \<noteq> []" "CHR ''/'' \<notin> set n" for n
    using that hd_no_slash by (intro path_join_dir) auto
  have td: "TableTombstoneDir E tid ?t = dir_prefix ?r @ dec ?t"
    using join [of "dec ?t"] dec_safe by (simp add: TableTombstoneDir_def)
  note n = join [OF assms(4,5)]
  have "path_join ?r n \<noteq> tomb_prefix E tid ?t @ x" for x
  proof
    assume "path_join ?r n = tomb_prefix E tid ?t @ x"
    then have "n = dec ?t @ ''/'' @ x" using tombstone_dir_path(1) [OF assms(1), of E ?t] td n by (metis append.assoc same_append_eq)
    then show False using assms(5) by simp
  qed
  from after_drop_facts(4) [OF assms(1-3) assms(6) this]
  consider "path_join ?r n = TableTombstoneDir E tid ?t" | "path_join ?r n \<in> set (path_parents (TableTombstoneDir E tid ?t))"
    | "path_join ?r n \<in> dirs w" by blast
  then show ?thesis
  proof cases
    case 2
    then obtain y where "dir_prefix ?r @ dec ?t = dir_prefix ?r @ n @ ''/'' @ y"
      unfolding path_parents_iff n td by (auto simp: prefix_def)
    then have "CHR ''/'' \<in> set (dec ?t)" by simp
    then show ?thesis using dec_safe(2) by blast
  qed (simp_all add: n td)
qed

lemma after_drop_latest:
  assumes "absl_api (absl_fns E)" "in_int64 (clock_ms w)" "safe_table tid" "table_shape E w tid"
    "fresh_tombstone E w tid (clock_ms w)" "earlier_tombstones E w tid (clock_ms w)"
    "lists ls (after_drop E tid w) (tombstone_root E tid)"
  shows "LatestTombstoneMs E ls (after_drop E tid w) tid = Inr (clock_ms w)"
proof -
  let ?w = "after_drop E tid w" and ?r = "tombstone_root E tid" and ?t = "clock_ms w"
  have td: "path_join ?r (dec ?t) \<in> dirs ?w"
    using after_drop_facts(3) [OF assms(3-5)] by (simp add: TableTombstoneDir_def)
  have atoi: "SimpleAtoi (absl_fns E) (dec ?t) = Some ?t" using assms(1,2) absl_api.atoi_dec by blast
  obtain names where names: "ls ?w ?r = Inr names"
    "\<And>n. n \<in> set names \<longleftrightarrow> n \<noteq> [] \<and> CHR ''/'' \<notin> set n \<and> fs_exists ?w (path_join ?r n)"
    using assms(7) unfolding lists_def by blast
  have "u \<le> ?t" if "n \<in> set names" "path_join ?r n \<in> dirs ?w" "SimpleAtoi (absl_fns E) n = Some u" for n u
    using after_drop_entries [OF assms(3-5), of n] that names(2) atoi assms(6) unfolding earlier_tombstones_def by auto
  moreover have "dec ?t \<in> set names" using names(2) dec_safe td by (simp add: fs_exists_def)
  ultimately have "latest_entry (absl_fns E) ?w ?r names = Some ?t"
    using atoi td by (intro latest_entry_max [of names ?r ?w _ ?t "dec ?t"]) auto
  then show ?thesis
    using after_drop_root [OF assms(3)] by (simp add: LatestTombstoneMs_def Let_def names(1) fs_exists_def)
qed

lemma RestoreTable_runs:
  assumes "no_fault E" "safe_table tid" "movable (tomb_prefix E tid ms) (live_prefix E tid) tid w"
    "TableTombstoneDir E tid ms \<in> dirs w" "LatestTombstoneMs E ls w tid = Inr ms"
  shows "\<exists>w'. RestoreTable E ls w tid 0 = (Inr (), w') \<and>
    files w' = relocate (own_files tid \<union> below (versions_name tid)) (tomb_prefix E tid ms) (live_prefix E tid) (files w)"
proof -
  let ?a = "tomb_prefix E tid ms" and ?b = "live_prefix E tid" and ?ds = "DatasetDir E tid"
  define w1 where "w1 = w\<lparr>dirs := insert ?ds (set (path_parents ?ds) \<union> dirs w)\<rparr>"
  note ap = live_tomb_apart [OF assms(2), of E ms]
  have "movable ?a ?b tid (w\<lparr>dirs := insert ?ds (set (path_parents ?ds)) \<union> dirs w\<rparr>)"
    using above_apart [OF ap dataset_dir_prefix [OF assms(2)]] by (intro movable_more_dirs assms(3)) auto
  then have m: "movable ?a ?b tid w1" by (simp add: w1_def)
  have "\<not> fs_exists w (TableMetaPath E tid)"
    using movableD [OF assms(3) own_file_chain(1)] by (simp add: fs_exists_def live_paths [OF assms(2)])
  moreover have "fs_create_directories E ?ds w = (None, w1)"
    using assms(1) by (simp add: fs_create_directories_def no_fault_def w1_def)
  ultimately have "RestoreTable E ls w tid 0 =
      (Inr (), fs_remove_empty_dir ls (TableTombstoneDir E tid ms) (moved ?a ?b tid w1))"
    using assms(4,5) RestoreFiles_moved [OF assms(1,2) m]
    by (simp add: RestoreTable_def RestoreTableFromTombstone_def Let_def fs_exists_def)
  then show ?thesis
    using moved_files [OF apart_sym [OF ap] m assms(2)] by (simp add: fs_remove_empty_dir_def w1_def)
qed

lemma drop_other_files:
  assumes "safe_table tid" "table_shape E w tid" "fresh_tombstone E w tid (clock_ms w)" "safe_table t" "t \<noteq> tid"
    "sfx \<in> {''.meta.json'', ''.parquet'', ''.versions.json''}"
  shows "files (after_drop E tid w) (table_path E t sfx) = files w (table_path E t sfx)"
proof -
  let ?D = "live_prefix E tid" and ?T = "tomb_prefix E tid (clock_ms w)" and ?X = "own_files tid \<union> below (versions_name tid)"
  have sl: "CHR ''/'' \<notin> set (table_id t @ sfx)" using assms(4,6) table_safe by auto
  have path: "table_path E t sfx = dir_prefix (data_dir E) @ project_id t @ ''/'' @ dataset_id t @ ''/'' @ table_id t @ sfx"
    by (simp add: table_path_def dataset_path [OF assms(4)])
  have tomb: "table_path E t sfx \<noteq> ?T @ x" for x
  proof
    assume "table_path E t sfx = ?T @ x"
    then have "table_id t @ sfx = table_id tid @ ''/'' @ dec (clock_ms w) @ ''/'' @ x"
      using assms(1,4) key_safe [OF assms(1)] unfolding path tomb_prefix_def
      by (simp add: slash_free_split [where b = "''.tombstones''", simplified] slash_free_split safe_table_def safe_id_def)
    then show False using sl by (metis in_set_conv_decomp append_Cons append_Nil)
  qed
  have live: "x \<notin> ?X" if eq: "table_path E t sfx = ?D @ x" for x
  proof
    assume x: "x \<in> ?X"
    have same: "project_id t = project_id tid" "dataset_id t = dataset_id tid" "table_id t @ sfx = x"
      using eq assms(1,4) unfolding path live_prefix_def by (simp_all add: slash_free_split safe_table_def safe_id_def)
    have "x \<notin> below (versions_name tid)" using sl same(3) by (auto simp: below_def)
    then have "table_id t = table_id tid"
      using x same(3) [symmetric] assms(6) by (auto simp: own_files_def names append_suffix_eq [of "table_id t"])
    then show False using same(1,2) assms(5) by (simp add: table_eqI)
  qed
  show ?thesis
    unfolding after_drop_facts(1) [OF assms(1-3)] using tomb live
    by (auto simp: relocate_def)
qed

subsection \<open>Properties\<close>

text \<open>
  C31: Dropping a table and restoring its latest tombstone gives back every file. Without system
  failures, for a table whose files have their usual shape, at a time for which there is no
  tombstone of the table yet and after which none is dated: the drop succeeds, the table is gone
  and the files of every other table are as they were; the restore without a given time finds
  this tombstone among the entries the system lists, succeeds, and the files are exactly those
  from before the drop, so the schema, the rows and the whole history read as before.
\<close>

theorem drop_restore_table:
  assumes "no_fault E" "absl_api (absl_fns E)" "safe_table tid" "in_int64 (clock_ms w)"
    and "fs_exists w (DatasetDir E tid)" "fs_exists w (TableMetaPath E tid)" "table_shape E w tid"
    and "fresh_tombstone E w tid (clock_ms w)" "earlier_tombstones E w tid (clock_ms w)"
    and "lists ls (snd (DropTable E w tid)) (tombstone_root E tid)"
  shows "\<exists>w1 w2. DropTable E w tid = (Inr (), w1) \<and> GetSchema_duck E w1 tid = Inl (table_not_found tid) \<and>
    (\<forall>t. safe_table t \<and> t \<noteq> tid \<longrightarrow>
       (\<forall>sfx \<in> {''.meta.json'', ''.parquet'', ''.versions.json''}.
          files w1 (table_path E t sfx) = files w (table_path E t sfx))) \<and>
    RestoreTable E ls w1 tid 0 = (Inr (), w2) \<and> files w2 = files w \<and> rows_of_duck E w2 tid = rows_of_duck E w tid"
proof -
  let ?w = "after_drop E tid w" and ?D = "live_prefix E tid" and ?T = "tomb_prefix E tid (clock_ms w)"
  note drop = DropTable_runs [OF assms(1,3,7,8,5,6)] and facts = after_drop_facts [OF assms(3,7,8)]
  have "\<not> fs_exists ?w (TableMetaPath E tid)"
    using movableD [OF facts(2) own_file_chain(1)] by (simp add: fs_exists_def live_paths [OF assms(3)])
  then have gone: "GetSchema_duck E ?w tid = Inl (table_not_found tid)"
    using facts(5) [OF assms(5)] by (simp add: GetSchema_duck_def EnsureTableMetaExists_def)
  have latest: "LatestTombstoneMs E ls ?w tid = Inr (clock_ms w)"
    using after_drop_latest [OF assms(2,4,3,7-9)] assms(10) drop by simp
  obtain w2 where w2: "RestoreTable E ls ?w tid 0 = (Inr (), w2)"
    "files w2 = relocate (own_files tid \<union> below (versions_name tid)) ?T ?D (files ?w)"
    using RestoreTable_runs [OF assms(1,3) facts(2,3) latest] by blast
  have "files w (?T @ x) = None" for x
    using assms(8) unfolding fresh_tombstone_def fs_exists_def tombstone_dir_path(1) [OF assms(3), symmetric] by auto
  then have "files w2 = files w"
    unfolding w2(2) facts(1) by (intro relocate_back live_tomb_apart assms(3))
  then show ?thesis
    using drop gone w2(1) drop_other_files [OF assms(3,7,8)] by (auto simp: rows_of_duck_def parquet_rows_def)
qed

definition one_tombstone :: Listing where
  "one_tombstone w d = Inr [''9'']"

lemma dec_9: "dec 9 = ''9''"
  by code_simp

lemmas json_paths = fs_exists_def json_world_def empty_world_def TableTombstoneDir_def tombstone_root_def
  DatasetTombstoneKey_def sample_tid_def json_env_def TableMetaPath_def TableVersionsIndexPath_def
  TableParquetPath_def TableVersionsDir_def DatasetDir_def path_join_def dec_9

lemma json_fresh: "fresh_tombstone json_env json_world sample_tid 9"
  by (auto simp: fresh_tombstone_def json_paths split: if_splits)

lemma json_earlier: "earlier_tombstones json_env json_world sample_tid 9"
  by (auto simp: earlier_tombstones_def json_paths split: if_splits)

lemma json_shape: "table_shape json_env json_world sample_tid"
  by (auto simp: table_shape_def json_paths split: if_splits)

lemma json_exists:
  "fs_exists json_world (DatasetDir json_env sample_tid)" "fs_exists json_world (TableMetaPath json_env sample_tid)"
  by (simp_all add: json_paths)

lemma json_no_fault: "no_fault json_env"
  by (simp add: no_fault_def json_env_simps)

lemma json_clock: "clock_ms json_world = 9"
  by (simp add: json_world_def)

lemma json_lists: "lists one_tombstone (snd (DropTable json_env json_world sample_tid)) (tombstone_root json_env sample_tid)"
proof -
  let ?w = "after_drop json_env sample_tid json_world" and ?r = "tombstone_root json_env sample_tid"
  note fresh = json_fresh [folded json_clock]
  note facts = after_drop_facts [OF sample_safe json_shape fresh]
  have drop: "snd (DropTable json_env json_world sample_tid) = ?w"
    using DropTable_runs [OF json_no_fault sample_safe json_shape fresh json_exists] by simp
  have none: "files ?w (path_join ?r n) = None" if "n \<noteq> []" "CHR ''/'' \<notin> set n" for n
  proof -
    have n: "path_join ?r n = ''/data/.tombstones/p.d/t/'' @ n"
      using hd_no_slash [OF that(2,1)] by (simp add: json_paths)
    have "live_prefix json_env sample_tid = ''/data/p/d/''" by (simp add: live_prefix_def dir_prefix_def json_paths)
    then have "path_join ?r n \<noteq> live_prefix json_env sample_tid @ x" for x unfolding n by simp
    moreover have "path_join ?r n \<noteq> tomb_prefix json_env sample_tid 9 @ x" for x
      unfolding n tomb_prefix_def using that by (auto simp: json_paths dir_prefix_def)
    ultimately show ?thesis
      unfolding facts(1) json_clock using that
      by (subst relocate_simps(3) [OF live_tomb_apart [OF sample_safe]]) (auto simp: n json_paths)
  qed
  have old: "path_join ?r n \<notin> dirs json_world" if "n \<noteq> []" "CHR ''/'' \<notin> set n" for n
    using that hd_no_slash [OF that(2,1)] by (simp add: json_paths)
  have "path_join ?r ''9'' \<in> dirs ?w" using facts(3) by (simp add: TableTombstoneDir_def json_clock dec_9)
  moreover have "n = ''9''" if "n \<noteq> []" "CHR ''/'' \<notin> set n" "fs_exists ?w (path_join ?r n)" for n
    using after_drop_entries [OF sample_safe json_shape fresh that(1,2)] that none old by (auto simp: fs_exists_def json_clock dec_9)
  ultimately show ?thesis
    unfolding drop lists_def one_tombstone_def by (auto simp: fs_exists_def)
qed

theorem drop_restore_table_witness:
  "\<exists>w1 w2. DropTable json_env json_world sample_tid = (Inr (), w1) \<and>
    GetSchema_duck json_env w1 sample_tid = Inl (table_not_found sample_tid) \<and>
    RestoreTable json_env one_tombstone w1 sample_tid 0 = (Inr (), w2) \<and> files w2 = files json_world \<and>
    rows_of_duck json_env w2 sample_tid = [id_row ''a'']"
proof -
  have "rows_of_duck json_env json_world sample_tid = [id_row ''a'']" by code_simp
  moreover have "absl_api (absl_fns json_env)" by (simp add: json_env_simps absl_ref.absl_api_axioms)
  moreover have "in_int64 (clock_ms json_world)" by (simp add: json_clock in_int64_def int64_defs)
  ultimately show ?thesis
    using drop_restore_table [of json_env sample_tid json_world one_tombstone] json_no_fault sample_safe json_exists
      json_shape json_fresh json_earlier json_lists json_clock by fastforce
qed

end
