(* ===== verification/Registry_Json.thy ===== *)
theory Registry_Json
  imports Duckdb_Meta
begin

section \<open>The registry snapshot of a dropped dataset\<close>

text \<open>
  When a dataset is dropped, \<open>duckdb_storage_tombstone_registry*.cc\<close> write its views, its
  routines and the governance of its tables as JSON arrays beside its files, and read them back
  when it is restored. The writers escape every text; the readers search for a quoted key and
  undo a backslash by taking the next character.

  The lemmas show that a key is never found inside an escaped text, that the array splits into
  the objects it was joined from, and so that views and routines whose texts have no line breaks
  or tabs read back; what does not read back is stated too.
\<close>

subsection \<open>Reading fields\<close>

text \<open>The text up to the closing quote, or up to the end.\<close>

fun field_text :: "string \<Rightarrow> string" where
  "field_text [] = []"
| "field_text [c] = (if c = CHR 0x22 then [] else [c])"
| "field_text (c # d # s) =
     (if c = CHR 0x5C then d # field_text s
      else if c = CHR 0x22 then [] else c # field_text (d # s))"

definition field_key :: "string \<Rightarrow> string" where
  "field_key field = CHR 0x22 # field @ [CHR 0x22, CHR '':'']"

definition ParseJsonStringField :: "string \<Rightarrow> string \<Rightarrow> string StatusOr" where
  "ParseJsonStringField json field =
     (let needle = field_key field @ [CHR 0x22]
      in case find_sub needle json of
           None \<Rightarrow> Inl (Status kInvalidArgument (''json missing string field '' @ field))
         | Some pos \<Rightarrow> Inr (field_text (drop (pos + length needle) json)))"

definition ParseJsonBoolField :: "string \<Rightarrow> string \<Rightarrow> bool" where
  "ParseJsonBoolField json field =
     (case find_sub (field_key field) json of
        None \<Rightarrow> False
      | Some pos \<Rightarrow> prefix ''true'' (drop (pos + length (field_key field)) json))"

text \<open>The text up to the closing quote and what follows it.\<close>

fun quoted_text :: "string \<Rightarrow> string \<times> string" where
  "quoted_text [] = ([], [])"
| "quoted_text [c] = (if c = CHR 0x22 then ([], []) else ([c], []))"
| "quoted_text (c # d # s) =
     (if c = CHR 0x5C then (case quoted_text s of (t, r) \<Rightarrow> (d # t, r))
      else if c = CHR 0x22 then ([], d # s)
      else case quoted_text (d # s) of (t, r) \<Rightarrow> (c # t, r))"

lemma quoted_text_length: "quoted_text s = (t, r) \<Longrightarrow> length r \<le> length s"
  by (induction s arbitrary: t r rule: quoted_text.induct) (fastforce split: if_splits prod.splits)+

function ParseQuotedJsonStringArray :: "string \<Rightarrow> string list" where
  "ParseQuotedJsonStringArray json =
     (case dropWhile (\<lambda>c. c \<noteq> CHR 0x22) json of
        [] \<Rightarrow> []
      | q # s \<Rightarrow> (case quoted_text s of (t, r) \<Rightarrow> (if t = [] then [] else [t]) @ ParseQuotedJsonStringArray r))"
  by auto

termination
proof (relation "measure length")
  fix json q s t r
  assume "dropWhile (\<lambda>c. c \<noteq> CHR 0x22) json = q # s" "(t, r) = quoted_text s"
  then have "length (q # s) \<le> length json" "length r \<le> length s"
    using length_dropWhile_le [of "\<lambda>c. c \<noteq> CHR 0x22" json] quoted_text_length [of s t r] by auto
  then show "(r, json) \<in> measure length" by simp
qed simp

declare ParseQuotedJsonStringArray.simps [simp del]

definition RenderQuotedJsonStrings :: "string list \<Rightarrow> string" where
  "RenderQuotedJsonStrings values =
     ''['' @ join_str '','' (map (\<lambda>v. [CHR 0x22] @ JsonEscape v @ [CHR 0x22]) values) @ '']''"

subsection \<open>Views and routines\<close>

datatype RoutineKind = kScalarFunction | kAggregateFunction | kTableValuedFunction | kProcedure

fun RoutineKindToString :: "RoutineKind \<Rightarrow> string" where
  "RoutineKindToString kScalarFunction = ''scalar_function''"
| "RoutineKindToString kAggregateFunction = ''aggregate_function''"
| "RoutineKindToString kTableValuedFunction = ''table_valued_function''"
| "RoutineKindToString kProcedure = ''procedure''"

definition RoutineKindFromString :: "string \<Rightarrow> RoutineKind StatusOr" where
  "RoutineKindFromString s =
     (let lower = AsciiStrToLower s
      in if lower = ''scalar_function'' then Inr kScalarFunction
         else if lower = ''aggregate_function'' then Inr kAggregateFunction
         else if lower = ''table_valued_function'' then Inr kTableValuedFunction
         else if lower = ''procedure'' then Inr kProcedure
         else Inl (Status kInvalidArgument (''unknown routine kind: '' @ s)))"

record ViewRecord =
  vr_dataset :: DatasetId
  vr_view_id :: string
  vr_ddl_sql :: string
  vr_view_query :: string
  vr_schema :: TableSchema

record RoutineRecord =
  rt_dataset :: DatasetId
  rt_routine_id :: string
  rt_kind :: RoutineKind
  rt_language :: string
  rt_ddl_sql :: string
  rt_is_temp :: bool
  rt_signature_json :: string

definition RenderViewRecordJson :: "ViewRecord \<Rightarrow> string" where
  "RenderViewRecordJson rec =
     ''{'' @ field_key ''view_id'' @ [CHR 0x22] @ JsonEscape (vr_view_id rec) @ [CHR 0x22, CHR '',''] @
     field_key ''ddl_sql'' @ [CHR 0x22] @ JsonEscape (vr_ddl_sql rec) @ [CHR 0x22, CHR ''}'']"

definition ParseViewRecordJson :: "string \<Rightarrow> DatasetId \<Rightarrow> ViewRecord StatusOr" where
  "ParseViewRecordJson json ds =
     (case ParseJsonStringField json ''view_id'' of
        Inl e \<Rightarrow> Inl e
      | Inr view_id \<Rightarrow>
     (case ParseJsonStringField json ''ddl_sql'' of
        Inl e \<Rightarrow> Inl e
      | Inr ddl \<Rightarrow>
          Inr \<lparr>vr_dataset = ds, vr_view_id = view_id, vr_ddl_sql = ddl, vr_view_query = [], vr_schema = \<lparr>columns = []\<rparr>\<rparr>))"

definition RenderRoutineRecordJson :: "RoutineRecord \<Rightarrow> string" where
  "RenderRoutineRecordJson rec =
     ''{'' @ field_key ''routine_id'' @ [CHR 0x22] @ JsonEscape (rt_routine_id rec) @ [CHR 0x22, CHR '',''] @
     field_key ''kind'' @ [CHR 0x22] @ RoutineKindToString (rt_kind rec) @ [CHR 0x22, CHR '',''] @
     field_key ''language'' @ [CHR 0x22] @ JsonEscape (rt_language rec) @ [CHR 0x22, CHR '',''] @
     field_key ''ddl_sql'' @ [CHR 0x22] @ JsonEscape (rt_ddl_sql rec) @ [CHR 0x22, CHR '',''] @
     field_key ''is_temp'' @ (if rt_is_temp rec then ''true'' else ''false'') @ '','' @
     field_key ''signature_json'' @
     (if rt_signature_json rec = [] then ''null''
      else [CHR 0x22] @ JsonEscape (rt_signature_json rec) @ [CHR 0x22]) @ ''}''"

definition ParseRoutineRecordJson :: "string \<Rightarrow> DatasetId \<Rightarrow> RoutineRecord StatusOr" where
  "ParseRoutineRecordJson json ds =
     (case ParseJsonStringField json ''routine_id'' of
        Inl e \<Rightarrow> Inl e
      | Inr routine_id \<Rightarrow>
     (case ParseJsonStringField json ''kind'' of
        Inl e \<Rightarrow> Inl e
      | Inr kind_text \<Rightarrow>
     (case ParseJsonStringField json ''language'' of
        Inl e \<Rightarrow> Inl e
      | Inr language \<Rightarrow>
     (case ParseJsonStringField json ''ddl_sql'' of
        Inl e \<Rightarrow> Inl e
      | Inr ddl \<Rightarrow>
     (case RoutineKindFromString kind_text of
        Inl e \<Rightarrow> Inl e
      | Inr k \<Rightarrow>
          Inr \<lparr>rt_dataset = ds, rt_routine_id = routine_id, rt_kind = k, rt_language = language, rt_ddl_sql = ddl,
               rt_is_temp = ParseJsonBoolField json ''is_temp'',
               rt_signature_json =
                 (if find_sub (field_key ''signature_json'' @ ''null'') json = None
                  then (case ParseJsonStringField json ''signature_json'' of Inl e \<Rightarrow> [] | Inr sig \<Rightarrow> sig)
                  else [])\<rparr>)))))"

subsection \<open>Arrays of objects\<close>

definition ExtractBalancedObject :: "string \<Rightarrow> string option" where
  "ExtractBalancedObject s = (if s = [] \<or> hd s \<noteq> CHR ''{'' then None else object_prefix 0 False s)"

definition is_array_gap :: "char \<Rightarrow> bool" where
  "is_array_gap c \<longleftrightarrow> c = CHR '' '' \<or> c = CHR '','' \<or> c = CHR 0x0A"

lemma object_prefix_not_Nil: "object_prefix d b s = Some p \<Longrightarrow> p \<noteq> []"
  by (induction d b s arbitrary: p rule: object_prefix.induct) (auto split: if_splits)

function split_objects :: "string \<Rightarrow> string list" where
  "split_objects s =
     (let t = dropWhile is_array_gap s
      in if t = [] \<or> hd t = CHR '']'' then []
         else case ExtractBalancedObject t of
                None \<Rightarrow> []
              | Some obj \<Rightarrow> obj # split_objects (drop (length obj) t))"
  by auto

termination
proof (relation "measure length")
  fix s t obj
  assume t: "t = dropWhile is_array_gap s" and ne: "\<not> (t = [] \<or> hd t = CHR '']'')"
    and obj: "ExtractBalancedObject t = Some obj"
  have "0 < length obj"
    using obj object_prefix_not_Nil by (auto simp: ExtractBalancedObject_def split: if_splits)
  moreover have "length t \<le> length s" unfolding t by (rule length_dropWhile_le)
  moreover have "0 < length t" using ne by simp
  ultimately show "(drop (length obj) t, s) \<in> measure length" by (simp del: length_greater_0_conv)
qed simp

declare split_objects.simps [simp del]

definition SplitTopLevelJsonObjects :: "string \<Rightarrow> string list" where
  "SplitTopLevelJsonObjects array_json =
     (case dropWhile (\<lambda>c. c \<noteq> CHR ''['') array_json of [] \<Rightarrow> [] | b # s \<Rightarrow> split_objects s)"

definition json_array :: "string list \<Rightarrow> string" where
  "json_array entries = ''['' @ join_str '','' entries @ '']''"

subsection \<open>Governance\<close>

record RowAccessPolicyRecord =
  rap_policy_id :: string
  rap_filter_predicate :: string
  rap_grantees :: "string list"
  rap_creation_time_ms :: int
  rap_last_modified_time_ms :: int

datatype DataMaskKind = kNoMask | kNullify | kSha256 | kDefaultValue | kDenied

record ColumnGovernanceRecord =
  cg_policy_tags :: "string list"
  cg_mask_kind :: DataMaskKind
  cg_mask_grantees :: "string list"
  cg_default_mask_value :: string

record TableGovernance =
  row_access_policies :: "RowAccessPolicyRecord list"
  governed_columns :: "(string \<times> ColumnGovernanceRecord) list"

fun mask_kind_name :: "DataMaskKind \<Rightarrow> string" where
  "mask_kind_name kNullify = ''NULLIFY''"
| "mask_kind_name kSha256 = ''SHA256''"
| "mask_kind_name kDefaultValue = ''DEFAULT_VALUE''"
| "mask_kind_name kDenied = ''DENIED''"
| "mask_kind_name kNoMask = ''NONE''"

definition MaskKindFromString :: "string \<Rightarrow> DataMaskKind" where
  "MaskKindFromString s =
     (let upper = AsciiStrToUpper s
      in if upper = ''NULLIFY'' then kNullify else if upper = ''SHA256'' then kSha256
         else if upper = ''DEFAULT_VALUE'' then kDefaultValue else if upper = ''DENIED'' then kDenied else kNoMask)"

definition json_text :: "string \<Rightarrow> string" where
  "json_text s = [CHR 0x22] @ JsonEscape s @ [CHR 0x22]"

definition render_policy :: "RowAccessPolicyRecord \<Rightarrow> string" where
  "render_policy p =
     ''{'' @ field_key ''policy_id'' @ json_text (rap_policy_id p) @ '','' @
     field_key ''filter_predicate'' @ json_text (rap_filter_predicate p) @ '','' @
     field_key ''grantees'' @ RenderQuotedJsonStrings (rap_grantees p) @ '','' @
     field_key ''creation_time_ms'' @ dec (rap_creation_time_ms p) @ '','' @
     field_key ''last_modified_time_ms'' @ dec (rap_last_modified_time_ms p) @ ''}''"

definition render_column :: "string \<times> ColumnGovernanceRecord \<Rightarrow> string" where
  "render_column entry =
     (case entry of (col, gov) \<Rightarrow>
       ''{'' @ field_key ''column'' @ json_text col @ '','' @
       field_key ''policy_tags'' @ RenderQuotedJsonStrings (cg_policy_tags gov) @ '','' @
       field_key ''mask_kind'' @ [CHR 0x22] @ mask_kind_name (cg_mask_kind gov) @ [CHR 0x22] @ '','' @
       field_key ''mask_grantees'' @ RenderQuotedJsonStrings (cg_mask_grantees gov) @ '','' @
       field_key ''default_mask_value'' @ json_text (cg_default_mask_value gov) @ ''}'')"

definition render_governance :: "string \<times> TableGovernance \<Rightarrow> string" where
  "render_governance entry =
     (case entry of (tbl, gov) \<Rightarrow>
       ''{'' @ field_key ''table_id'' @ json_text tbl @ '','' @
       field_key ''row_access_policies'' @ json_array (map render_policy (row_access_policies gov)) @ '','' @
       field_key ''columns'' @ json_array (map render_column (governed_columns gov)) @ ''}'')"

definition RenderGovernanceSnapshotJson :: "(string \<times> TableGovernance) list \<Rightarrow> string" where
  "RenderGovernanceSnapshotJson tables =
     json_array (map render_governance tables)"

definition find_char :: "char \<Rightarrow> string \<Rightarrow> nat option" where
  "find_char c s = find_sub [c] s"

definition JsonArraySlice :: "string \<Rightarrow> string \<Rightarrow> string option" where
  "JsonArraySlice entry key =
     (case find_sub key entry of
        None \<Rightarrow> None
      | Some key_pos \<Rightarrow>
     (case find_char (CHR ''['') (drop key_pos entry) of
        None \<Rightarrow> None
      | Some o1 \<Rightarrow>
     (case find_char (CHR '']'') (drop (key_pos + o1) entry) of
        None \<Rightarrow> None
      | Some c1 \<Rightarrow> Some (take (Suc c1) (drop (key_pos + o1) entry)))))"

text \<open>
  \<open>SimpleAtoi\<close> is applied to everything after the key; where it fails the result is
  unspecified, the parameter \<open>unspec\<close>.
\<close>

definition ParseGovernanceInt64Field :: "absl \<Rightarrow> (string \<Rightarrow> int) \<Rightarrow> string \<Rightarrow> string \<Rightarrow> int" where
  "ParseGovernanceInt64Field A unspec json needle =
     (case find_sub needle json of
        None \<Rightarrow> 0
      | Some pos \<Rightarrow>
          (let rest = drop (pos + length needle) json
           in case SimpleAtoi A rest of Some i \<Rightarrow> i | None \<Rightarrow> unspec rest))"

definition slice_strings :: "string option \<Rightarrow> string list" where
  "slice_strings arr = (case arr of None \<Rightarrow> [] | Some s \<Rightarrow> ParseQuotedJsonStringArray s)"

definition ParseRowAccessPolicy :: "absl \<Rightarrow> (string \<Rightarrow> int) \<Rightarrow> string \<Rightarrow> RowAccessPolicyRecord" where
  "ParseRowAccessPolicy A unspec policy_json =
     (case (ParseJsonStringField policy_json ''policy_id'', ParseJsonStringField policy_json ''filter_predicate'') of
        (Inr policy_id, Inr filter_predicate) \<Rightarrow>
          \<lparr>rap_policy_id = policy_id, rap_filter_predicate = filter_predicate,
           rap_grantees = slice_strings (JsonArraySlice policy_json (json_name ''grantees'')),
           rap_creation_time_ms = ParseGovernanceInt64Field A unspec policy_json (field_key ''creation_time_ms''),
           rap_last_modified_time_ms = ParseGovernanceInt64Field A unspec policy_json (field_key ''last_modified_time_ms'')\<rparr>
      | _ \<Rightarrow> \<lparr>rap_policy_id = [], rap_filter_predicate = [], rap_grantees = [], rap_creation_time_ms = 0,
              rap_last_modified_time_ms = 0\<rparr>)"

definition AppendRowAccessPolicies :: "absl \<Rightarrow> (string \<Rightarrow> int) \<Rightarrow> string \<Rightarrow> RowAccessPolicyRecord list" where
  "AppendRowAccessPolicies A unspec entry =
     (case JsonArraySlice entry (json_name ''row_access_policies'') of
        None \<Rightarrow> []
      | Some arr \<Rightarrow>
          filter (\<lambda>p. rap_policy_id p \<noteq> []) (map (ParseRowAccessPolicy A unspec) (SplitTopLevelJsonObjects arr)))"

definition ParseColumnEntry :: "string \<Rightarrow> (string \<times> ColumnGovernanceRecord) option" where
  "ParseColumnEntry col_json =
     (case ParseJsonStringField col_json ''column'' of
        Inl e \<Rightarrow> None
      | Inr column \<Rightarrow>
          Some (column,
            \<lparr>cg_policy_tags = slice_strings (JsonArraySlice col_json (json_name ''policy_tags'')),
             cg_mask_kind = (case ParseJsonStringField col_json ''mask_kind'' of
                               Inl e \<Rightarrow> kNoMask | Inr m \<Rightarrow> MaskKindFromString m),
             cg_mask_grantees = slice_strings (JsonArraySlice col_json (json_name ''mask_grantees'')),
             cg_default_mask_value = (case ParseJsonStringField col_json ''default_mask_value'' of
                               Inl e \<Rightarrow> [] | Inr d \<Rightarrow> d)\<rparr>))"

definition AppendColumnGovernance :: "string \<Rightarrow> (string \<times> ColumnGovernanceRecord) list" where
  "AppendColumnGovernance entry =
     (case JsonArraySlice entry (json_name ''columns'') of
        None \<Rightarrow> []
      | Some arr \<Rightarrow> List.map_filter ParseColumnEntry (SplitTopLevelJsonObjects arr))"

text \<open>One entry of the snapshot, as \<open>RestoreGovernanceFromSnapshotLocked\<close> reads it.\<close>

definition parse_governance_entry :: "absl \<Rightarrow> (string \<Rightarrow> int) \<Rightarrow> string \<Rightarrow> (string \<times> TableGovernance) StatusOr" where
  "parse_governance_entry A unspec entry =
     (case ParseJsonStringField entry ''table_id'' of
        Inl e \<Rightarrow> Inl e
      | Inr tbl \<Rightarrow>
          Inr (tbl, \<lparr>row_access_policies = AppendRowAccessPolicies A unspec entry,
                     governed_columns = AppendColumnGovernance entry\<rparr>))"

subsection \<open>Escaped texts\<close>

definition no_breaks :: "string \<Rightarrow> bool" where
  "no_breaks s \<longleftrightarrow> CHR 0x0A \<notin> set s \<and> CHR 0x0D \<notin> set s \<and> CHR 0x09 \<notin> set s"

definition plain_key :: "string \<Rightarrow> bool" where
  "plain_key k \<longleftrightarrow> k \<noteq> [] \<and> (\<forall>c \<in> set k. c \<noteq> CHR 0x22 \<and> c \<noteq> CHR 0x5C \<and> c \<noteq> CHR '':'' \<and> c \<noteq> CHR '','' \<and> c \<noteq> CHR ''}'')"

lemma JsonEscape_Nil [simp]: "JsonEscape [] = []"
  by (simp add: JsonEscape_def replace_chars_def)

text \<open>A character is copied or becomes a backslash and one more character.\<close>

lemma JsonEscape_cases:
  obtains (plain) "c \<noteq> CHR 0x22" "c \<noteq> CHR 0x5C" "\<And>s. JsonEscape (c # s) = c # JsonEscape s"
  | (special) d where "\<And>s. JsonEscape (c # s) = CHR 0x5C # d # JsonEscape s"
      "c \<noteq> CHR 0x0A \<and> c \<noteq> CHR 0x0D \<and> c \<noteq> CHR 0x09 \<longrightarrow> d = c"
proof (cases "map_of escape_table c")
  case None
  then show ?thesis
    by (intro plain) (auto simp: JsonEscape_def replace_chars_def escape_table_def split: if_splits)
next
  case (Some r)
  then have "\<exists>d. r = [CHR 0x5C, d] \<and> (c \<noteq> CHR 0x0A \<and> c \<noteq> CHR 0x0D \<and> c \<noteq> CHR 0x09 \<longrightarrow> d = c)"
    by (auto simp: escape_table_def split: if_splits)
  then obtain d where "r = [CHR 0x5C, d]" "c \<noteq> CHR 0x0A \<and> c \<noteq> CHR 0x0D \<and> c \<noteq> CHR 0x09 \<longrightarrow> d = c" by blast
  with Some show ?thesis by (intro special [of d]) (auto simp: JsonEscape_def replace_chars_def)
qed

lemma field_text_escaped: "no_breaks s \<Longrightarrow> field_text (JsonEscape s @ CHR 0x22 # r) = s"
proof (induction s)
  case Nil
  then show ?case by (cases r) simp_all
next
  case (Cons c s)
  have IH: "field_text (JsonEscape s @ CHR 0x22 # r) = s" using Cons by (simp add: no_breaks_def)
  obtain d ds where d: "JsonEscape s @ CHR 0x22 # r = d # ds" by (cases "JsonEscape s @ CHR 0x22 # r") auto
  show ?case
  proof (cases c rule: JsonEscape_cases)
    case plain
    then show ?thesis using IH d by simp
  next
    case (special e)
    then have "e = c" using Cons.prems by (auto simp: no_breaks_def)
    then show ?thesis using special(1) IH by simp
  qed
qed

lemma JsonEscape_json_chars: "json_chars (JsonEscape s)"
proof (induction s)
  case (Cons c s)
  show ?case
  proof (cases c rule: JsonEscape_cases)
    case plain
    with Cons show ?thesis by (cases "JsonEscape s") simp_all
  next
    case (special d)
    with Cons show ?thesis by simp
  qed
qed simp

lemma key_not_in_text:
  assumes "d \<noteq> CHR '':''" "\<forall>c \<in> set k. c \<noteq> CHR 0x22 \<and> c \<noteq> CHR 0x5C"
  shows "\<not> prefix (k @ CHR 0x22 # CHR '':'' # z) (JsonEscape s @ CHR 0x22 # d # r)"
  using assms(2)
proof (induction k arbitrary: s)
  case Nil
  show ?case
  proof (cases s)
    case (Cons c s')
    show ?thesis unfolding Cons by (cases c rule: JsonEscape_cases) auto
  qed (use assms(1) in simp)
next
  case (Cons e k)
  show ?case
  proof (cases s)
    case (Cons c s')
    show ?thesis unfolding Cons using Cons.IH [of s'] Cons.prems
      by (cases c rule: JsonEscape_cases) auto
  qed (use Cons.prems in simp)
qed

text \<open>The text after the first occurrence of \<open>p\<close>.\<close>

definition after :: "string \<Rightarrow> string \<Rightarrow> string option" where
  "after p s = map_option (\<lambda>i. drop (i + length p) s) (find_sub p s)"

lemma after_Cons: "\<not> prefix p (c # s) \<Longrightarrow> after p (c # s) = after p s"
  by (cases "find_sub p s") (auto simp: after_def)

lemma after_hit: "after p (p @ s) = Some s"
  by (simp add: after_def find_sub_prefix_hit)

lemma after_skip: "CHR 0x22 \<notin> set u \<Longrightarrow> after (CHR 0x22 # p) (u @ v) = after (CHR 0x22 # p) v"
  by (induction u) (auto simp: after_Cons)

lemma after_text:
  assumes "plain_key k" "d \<noteq> CHR '':''" "d \<notin> set k"
  shows "after (field_key k @ z) (JsonEscape s @ CHR 0x22 # d # r) = after (field_key k @ z) (d # r)"
proof (induction s)
  case Nil
  have "\<not> prefix (field_key k @ z) (CHR 0x22 # d # r)"
    using assms by (cases k) (auto simp: field_key_def plain_key_def)
  then show ?case by (simp add: after_Cons)
next
  case (Cons c s)
  have q: "field_key k @ z = CHR 0x22 # (k @ CHR 0x22 # CHR '':'' # z)" by (simp add: field_key_def)
  show ?case
  proof (cases c rule: JsonEscape_cases)
    case plain
    then show ?thesis using Cons by (simp add: after_Cons q)
  next
    case (special e)
    have "\<not> prefix (field_key k @ z) (e # JsonEscape s @ CHR 0x22 # d # r)"
      using key_not_in_text [of d k z s r] assms by (auto simp: q plain_key_def)
    then show ?thesis using Cons special(1) by (simp add: after_Cons q)
  qed
qed

lemma plain_keys_differ:
  assumes "plain_key k" "plain_key f" "k \<noteq> f"
  shows "\<not> prefix (field_key k @ z) (field_key f @ x)"
proof
  assume "prefix (field_key k @ z) (field_key f @ x)"
  then have p: "prefix (k @ CHR 0x22 # CHR '':'' # z) (f @ CHR 0x22 # CHR '':'' # x)" by (simp add: field_key_def)
  then obtain y where y: "f @ CHR 0x22 # CHR '':'' # x = k @ CHR 0x22 # CHR '':'' # z @ y" by (auto simp: prefix_def)
  have k: "takeWhile (\<lambda>c. c \<noteq> CHR 0x22) (k @ CHR 0x22 # u) = k" if "plain_key k" for k u
    using that by (intro takeWhile_append_stop) (auto simp: plain_key_def)
  have "f = k" using arg_cong [OF y, of "takeWhile (\<lambda>c. c \<noteq> CHR 0x22)"] k [OF assms(1)] k [OF assms(2)] by simp
  then show False using assms(3) by simp
qed

lemma after_key_miss:
  assumes "plain_key k" "plain_key f" "\<not> prefix (field_key k @ z) (field_key f @ x)"
  shows "after (field_key k @ z) (field_key f @ x) = after (field_key k @ z) x"
proof -
  have q: "field_key k @ z = CHR 0x22 # (k @ CHR 0x22 # CHR '':'' # z)" by (simp add: field_key_def)
  obtain c k' where k: "k = c # k'" "c \<noteq> CHR '':''" using assms(1) by (cases k) (auto simp: plain_key_def)
  have "\<not> prefix (field_key k @ z) (CHR 0x22 # f @ CHR 0x22 # CHR '':'' # x)"
    using assms(3) by (simp add: field_key_def [of f])
  then have "after (field_key k @ z) (field_key f @ x) = after (field_key k @ z) (f @ CHR 0x22 # CHR '':'' # x)"
    by (simp add: field_key_def [of f] after_Cons)
  also have "\<dots> = after (field_key k @ z) (CHR 0x22 # CHR '':'' # x)"
    unfolding q using assms(2) by (intro after_skip) (auto simp: plain_key_def)
  also have "\<dots> = after (field_key k @ z) (CHR '':'' # x)"
    by (rule after_Cons) (use k in \<open>simp add: field_key_def\<close>)
  also have "\<dots> = after (field_key k @ z) x" by (rule after_Cons) (simp add: q)
  finally show ?thesis .
qed

lemmas after_key = after_key_miss [OF _ _ plain_keys_differ]

text \<open>A whole field with a text is skipped when another key is looked for.\<close>

lemma after_field:
  assumes "plain_key k" "plain_key f" "k \<noteq> f" "d \<noteq> CHR '':''" "d \<notin> set k"
  shows "after (field_key k @ z) (field_key f @ CHR 0x22 # JsonEscape s @ CHR 0x22 # d # r) =
    after (field_key k @ z) (d # r)"
proof -
  have "\<not> prefix (field_key k @ z) (CHR 0x22 # JsonEscape s @ CHR 0x22 # d # r)"
    using key_not_in_text [of d k z s r] assms by (auto simp: field_key_def plain_key_def)
  then show ?thesis using after_key [OF assms(1,2) assms(1-3)] after_text [OF assms(1,4,5)] by (simp add: after_Cons)
qed

lemma ParseJsonStringField_after:
  "ParseJsonStringField json f =
     (case after (field_key f @ [CHR 0x22]) json of
        None \<Rightarrow> Inl (Status kInvalidArgument (''json missing string field '' @ f))
      | Some rest \<Rightarrow> Inr (field_text rest))"
  by (cases "find_sub (field_key f @ [CHR 0x22]) json") (simp_all add: ParseJsonStringField_def after_def Let_def)

lemma ParseJsonBoolField_after:
  "ParseJsonBoolField json f = (case after (field_key f) json of None \<Rightarrow> False | Some rest \<Rightarrow> prefix ''true'' rest)"
  by (cases "find_sub (field_key f) json") (simp_all add: ParseJsonBoolField_def after_def)

subsection \<open>Records read back\<close>

lemma registry_keys:
  "plain_key ''view_id''" "plain_key ''ddl_sql''" "plain_key ''routine_id''" "plain_key ''kind''"
  "plain_key ''language''" "plain_key ''is_temp''" "plain_key ''signature_json''"
  by (simp_all add: plain_key_def)

lemma comma_not_in_key: "plain_key k \<Longrightarrow> CHR '','' \<notin> set k" "plain_key k \<Longrightarrow> CHR ''}'' \<notin> set k"
  by (auto simp: plain_key_def)

lemma after_brace: "after (field_key k @ z) (CHR ''{'' # x) = after (field_key k @ z) x"
  "after (field_key k @ z) (CHR '','' # x) = after (field_key k @ z) x"
  by (rule after_Cons, simp add: field_key_def)+

text \<open>One field of an object, skipped or found.\<close>

definition text_field :: "string \<Rightarrow> string \<Rightarrow> string \<Rightarrow> string" where
  "text_field f s r = field_key f @ CHR 0x22 # JsonEscape s @ CHR 0x22 # CHR '','' # r"

lemma after_text_field:
  assumes "plain_key k" "plain_key f" "k \<noteq> f"
  shows "after (field_key k @ z) (text_field f s r) = after (field_key k @ z) r"
  unfolding text_field_def
  using after_field [OF assms, of "CHR '',''" z s r] comma_not_in_key [OF assms(1)] by (simp add: after_brace)

lemma after_text_field_hit:
  "after (field_key f @ [CHR 0x22]) (text_field f s r) = Some (JsonEscape s @ CHR 0x22 # CHR '','' # r)"
  using after_hit [of "field_key f @ [CHR 0x22]" "JsonEscape s @ CHR 0x22 # CHR '','' # r"] by (simp add: text_field_def)

lemma after_other_value:
  assumes "plain_key k" "plain_key f" "k \<noteq> f" "CHR 0x22 \<notin> set v"
  shows "after (field_key k @ z) (field_key f @ v @ r) = after (field_key k @ z) r"
proof -
  have "after (field_key k @ z) (v @ r) = after (field_key k @ z) r"
    using after_skip [OF assms(4), of "k @ CHR 0x22 # CHR '':'' # z" r] by (simp add: field_key_def)
  with after_key [OF assms(1,2) assms(1-3)] show ?thesis by simp
qed

lemma view_text:
  "RenderViewRecordJson rec =
     CHR ''{'' # text_field ''view_id'' (vr_view_id rec)
       (field_key ''ddl_sql'' @ [CHR 0x22] @ JsonEscape (vr_ddl_sql rec) @ [CHR 0x22, CHR ''}''])"
  by (simp add: RenderViewRecordJson_def text_field_def)

lemma view_reads_back:
  assumes "no_breaks (vr_view_id rec)" "no_breaks (vr_ddl_sql rec)"
  shows "ParseViewRecordJson (RenderViewRecordJson rec) (vr_dataset rec) =
    Inr (rec\<lparr>vr_view_query := [], vr_schema := \<lparr>columns = []\<rparr>\<rparr>)"
proof -
  have "after (field_key ''view_id'' @ [CHR 0x22]) (RenderViewRecordJson rec) =
      Some (JsonEscape (vr_view_id rec) @ CHR 0x22 # CHR '','' #
        field_key ''ddl_sql'' @ [CHR 0x22] @ JsonEscape (vr_ddl_sql rec) @ [CHR 0x22, CHR ''}''])"
    unfolding view_text after_brace by (rule after_text_field_hit)
  then have 1: "ParseJsonStringField (RenderViewRecordJson rec) ''view_id'' = Inr (vr_view_id rec)"
    unfolding ParseJsonStringField_after using field_text_escaped [OF assms(1)] by simp
  have "after (field_key ''ddl_sql'' @ [CHR 0x22]) (RenderViewRecordJson rec) =
      Some (JsonEscape (vr_ddl_sql rec) @ [CHR 0x22, CHR ''}''])"
    unfolding view_text after_brace
    using after_hit [of "field_key ''ddl_sql'' @ [CHR 0x22]" "JsonEscape (vr_ddl_sql rec) @ [CHR 0x22, CHR ''}'']"]
    by (simp add: after_text_field registry_keys)
  then have 2: "ParseJsonStringField (RenderViewRecordJson rec) ''ddl_sql'' = Inr (vr_ddl_sql rec)"
    unfolding ParseJsonStringField_after using field_text_escaped [OF assms(2), of "''}''"] by simp
  show ?thesis by (simp add: ParseViewRecordJson_def 1 2)
qed

lemma kind_escaped: "JsonEscape (RoutineKindToString k) = RoutineKindToString k"
  by (cases k) (simp_all add: JsonEscape_def replace_chars_def escape_table_def)

lemma kind_no_breaks: "no_breaks (RoutineKindToString k)"
  by (cases k) (simp_all add: no_breaks_def)

lemma kind_reads_back: "RoutineKindFromString (RoutineKindToString k) = Inr k"
  by (cases k) (hypsubst, code_simp)+

definition signature_text :: "string \<Rightarrow> string" where
  "signature_text sig = (if sig = [] then ''null'' else [CHR 0x22] @ JsonEscape sig @ [CHR 0x22])"

definition routine_tail :: "RoutineRecord \<Rightarrow> string" where
  "routine_tail rec =
     field_key ''is_temp'' @ (if rt_is_temp rec then ''true'' else ''false'') @ '','' @
     field_key ''signature_json'' @ signature_text (rt_signature_json rec) @ ''}''"

lemma routine_text:
  "RenderRoutineRecordJson rec =
     CHR ''{'' # text_field ''routine_id'' (rt_routine_id rec)
       (text_field ''kind'' (RoutineKindToString (rt_kind rec))
         (text_field ''language'' (rt_language rec) (text_field ''ddl_sql'' (rt_ddl_sql rec) (routine_tail rec))))"
  by (simp add: RenderRoutineRecordJson_def text_field_def routine_tail_def signature_text_def kind_escaped)

lemma routine_fields:
  assumes "no_breaks (rt_routine_id rec)" "no_breaks (rt_language rec)" "no_breaks (rt_ddl_sql rec)"
  shows "ParseJsonStringField (RenderRoutineRecordJson rec) ''routine_id'' = Inr (rt_routine_id rec)"
    "ParseJsonStringField (RenderRoutineRecordJson rec) ''kind'' = Inr (RoutineKindToString (rt_kind rec))"
    "ParseJsonStringField (RenderRoutineRecordJson rec) ''language'' = Inr (rt_language rec)"
    "ParseJsonStringField (RenderRoutineRecordJson rec) ''ddl_sql'' = Inr (rt_ddl_sql rec)"
  unfolding ParseJsonStringField_after routine_text after_brace
  by (simp_all add: after_text_field after_text_field_hit registry_keys field_text_escaped assms kind_no_breaks)

lemma routine_tail_after:
  assumes "plain_key k" "k \<notin> {''routine_id'', ''kind'', ''language'', ''ddl_sql''}"
  shows "after (field_key k @ z) (RenderRoutineRecordJson rec) = after (field_key k @ z) (routine_tail rec)"
  unfolding routine_text after_brace using assms by (simp add: after_text_field registry_keys)

lemma routine_is_temp: "ParseJsonBoolField (RenderRoutineRecordJson rec) ''is_temp'' = rt_is_temp rec"
proof -
  have "after (field_key ''is_temp'') (RenderRoutineRecordJson rec) = after (field_key ''is_temp'') (routine_tail rec)"
    using routine_tail_after [of "''is_temp''" "[]" rec] registry_keys by simp
  also have "\<dots> = Some ((if rt_is_temp rec then ''true'' else ''false'') @ '','' @
     field_key ''signature_json'' @ signature_text (rt_signature_json rec) @ ''}'')"
    unfolding routine_tail_def by (rule after_hit)
  finally show ?thesis by (simp add: ParseJsonBoolField_after)
qed

lemma routine_tail_signature:
  "after (field_key ''signature_json'' @ z) (routine_tail rec) =
     after (field_key ''signature_json'' @ z) (field_key ''signature_json'' @ signature_text (rt_signature_json rec) @ ''}'')"
  using after_other_value [OF registry_keys(7,6), of "(if rt_is_temp rec then ''true'' else ''false'') @ '',''" z]
  by (simp add: routine_tail_def)

lemma routine_null_signature:
  "find_sub (field_key ''signature_json'' @ ''null'') (RenderRoutineRecordJson rec) = None \<longleftrightarrow> rt_signature_json rec \<noteq> []"
proof -
  let ?p = "field_key ''signature_json'' @ ''null''" and ?sig = "rt_signature_json rec"
  have "after ?p (RenderRoutineRecordJson rec) = after ?p (field_key ''signature_json'' @ signature_text ?sig @ ''}'')"
    using routine_tail_after [OF registry_keys(7), of "''null''" rec] routine_tail_signature [of "''null''" rec] by simp
  moreover have "after ?p (field_key ''signature_json'' @ signature_text ?sig @ ''}'') = None" if "?sig \<noteq> []"
  proof -
    let ?text = "JsonEscape ?sig @ [CHR 0x22, CHR ''}'']"
    have "after ?p (field_key ''signature_json'' @ CHR 0x22 # ?text) = after ?p (CHR 0x22 # ?text)"
      by (intro after_key_miss registry_keys) simp
    also have "\<dots> = after ?p ?text"
      using key_not_in_text [of "CHR ''}''" "''signature_json''" "''null''" ?sig "[]"]
      by (intro after_Cons) (simp add: field_key_def)
    also have "\<dots> = after ?p ''}''"
      using registry_keys(7) comma_not_in_key(2) by (intro after_text) simp_all
    finally show ?thesis using that by (simp add: signature_text_def after_def field_key_def)
  qed
  moreover have "after ?p (field_key ''signature_json'' @ signature_text ?sig @ ''}'') = Some ''}''" if "?sig = []"
    using that after_hit [of ?p "''}''"] by (simp add: signature_text_def)
  ultimately show ?thesis by (auto simp: after_def)
qed

lemma routine_signature:
  assumes "no_breaks (rt_signature_json rec)" "rt_signature_json rec \<noteq> []"
  shows "ParseJsonStringField (RenderRoutineRecordJson rec) ''signature_json'' = Inr (rt_signature_json rec)"
proof -
  let ?p = "field_key ''signature_json'' @ [CHR 0x22]"
  have "after ?p (RenderRoutineRecordJson rec) =
      after ?p (field_key ''signature_json'' @ signature_text (rt_signature_json rec) @ ''}'')"
    using routine_tail_after [OF registry_keys(7), of "[CHR 0x22]" rec] routine_tail_signature [of "[CHR 0x22]" rec] by simp
  also have "\<dots> = Some (JsonEscape (rt_signature_json rec) @ [CHR 0x22, CHR ''}''])"
    using after_hit [of ?p "JsonEscape (rt_signature_json rec) @ [CHR 0x22, CHR ''}'']"] assms(2)
    by (simp add: signature_text_def)
  finally show ?thesis
    unfolding ParseJsonStringField_after using field_text_escaped [OF assms(1), of "''}''"] by simp
qed

definition plain_routine :: "RoutineRecord \<Rightarrow> bool" where
  "plain_routine rec \<longleftrightarrow> no_breaks (rt_routine_id rec) \<and> no_breaks (rt_language rec) \<and>
     no_breaks (rt_ddl_sql rec) \<and> no_breaks (rt_signature_json rec)"

lemma routine_reads_back:
  assumes "plain_routine rec"
  shows "ParseRoutineRecordJson (RenderRoutineRecordJson rec) (rt_dataset rec) = Inr rec"
proof -
  note fields = routine_fields [of rec] assms [unfolded plain_routine_def]
  have "(if find_sub (field_key ''signature_json'' @ ''null'') (RenderRoutineRecordJson rec) = None
      then (case ParseJsonStringField (RenderRoutineRecordJson rec) ''signature_json'' of Inl e \<Rightarrow> [] | Inr sig \<Rightarrow> sig)
      else []) = rt_signature_json rec"
    unfolding routine_null_signature using routine_signature [of rec] fields by simp
  then show ?thesis
    using fields by (simp add: ParseRoutineRecordJson_def kind_reads_back routine_is_temp)
qed

subsection \<open>Arrays split into their objects\<close>

lemma balanced_append: "balanced a \<Longrightarrow> balanced b \<Longrightarrow> balanced (a @ b)"
  by (induction rule: balanced.induct) (auto intro: balanced.intros)

lemma balanced_plain: "CHR 0x22 \<notin> set s \<Longrightarrow> CHR ''{'' \<notin> set s \<Longrightarrow> CHR ''}'' \<notin> set s \<Longrightarrow> balanced s"
  by (induction s) (auto intro: balanced.intros)

lemma balanced_text: "balanced r \<Longrightarrow> balanced (CHR 0x22 # JsonEscape s @ CHR 0x22 # r)"
  by (intro balanced.text_part JsonEscape_json_chars)

lemma balanced_key: "plain_key k \<Longrightarrow> balanced r \<Longrightarrow> balanced (field_key k @ r)"
proof -
  assume k: "plain_key k" and r: "balanced r"
  have "json_chars k" if "\<forall>c \<in> set k. c \<noteq> CHR 0x22 \<and> c \<noteq> CHR 0x5C" for k
    using that by (induction k rule: json_chars.induct) auto
  with k have "json_chars k" by (simp add: plain_key_def)
  moreover have "balanced (CHR '':'' # r)" using r by (intro balanced.plain) simp_all
  ultimately show ?thesis using balanced.text_part by (simp add: field_key_def)
qed

definition json_object :: "string \<Rightarrow> bool" where
  "json_object s \<longleftrightarrow> (\<exists>a. balanced a \<and> s = CHR ''{'' # a @ ''}'')"

lemma split_objects_hit:
  assumes "json_object obj"
  shows "split_objects (obj @ r) = obj # split_objects r"
proof -
  obtain a where a: "balanced a" "obj = CHR ''{'' # a @ ''}''" using assms by (auto simp: json_object_def)
  have "object_prefix 0 False (obj @ r) = Some obj" using object_prefix_object [OF a(1), of r] a(2) by simp
  then have "ExtractBalancedObject (obj @ r) = Some obj" using a(2) by (simp add: ExtractBalancedObject_def)
  moreover have "dropWhile is_array_gap (obj @ r) = obj @ r" using a(2) by (simp add: is_array_gap_def)
  moreover have "\<not> (obj @ r = [] \<or> hd (obj @ r) = CHR '']'')" using a(2) by simp
  ultimately show ?thesis by (subst split_objects.simps) (simp add: Let_def)
qed

lemma split_objects_gap: "is_array_gap c \<Longrightarrow> split_objects (c # s) = split_objects s"
  by (subst (1 2) split_objects.simps) simp

lemma split_objects_end: "split_objects '']'' = []"
  by (subst split_objects.simps) (simp add: is_array_gap_def)

lemma split_objects_join:
  "\<forall>obj \<in> set objs. json_object obj \<Longrightarrow> split_objects (join_str '','' objs @ '']'') = objs"
proof (induction objs rule: induct_list012)
  case (3 x y zs)
  then show ?case
    by (simp add: split_objects_hit split_objects_gap is_array_gap_def)
qed (simp_all add: split_objects_hit split_objects_end)

lemma split_json_array:
  "\<forall>obj \<in> set objs. json_object obj \<Longrightarrow> SplitTopLevelJsonObjects (json_array objs) = objs"
  by (simp add: SplitTopLevelJsonObjects_def json_array_def split_objects_join)

lemma view_object: "json_object (RenderViewRecordJson rec)"
proof -
  have "balanced (field_key ''view_id'' @ CHR 0x22 # JsonEscape (vr_view_id rec) @ CHR 0x22 # CHR '','' #
     field_key ''ddl_sql'' @ CHR 0x22 # JsonEscape (vr_ddl_sql rec) @ CHR 0x22 # [])"
    by (intro balanced_key balanced_text registry_keys balanced.plain balanced.empty) simp_all
  then show ?thesis unfolding json_object_def RenderViewRecordJson_def by (intro exI conjI) simp_all
qed

lemma signature_balanced: "balanced (signature_text sig)"
  using balanced_text [OF balanced.empty, of sig] by (auto simp: signature_text_def intro: balanced_plain)

lemma routine_object: "json_object (RenderRoutineRecordJson rec)"
proof -
  have tail: "balanced (field_key ''is_temp'' @ (if rt_is_temp rec then ''true'' else ''false'') @ CHR '','' #
     field_key ''signature_json'' @ signature_text (rt_signature_json rec))"
    by (intro balanced_key balanced_append balanced.plain registry_keys signature_balanced)
      (auto intro: balanced_plain)
  have "balanced (text_field ''routine_id'' (rt_routine_id rec)
       (text_field ''kind'' (RoutineKindToString (rt_kind rec))
         (text_field ''language'' (rt_language rec) (text_field ''ddl_sql'' (rt_ddl_sql rec)
           (field_key ''is_temp'' @ (if rt_is_temp rec then ''true'' else ''false'') @ CHR '','' #
            field_key ''signature_json'' @ signature_text (rt_signature_json rec))))))"
    unfolding text_field_def by (intro balanced_key balanced_text registry_keys balanced.plain tail) simp_all
  then show ?thesis
    unfolding json_object_def routine_text routine_tail_def text_field_def by (intro exI conjI) simp_all
qed

subsection \<open>Governance does not read back\<close>

text \<open>An object that is cut off is not closed by what is left of it.\<close>

lemma object_prefix_extends: "object_prefix d b s = Some p \<Longrightarrow> object_prefix d b (s @ r) = Some p"
  by (induction d b s arbitrary: p rule: object_prefix.induct) (fastforce split: if_splits)+

lemma object_prefix_length: "object_prefix d b s = Some p \<Longrightarrow> length p \<le> length s"
  by (induction d b s arbitrary: p rule: object_prefix.induct) (fastforce split: if_splits)+

lemma cut_object:
  assumes "json_object obj" "obj = s @ r" "r \<noteq> []"
  shows "object_prefix 0 False s = None"
proof (rule ccontr)
  assume "object_prefix 0 False s \<noteq> None"
  then obtain p where p: "object_prefix 0 False s = Some p" by blast
  obtain a where a: "balanced a" "obj = CHR ''{'' # a @ ''}''" using assms(1) by (auto simp: json_object_def)
  have "object_prefix 0 False obj = Some obj" using object_prefix_object [OF a(1), of "[]"] a(2) by simp
  moreover have "object_prefix 0 False obj = Some p" using object_prefix_extends [OF p, of r] assms(2) by simp
  ultimately have "length obj \<le> length s" using object_prefix_length [OF p] by simp
  then show False using assms(2,3) by simp
qed

lemma find_char_drop: "find_char c s = Some i \<Longrightarrow> drop i s = dropWhile (\<lambda>x. x \<noteq> c) s \<and> dropWhile (\<lambda>x. x \<noteq> c) s \<noteq> []"
  by (induction s arbitrary: i) (auto simp: find_char_def split: if_splits)

lemma find_char_None: "find_char c s = None \<longleftrightarrow> c \<notin> set s"
  by (induction s) (auto simp: find_char_def)

lemma find_char_take: "find_char c s = Some i \<Longrightarrow> take (Suc i) s = takeWhile (\<lambda>x. x \<noteq> c) s @ [c]"
  by (induction s arbitrary: i) (auto simp: find_char_def split: if_splits)

text \<open>The slice of an array from the text that follows its key.\<close>

lemma JsonArraySlice_after:
  assumes "after key entry = Some (u @ CHR ''['' # s)" "CHR ''['' \<notin> set u" "CHR ''['' \<notin> set key" "CHR '']'' \<in> set s"
  shows "JsonArraySlice entry key = Some (CHR ''['' # takeWhile (\<lambda>x. x \<noteq> CHR '']'') s @ '']'')"
proof -
  obtain i where i: "find_sub key entry = Some i" "drop (i + length key) entry = u @ CHR ''['' # s"
    using assms(1) by (auto simp: after_def)
  have len: "i \<le> length entry" and e: "entry = take i entry @ key @ u @ CHR ''['' # s"
    using find_sub_Some [OF i(1)] i(2) by simp_all
  have d: "drop i entry = key @ u @ CHR ''['' # s" by (subst e) (simp add: len)
  have "find_char (CHR ''['') (drop i entry) \<noteq> None" unfolding find_char_None d by simp
  then obtain o1 where o1: "find_char (CHR ''['') (drop i entry) = Some o1" by blast
  have "drop o1 (drop i entry) = CHR ''['' # s"
    using find_char_drop [OF o1] assms(2,3) unfolding d by (simp add: dropWhile_append3 dropWhile_append)
  then have d2: "drop (i + o1) entry = CHR ''['' # s" by (simp add: add.commute)
  have "find_char (CHR '']'') (CHR ''['' # s) \<noteq> None" unfolding find_char_None using assms(4) by simp
  then obtain c1 where c1: "find_char (CHR '']'') (CHR ''['' # s) = Some c1" by blast
  show ?thesis
    unfolding JsonArraySlice_def i(1) option.case o1 d2 c1 using find_char_take [OF c1] by simp
qed

lemma cut_array:
  assumes "json_object obj" "CHR '']'' \<in> set obj"
  shows "split_objects (takeWhile (\<lambda>x. x \<noteq> CHR '']'') (obj @ s) @ '']'') = []"
proof -
  obtain u r where u: "obj = u @ CHR '']'' # r" "CHR '']'' \<notin> set u" using split_list_first [OF assms(2)] by blast
  obtain a where a: "obj = CHR ''{'' # a @ ''}''" using assms(1) by (auto simp: json_object_def)
  have "last obj = CHR ''}''" using a by simp
  then have ne: "r \<noteq> []" unfolding u(1) by (cases r) simp_all
  obtain u' where u': "u = CHR ''{'' # u'" using u(1) a by (cases u) auto
  have "obj = (u @ '']'') @ r" using u(1) by simp
  from cut_object [OF assms(1) this ne] have "ExtractBalancedObject (u @ '']'') = None"
    by (simp add: ExtractBalancedObject_def)
  moreover have "dropWhile is_array_gap (u @ '']'') = u @ '']''" using u' by (simp add: is_array_gap_def)
  ultimately have "split_objects (u @ '']'') = []" using u' by (subst split_objects.simps) (simp add: Let_def)
  moreover have "takeWhile (\<lambda>x. x \<noteq> CHR '']'') (u @ CHR '']'' # r @ s) = u"
    using u(2) by (intro takeWhile_append_stop) auto
  ultimately show ?thesis unfolding u(1) by simp
qed

lemma cut_json_array:
  assumes "\<forall>obj \<in> set objs. json_object obj \<and> CHR '']'' \<in> set obj"
  shows "SplitTopLevelJsonObjects
    (CHR ''['' # takeWhile (\<lambda>x. x \<noteq> CHR '']'') (join_str '','' objs @ CHR '']'' # s) @ '']'') = []"
proof (cases objs)
  case Nil
  then show ?thesis by (simp add: SplitTopLevelJsonObjects_def split_objects_end)
next
  case (Cons obj objs')
  then obtain r where r: "join_str '','' objs @ CHR '']'' # s = obj @ r" by (cases objs') auto
  show ?thesis
    unfolding r using cut_array [of obj r] assms Cons by (simp add: SplitTopLevelJsonObjects_def)
qed

lemma balanced_json_text: "balanced r \<Longrightarrow> balanced (json_text s @ r)"
  using balanced_text [of r s] by (simp add: json_text_def)

lemma balanced_quoted_strings: "balanced r \<Longrightarrow> balanced (RenderQuotedJsonStrings vs @ r)"
proof -
  assume r: "balanced r"
  have j: "balanced (join_str '','' (map (\<lambda>v. [CHR 0x22] @ JsonEscape v @ [CHR 0x22]) vs))"
  proof (induction vs rule: induct_list012)
    case (3 x y zs)
    have "balanced (CHR 0x22 # JsonEscape x @ CHR 0x22 # CHR '','' #
        join_str '','' (map (\<lambda>v. [CHR 0x22] @ JsonEscape v @ [CHR 0x22]) (y # zs)))"
      by (intro balanced_text balanced.plain 3) simp_all
    then show ?case by simp
  next
    case (2 x)
    show ?case using balanced_text [OF balanced.empty, of x] by simp
  qed (simp add: balanced.empty)
  have "balanced (CHR ''['' # join_str '','' (map (\<lambda>v. [CHR 0x22] @ JsonEscape v @ [CHR 0x22]) vs) @ CHR '']'' # r)"
    by (intro balanced.plain balanced_append j r) simp_all
  then show ?thesis by (simp add: RenderQuotedJsonStrings_def)
qed

lemma governance_keys:
  "plain_key ''policy_id''" "plain_key ''filter_predicate''" "plain_key ''grantees''" "plain_key ''creation_time_ms''"
  "plain_key ''last_modified_time_ms''" "plain_key ''column''" "plain_key ''policy_tags''" "plain_key ''mask_kind''"
  "plain_key ''mask_grantees''" "plain_key ''default_mask_value''" "plain_key ''table_id''"
  by (simp_all add: plain_key_def)

lemma balanced_dec: "balanced (dec i)"
  by (rule balanced_plain) (auto simp: dec_no_char)

lemma policy_object: "json_object (render_policy p) \<and> CHR '']'' \<in> set (render_policy p)"
proof -
  have "balanced (field_key ''policy_id'' @ json_text (rap_policy_id p) @ CHR '','' #
     field_key ''filter_predicate'' @ json_text (rap_filter_predicate p) @ CHR '','' #
     field_key ''grantees'' @ RenderQuotedJsonStrings (rap_grantees p) @ CHR '','' #
     field_key ''creation_time_ms'' @ dec (rap_creation_time_ms p) @ CHR '','' #
     field_key ''last_modified_time_ms'' @ dec (rap_last_modified_time_ms p))"
    by (intro balanced_key balanced_json_text balanced_quoted_strings balanced.plain governance_keys)
      (simp_all, intro balanced_append balanced_dec balanced.plain balanced_key governance_keys, simp_all)
  then show ?thesis
    unfolding json_object_def render_policy_def by (auto simp: RenderQuotedJsonStrings_def)
qed

lemma mask_name_plain: "balanced (CHR 0x22 # mask_kind_name k @ CHR 0x22 # r)" if "balanced r"
  by (cases k) (simp_all, (rule balanced.text_part [of "''NULLIFY''", simplified] balanced.text_part [of "''SHA256''", simplified]
    balanced.text_part [of "''DEFAULT_VALUE''", simplified] balanced.text_part [of "''DENIED''", simplified]
    balanced.text_part [of "''NONE''", simplified], rule that)+)

lemma column_object: "json_object (render_column c) \<and> CHR '']'' \<in> set (render_column c)"
proof (cases c)
  case (Pair col gov)
  have "balanced (field_key ''column'' @ json_text col @ CHR '','' #
     field_key ''policy_tags'' @ RenderQuotedJsonStrings (cg_policy_tags gov) @ CHR '','' #
     field_key ''mask_kind'' @ CHR 0x22 # mask_kind_name (cg_mask_kind gov) @ CHR 0x22 # CHR '','' #
     field_key ''mask_grantees'' @ RenderQuotedJsonStrings (cg_mask_grantees gov) @ CHR '','' #
     field_key ''default_mask_value'' @ json_text (cg_default_mask_value gov) @ [])"
    by (intro balanced_key balanced_json_text balanced_quoted_strings mask_name_plain balanced.plain balanced.empty
        governance_keys) simp_all
  then show ?thesis
    unfolding json_object_def render_column_def Pair by (auto simp: RenderQuotedJsonStrings_def)
qed

text \<open>The keys of an entry, found behind a table id that is a plain name.\<close>

definition plain_name :: "string \<Rightarrow> bool" where
  "plain_name t \<longleftrightarrow> (\<forall>c \<in> set t. c \<noteq> CHR 0x22 \<and> c \<noteq> CHR 0x5C) \<and> no_breaks t"

lemma JsonEscape_plain: "plain_name t \<Longrightarrow> JsonEscape t = t"
proof (induction t)
  case (Cons c t)
  then have "JsonEscape t = t" by (simp add: plain_name_def no_breaks_def)
  moreover have "map_of escape_table c = None"
    using Cons.prems by (auto simp: plain_name_def no_breaks_def escape_table_def)
  ultimately show ?case by (simp add: JsonEscape_def replace_chars_def)
qed simp

lemma name_not_prefix:
  assumes "CHR 0x22 \<notin> set k" "CHR 0x22 \<notin> set t" "k \<noteq> t"
  shows "\<not> prefix (k @ [CHR 0x22]) (t @ CHR 0x22 # r)"
proof
  assume "prefix (k @ [CHR 0x22]) (t @ CHR 0x22 # r)"
  then obtain y where y: "t @ CHR 0x22 # r = k @ CHR 0x22 # y" by (auto simp: prefix_def)
  have "takeWhile (\<lambda>c. c \<noteq> CHR 0x22) (x @ CHR 0x22 # z) = x" if "CHR 0x22 \<notin> set x" for x z
    using that by (intro takeWhile_append_stop) auto
  then show False using arg_cong [OF y, of "takeWhile (\<lambda>c. c \<noteq> CHR 0x22)"] assms by simp
qed

lemma after_table_id:
  assumes "plain_name t" "k \<noteq> t" "CHR 0x22 \<notin> set k" "k \<noteq> []" "hd k \<notin> {CHR ''t'', CHR '':'', CHR '',''}"
  shows "after (json_name k) (''{'' @ field_key ''table_id'' @ json_text t @ '','' @ r) = after (json_name k) r"
proof -
  obtain c k' where k: "k = c # k'" "c \<noteq> CHR ''t''" "c \<noteq> CHR '':''" "c \<noteq> CHR '',''" using assms(4,5) by (cases k) auto
  have q: "CHR 0x22 \<notin> set t" using assms(1) by (auto simp: plain_name_def)
  have t: "\<not> prefix (json_name k) (CHR 0x22 # t @ CHR 0x22 # CHR '','' # r)"
    using name_not_prefix [OF assms(3) q assms(2)] by (simp add: json_name_def)
  have body: "''{'' @ field_key ''table_id'' @ json_text t @ '','' @ r =
      ''{'' @ CHR 0x22 # ''table_id'' @ CHR 0x22 # '':'' @ CHR 0x22 # t @ CHR 0x22 # '','' @ r"
    by (simp add: field_key_def json_text_def JsonEscape_plain [OF assms(1)])
  have skip: "after (json_name k) (u @ v) = after (json_name k) v" if "CHR 0x22 \<notin> set u" for u v
    using after_skip [OF that, of "k @ [CHR 0x22]" v] by (simp add: json_name_def)
  have quote: "after (json_name k) (CHR 0x22 # u @ v) = after (json_name k) v"
    if "CHR 0x22 \<notin> set u" "u \<noteq> []" "hd u \<noteq> c" for u v
    using that skip [OF that(1), of v] k(1) by (cases u) (auto simp: after_Cons json_name_def)
  have "after (json_name k) (''{'' @ CHR 0x22 # ''table_id'' @ CHR 0x22 # '':'' @ CHR 0x22 # t @ CHR 0x22 # '','' @ r) =
      after (json_name k) (CHR 0x22 # ''table_id'' @ CHR 0x22 # '':'' @ CHR 0x22 # t @ CHR 0x22 # '','' @ r)"
    by (rule skip) simp
  also have "\<dots> = after (json_name k) (CHR 0x22 # '':'' @ CHR 0x22 # t @ CHR 0x22 # '','' @ r)"
    by (rule quote) (use k in auto)
  also have "\<dots> = after (json_name k) (CHR 0x22 # t @ CHR 0x22 # '','' @ r)" by (rule quote) (use k in auto)
  also have "\<dots> = after (json_name k) (t @ CHR 0x22 # '','' @ r)" using t by (simp add: after_Cons)
  also have "\<dots> = after (json_name k) (CHR 0x22 # '','' @ r)" by (rule skip [OF q])
  also have "\<dots> = after (json_name k) r" by (rule quote) (use k in auto)
  finally show ?thesis unfolding body .
qed

lemma no_policies_back:
  assumes "plain_name t" "t \<noteq> ''row_access_policies''"
  shows "AppendRowAccessPolicies A unspec (render_governance (t, gov)) = []"
proof -
  let ?k = "''row_access_policies''" and ?ps = "map render_policy (row_access_policies gov)"
  define s where "s = join_str '','' ?ps @ CHR '']'' # '','' @ field_key ''columns'' @
    json_array (map render_column (governed_columns gov)) @ ''}''"
  have "after (json_name ?k) (render_governance (t, gov)) = after (json_name ?k) (json_name ?k @ CHR '':'' # CHR ''['' # s)"
    using after_table_id [OF assms(1), of ?k] assms(2)
    by (simp add: render_governance_def s_def json_array_def field_key_def json_name_def)
  also have "\<dots> = Some ('':'' @ CHR ''['' # s)" using after_hit [of "json_name ?k"] by simp
  finally have "JsonArraySlice (render_governance (t, gov)) (json_name ?k) =
      Some (CHR ''['' # takeWhile (\<lambda>x. x \<noteq> CHR '']'') s @ '']'')"
    by (rule JsonArraySlice_after) (simp_all add: json_name_def s_def)
  then show ?thesis
    unfolding AppendRowAccessPolicies_def s_def using cut_json_array [of ?ps] policy_object by simp
qed

lemma no_columns_back:
  assumes "plain_name t" "t \<noteq> ''columns''" "row_access_policies gov = []"
  shows "AppendColumnGovernance (render_governance (t, gov)) = []"
proof -
  let ?k = "''columns''" and ?cs = "map render_column (governed_columns gov)"
  define s where "s = join_str '','' ?cs @ CHR '']'' # ''}''"
  have "after (json_name ?k) (render_governance (t, gov)) =
      after (json_name ?k) (field_key ''row_access_policies'' @ ''[],'' @ json_name ?k @ CHR '':'' # CHR ''['' # s)"
    using after_table_id [OF assms(1), of ?k] assms(2,3)
    by (simp add: render_governance_def s_def json_array_def field_key_def json_name_def)
  also have "\<dots> = after (json_name ?k) (json_name ?k @ CHR '':'' # CHR ''['' # s)"
    by (simp add: field_key_def json_name_def after_Cons)
  also have "\<dots> = Some ('':'' @ CHR ''['' # s)" using after_hit [of "json_name ?k"] by simp
  finally have "JsonArraySlice (render_governance (t, gov)) (json_name ?k) =
      Some (CHR ''['' # takeWhile (\<lambda>x. x \<noteq> CHR '']'') s @ '']'')"
    by (rule JsonArraySlice_after) (simp_all add: json_name_def s_def)
  then show ?thesis
    unfolding AppendColumnGovernance_def s_def using cut_json_array [of ?cs] column_object
    by (simp add: List.map_filter_def)
qed

lemma table_id_reads:
  assumes "plain_name t"
  shows "ParseJsonStringField (render_governance (t, gov)) ''table_id'' = Inr t"
proof -
  have "\<exists>r. after (field_key ''table_id'' @ [CHR 0x22]) (render_governance (t, gov)) = Some (t @ CHR 0x22 # r)"
    using after_hit [of "field_key ''table_id'' @ [CHR 0x22]"]
    by (simp add: render_governance_def json_text_def JsonEscape_plain [OF assms] after_brace)
  moreover have "field_text (t @ CHR 0x22 # r) = t" for r
    using field_text_escaped [of t r] assms by (simp add: JsonEscape_plain plain_name_def)
  ultimately show ?thesis by (auto simp: ParseJsonStringField_after)
qed

text \<open>A line break in the statement of a view comes back as the letter \<open>n\<close>.\<close>

definition two_line_view :: ViewRecord where
  "two_line_view =
     \<lparr>vr_dataset = \<lparr>ds_project_id = ''p'', ds_dataset_id = ''d''\<rparr>, vr_view_id = ''v'',
      vr_ddl_sql = ''SELECT 1'' @ [CHR 0x0A] @ ''AS x'', vr_view_query = [], vr_schema = \<lparr>columns = []\<rparr>\<rparr>"

lemma multi_line_view_garbled:
  "ParseViewRecordJson (RenderViewRecordJson two_line_view) (vr_dataset two_line_view) =
     Inr (two_line_view\<lparr>vr_ddl_sql := ''SELECT 1nAS x''\<rparr>)"
  by code_simp

subsection \<open>Properties\<close>

text \<open>
  The governance written into a dataset's tombstone does not come back. For every table with a
  plain name (other than the two keys), whatever its governance: the entry that restoring reads
  has no row access policies, because the slice of their array ends at the first closing
  bracket, which belongs to the grantees of the first policy; and where there are no policies, it
  has no governed columns either.
\<close>

theorem governance_snapshot_lost:
  assumes "plain_name t" "t \<noteq> ''row_access_policies''" "t \<noteq> ''columns''"
  shows "\<exists>cols. parse_governance_entry A unspec (render_governance (t, gov)) =
      Inr (t, \<lparr>row_access_policies = [], governed_columns = cols\<rparr>) \<and>
    (row_access_policies gov = [] \<longrightarrow> cols = [])"
  using no_policies_back [OF assms(1,2)] no_columns_back [OF assms(1,3)] table_id_reads [OF assms(1)]
  by (auto simp: parse_governance_entry_def)

definition sample_policy :: RowAccessPolicyRecord where
  "sample_policy =
     \<lparr>rap_policy_id = ''eu_only'', rap_filter_predicate = ''region = 1'', rap_grantees = [''user:a''],
      rap_creation_time_ms = 3, rap_last_modified_time_ms = 4\<rparr>"

theorem governance_snapshot_lost_witness:
  "plain_name ''orders'' \<and>
   (\<exists>cols. parse_governance_entry absl_ref (\<lambda>s. 0)
      (render_governance (''orders'', \<lparr>row_access_policies = [sample_policy], governed_columns = []\<rparr>)) =
      Inr (''orders'', \<lparr>row_access_policies = [], governed_columns = cols\<rparr>))"
proof -
  have "plain_name ''orders''" by (simp add: plain_name_def no_breaks_def)
  then show ?thesis
    using governance_snapshot_lost [of "''orders''" absl_ref "\<lambda>s. 0"
        "\<lparr>row_access_policies = [sample_policy], governed_columns = []\<rparr>"] by auto
qed

end
