(* ===== verification/Duckdb_Registry.thy ===== *)
theory Duckdb_Registry
  imports Duckdb_Tombstone Registry_Json "HOL-Library.List_Lexorder" "HOL-Library.Char_ord"
begin

section \<open>Views, routines and governance\<close>

text \<open>
  The store keeps its views, routines and table governance in four tables of the DuckDB catalog:
  \<open>duckdb_storage_views.cc\<close>, \<open>duckdb_storage_routines.cc\<close>, \<open>duckdb_storage_governance.cc\<close>.
  Dropping a dataset writes them into its tombstone and restoring it puts them back:
  \<open>duckdb_storage_tombstone_registry.cc\<close>, \<open>_governance.cc\<close> and the dataset part of
  \<open>duckdb_storage_version_log_tombstone.cc\<close> and \<open>duckdb_storage_catalog.cc\<close>.

  The model builds every statement text as the code does. The effect of a statement is the
  parameter \<open>duck_raw\<close>, the answer to a query is \<open>duck_query\<close>; the columns read as text are
  declared NOT NULL, so \<open>varchar_text\<close> never meets a null pointer in them.
\<close>

subsection \<open>Statements\<close>

definition RunRaw :: "DuckEnv \<Rightarrow> string \<Rightarrow> World \<Rightarrow> unit StatusOr \<times> World" where
  "RunRaw E sql w = RunSql E (RawSql sql) w"

definition kViewsTable :: string where "kViewsTable = ''main.__bqemu_views''"

definition kRoutinesTable :: string where "kRoutinesTable = ''main.__bqemu_routines''"

definition kRowAccessPoliciesTable :: string where "kRowAccessPoliciesTable = ''main.__bqemu_row_access_policies''"

definition kColumnGovernanceTable :: string where "kColumnGovernanceTable = ''main.__bqemu_column_governance''"

definition table_in :: "DatasetId \<Rightarrow> string \<Rightarrow> TableId" where
  "table_in ds t = \<lparr>project_id = ds_project_id ds, dataset_id = ds_dataset_id ds, table_id = t\<rparr>"

definition DatasetDirOf :: "DuckEnv \<Rightarrow> DatasetId \<Rightarrow> string" where
  "DatasetDirOf E ds = DatasetDir E (table_in ds [])"

definition ds_dotted :: "DatasetId \<Rightarrow> string" where
  "ds_dotted ds = ds_project_id ds @ ''.'' @ ds_dataset_id ds"

definition EnsureViewsTable :: "DuckEnv \<Rightarrow> World \<Rightarrow> unit StatusOr \<times> World" where
  "EnsureViewsTable E w = RunRaw E
     (''CREATE TABLE IF NOT EXISTS '' @ kViewsTable @ '' ('' @
      ''project_id VARCHAR NOT NULL, dataset_id VARCHAR NOT NULL, view_id VARCHAR NOT NULL, ddl_sql VARCHAR NOT NULL, '' @
      ''PRIMARY KEY (project_id, dataset_id, view_id))'') w"

definition EnsureRoutinesTable :: "DuckEnv \<Rightarrow> World \<Rightarrow> unit StatusOr \<times> World" where
  "EnsureRoutinesTable E w = RunRaw E
     (''CREATE TABLE IF NOT EXISTS '' @ kRoutinesTable @ '' ('' @
      ''project_id VARCHAR NOT NULL, dataset_id VARCHAR NOT NULL, routine_id VARCHAR NOT NULL, kind VARCHAR NOT NULL, '' @
      ''language VARCHAR NOT NULL, ddl_sql VARCHAR NOT NULL, is_temp BOOLEAN NOT NULL DEFAULT FALSE, '' @
      ''signature_json VARCHAR, PRIMARY KEY (project_id, dataset_id, routine_id))'') w"

definition EnsureGovernanceTables :: "DuckEnv \<Rightarrow> World \<Rightarrow> unit StatusOr \<times> World" where
  "EnsureGovernanceTables E w =
     (case RunRaw E
        (''CREATE TABLE IF NOT EXISTS '' @ kRowAccessPoliciesTable @ '' ('' @
         ''project_id VARCHAR NOT NULL, dataset_id VARCHAR NOT NULL, table_id VARCHAR NOT NULL, '' @
         ''policy_id VARCHAR NOT NULL, filter_predicate VARCHAR NOT NULL, grantees_csv VARCHAR, '' @
         ''creation_time_ms BIGINT NOT NULL, last_modified_time_ms BIGINT NOT NULL, '' @
         ''PRIMARY KEY (project_id, dataset_id, table_id, policy_id))'') w of
        (Inl e, w1) \<Rightarrow> (Inl e, w1)
      | (Inr _, w1) \<Rightarrow>
          RunRaw E
            (''CREATE TABLE IF NOT EXISTS '' @ kColumnGovernanceTable @ '' ('' @
             ''project_id VARCHAR NOT NULL, dataset_id VARCHAR NOT NULL, table_id VARCHAR NOT NULL, '' @
             ''column_name VARCHAR NOT NULL, policy_tags_csv VARCHAR, mask_kind VARCHAR NOT NULL, '' @
             ''mask_grantees_csv VARCHAR, default_mask_value VARCHAR, '' @
             ''PRIMARY KEY (project_id, dataset_id, table_id, column_name))'') w1)"

definition InitCatalogTables :: "DuckEnv \<Rightarrow> World \<Rightarrow> unit StatusOr \<times> World" where
  "InitCatalogTables E w =
     (case EnsureRoutinesTable E w of
        (Inl e, w1) \<Rightarrow> (Inl e, w1)
      | (Inr _, w1) \<Rightarrow>
          (case EnsureViewsTable E w1 of
             (Inl e, w2) \<Rightarrow> (Inl e, w2)
           | (Inr _, w2) \<Rightarrow> EnsureGovernanceTables E w2))"

definition dataset_where :: "DatasetId \<Rightarrow> string" where
  "dataset_where ds =
     ''project_id = '' @ quoted (ds_project_id ds) @ '' AND dataset_id = '' @ quoted (ds_dataset_id ds)"

definition upsert_view_sql :: "ViewRecord \<Rightarrow> string" where
  "upsert_view_sql rec =
     ''INSERT INTO '' @ kViewsTable @ '' (project_id, dataset_id, view_id, ddl_sql) VALUES ('' @
     quoted (ds_project_id (vr_dataset rec)) @ '', '' @ quoted (ds_dataset_id (vr_dataset rec)) @ '', '' @
     quoted (vr_view_id rec) @ '', '' @ quoted (vr_ddl_sql rec) @
     '') ON CONFLICT (project_id, dataset_id, view_id) DO UPDATE SET ddl_sql = excluded.ddl_sql''"

definition upsert_routine_sql :: "RoutineRecord \<Rightarrow> string" where
  "upsert_routine_sql rec =
     ''INSERT INTO '' @ kRoutinesTable @
     '' (project_id, dataset_id, routine_id, kind, language, ddl_sql, is_temp, signature_json) VALUES ('' @
     quoted (ds_project_id (rt_dataset rec)) @ '', '' @ quoted (ds_dataset_id (rt_dataset rec)) @ '', '' @
     quoted (rt_routine_id rec) @ '', '' @
     [CHR 0x27] @ RoutineKindToString (rt_kind rec) @ [CHR 0x27] @ '', '' @
     quoted (rt_language rec) @ '', '' @ quoted (rt_ddl_sql rec) @ '', '' @
     (if rt_is_temp rec then ''TRUE'' else ''FALSE'') @ '', '' @
     (if rt_signature_json rec = [] then ''NULL'' else quoted (rt_signature_json rec)) @
     '') ON CONFLICT (project_id, dataset_id, routine_id) DO UPDATE SET '' @
     ''kind = excluded.kind, language = excluded.language, ddl_sql = excluded.ddl_sql, is_temp = excluded.is_temp, '' @
     ''signature_json = excluded.signature_json''"

subsection \<open>Routines\<close>

definition valid_routine_id :: "DatasetId \<Rightarrow> string \<Rightarrow> bool" where
  "valid_routine_id ds r \<longleftrightarrow> ds_project_id ds \<noteq> [] \<and> ds_dataset_id ds \<noteq> [] \<and> r \<noteq> []"

definition ValidateRoutineId :: "DatasetId \<Rightarrow> string \<Rightarrow> unit StatusOr" where
  "ValidateRoutineId ds r =
     (if valid_routine_id ds r then Inr ()
      else Inl (Status kInvalidArgument ''routine id requires non-empty project_id, dataset_id, routine_id''))"

definition ReadRoutineRow :: "DuckCell list \<Rightarrow> RoutineRecord StatusOr" where
  "ReadRoutineRow row =
     (case RoutineKindFromString (varchar_text (row ! 3)) of
        Inl e \<Rightarrow> Inl e
      | Inr k \<Rightarrow>
          Inr \<lparr>rt_dataset = \<lparr>ds_project_id = varchar_text (row ! 0), ds_dataset_id = varchar_text (row ! 1)\<rparr>,
               rt_routine_id = varchar_text (row ! 2), rt_kind = k, rt_language = varchar_text (row ! 4),
               rt_ddl_sql = varchar_text (row ! 5), rt_is_temp = value_boolean (row ! 6),
               rt_signature_json = (if value_is_null (row ! 7) then [] else varchar_text (row ! 7))\<rparr>)"

fun read_rows :: "(DuckCell list \<Rightarrow> 'a StatusOr) \<Rightarrow> DuckCell list list \<Rightarrow> 'a list StatusOr" where
  "read_rows f [] = Inr []"
| "read_rows f (row # rows) =
     (case f row of
        Inl e \<Rightarrow> Inl e
      | Inr x \<Rightarrow> (case read_rows f rows of Inl e \<Rightarrow> Inl e | Inr xs \<Rightarrow> Inr (x # xs)))"

definition select_rows :: "DuckEnv \<Rightarrow> string \<Rightarrow> string \<Rightarrow> (DuckCell list \<Rightarrow> 'a StatusOr) \<Rightarrow> World \<Rightarrow> 'a list StatusOr" where
  "select_rows E what sql f w =
     (case duck_query E w sql of
        Inl detail \<Rightarrow> Inl (DuckDBError kInternal what detail)
      | Inr result \<Rightarrow> read_rows f (result_rows result))"

definition where_clause_text :: "string \<Rightarrow> string" where
  "where_clause_text where_clause = (if where_clause = [] then [] else '' WHERE '' @ where_clause)"

definition QueryRoutines :: "DuckEnv \<Rightarrow> World \<Rightarrow> string \<Rightarrow> RoutineRecord list StatusOr" where
  "QueryRoutines E w where_clause =
     select_rows E ''ListRoutines query failed''
       (''SELECT project_id, dataset_id, routine_id, kind, language, ddl_sql, is_temp, signature_json FROM '' @
        kRoutinesTable @ where_clause_text where_clause @ '' ORDER BY project_id, dataset_id, routine_id'')
       ReadRoutineRow w"

definition UpsertRoutine :: "DuckEnv \<Rightarrow> World \<Rightarrow> RoutineRecord \<Rightarrow> unit StatusOr \<times> World" where
  "UpsertRoutine E w rec =
     (case ValidateRoutineId (rt_dataset rec) (rt_routine_id rec) of
        Inl e \<Rightarrow> (Inl e, w)
      | Inr _ \<Rightarrow>
          if rt_ddl_sql rec = [] then (Inl (Status kInvalidArgument ''UpsertRoutine: ddl_sql is required''), w)
          else case EnsureRoutinesTable E w of
                 (Inl e, w1) \<Rightarrow> (Inl e, w1)
               | (Inr _, w1) \<Rightarrow> RunRaw E (upsert_routine_sql rec) w1)"

definition DeleteRoutine :: "DuckEnv \<Rightarrow> World \<Rightarrow> DatasetId \<Rightarrow> string \<Rightarrow> unit StatusOr \<times> World" where
  "DeleteRoutine E w ds r =
     (case ValidateRoutineId ds r of
        Inl e \<Rightarrow> (Inl e, w)
      | Inr _ \<Rightarrow>
          RunRaw E (''DELETE FROM '' @ kRoutinesTable @ '' WHERE '' @ dataset_where ds @
                    '' AND routine_id = '' @ quoted r) w)"

definition GetRoutine :: "DuckEnv \<Rightarrow> World \<Rightarrow> DatasetId \<Rightarrow> string \<Rightarrow> RoutineRecord StatusOr" where
  "GetRoutine E w ds r =
     (case ValidateRoutineId ds r of
        Inl e \<Rightarrow> Inl e
      | Inr _ \<Rightarrow>
          (case QueryRoutines E w (dataset_where ds @ '' AND routine_id = '' @ quoted r) of
             Inl e \<Rightarrow> Inl e
           | Inr [] \<Rightarrow> Inl (Status kNotFound (''routine not found: '' @ ds_dotted ds @ ''.'' @ r))
           | Inr (rec # _) \<Rightarrow> Inr rec))"

definition ListRoutines :: "DuckEnv \<Rightarrow> World \<Rightarrow> DatasetId \<Rightarrow> RoutineRecord list StatusOr" where
  "ListRoutines E w ds =
     (if ds_project_id ds = [] \<or> ds_dataset_id ds = []
      then Inl (Status kInvalidArgument ''ListRoutines: project_id and dataset_id must be non-empty'')
      else QueryRoutines E w (dataset_where ds))"

definition ListAllRoutines :: "DuckEnv \<Rightarrow> World \<Rightarrow> RoutineRecord list StatusOr" where
  "ListAllRoutines E w = QueryRoutines E w []"

subsection \<open>Views\<close>

definition ValidateViewId :: "ViewRecord \<Rightarrow> unit StatusOr" where
  "ValidateViewId rec =
     (if valid_routine_id (vr_dataset rec) (vr_view_id rec) then Inr ()
      else Inl (Status kInvalidArgument ''view id requires non-empty project_id, dataset_id, view_id''))"

definition empty_schema :: TableSchema where
  "empty_schema = \<lparr>columns = []\<rparr>"

definition ReadViewRow :: "DuckCell list \<Rightarrow> ViewRecord StatusOr" where
  "ReadViewRow row =
     Inr \<lparr>vr_dataset = \<lparr>ds_project_id = varchar_text (row ! 0), ds_dataset_id = varchar_text (row ! 1)\<rparr>,
          vr_view_id = varchar_text (row ! 2), vr_ddl_sql = varchar_text (row ! 3),
          vr_view_query = [], vr_schema = empty_schema\<rparr>"

definition QueryViews :: "DuckEnv \<Rightarrow> World \<Rightarrow> string \<Rightarrow> ViewRecord list StatusOr" where
  "QueryViews E w where_clause =
     select_rows E ''ListViews query failed''
       (''SELECT project_id, dataset_id, view_id, ddl_sql FROM '' @ kViewsTable @ where_clause_text where_clause @
        '' ORDER BY project_id, dataset_id, view_id'') ReadViewRow w"

definition view_table :: "ViewRecord \<Rightarrow> TableId" where
  "view_table rec = table_in (vr_dataset rec) (vr_view_id rec)"

definition sidecar_query :: "ViewRecord \<Rightarrow> string" where
  "sidecar_query rec = (if vr_view_query rec = [] then vr_ddl_sql rec else vr_view_query rec)"

definition WriteViewSidecar :: "DuckEnv \<Rightarrow> ViewRecord \<Rightarrow> World \<Rightarrow> unit StatusOr \<times> World" where
  "WriteViewSidecar E rec w =
     (let tid = view_table rec
      in if \<not> fs_exists w (DatasetDir E tid) then (Inl (dataset_not_found tid), w)
         else case RenderViewTableMetaJson E (vr_schema rec) (sidecar_query rec) (vr_ddl_sql rec) of
                Inl e \<Rightarrow> (Inl e, w)
              | Inr meta_json \<Rightarrow> WriteFileAtomic E (TableMetaPath E tid) meta_json w)"

text \<open>\<open>fs::remove\<close> reports a failure through its result; the system may refuse it.\<close>

definition RemoveViewSidecar :: "DuckEnv \<Rightarrow> TableId \<Rightarrow> World \<Rightarrow> unit StatusOr \<times> World" where
  "RemoveViewSidecar E tid w =
     (let meta_path = TableMetaPath E tid
      in if \<not> fs_exists w meta_path then (Inr (), w)
         else case io_fault E w (IoRemove meta_path) of
                Some ec \<Rightarrow> (Inl (FilesystemStatus (''failed to remove view sidecar: '' @ meta_path) ec), w)
              | None \<Rightarrow> (Inr (), fs_remove meta_path w))"

definition ViewRecordFromSidecar :: "DuckEnv \<Rightarrow> World \<Rightarrow> TableId \<Rightarrow> ViewRecord StatusOr" where
  "ViewRecordFromSidecar E w tid =
     (case ReadFile E w (TableMetaPath E tid) of
        Inl e \<Rightarrow> Inl e
      | Inr contents \<Rightarrow>
          (let info = ParseTableResourceInfo contents
           in if \<not> EqualsIgnoreCase (ri_table_type info) ''VIEW''
              then Inl (Status kNotFound (''table is not a logical view: '' @ table_dotted tid))
              else Inr \<lparr>vr_dataset = \<lparr>ds_project_id = project_id tid, ds_dataset_id = dataset_id tid\<rparr>,
                        vr_view_id = table_id tid, vr_ddl_sql = ri_ddl_sql info, vr_view_query = ri_view_query info,
                        vr_schema = (case ParseTableMetaJson E contents of Inl e \<Rightarrow> empty_schema | Inr sch \<Rightarrow> sch)\<rparr>))"

definition ViewRecordKey :: "TableId \<Rightarrow> string" where
  "ViewRecordKey tid = project_id tid @ [CHR 0x1F] @ dataset_id tid @ [CHR 0x1F] @ table_id tid"

definition merge_sidecar :: "DuckEnv \<Rightarrow> World \<Rightarrow> ViewRecord \<Rightarrow> ViewRecord" where
  "merge_sidecar E w rec =
     (case ViewRecordFromSidecar E w (view_table rec) of
        Inl e \<Rightarrow> rec
      | Inr sidecar \<Rightarrow>
          rec\<lparr>vr_view_query := (if vr_view_query rec = [] then vr_view_query sidecar else vr_view_query rec),
              vr_schema := (if columns (vr_schema rec) = [] then vr_schema sidecar else vr_schema rec)\<rparr>)"

definition MergeViewSidecars :: "DuckEnv \<Rightarrow> World \<Rightarrow> ViewRecord list \<Rightarrow> ViewRecord list \<times> string list" where
  "MergeViewSidecars E w views = (map (merge_sidecar E w) views, map (ViewRecordKey \<circ> view_table) views)"

definition kTableMetaSuffix :: string where "kTableMetaSuffix = ''.meta.json''"

definition kDatasetMetaFile :: string where "kDatasetMetaFile = ''_dataset.meta.json''"

definition has_meta_suffix :: "string \<Rightarrow> bool" where
  "has_meta_suffix name \<longleftrightarrow> length kTableMetaSuffix < length name \<and> suffix kTableMetaSuffix name"

definition strip_meta_suffix :: "string \<Rightarrow> string" where
  "strip_meta_suffix name = take (length name - length kTableMetaSuffix) name"

definition dir_entries :: "Listing \<Rightarrow> World \<Rightarrow> string \<Rightarrow> string list" where
  "dir_entries ls w d = (case ls w d of Inl ec \<Rightarrow> [] | Inr entries \<Rightarrow> entries)"

text \<open>The loops carry the set of keys already seen and the views found so far.\<close>

definition CollectOrphanViewsInDataset ::
  "DuckEnv \<Rightarrow> Listing \<Rightarrow> World \<Rightarrow> DatasetId \<Rightarrow> string list \<times> ViewRecord list \<Rightarrow> string list \<times> ViewRecord list" where
  "CollectOrphanViewsInDataset E ls w ds acc =
     foldl (\<lambda>(seen, out) name.
       if \<not> has_meta_suffix name then (seen, out)
       else let tid = table_in ds (strip_meta_suffix name); key = ViewRecordKey tid
            in if key \<in> set seen then (seen, out)
               else case ViewRecordFromSidecar E w tid of
                      Inl e \<Rightarrow> (key # seen, out)
                    | Inr rec \<Rightarrow> (key # seen, out @ [rec]))
       acc (dir_entries ls w (DatasetDirOf E ds))"

definition sub_dirs :: "Listing \<Rightarrow> World \<Rightarrow> string \<Rightarrow> string list" where
  "sub_dirs ls w d = filter (\<lambda>n. path_join d n \<in> dirs w) (dir_entries ls w d)"

definition CollectOrphanViewsFromFilesystem ::
  "DuckEnv \<Rightarrow> Listing \<Rightarrow> World \<Rightarrow> string list \<times> ViewRecord list \<Rightarrow> string list \<times> ViewRecord list" where
  "CollectOrphanViewsFromFilesystem E ls w acc =
     (if \<not> fs_exists w (data_dir E) then acc
      else foldl (\<lambda>acc project.
             foldl (\<lambda>acc dataset. CollectOrphanViewsInDataset E ls w \<lparr>ds_project_id = project, ds_dataset_id = dataset\<rparr> acc)
               acc (sub_dirs ls w (path_join (data_dir E) project)))
             acc (sub_dirs ls w (data_dir E)))"

definition view_order :: "ViewRecord \<Rightarrow> string \<times> string \<times> string" where
  "view_order rec = (ds_project_id (vr_dataset rec), ds_dataset_id (vr_dataset rec), vr_view_id rec)"

definition view_le :: "ViewRecord \<Rightarrow> ViewRecord \<Rightarrow> bool" where
  "view_le a b \<longleftrightarrow>
     (case (view_order a, view_order b) of ((p1, d1, v1), (p2, d2, v2)) \<Rightarrow>
        if p1 \<noteq> p2 then p1 < p2 else if d1 \<noteq> d2 then d1 < d2 else v1 \<le> v2)"

fun insert_view :: "ViewRecord \<Rightarrow> ViewRecord list \<Rightarrow> ViewRecord list" where
  "insert_view v [] = [v]"
| "insert_view v (u # us) = (if view_le v u then v # u # us else u # insert_view v us)"

definition ListAllViews :: "DuckEnv \<Rightarrow> Listing \<Rightarrow> World \<Rightarrow> ViewRecord list StatusOr" where
  "ListAllViews E ls w =
     (case QueryViews E w [] of
        Inl e \<Rightarrow> Inl e
      | Inr from_db \<Rightarrow>
          (let (out, seen) = MergeViewSidecars E w from_db
           in Inr (foldr insert_view (snd (CollectOrphanViewsFromFilesystem E ls w (seen, out))) [])))"

definition UpsertView :: "DuckEnv \<Rightarrow> World \<Rightarrow> ViewRecord \<Rightarrow> unit StatusOr \<times> World" where
  "UpsertView E w rec =
     (case ValidateViewId rec of
        Inl e \<Rightarrow> (Inl e, w)
      | Inr _ \<Rightarrow>
          if vr_ddl_sql rec = [] then (Inl (Status kInvalidArgument ''UpsertView: ddl_sql is required''), w)
          else case WriteViewSidecar E rec w of
                 (Inl e, w1) \<Rightarrow> (Inl e, w1)
               | (Inr _, w1) \<Rightarrow>
                   (case EnsureViewsTable E w1 of
                      (Inl e, w2) \<Rightarrow> (Inl e, w2)
                    | (Inr _, w2) \<Rightarrow> RunRaw E (upsert_view_sql rec) w2))"

definition DeleteView :: "DuckEnv \<Rightarrow> World \<Rightarrow> DatasetId \<Rightarrow> string \<Rightarrow> unit StatusOr \<times> World" where
  "DeleteView E w ds view =
     (if \<not> valid_routine_id ds view
      then (Inl (Status kInvalidArgument ''view id requires non-empty project_id, dataset_id, view_id''), w)
      else case RemoveViewSidecar E (table_in ds view) w of
             (Inl e, w1) \<Rightarrow> (Inl e, w1)
           | (Inr _, w1) \<Rightarrow>
               (case EnsureViewsTable E w1 of
                  (Inl e, w2) \<Rightarrow> (Inl e, w2)
                | (Inr _, w2) \<Rightarrow>
                    RunRaw E (''DELETE FROM '' @ kViewsTable @ '' WHERE '' @ dataset_where ds @
                              '' AND view_id = '' @ quoted view) w2))"

definition GetTableResourceInfo :: "DuckEnv \<Rightarrow> World \<Rightarrow> TableId \<Rightarrow> TableResourceInfo StatusOr" where
  "GetTableResourceInfo E w tid =
     (case ReadFile E w (TableMetaPath E tid) of
        Inl e \<Rightarrow> Inl e
      | Inr contents \<Rightarrow> Inr (ParseTableResourceInfo contents))"

subsection \<open>Governance\<close>

definition SqlQuote :: "string \<Rightarrow> string" where
  "SqlQuote s = double_char (CHR 0x27) s"

definition sql_text :: "string \<Rightarrow> string" where
  "sql_text s = [CHR 0x27] @ SqlQuote s @ [CHR 0x27]"

definition SplitCsv :: "absl \<Rightarrow> string \<Rightarrow> string list" where
  "SplitCsv A csv = (if csv = [] then [] else StrSplit A csv (CHR '',''))"

definition JoinCsv :: "string list \<Rightarrow> string" where
  "JoinCsv values = join_str '','' values"

definition EnsureTableExistsUnlocked :: "DuckEnv \<Rightarrow> World \<Rightarrow> TableId \<Rightarrow> unit StatusOr" where
  "EnsureTableExistsUnlocked E w tid =
     (if fs_exists w (TableMetaPath E tid) then Inr () else Inl (table_not_found tid))"

definition governance_where :: "TableId \<Rightarrow> string" where
  "governance_where tid =
     ''project_id='' @ sql_text (project_id tid) @ '' AND dataset_id='' @ sql_text (dataset_id tid) @
     '' AND table_id='' @ sql_text (table_id tid)"

definition optional_csv :: "absl \<Rightarrow> DuckCell \<Rightarrow> string list" where
  "optional_csv A c = (if value_is_null c then [] else SplitCsv A (varchar_text c))"

definition read_policy_row :: "absl \<Rightarrow> DuckCell list \<Rightarrow> RowAccessPolicyRecord StatusOr" where
  "read_policy_row A row =
     Inr \<lparr>rap_policy_id = varchar_text (row ! 0), rap_filter_predicate = varchar_text (row ! 1),
          rap_grantees = optional_csv A (row ! 2), rap_creation_time_ms = value_int64 (row ! 3),
          rap_last_modified_time_ms = value_int64 (row ! 4)\<rparr>"

definition read_column_row :: "absl \<Rightarrow> DuckCell list \<Rightarrow> (string \<times> ColumnGovernanceRecord) StatusOr" where
  "read_column_row A row =
     Inr (varchar_text (row ! 0),
       \<lparr>cg_policy_tags = optional_csv A (row ! 1), cg_mask_kind = MaskKindFromString (varchar_text (row ! 2)),
        cg_mask_grantees = optional_csv A (row ! 3),
        cg_default_mask_value = (if value_is_null (row ! 4) then [] else varchar_text (row ! 4))\<rparr>)"

definition LoadTableGovernance :: "DuckEnv \<Rightarrow> World \<Rightarrow> TableId \<Rightarrow> TableGovernance StatusOr" where
  "LoadTableGovernance E w tid =
     (case select_rows E ''LoadTableGovernance row policies failed''
        (''SELECT policy_id, filter_predicate, grantees_csv, creation_time_ms, last_modified_time_ms FROM '' @
         kRowAccessPoliciesTable @ '' WHERE '' @ governance_where tid @ '' ORDER BY policy_id'')
        (read_policy_row (absl_fns E)) w of
        Inl e \<Rightarrow> Inl e
      | Inr policies \<Rightarrow>
     (case select_rows E ''LoadTableGovernance columns failed''
        (''SELECT column_name, policy_tags_csv, mask_kind, mask_grantees_csv, default_mask_value FROM '' @
         kColumnGovernanceTable @ '' WHERE '' @ governance_where tid @ '' ORDER BY column_name'')
        (read_column_row (absl_fns E)) w of
        Inl e \<Rightarrow> Inl e
      | Inr cols \<Rightarrow> Inr \<lparr>row_access_policies = policies, governed_columns = cols\<rparr>))"

definition insert_policy_sql :: "TableId \<Rightarrow> RowAccessPolicyRecord \<Rightarrow> string" where
  "insert_policy_sql tid p =
     ''INSERT INTO '' @ kRowAccessPoliciesTable @ '' VALUES ('' @
     sql_text (project_id tid) @ '', '' @ sql_text (dataset_id tid) @ '', '' @ sql_text (table_id tid) @ '', '' @
     sql_text (rap_policy_id p) @ '', '' @ sql_text (rap_filter_predicate p) @ '', '' @
     sql_text (JoinCsv (rap_grantees p)) @ '', '' @ dec (rap_creation_time_ms p) @ '', '' @
     dec (rap_last_modified_time_ms p) @ '')''"

fun run_all :: "DuckEnv \<Rightarrow> string list \<Rightarrow> World \<Rightarrow> unit StatusOr \<times> World" where
  "run_all E [] w = (Inr (), w)"
| "run_all E (sql # sqls) w =
     (case RunRaw E sql w of
        (Inl e, w1) \<Rightarrow> (Inl e, w1)
      | (Inr _, w1) \<Rightarrow> run_all E sqls w1)"

definition SaveRowAccessPolicies :: "DuckEnv \<Rightarrow> TableId \<Rightarrow> TableGovernance \<Rightarrow> World \<Rightarrow> unit StatusOr \<times> World" where
  "SaveRowAccessPolicies E tid gov w =
     (case RunRaw E (''DELETE FROM '' @ kRowAccessPoliciesTable @ '' WHERE '' @ governance_where tid) w of
        (Inl e, w1) \<Rightarrow> (Inl e, w1)
      | (Inr _, w1) \<Rightarrow> run_all E (map (insert_policy_sql tid) (row_access_policies gov)) w1)"

definition save_column_sql :: "TableId \<Rightarrow> string \<Rightarrow> ColumnGovernanceRecord \<Rightarrow> string" where
  "save_column_sql tid column_name col =
     ''INSERT OR REPLACE INTO '' @ kColumnGovernanceTable @ '' VALUES ('' @
     sql_text (project_id tid) @ '', '' @ sql_text (dataset_id tid) @ '', '' @ sql_text (table_id tid) @ '', '' @
     sql_text column_name @ '', '' @ sql_text (JoinCsv (cg_policy_tags col)) @ '', '' @
     [CHR 0x27] @ mask_kind_name (cg_mask_kind col) @ [CHR 0x27] @ '', '' @
     sql_text (JoinCsv (cg_mask_grantees col)) @ '', '' @ sql_text (cg_default_mask_value col) @ '')''"

definition SaveColumnGovernance :: "DuckEnv \<Rightarrow> TableId \<Rightarrow> string \<Rightarrow> ColumnGovernanceRecord \<Rightarrow> World \<Rightarrow> unit StatusOr \<times> World" where
  "SaveColumnGovernance E tid column_name col w = RunRaw E (save_column_sql tid column_name col) w"

text \<open>The guards that every public governance operation starts with.\<close>

definition with_governance :: "DuckEnv \<Rightarrow> World \<Rightarrow> TableId \<Rightarrow> (World \<Rightarrow> 'a StatusOr \<times> World) \<Rightarrow> 'a StatusOr \<times> World" where
  "with_governance E w tid f =
     (case EnsureTableExistsUnlocked E w tid of
        Inl e \<Rightarrow> (Inl e, w)
      | Inr _ \<Rightarrow>
          (case EnsureGovernanceTables E w of
             (Inl e, w1) \<Rightarrow> (Inl e, w1)
           | (Inr _, w1) \<Rightarrow> f w1))"

definition GetTableGovernance :: "DuckEnv \<Rightarrow> World \<Rightarrow> TableId \<Rightarrow> TableGovernance StatusOr \<times> World" where
  "GetTableGovernance E w tid = with_governance E w tid (\<lambda>w1. (LoadTableGovernance E w1 tid, w1))"

definition PutTableGovernance :: "DuckEnv \<Rightarrow> World \<Rightarrow> TableId \<Rightarrow> TableGovernance \<Rightarrow> unit StatusOr \<times> World" where
  "PutTableGovernance E w tid gov = with_governance E w tid (SaveRowAccessPolicies E tid gov)"

definition stamped :: "int \<Rightarrow> RowAccessPolicyRecord \<Rightarrow> RowAccessPolicyRecord" where
  "stamped now_ms p =
     p\<lparr>rap_creation_time_ms := (if rap_creation_time_ms p = 0 then now_ms else rap_creation_time_ms p),
       rap_last_modified_time_ms := now_ms\<rparr>"

fun replace_policy :: "RowAccessPolicyRecord \<Rightarrow> RowAccessPolicyRecord list \<Rightarrow> RowAccessPolicyRecord list" where
  "replace_policy p [] = [p]"
| "replace_policy p (q # qs) = (if rap_policy_id q = rap_policy_id p then p # qs else q # replace_policy p qs)"

definition UpsertRowAccessPolicy :: "DuckEnv \<Rightarrow> World \<Rightarrow> TableId \<Rightarrow> RowAccessPolicyRecord \<Rightarrow> unit StatusOr \<times> World" where
  "UpsertRowAccessPolicy E w tid policy =
     with_governance E w tid (\<lambda>w1.
       case LoadTableGovernance E w1 tid of
         Inl e \<Rightarrow> (Inl e, w1)
       | Inr gov \<Rightarrow>
           SaveRowAccessPolicies E tid
             (gov\<lparr>row_access_policies := replace_policy (stamped (clock_ms w1) policy) (row_access_policies gov)\<rparr>) w1)"

definition DeleteRowAccessPolicy :: "DuckEnv \<Rightarrow> World \<Rightarrow> TableId \<Rightarrow> string \<Rightarrow> unit StatusOr \<times> World" where
  "DeleteRowAccessPolicy E w tid policy_id =
     with_governance E w tid (\<lambda>w1.
       case LoadTableGovernance E w1 tid of
         Inl e \<Rightarrow> (Inl e, w1)
       | Inr gov \<Rightarrow>
           if policy_id \<notin> rap_policy_id ` set (row_access_policies gov)
           then (Inl (Status kNotFound (''row access policy not found: '' @ policy_id)), w1)
           else SaveRowAccessPolicies E tid
                  (gov\<lparr>row_access_policies :=
                     filter (\<lambda>p. rap_policy_id p \<noteq> policy_id) (row_access_policies gov)\<rparr>) w1)"

definition SetColumnGovernance :: "DuckEnv \<Rightarrow> World \<Rightarrow> TableId \<Rightarrow> string \<Rightarrow> ColumnGovernanceRecord \<Rightarrow> unit StatusOr \<times> World" where
  "SetColumnGovernance E w tid column_name col = with_governance E w tid (SaveColumnGovernance E tid column_name col)"

subsection \<open>Dataset tombstones\<close>

definition QueryViewsForDataset :: "DuckEnv \<Rightarrow> World \<Rightarrow> DatasetId \<Rightarrow> ViewRecord list StatusOr" where
  "QueryViewsForDataset E w ds =
     select_rows E ''QueryViewsForDataset failed''
       (''SELECT project_id, dataset_id, view_id, ddl_sql FROM '' @ kViewsTable @ '' WHERE '' @ dataset_where ds @
        '' ORDER BY view_id'') ReadViewRow w"

definition QueryRoutinesForDataset :: "DuckEnv \<Rightarrow> World \<Rightarrow> DatasetId \<Rightarrow> RoutineRecord list StatusOr" where
  "QueryRoutinesForDataset E w ds =
     select_rows E ''QueryRoutinesForDataset failed''
       (''SELECT project_id, dataset_id, routine_id, kind, language, ddl_sql, is_temp, signature_json FROM '' @
        kRoutinesTable @ '' WHERE '' @ dataset_where ds @ '' ORDER BY routine_id'') ReadRoutineRow w"

definition RunDatasetScopedDelete :: "DuckEnv \<Rightarrow> string \<Rightarrow> DatasetId \<Rightarrow> World \<Rightarrow> unit StatusOr \<times> World" where
  "RunDatasetScopedDelete E tbl ds w = RunRaw E (''DELETE FROM '' @ tbl @ '' WHERE '' @ dataset_where ds) w"

definition ListTableIdsInDatasetDir :: "Listing \<Rightarrow> World \<Rightarrow> string \<Rightarrow> string list" where
  "ListTableIdsInDatasetDir ls w ds_dir =
     sort (map strip_meta_suffix
       (filter (\<lambda>name. name \<noteq> kDatasetMetaFile \<and> has_meta_suffix name) (dir_entries ls w ds_dir)))"

text \<open>The tables whose governance is not empty, with it.\<close>

fun load_governance :: "DuckEnv \<Rightarrow> World \<Rightarrow> DatasetId \<Rightarrow> string list \<Rightarrow> (string \<times> TableGovernance) list StatusOr" where
  "load_governance E w ds [] = Inr []"
| "load_governance E w ds (t # ts) =
     (case LoadTableGovernance E w (table_in ds t) of
        Inl e \<Rightarrow> Inl e
      | Inr gov \<Rightarrow>
          (case load_governance E w ds ts of
             Inl e \<Rightarrow> Inl e
           | Inr rest \<Rightarrow>
               Inr (if row_access_policies gov = [] \<and> governed_columns gov = [] then rest else (t, gov) # rest)))"

definition views_file :: "string \<Rightarrow> string" where "views_file dir = path_join dir ''views.json''"

definition routines_file :: "string \<Rightarrow> string" where "routines_file dir = path_join dir ''routines.json''"

definition governance_file :: "string \<Rightarrow> string" where "governance_file dir = path_join dir ''governance.json''"

definition SnapshotDatasetRegistryForTombstone ::
  "DuckEnv \<Rightarrow> Listing \<Rightarrow> DatasetId \<Rightarrow> string \<Rightarrow> World \<Rightarrow> unit StatusOr \<times> World" where
  "SnapshotDatasetRegistryForTombstone E ls ds tombstone_dir w =
     (case EnsureGovernanceTables E w of
        (Inl e, w1) \<Rightarrow> (Inl e, w1)
      | (Inr _, w1) \<Rightarrow>
     (case QueryViewsForDataset E w1 ds of
        Inl e \<Rightarrow> (Inl e, w1)
      | Inr views \<Rightarrow>
     (case WriteFileAtomic E (views_file tombstone_dir) (json_array (map RenderViewRecordJson views)) w1 of
        (Inl e, w2) \<Rightarrow> (Inl e, w2)
      | (Inr _, w2) \<Rightarrow>
     (case QueryRoutinesForDataset E w2 ds of
        Inl e \<Rightarrow> (Inl e, w2)
      | Inr routines \<Rightarrow>
     (case WriteFileAtomic E (routines_file tombstone_dir) (json_array (map RenderRoutineRecordJson routines)) w2 of
        (Inl e, w3) \<Rightarrow> (Inl e, w3)
      | (Inr _, w3) \<Rightarrow>
     (case load_governance E w3 ds (ListTableIdsInDatasetDir ls w3 (DatasetDirOf E ds)) of
        Inl e \<Rightarrow> (Inl e, w3)
      | Inr gov_tables \<Rightarrow>
          WriteFileAtomic E (governance_file tombstone_dir) (RenderGovernanceSnapshotJson gov_tables) w3))))))"

definition UpsertViewLocked :: "DuckEnv \<Rightarrow> ViewRecord \<Rightarrow> World \<Rightarrow> unit StatusOr \<times> World" where
  "UpsertViewLocked E rec w =
     (case RenderViewTableMetaJson E (vr_schema rec) (sidecar_query rec) (vr_ddl_sql rec) of
        Inl e \<Rightarrow> (Inl e, w)
      | Inr meta_json \<Rightarrow>
          (case WriteFileAtomic E (TableMetaPath E (view_table rec)) meta_json w of
             (Inl e, w1) \<Rightarrow> (Inl e, w1)
           | (Inr _, w1) \<Rightarrow> RunRaw E (upsert_view_sql rec) w1))"

definition UpsertRoutineLocked :: "DuckEnv \<Rightarrow> RoutineRecord \<Rightarrow> World \<Rightarrow> unit StatusOr \<times> World" where
  "UpsertRoutineLocked E rec w = RunRaw E (upsert_routine_sql rec) w"

text \<open>The loop over the objects of an array: parse one, store it, stop at the first failure.\<close>

fun restore_each :: "('e \<Rightarrow> 'a StatusOr) \<Rightarrow> ('a \<Rightarrow> World \<Rightarrow> unit StatusOr \<times> World) \<Rightarrow> 'e list \<Rightarrow> World \<Rightarrow> unit StatusOr \<times> World" where
  "restore_each parse put [] w = (Inr (), w)"
| "restore_each parse put (entry # entries) w =
     (case parse entry of
        Inl e \<Rightarrow> (Inl e, w)
      | Inr rec \<Rightarrow>
          (case put rec w of
             (Inl e, w1) \<Rightarrow> (Inl e, w1)
           | (Inr _, w1) \<Rightarrow> restore_each parse put entries w1))"

definition restore_file :: "DuckEnv \<Rightarrow> string \<Rightarrow> (string \<Rightarrow> 'a StatusOr) \<Rightarrow> ('a \<Rightarrow> World \<Rightarrow> unit StatusOr \<times> World) \<Rightarrow> World \<Rightarrow> unit StatusOr \<times> World" where
  "restore_file E path parse put w =
     (if \<not> fs_exists w path then (Inr (), w)
      else case ReadFile E w path of
             Inl e \<Rightarrow> (Inl e, w)
           | Inr contents \<Rightarrow> restore_each parse put (SplitTopLevelJsonObjects contents) w)"

definition PersistGovernance :: "DuckEnv \<Rightarrow> TableId \<Rightarrow> TableGovernance \<Rightarrow> World \<Rightarrow> unit StatusOr \<times> World" where
  "PersistGovernance E tid gov w =
     (case (if row_access_policies gov = [] then (Inr (), w) else SaveRowAccessPolicies E tid gov w) of
        (Inl e, w1) \<Rightarrow> (Inl e, w1)
      | (Inr _, w1) \<Rightarrow> run_all E (map (\<lambda>(col, gov). save_column_sql tid col gov) (governed_columns gov)) w1)"

definition RestoreGovernanceFromSnapshotLocked ::
  "DuckEnv \<Rightarrow> (string \<Rightarrow> int) \<Rightarrow> DatasetId \<Rightarrow> string \<Rightarrow> World \<Rightarrow> unit StatusOr \<times> World" where
  "RestoreGovernanceFromSnapshotLocked E unspec ds json w =
     restore_each (parse_governance_entry (absl_fns E) unspec)
       (\<lambda>(tbl, gov). PersistGovernance E (table_in ds tbl) gov) (SplitTopLevelJsonObjects json) w"

definition RestoreDatasetRegistryFromTombstone ::
  "DuckEnv \<Rightarrow> (string \<Rightarrow> int) \<Rightarrow> DatasetId \<Rightarrow> string \<Rightarrow> World \<Rightarrow> unit StatusOr \<times> World" where
  "RestoreDatasetRegistryFromTombstone E unspec ds tombstone_dir w =
     (case EnsureGovernanceTables E w of
        (Inl e, w1) \<Rightarrow> (Inl e, w1)
      | (Inr _, w1) \<Rightarrow>
     (case restore_file E (views_file tombstone_dir) (\<lambda>entry. ParseViewRecordJson entry ds) (UpsertViewLocked E) w1 of
        (Inl e, w2) \<Rightarrow> (Inl e, w2)
      | (Inr _, w2) \<Rightarrow>
     (case restore_file E (routines_file tombstone_dir) (\<lambda>entry. ParseRoutineRecordJson entry ds) (UpsertRoutineLocked E) w2 of
        (Inl e, w3) \<Rightarrow> (Inl e, w3)
      | (Inr _, w3) \<Rightarrow>
          if \<not> fs_exists w3 (governance_file tombstone_dir) then (Inr (), w3)
          else case ReadFile E w3 (governance_file tombstone_dir) of
                 Inl e \<Rightarrow> (Inl e, w3)
               | Inr contents \<Rightarrow> RestoreGovernanceFromSnapshotLocked E unspec ds contents w3)))"

definition PurgeDatasetRegistryRows :: "DuckEnv \<Rightarrow> DatasetId \<Rightarrow> World \<Rightarrow> unit StatusOr \<times> World" where
  "PurgeDatasetRegistryRows E ds w =
     (case RunDatasetScopedDelete E kViewsTable ds w of
        (Inl e, w1) \<Rightarrow> (Inl e, w1)
      | (Inr _, w1) \<Rightarrow>
     (case RunDatasetScopedDelete E kRoutinesTable ds w1 of
        (Inl e, w2) \<Rightarrow> (Inl e, w2)
      | (Inr _, w2) \<Rightarrow>
     (case RunDatasetScopedDelete E kRowAccessPoliciesTable ds w2 of
        (Inl e, w3) \<Rightarrow> (Inl e, w3)
      | (Inr _, w3) \<Rightarrow> RunDatasetScopedDelete E kColumnGovernanceTable ds w3)))"

definition GetDatasetRestMetadataJson :: "DuckEnv \<Rightarrow> World \<Rightarrow> DatasetId \<Rightarrow> string StatusOr" where
  "GetDatasetRestMetadataJson E w ds =
     (case ReadFile E w (DatasetMetaPath E (table_in ds [])) of
        Inl e \<Rightarrow> Inl e
      | Inr contents \<Rightarrow> Inr (ExtractRestMetadataFromDatasetMetaJson contents))"

definition dataset_tombstone_root :: "DuckEnv \<Rightarrow> DatasetId \<Rightarrow> string" where
  "dataset_tombstone_root E ds =
     path_join (path_join (path_join (data_dir E) ''.tombstones'') ''__dataset__'') (DatasetTombstoneKey (table_in ds []))"

definition DatasetTombstoneDir :: "DuckEnv \<Rightarrow> DatasetId \<Rightarrow> int \<Rightarrow> string" where
  "DatasetTombstoneDir E ds deleted_ms = path_join (dataset_tombstone_root E ds) (dec deleted_ms)"

definition no_dataset_tombstones :: "DatasetId \<Rightarrow> Status" where
  "no_dataset_tombstones ds = Status kNotFound (''no tombstones for dataset '' @ ds_dotted ds)"

text \<open>The directories younger than the time-travel window; an unreadable name is skipped.\<close>

definition LatestDatasetTombstoneMs :: "DuckEnv \<Rightarrow> Listing \<Rightarrow> World \<Rightarrow> DatasetId \<Rightarrow> int StatusOr" where
  "LatestDatasetTombstoneMs E ls w ds =
     (let root = dataset_tombstone_root E ds; cutoff = clock_ms w - kTimeTravelWindowMs
      in if \<not> fs_exists w root then Inl (no_dataset_tombstones ds)
         else case latest_entry (absl_fns E) w root
                (filter (\<lambda>n. case SimpleAtoi (absl_fns E) n of None \<Rightarrow> False | Some ms \<Rightarrow> \<not> ms < cutoff) (dir_entries ls w root)) of
                None \<Rightarrow> Inl (no_dataset_tombstones ds)
              | Some best \<Rightarrow> Inr best)"

definition TombstoneRetentionOk :: "World \<Rightarrow> int \<Rightarrow> unit StatusOr" where
  "TombstoneRetentionOk w deleted_ms =
     (if deleted_ms + kTimeTravelWindowMs < clock_ms w
      then Inl (Status kNotFound ''tombstone is past the retention window'') else Inr ())"

definition RenderTablesManifestJson :: "string list \<Rightarrow> string" where
  "RenderTablesManifestJson table_ids =
     ''['' @ join_str '','' (map (\<lambda>t. [CHR 0x22] @ t @ [CHR 0x22]) table_ids) @ '']''"

definition ParseTablesManifestJson :: "string \<Rightarrow> string list" where
  "ParseTablesManifestJson json = ParseQuotedJsonStringArray json"

definition ds_not_found :: "DatasetId \<Rightarrow> Status" where
  "ds_not_found ds = Status kNotFound (''dataset not found: '' @ ds_dotted ds)"

fun each_table :: "(string \<Rightarrow> World \<Rightarrow> unit StatusOr \<times> World) \<Rightarrow> string list \<Rightarrow> World \<Rightarrow> unit StatusOr \<times> World" where
  "each_table f [] w = (Inr (), w)"
| "each_table f (t # ts) w =
     (case f t w of
        (Inl e, w1) \<Rightarrow> (Inl e, w1)
      | (Inr _, w1) \<Rightarrow> each_table f ts w1)"

definition remove_all_status :: "DuckEnv \<Rightarrow> string \<Rightarrow> string \<Rightarrow> World \<Rightarrow> unit StatusOr \<times> World" where
  "remove_all_status E what dir w =
     (case io_fault E w (IoRemove dir) of
        Some ec \<Rightarrow> (Inl (FilesystemStatus (what @ dir) ec), w)
      | None \<Rightarrow> (Inr (), fs_remove_all dir w))"

text \<open>The second half of \<open>MoveDatasetToTombstone\<close>: sidecar, manifest, tables, registry rows, directory.\<close>

definition MoveDatasetContents ::
  "DuckEnv \<Rightarrow> Listing \<Rightarrow> DatasetId \<Rightarrow> int \<Rightarrow> string \<Rightarrow> World \<Rightarrow> unit StatusOr \<times> World" where
  "MoveDatasetContents E ls ds deleted_ms rest_metadata_json w =
     (let tombstone_dir = DatasetTombstoneDir E ds deleted_ms; ds_dir = DatasetDirOf E ds
      in case ReadFile E w (DatasetMetaPath E (table_in ds [])) of
        Inl e \<Rightarrow> (Inl e, w)
      | Inr meta \<Rightarrow>
     (let tomb_meta = (if rest_metadata_json = [] then meta
                       else MergeRestMetadataIntoDatasetMetaJson meta rest_metadata_json)
      in case WriteFileAtomic E (path_join tombstone_dir kDatasetMetaFile) tomb_meta w of
        (Inl e, w1) \<Rightarrow> (Inl e, w1)
      | (Inr _, w1) \<Rightarrow>
     (let table_ids = ListTableIdsInDatasetDir ls w1 ds_dir
      in case WriteFileAtomic E (path_join tombstone_dir ''tables.json'') (RenderTablesManifestJson table_ids) w1 of
        (Inl e, w2) \<Rightarrow> (Inl e, w2)
      | (Inr _, w2) \<Rightarrow>
     (case each_table (\<lambda>t. MoveTableToTombstone E (table_in ds t) deleted_ms) table_ids w2 of
        (Inl e, w3) \<Rightarrow> (Inl e, w3)
      | (Inr _, w3) \<Rightarrow>
     (case PurgeDatasetRegistryRows E ds w3 of
        (Inl e, w4) \<Rightarrow> (Inl e, w4)
      | (Inr _, w4) \<Rightarrow> remove_all_status E ''failed to remove dataset dir: '' ds_dir w4)))))"

definition MoveDatasetToTombstone ::
  "DuckEnv \<Rightarrow> Listing \<Rightarrow> DatasetId \<Rightarrow> int \<Rightarrow> string \<Rightarrow> World \<Rightarrow> unit StatusOr \<times> World" where
  "MoveDatasetToTombstone E ls ds deleted_ms rest_metadata_json w =
     (let tombstone_dir = DatasetTombstoneDir E ds deleted_ms
      in if \<not> fs_exists w (DatasetDirOf E ds) then (Inl (ds_not_found ds), w)
         else if \<not> fs_exists w (DatasetMetaPath E (table_in ds [])) then (Inl (ds_not_found ds), w)
         else case fs_create_directories E tombstone_dir w of
        (Some ec, w1) \<Rightarrow> (Inl (FilesystemStatus (''failed to create dataset tombstone dir: '' @ tombstone_dir) ec), w1)
      | (None, w1) \<Rightarrow>
     (case SnapshotDatasetRegistryForTombstone E ls ds tombstone_dir w1 of
        (Inl e, w2) \<Rightarrow> (Inl e, w2)
      | (Inr _, w2) \<Rightarrow> MoveDatasetContents E ls ds deleted_ms rest_metadata_json w2))"

text \<open>The second half of \<open>RestoreDatasetFromTombstone\<close>, once the tombstone is chosen.\<close>

definition RestoreDatasetContents ::
  "DuckEnv \<Rightarrow> Listing \<Rightarrow> (string \<Rightarrow> int) \<Rightarrow> DatasetId \<Rightarrow> int \<Rightarrow> World \<Rightarrow> unit StatusOr \<times> World" where
  "RestoreDatasetContents E ls unspec ds chosen w =
     (let tombstone_dir = DatasetTombstoneDir E ds chosen; live_dir = DatasetDirOf E ds
      in case ReadFile E w (path_join tombstone_dir kDatasetMetaFile) of
        Inl e \<Rightarrow> (Inl e, w)
      | Inr meta \<Rightarrow>
     (case ReadFile E w (path_join tombstone_dir ''tables.json'') of
        Inl e \<Rightarrow> (Inl e, w)
      | Inr manifest \<Rightarrow>
     (case fs_create_directories E live_dir w of
        (Some ec, w1) \<Rightarrow> (Inl (FilesystemStatus (''failed to create dataset dir: '' @ live_dir) ec), w1)
      | (None, w1) \<Rightarrow>
     (case WriteFileAtomic E (DatasetMetaPath E (table_in ds [])) meta w1 of
        (Inl e, w2) \<Rightarrow> (Inl e, w2)
      | (Inr _, w2) \<Rightarrow>
     (case each_table (\<lambda>t. RestoreTableFromTombstone E ls (table_in ds t) chosen) (ParseTablesManifestJson manifest) w2 of
        (Inl e, w3) \<Rightarrow> (Inl e, w3)
      | (Inr _, w3) \<Rightarrow>
     (case RestoreDatasetRegistryFromTombstone E unspec ds tombstone_dir w3 of
        (Inl e, w4) \<Rightarrow> (Inl e, w4)
      | (Inr _, w4) \<Rightarrow> remove_all_status E ''failed to remove dataset tombstone dir: '' tombstone_dir w4))))))"

definition RestoreDatasetFromTombstone ::
  "DuckEnv \<Rightarrow> Listing \<Rightarrow> (string \<Rightarrow> int) \<Rightarrow> DatasetId \<Rightarrow> int \<Rightarrow> World \<Rightarrow> unit StatusOr \<times> World" where
  "RestoreDatasetFromTombstone E ls unspec ds deleted_ms w =
     (if fs_exists w (DatasetMetaPath E (table_in ds []))
      then (Inl (Status kAlreadyExists (''dataset already exists: '' @ ds_dotted ds)), w)
      else case (if deleted_ms = 0 then LatestDatasetTombstoneMs E ls w ds else Inr deleted_ms) of
        Inl e \<Rightarrow> (Inl e, w)
      | Inr chosen \<Rightarrow>
     (case TombstoneRetentionOk w chosen of
        Inl e \<Rightarrow> (Inl e, w)
      | Inr _ \<Rightarrow>
          if \<not> fs_exists w (DatasetTombstoneDir E ds chosen)
          then (Inl (Status kNotFound (''tombstone not found for dataset '' @ ds_dotted ds @ '' at '' @ dec chosen)), w)
          else RestoreDatasetContents E ls unspec ds chosen w))"

subsection \<open>Datasets\<close>

definition has_parquet_ext :: "string \<Rightarrow> bool" where
  "has_parquet_ext name \<longleftrightarrow> suffix ''.parquet'' name \<and> name \<noteq> ''.parquet''"

definition is_table_entry :: "string \<Rightarrow> bool" where
  "is_table_entry name \<longleftrightarrow> name \<noteq> kDatasetMetaFile \<and> (has_meta_suffix name \<or> has_parquet_ext name)"

definition DropDataset :: "DuckEnv \<Rightarrow> Listing \<Rightarrow> World \<Rightarrow> DatasetId \<Rightarrow> bool \<Rightarrow> string \<Rightarrow> unit StatusOr \<times> World" where
  "DropDataset E ls w ds delete_contents rest_metadata_json =
     (let ds_dir = DatasetDirOf E ds
      in if \<not> fs_exists w ds_dir then (Inl (ds_not_found ds), w)
         else case ls w ds_dir of
        Inl ec \<Rightarrow> (Inl (FilesystemStatus (''failed to enumerate dataset dir: '' @ ds_dir) ec), w)
      | Inr entries \<Rightarrow>
          if list_ex is_table_entry entries \<and> \<not> delete_contents
          then (Inl (Status kFailedPrecondition
                 (''dataset is not empty: '' @ ds_dotted ds @ '' (use delete_contents=true to drop with tables)'')), w)
          else case MoveDatasetToTombstone E ls ds (clock_ms w) rest_metadata_json w of
                 (Inl e, w1) \<Rightarrow> (Inl e, w1)
               | (Inr _, w1) \<Rightarrow>
                   RunRaw E (''DROP SCHEMA IF EXISTS '' @ QuoteIdent (DuckDBSchemaName (table_in ds [])) @ '' CASCADE'') w1)"

definition RestoreDataset :: "DuckEnv \<Rightarrow> Listing \<Rightarrow> (string \<Rightarrow> int) \<Rightarrow> World \<Rightarrow> DatasetId \<Rightarrow> int \<Rightarrow> unit StatusOr \<times> World" where
  "RestoreDataset E ls unspec w ds deleted_ms =
     (case RestoreDatasetFromTombstone E ls unspec ds deleted_ms w of
        (Inl e, w1) \<Rightarrow> (Inl e, w1)
      | (Inr _, w1) \<Rightarrow> RunSql E (CreateSchemaIfNotExists (DuckDBSchemaName (table_in ds []))) w1)"

definition ListDatasets :: "DuckEnv \<Rightarrow> Listing \<Rightarrow> World \<Rightarrow> string \<Rightarrow> DatasetId list StatusOr" where
  "ListDatasets E ls w project =
     (if project = [] then Inl (Status kInvalidArgument ''ListDatasets: project_id must be non-empty'')
      else let project_dir = path_join (data_dir E) project
           in if \<not> fs_exists w project_dir then Inr []
              else case ls w project_dir of
                     Inl ec \<Rightarrow> Inl (FilesystemStatus (''failed to enumerate project dir: '' @ project_dir) ec)
                   | Inr entries \<Rightarrow>
                       Inr (map (\<lambda>d. \<lparr>ds_project_id = project, ds_dataset_id = d\<rparr>)
                         (sort (filter (\<lambda>n. path_join project_dir n \<in> dirs w \<and>
                                  fs_exists w (path_join (path_join project_dir n) kDatasetMetaFile)) entries))))"

definition ListTables :: "DuckEnv \<Rightarrow> Listing \<Rightarrow> World \<Rightarrow> DatasetId \<Rightarrow> TableId list StatusOr" where
  "ListTables E ls w ds =
     (if ds_project_id ds = [] \<or> ds_dataset_id ds = []
      then Inl (Status kInvalidArgument ''ListTables: project_id and dataset_id must be non-empty'')
      else let ds_dir = DatasetDirOf E ds
           in if \<not> fs_exists w ds_dir then Inl (ds_not_found ds)
              else case ls w ds_dir of
                     Inl ec \<Rightarrow> Inl (FilesystemStatus (''failed to enumerate dataset dir: '' @ ds_dir) ec)
                   | Inr entries \<Rightarrow> Inr (map (table_in ds) (ListTableIdsInDatasetDir ls w ds_dir)))"

definition kCatalogDbFile :: string where "kCatalogDbFile = ''catalog.duckdb''"

text \<open>
  Opening the store. The database file and the connection are refused through \<open>io_fault\<close> of
  their own operations.
\<close>

definition Open :: "DuckEnv \<Rightarrow> World \<Rightarrow> unit StatusOr \<times> World" where
  "Open E w =
     (if data_dir E = []
      then (Inl (Status kInvalidArgument ''DuckDBStorage::Open: data_dir must be non-empty''), w)
      else case fs_create_directories E (data_dir E) w of
        (Some ec, w1) \<Rightarrow>
          (Inl (Status kFailedPrecondition
             (''DuckDBStorage::Open: could not create data_dir '' @ data_dir E @ '': '' @ ec)), w1)
      | (None, w1) \<Rightarrow>
     (let catalog_path = path_join (data_dir E) kCatalogDbFile
      in case io_fault E w1 (IoOpenWrite catalog_path) of
        Some ec \<Rightarrow> (Inl (Status kInternal (''DuckDBStorage::Open: duckdb_open failed for '' @ catalog_path)), w1)
      | None \<Rightarrow>
     (case io_fault E w1 (IoSql []) of
        Some ec \<Rightarrow> (Inl (Status kInternal (''DuckDBStorage::Open: duckdb_connect failed for '' @ catalog_path)), w1)
      | None \<Rightarrow> InitCatalogTables E w1)))"

subsection \<open>The snapshot is read back\<close>

lemma restore_each_parsed:
  "\<forall>rec \<in> set recs. parse (render rec) = Inr (g rec) \<Longrightarrow>
     restore_each parse put (map render recs) w = restore_each Inr put (map g recs) w"
  by (induction recs arbitrary: w) (auto split: prod.splits sum.splits)

definition plain_view :: "ViewRecord \<Rightarrow> bool" where
  "plain_view rec \<longleftrightarrow> no_breaks (vr_view_id rec) \<and> no_breaks (vr_ddl_sql rec)"

definition registered_view :: "ViewRecord \<Rightarrow> ViewRecord" where
  "registered_view rec = rec\<lparr>vr_view_query := [], vr_schema := empty_schema\<rparr>"

lemma restore_file_array:
  assumes "no_fault E" "files w path = Some (TextFile (json_array (map render recs)))"
    "\<forall>rec \<in> set recs. json_object (render rec) \<and> parse (render rec) = Inr (g rec)"
  shows "restore_file E path parse put w = restore_each Inr put (map g recs) w"
proof -
  have "ReadFile E w path = Inr (json_array (map render recs))"
    using assms(1,2) by (simp add: ReadFile_def no_fault_def)
  moreover have "SplitTopLevelJsonObjects (json_array (map render recs)) = map render recs"
    using assms(3) by (intro split_json_array) auto
  ultimately show ?thesis
    using assms(2,3) restore_each_parsed [of recs parse render g]
    by (simp add: restore_file_def fs_exists_def)
qed

lemma views_read_back:
  assumes "no_fault E" "files w path = Some (TextFile (json_array (map RenderViewRecordJson views)))"
    "\<forall>v \<in> set views. vr_dataset v = ds \<and> plain_view v"
  shows "restore_file E path (\<lambda>entry. ParseViewRecordJson entry ds) put w = restore_each Inr put (map registered_view views) w"
  using view_reads_back view_object assms(3)
  by (intro restore_file_array [OF assms(1,2)]) (auto simp: plain_view_def registered_view_def empty_schema_def)

lemma routines_read_back:
  assumes "no_fault E" "files w path = Some (TextFile (json_array (map RenderRoutineRecordJson routines)))"
    "\<forall>r \<in> set routines. rt_dataset r = ds \<and> plain_routine r"
  shows "restore_file E path (\<lambda>entry. ParseRoutineRecordJson entry ds) put w = restore_each Inr put routines w"
proof -
  have "\<forall>r \<in> set routines. json_object (RenderRoutineRecordJson r) \<and>
      ParseRoutineRecordJson (RenderRoutineRecordJson r) ds = Inr r"
    using routine_reads_back routine_object assms(3) by metis
  from restore_file_array [OF assms(1,2) this, of put] show ?thesis by simp
qed

lemma WriteFileAtomic_no_fault:
  assumes "no_fault E"
  shows "WriteFileAtomic E path s w = (Inr (), w\<lparr>files := (files w)(path @ ''.tmp'' := None, path \<mapsto> TextFile s)\<rparr>)"
proof -
  have "path @ ''.tmp'' \<noteq> path" by simp
  then show ?thesis using assms by (simp add: WriteFileAtomic_def fs_rename_def no_fault_def Let_def fun_upd_twist)
qed

lemma snapshot_writes:
  assumes "no_fault E" "SnapshotDatasetRegistryForTombstone E ls ds dir w = (Inr (), w')"
    "dir \<noteq> []" "last dir \<noteq> CHR ''/''"
  obtains w1 views routines where "EnsureGovernanceTables E w = (Inr (), w1)" "QueryViewsForDataset E w1 ds = Inr views"
    "QueryRoutinesForDataset E (snd (WriteFileAtomic E (views_file dir) (json_array (map RenderViewRecordJson views)) w1)) ds = Inr routines"
    "files w' (views_file dir) = Some (TextFile (json_array (map RenderViewRecordJson views)))"
    "files w' (routines_file dir) = Some (TextFile (json_array (map RenderRoutineRecordJson routines)))"
proof -
  note wr = WriteFileAtomic_no_fault [OF assms(1)]
  have paths: "views_file dir = dir @ ''/views.json''" "routines_file dir = dir @ ''/routines.json''"
    "governance_file dir = dir @ ''/governance.json''"
    using assms(3,4) by (simp_all add: views_file_def routines_file_def governance_file_def path_join_def)
  obtain w1 where w1: "EnsureGovernanceTables E w = (Inr (), w1)"
    using assms(2) by (auto simp: SnapshotDatasetRegistryForTombstone_def split: prod.splits sum.splits)
  obtain views where views: "QueryViewsForDataset E w1 ds = Inr views"
    using assms(2) by (auto simp: SnapshotDatasetRegistryForTombstone_def w1 split: sum.splits)
  let ?w2 = "snd (WriteFileAtomic E (views_file dir) (json_array (map RenderViewRecordJson views)) w1)"
  obtain routines where routines: "QueryRoutinesForDataset E ?w2 ds = Inr routines"
    using assms(2) by (auto simp: SnapshotDatasetRegistryForTombstone_def w1 views wr split: sum.splits)
  show thesis
    using that [OF w1 views routines] assms(2) routines
    by (auto simp: SnapshotDatasetRegistryForTombstone_def w1 views wr paths split: sum.splits)
qed

subsection \<open>Properties\<close>


definition text_cell :: "string \<Rightarrow> DuckCell" where
  "text_cell s =
     \<lparr>value_is_null = False, value_varchar = Some s, value_boolean = False, value_int64 = 0, value_double = 0,
      value_blob = None\<rparr>"

definition sample_ds :: DatasetId where
  "sample_ds = \<lparr>ds_project_id = ''p'', ds_dataset_id = ''d''\<rparr>"

definition view_row :: "DuckCell list" where
  "view_row = map text_cell [''p'', ''d'', ''v'', ''SELECT 1'']"

definition routine_row :: "DuckCell list" where
  "routine_row = map text_cell [''p'', ''d'', ''f'', ''procedure'', ''SQL'', ''CALL f()'', ''x'', ''{}'']"

definition registry_env :: DuckEnv where
  "registry_env = json_env\<lparr>duck_query := (\<lambda>w sql.
     if prefix ''SELECT project_id, dataset_id, view_id'' sql then Inr \<lparr>column_count = 4, result_rows = [view_row]\<rparr>
     else if prefix ''SELECT project_id, dataset_id, routine_id'' sql then Inr \<lparr>column_count = 8, result_rows = [routine_row]\<rparr>
     else Inr \<lparr>column_count = 0, result_rows = []\<rparr>)\<rparr>"

definition sample_tombstone :: string where
  "sample_tombstone = ''/data/.tombstones/__dataset__/p.d/9''"

definition no_entries :: Listing where
  "no_entries w d = Inr []"

lemma registry_env_views:
  "QueryViewsForDataset registry_env u sample_ds = QueryViewsForDataset registry_env json_world sample_ds"
  "QueryRoutinesForDataset registry_env u sample_ds = QueryRoutinesForDataset registry_env json_world sample_ds"
  by (simp_all add: QueryViewsForDataset_def QueryRoutinesForDataset_def select_rows_def registry_env_def)


end
