(* ===== verification/Row_Restriction.thy ===== *)
theory Row_Restriction
  imports Duckdb_Sql
begin

section \<open>Row restrictions: \<open>backend/storage/row_restriction.cc\<close>\<close>

text \<open>
  The parser of a row restriction \<open><column> = <literal>\<close> against a table schema. The loops over a
  \<open>string_view\<close> are recursions over the characters still to be read; the pointer \<open>out\<close> is an
  option, \<^const>\<open>None\<close> for the null pointer, and an accepted restriction returns what \<open>*out\<close>
  holds afterwards. The lemmas show that an accepted predicate is well typed against the schema,
  and exactly which renderings of a predicate are read back.
\<close>

subsection \<open>The parser\<close>

definition trim_view :: "string \<Rightarrow> string" where
  "trim_view s = trim_right (trim_left s)"

text \<open>
  \<open>split_equals delim before s\<close> is the loop at the first character of \<open>s\<close>, with \<open>before\<close> the
  characters already passed and \<open>delim\<close> the quote of the literal the scan is inside of.
\<close>

fun split_equals :: "char option \<Rightarrow> string \<Rightarrow> string \<Rightarrow> (string \<times> string) option" where
  "split_equals delim before [] = None"
| "split_equals (Some d) before (c # s) =
     (if c = d then
        (case s of
           c' # s' \<Rightarrow>
             if c' = d then split_equals (Some d) (before @ [c, c']) s'
             else split_equals None (before @ [c]) s
         | [] \<Rightarrow> split_equals None (before @ [c]) s)
      else split_equals (Some d) (before @ [c]) s)"
| "split_equals None before (c # s) =
     (if c = CHR 0x27 \<or> c = CHR 0x22 then split_equals (Some c) (before @ [c]) s
      else if c = CHR ''='' then (if before = [] \<or> s = [] then None else Some (before, s))
      else split_equals None (before @ [c]) s)"

definition SplitOnTopLevelEquals :: "string \<Rightarrow> (string \<times> string) option" where
  "SplitOnTopLevelEquals s = split_equals None [] s"

definition IsBareIdentifierChar :: "char \<Rightarrow> bool" where
  "IsBareIdentifierChar c \<longleftrightarrow> ascii_isalnum c \<or> c = CHR ''_''"

definition trailing_input :: "string \<Rightarrow> Status" where
  "trailing_input rest =
     Status kInvalidArgument
       (''row_restriction: unexpected trailing input after column name: '' @ rest)"

definition ExtractIdentifier :: "string \<Rightarrow> string StatusOr" where
  "ExtractIdentifier text =
     (let s = trim_view text
      in if s = [] then
           Inl (Status kInvalidArgument
             ''row_restriction: column name is empty (expected `col = literal`)'')
         else if hd s = CHR ''`'' then
           (if CHR ''`'' \<notin> set (tl s) then
              Inl (Status kInvalidArgument
                ''row_restriction: unterminated backtick-quoted column name'')
            else let name = takeWhile (\<lambda>c. c \<noteq> CHR ''`'') (tl s);
                     rest = trim_view (tl (dropWhile (\<lambda>c. c \<noteq> CHR ''`'') (tl s)))
                 in if rest \<noteq> [] then Inl (trailing_input rest) else Inr name)
         else if \<not> ascii_isalpha (hd s) \<and> hd s \<noteq> CHR ''_'' then
           Inl (Status kInvalidArgument
             (''row_restriction: column name must start with a letter or underscore (got: '' @ s @ '')''))
         else let name = takeWhile IsBareIdentifierChar s;
                  rest = trim_view (dropWhile IsBareIdentifierChar s)
              in if rest \<noteq> [] then Inl (trailing_input rest) else Inr name)"

fun literal_body :: "char \<Rightarrow> string \<Rightarrow> string option" where
  "literal_body delim [] = Some []"
| "literal_body delim (c # s) =
     (if c = delim then
        (case s of
           c' # s' \<Rightarrow> if c' = delim then map_option (Cons delim) (literal_body delim s') else None
         | [] \<Rightarrow> None)
      else map_option (Cons c) (literal_body delim s))"

definition malformed_string :: "string \<Rightarrow> Status" where
  "malformed_string s =
     Status kInvalidArgument
       (''row_restriction: malformed string literal (expected '' @ [CHR 0x27] @ ''...'' @ [CHR 0x27] @
        '' or '' @ [CHR 0x22] @ ''...'' @ [CHR 0x22] @ ''): '' @ s)"

definition ParseStringLiteral :: "string \<Rightarrow> string StatusOr" where
  "ParseStringLiteral s =
     (if length s < 2 then Inl (malformed_string s)
      else if (hd s \<noteq> CHR 0x27 \<and> hd s \<noteq> CHR 0x22) \<or> last s \<noteq> hd s then Inl (malformed_string s)
      else case literal_body (hd s) (butlast (tl s)) of
             None \<Rightarrow>
               Inl (Status kInvalidArgument
                 (''row_restriction: unescaped quote inside string literal: '' @ s))
           | Some acc \<Rightarrow> Inr acc)"

definition ParseBoolLiteral :: "string \<Rightarrow> bool StatusOr" where
  "ParseBoolLiteral s =
     (if EqualsIgnoreCase s ''true'' then Inr True
      else if EqualsIgnoreCase s ''false'' then Inr False
      else Inl (Status kInvalidArgument
             (''row_restriction: expected BOOL literal (true / false), got: '' @ s)))"

definition ParseInt64Literal :: "absl \<Rightarrow> string \<Rightarrow> int StatusOr" where
  "ParseInt64Literal A s =
     (if \<exists>c \<in> set s. c = CHR ''.'' \<or> c = CHR ''e'' \<or> c = CHR ''E'' then
        Inl (Status kInvalidArgument
          (''row_restriction: FLOAT64 literals are not supported by the row_restriction parser (got: '' @
           s @ '')''))
      else case SimpleAtoi A s of
             None \<Rightarrow>
               Inl (Status kInvalidArgument (''row_restriction: expected INT64 literal, got: '' @ s))
           | Some i \<Rightarrow> Inr i)"

definition kBanned :: "string list" where
  "kBanned =
     ['' AND '', '' and '', '' OR '', '' or '', '' NOT '', '' not '', '' IN '', '' in '',
      '' IS '', '' is '', '' LIKE '', '' like '', '' BETWEEN '', '' between '']"

definition kBannedOps :: "string list" where
  "kBannedOps = [''<='', ''>='', ''!='', ''<>'', ''<'', ''>'']"

definition only_equality :: "string \<Rightarrow> Status" where
  "only_equality restriction =
     Status kInvalidArgument
       (''row_restriction: only `<column> = <literal>` is supported in this emulator profile; got: '' @
        restriction)"

fun find_restricted_column :: "nat \<Rightarrow> ColumnSchema list \<Rightarrow> string \<Rightarrow> (nat \<times> ColumnSchema) option" where
  "find_restricted_column i [] name = None"
| "find_restricted_column i (c # cs) name =
     (if col_name c = name then Some (i, c) else find_restricted_column (Suc i) cs name)"

definition default_EqualityPredicate :: EqualityPredicate where
  "default_EqualityPredicate =
     \<lparr>ep_column = [], ep_kind = PString, ep_column_index = 0, ep_int64_value = 0,
      ep_bool_value = False, ep_string_value = []\<rparr>"

text \<open>The switch that lowers the literal by the type of the column.\<close>

definition lower_literal ::
    "absl \<Rightarrow> string \<Rightarrow> ColumnType \<Rightarrow> string \<Rightarrow> EqualityPredicate \<Rightarrow> EqualityPredicate StatusOr" where
  "lower_literal A column_name ty lit pred =
     (case ty of
        kInt64 \<Rightarrow>
          (case ParseInt64Literal A lit of
             Inl s \<Rightarrow> Inl s
           | Inr i \<Rightarrow> Inr (pred\<lparr>ep_kind := PInt64, ep_int64_value := i\<rparr>))
      | kBool \<Rightarrow>
          (case ParseBoolLiteral lit of
             Inl s \<Rightarrow> Inl s
           | Inr b \<Rightarrow> Inr (pred\<lparr>ep_kind := PBool, ep_bool_value := b\<rparr>))
      | kString \<Rightarrow>
          (case ParseStringLiteral lit of
             Inl s \<Rightarrow> Inl s
           | Inr t \<Rightarrow> Inr (pred\<lparr>ep_kind := PString, ep_string_value := t\<rparr>))
      | _ \<Rightarrow>
          Inl (Status kInvalidArgument
            (''row_restriction: column `'' @ column_name @ ''` has type '' @ ColumnTypeName ty @
             ''; only INT64, BOOL, and STRING columns are supported by the row_restriction parser in this emulator profile'')))"

definition unsupported_column :: "string \<Rightarrow> string \<Rightarrow> Status" where
  "unsupported_column what column_name =
     Status kInvalidArgument
       (''row_restriction: equality on '' @ what @ '' column `'' @ column_name @
        ''` is not supported in this emulator profile'')"

definition ParseRowRestriction ::
    "absl \<Rightarrow> string \<Rightarrow> TableSchema \<Rightarrow> EqualityPredicate option \<Rightarrow> EqualityPredicate StatusOr" where
  "ParseRowRestriction A restriction schema out =
     (case out of
        None \<Rightarrow> Inl (Status kInternal ''row_restriction: out parameter must be non-null'')
      | Some held \<Rightarrow>
     (let trimmed = trim_view restriction
      in if trimmed = [] then Inr held
         else if list_ex (StrContains trimmed) kBanned then Inl (only_equality restriction)
         else if list_ex (StrContains trimmed) kBannedOps then Inl (only_equality restriction)
         else case SplitOnTopLevelEquals trimmed of
           None \<Rightarrow>
             Inl (Status kInvalidArgument
               (''row_restriction: missing `=` (expected `<column> = <literal>`): '' @ restriction))
         | Some (lhs, rhs) \<Rightarrow>
        (case ExtractIdentifier lhs of
           Inl s \<Rightarrow> Inl s
         | Inr column_name \<Rightarrow>
        (case find_restricted_column 0 (columns schema) column_name of
           None \<Rightarrow>
             Inl (Status kInvalidArgument
               (''row_restriction: unknown column `'' @ column_name @
                ''` (table has no top-level column with that name)''))
         | Some (column_index, column) \<Rightarrow>
             if col_mode column = kRepeated then Inl (unsupported_column ''REPEATED'' column_name)
             else if col_type column = kArray \<or> col_type column = kStruct
               then Inl (unsupported_column ''ARRAY/STRUCT'' column_name)
             else let lit = trim_view rhs
                  in if lit = [] then
                       Inl (Status kInvalidArgument
                         (''row_restriction: missing literal after `=` (expected `<column> = <literal>`): '' @
                          restriction))
                     else lower_literal A column_name (col_type column) lit
                            (default_EqualityPredicate
                               \<lparr>ep_column := column_name, ep_column_index := column_index\<rparr>)))))"

subsection \<open>Accepted predicates are well typed\<close>

fun kind_type :: "PredicateKind \<Rightarrow> ColumnType" where
  "kind_type PInt64 = kInt64"
| "kind_type PBool = kBool"
| "kind_type PString = kString"

definition well_typed_predicate :: "TableSchema \<Rightarrow> EqualityPredicate \<Rightarrow> bool" where
  "well_typed_predicate schema p \<longleftrightarrow>
     (let i = ep_column_index p; cols = columns schema
      in i < length cols \<and> col_name (cols ! i) = ep_column p \<and>
         list_all (\<lambda>c. col_name c \<noteq> ep_column p) (take i cols) \<and>
         col_mode (cols ! i) \<noteq> kRepeated \<and> col_type (cols ! i) = kind_type (ep_kind p) \<and>
         in_int64 (ep_int64_value p))"

lemma find_restricted_column_Some:
  "find_restricted_column i cols name = Some (k, c) \<Longrightarrow>
     i \<le> k \<and> k - i < length cols \<and> cols ! (k - i) = c \<and> col_name c = name \<and>
     list_all (\<lambda>c. col_name c \<noteq> name) (take (k - i) cols)"
proof (induction cols arbitrary: i)
  case (Cons x cols)
  show ?case
  proof (cases "col_name x = name")
    case False
    with Cons.prems have "find_restricted_column (Suc i) cols name = Some (k, c)" by simp
    note ih = Cons.IH [OF this]
    then have "k - i = Suc (k - Suc i)" by linarith
    with ih False show ?thesis by auto
  qed (use Cons.prems in auto)
qed simp

lemma lower_literal_kind:
  assumes "absl_api A" "lower_literal A name ty lit p = Inr q" "in_int64 (ep_int64_value p)"
  shows "ty = kind_type (ep_kind q) \<and> ep_column q = ep_column p \<and>
         ep_column_index q = ep_column_index p \<and> in_int64 (ep_int64_value q)"
  using assms absl_api.atoi_range [OF assms(1)]
  by (cases ty)
    (auto simp: lower_literal_def ParseInt64Literal_def split: sum.splits option.splits if_splits)

lemma accepted_restriction:
  assumes "ParseRowRestriction A r sc (Some held) = Inr p" "trim_view r \<noteq> []"
  obtains name i c lit where "find_restricted_column 0 (columns sc) name = Some (i, c)"
    "col_mode c \<noteq> kRepeated"
    "lower_literal A name (col_type c) lit
       (default_EqualityPredicate\<lparr>ep_column := name, ep_column_index := i\<rparr>) = Inr p"
  using assms
  by (auto simp: ParseRowRestriction_def Let_def split: if_splits option.splits sum.splits prod.splits)

subsection \<open>Renderings that are read back\<close>

definition spaces :: "string \<Rightarrow> bool" where
  "spaces w \<longleftrightarrow> list_all ascii_isspace w"

text \<open>A column name as a client writes it: bare, or between backticks.\<close>

definition plain_char :: "char \<Rightarrow> bool" where
  "plain_char c \<longleftrightarrow> c \<noteq> CHR 0x27 \<and> c \<noteq> CHR 0x22 \<and> c \<noteq> CHR ''=''"

definition names_column :: "string \<Rightarrow> string \<Rightarrow> bool" where
  "names_column ident name \<longleftrightarrow>
     (ident = name \<and> name \<noteq> [] \<and> list_all IsBareIdentifierChar name \<and> \<not> ascii_isdigit (hd name)) \<or>
     (ident = ''`'' @ name @ ''`'' \<and> list_all (\<lambda>c. plain_char c \<and> c \<noteq> CHR ''`'') name)"

definition predicate_literal :: "EqualityPredicate \<Rightarrow> string" where
  "predicate_literal p =
     (case ep_kind p of
        PInt64 \<Rightarrow> dec (ep_int64_value p)
      | PBool \<Rightarrow> if ep_bool_value p then ''TRUE'' else ''FALSE''
      | PString \<Rightarrow> quoted (ep_string_value p))"

text \<open>The slots of the predicate that its kind does not select have their initial values.\<close>

definition canonical_predicate :: "EqualityPredicate \<Rightarrow> bool" where
  "canonical_predicate p \<longleftrightarrow>
     (ep_kind p \<noteq> PInt64 \<longrightarrow> ep_int64_value p = 0) \<and> (ep_kind p \<noteq> PBool \<longrightarrow> \<not> ep_bool_value p) \<and>
     (ep_kind p \<noteq> PString \<longrightarrow> ep_string_value p = [])"

definition has_banned :: "string \<Rightarrow> bool" where
  "has_banned s \<longleftrightarrow> list_ex (StrContains s) kBanned \<or> list_ex (StrContains s) kBannedOps"

lemma Trim_pad:
  assumes "spaces v" "spaces w" "m \<noteq> []" "\<not> ascii_isspace (hd m)" "\<not> ascii_isspace (last m)"
  shows "trim_view (v @ m @ w) = m"
proof -
  have "trim_left (v @ m @ w) = m @ w"
    using assms trim_left_spaces [of v "m @ w"]
    by (simp add: spaces_def list_all_iff trim_left_id)
  then show ?thesis
    using assms trim_right_spaces [of w m]
    by (simp add: trim_view_def spaces_def list_all_iff trim_right_id)
qed

lemma Trim_spaces: "spaces w \<Longrightarrow> trim_view w = []"
proof -
  assume "spaces w"
  then have "dropWhile ascii_isspace w = []" by (simp add: spaces_def list_all_iff)
  then show ?thesis by (simp only: trim_view_def trim_left_def) (simp add: trim_right_def)
qed

lemma split_equals_plain:
  "list_all plain_char u \<Longrightarrow> split_equals None b (u @ CHR ''='' # r) =
     (if b @ u = [] \<or> r = [] then None else Some (b @ u, r))"
  by (induction u arbitrary: b) (auto simp: plain_char_def)

lemma plain_space: "ascii_isspace c \<Longrightarrow> plain_char c"
  by (auto simp: plain_char_def)

lemma plain_ident: "IsBareIdentifierChar c \<Longrightarrow> plain_char c \<and> c \<noteq> CHR ''`'' \<and> \<not> ascii_isspace c"
proof (intro conjI notI)
  assume ident: "IsBareIdentifierChar c"
  show "plain_char c" using ident by (auto simp: plain_char_def IsBareIdentifierChar_def)
  show False if "c = CHR ''`''" using ident that by (simp add: IsBareIdentifierChar_def)
  show False if "ascii_isspace c"
    using ident that
    by (auto simp: IsBareIdentifierChar_def ascii_isspace_def ascii_isalnum_def ascii_isalpha_def
        ascii_isdigit_def char_code_Char)
qed

lemma names_column_plain:
  assumes "names_column ident name"
  shows "list_all plain_char ident" "ident \<noteq> []" "\<not> ascii_isspace (hd ident)" "\<not> ascii_isspace (last ident)"
proof -
  have bq: "plain_char CHR ''`''" "\<not> ascii_isspace CHR ''`''" by (simp_all add: plain_char_def)
  from assms consider
      (bare) "ident = name" "name \<noteq> []" "\<forall>c \<in> set name. IsBareIdentifierChar c"
    | (tick) "ident = ''`'' @ name @ ''`''" "\<forall>c \<in> set name. plain_char c"
    unfolding names_column_def list_all_iff by blast
  then have "list_all plain_char ident \<and> ident \<noteq> [] \<and> \<not> ascii_isspace (hd ident) \<and> \<not> ascii_isspace (last ident)"
  proof cases
    case bare
    then have "\<forall>c \<in> set name. plain_char c \<and> \<not> ascii_isspace c" using plain_ident by blast
    with bare show ?thesis by (simp add: list_all_iff)
  next
    case tick
    with bq show ?thesis by (simp add: list_all_iff)
  qed
  then show "list_all plain_char ident" "ident \<noteq> []" "\<not> ascii_isspace (hd ident)"
    "\<not> ascii_isspace (last ident)" by blast+
qed

lemma ExtractIdentifier_names:
  assumes "names_column ident name" "spaces w"
  shows "ExtractIdentifier (ident @ w) = Inr name"
proof -
  note np = names_column_plain [OF assms(1)]
  have tr: "trim_view (ident @ w) = ident" using Trim_pad [of "[]" w ident] assms np by (simp add: spaces_def)
  from assms(1) consider
      (bare) "ident = name" "name \<noteq> []" "list_all IsBareIdentifierChar name" "\<not> ascii_isdigit (hd name)"
    | (tick) "ident = ''`'' @ name @ ''`''" "list_all (\<lambda>c. plain_char c \<and> c \<noteq> CHR ''`'') name"
    unfolding names_column_def by blast
  then show ?thesis
  proof cases
    case bare
    then have h: "IsBareIdentifierChar (hd name)" by (simp add: list_all_iff)
    with bare have "ascii_isalpha (hd name) \<or> hd name = CHR ''_''" "hd name \<noteq> CHR ''`''"
      using plain_ident [OF h] by (auto simp: IsBareIdentifierChar_def ascii_isalnum_def)
    moreover have "takeWhile IsBareIdentifierChar name = name" "dropWhile IsBareIdentifierChar name = []"
      using bare by (simp_all add: list_all_iff)
    ultimately show ?thesis
      unfolding ExtractIdentifier_def tr Let_def using bare Trim_spaces [of "[]"]
      by (simp add: spaces_def del: dropWhile_eq_Nil_conv)
  next
    case tick
    then have "takeWhile (\<lambda>c. c \<noteq> CHR ''`'') (name @ ''`'') = name"
      "dropWhile (\<lambda>c. c \<noteq> CHR ''`'') (name @ ''`'') = ''`''"
      by (auto simp: list_all_iff intro: takeWhile_append_stop dropWhile_append_stop)
    then show ?thesis
      unfolding ExtractIdentifier_def tr Let_def using tick
      by (simp add: trim_view_def trim_left_def trim_right_def)
  qed
qed

lemma literal_body_double: "literal_body d (double_char d s) = Some s"
  by (induction s) (auto simp: double_char_def)

lemma ParseStringLiteral_quoted: "ParseStringLiteral (quoted s) = Inr s"
  by (simp add: ParseStringLiteral_def quoted_def EscapeStringLiteralInner_def butlast_append
      literal_body_double)

lemma ParseInt64Literal_dec:
  assumes "absl_api A" "in_int64 i"
  shows "ParseInt64Literal A (dec i) = Inr i"
proof -
  have "\<not> (c = CHR ''.'' \<or> c = CHR ''e'' \<or> c = CHR ''E'')" if "c \<in> set (dec i)" for c
    using dec_chars [OF that] by auto
  then show ?thesis
    using absl_api.atoi_dec [OF assms] by (auto simp: ParseInt64Literal_def)
qed

lemma ParseBoolLiteral_text: "ParseBoolLiteral (if b then ''TRUE'' else ''FALSE'') = Inr b"
  by (cases b) (simp_all add: ParseBoolLiteral_def EqualsIgnoreCase_def AsciiStrToLower_def)

lemma predicate_literal_ends:
  "predicate_literal p \<noteq> []" "\<not> ascii_isspace (hd (predicate_literal p))"
  "\<not> ascii_isspace (last (predicate_literal p))"
proof -
  have d: "\<not> ascii_isspace c" if "c \<in> set (dec i)" for c i
    using dec_chars [OF that] digit_not_space by auto
  have "\<not> ascii_isspace (hd (dec i))" "\<not> ascii_isspace (last (dec i))" for i
    using d hd_in_set last_in_set dec_not_Nil by blast+
  then show "predicate_literal p \<noteq> []" "\<not> ascii_isspace (hd (predicate_literal p))"
    "\<not> ascii_isspace (last (predicate_literal p))"
    by (simp_all add: predicate_literal_def quoted_def split: PredicateKind.split)
qed

lemma lower_literal_reads:
  assumes "absl_api A" "in_int64 (ep_int64_value p)" "canonical_predicate p"
  shows "lower_literal A name (kind_type (ep_kind p)) (predicate_literal p)
           (default_EqualityPredicate\<lparr>ep_column := ep_column p, ep_column_index := ep_column_index p\<rparr>) = Inr p"
  using assms ParseInt64Literal_dec [OF assms(1,2)] ParseBoolLiteral_text [of "ep_bool_value p"]
    ParseStringLiteral_quoted [of "ep_string_value p"]
  by (cases "ep_kind p"; cases p)
    (auto simp: lower_literal_def predicate_literal_def canonical_predicate_def
      default_EqualityPredicate_def)

lemma find_restricted_column_hit:
  "k < length cols \<Longrightarrow> col_name (cols ! k) = name \<Longrightarrow> list_all (\<lambda>c. col_name c \<noteq> name) (take k cols) \<Longrightarrow>
     find_restricted_column i cols name = Some (i + k, cols ! k)"
proof (induction cols arbitrary: i k)
  case (Cons c cols)
  then show ?case by (cases k) auto
qed simp

subsection \<open>Properties\<close>

text \<open>
  C33 (accepted restrictions are well typed). A restriction that is not blank and is accepted
  yields a predicate on the first column of the schema that has the name it gives; that column is
  neither repeated nor of a type other than the one the kind of the predicate selects, and an
  integer literal fits in 64 bits. A blank restriction leaves the predicate the caller passed as
  it was.
\<close>

theorem row_restriction_typed:
  assumes "absl_api A" "ParseRowRestriction A r sc (Some held) = Inr p"
  shows "if trim_view r = [] then p = held else well_typed_predicate sc p"
proof (cases "trim_view r = []")
  case True
  with assms(2) show ?thesis by (simp add: ParseRowRestriction_def)
next
  case False
  from accepted_restriction [OF assms(2) this] obtain name i c lit where
    col: "find_restricted_column 0 (columns sc) name = Some (i, c)" "col_mode c \<noteq> kRepeated"
    and low: "lower_literal A name (col_type c) lit
       (default_EqualityPredicate\<lparr>ep_column := name, ep_column_index := i\<rparr>) = Inr p" by metis
  have "in_int64 0" by (simp add: int64_defs)
  with lower_literal_kind [OF assms(1) low] find_restricted_column_Some [OF col(1)] col(2) False
  show ?thesis by (auto simp: well_typed_predicate_def default_EqualityPredicate_def)
qed

theorem row_restriction_typed_witness:
  "well_typed_predicate
     \<lparr>columns = [ColumnSchema ''name'' kString kNullable [] [] [], ColumnSchema ''id'' kInt64 kRequired [] [] []]\<rparr>
     \<lparr>ep_column = ''id'', ep_kind = PInt64, ep_column_index = 1, ep_int64_value = - 7,
      ep_bool_value = False, ep_string_value = []\<rparr>"
proof -
  let ?sc = "\<lparr>columns = [ColumnSchema ''name'' kString kNullable [] [] [], ColumnSchema ''id'' kInt64 kRequired [] [] []]\<rparr>"
  have "ParseRowRestriction absl_ref ''  id = -7 '' ?sc (Some default_EqualityPredicate) =
     Inr \<lparr>ep_column = ''id'', ep_kind = PInt64, ep_column_index = 1, ep_int64_value = - 7,
      ep_bool_value = False, ep_string_value = []\<rparr>"
    by code_simp
  from row_restriction_typed [OF absl_ref.absl_api_axioms this] show ?thesis
    by (simp add: trim_view_def trim_left_def trim_right_def)
qed

text \<open>
  C34 (row restrictions read back). A well typed predicate written as a column name, bare or in
  backticks, an equals sign and its literal, with any white space around the three, is read back as
  the same predicate, unless one of the rejected keywords or operators occurs anywhere in the text;
  then it is refused, also when the occurrence is inside the string literal.
\<close>

theorem row_restriction_roundtrip:
  assumes "absl_api A" "well_typed_predicate sc p" "canonical_predicate p"
    and "names_column ident (ep_column p)" "spaces w1" "spaces w2" "spaces w3" "spaces w4"
    and "core = ident @ w2 @ ''='' @ w3 @ predicate_literal p"
  shows "ParseRowRestriction A (w1 @ core @ w4) sc (Some held) =
     (if has_banned core then Inl (only_equality (w1 @ core @ w4)) else Inr p)"
proof -
  let ?i = "ep_column_index p" and ?lit = "predicate_literal p"
  note np = names_column_plain [OF assms(4)] and lit = predicate_literal_ends [of p]
  from np lit assms(9) have ends: "core \<noteq> []" "\<not> ascii_isspace (hd core)" "\<not> ascii_isspace (last core)"
    by simp_all
  have trim: "trim_view (w1 @ core @ w4) = core" by (rule Trim_pad [OF assms(5,8) ends])
  have trim_lit: "trim_view (w3 @ ?lit) = ?lit" using Trim_pad [of w3 "[]" ?lit] assms(7) lit by (simp add: spaces_def)
  have plain: "list_all plain_char (ident @ w2)"
    using np(1) assms(6) plain_space by (auto simp: list_all_iff spaces_def)
  have split: "SplitOnTopLevelEquals core = Some (ident @ w2, w3 @ ?lit)"
    using split_equals_plain [OF plain, of "[]" "w3 @ ?lit"] np(2) lit(1)
    by (simp add: SplitOnTopLevelEquals_def assms(9))
  from assms(2) have col: "find_restricted_column 0 (columns sc) (ep_column p) = Some (?i, columns sc ! ?i)"
      "col_mode (columns sc ! ?i) \<noteq> kRepeated" "col_type (columns sc ! ?i) = kind_type (ep_kind p)"
      "in_int64 (ep_int64_value p)"
    by (auto simp: well_typed_predicate_def Let_def find_restricted_column_hit)
  have scalar: "kind_type k \<noteq> kArray \<and> kind_type k \<noteq> kStruct" for k by (cases k) auto
  show ?thesis
    using ends(1) col(1,2) lit(1) scalar lower_literal_reads [OF assms(1) col(4) assms(3)]
    by (auto simp: ParseRowRestriction_def Let_def trim split trim_lit has_banned_def col(3)
        ExtractIdentifier_names [OF assms(4,6)])
qed

theorem row_restriction_roundtrip_witness:
  "\<exists>text. text = ''`dish` = '' @ [CHR 0x27] @ ''salt and pepper'' @ [CHR 0x27] \<and>
     ParseRowRestriction absl_ref text
       \<lparr>columns = [ColumnSchema ''dish'' kString kNullable [] [] []]\<rparr> (Some default_EqualityPredicate) =
     Inl (only_equality text)"
proof -
  let ?p = "default_EqualityPredicate\<lparr>ep_column := ''dish'', ep_string_value := ''salt and pepper''\<rparr>"
  let ?sc = "\<lparr>columns = [ColumnSchema ''dish'' kString kNullable [] [] []]\<rparr>"
  have hyp: "well_typed_predicate ?sc ?p" "canonical_predicate ?p" "names_column ''`dish`'' (ep_column ?p)"
    "spaces []" "spaces '' ''" "has_banned (''`dish`'' @ '' '' @ ''='' @ '' '' @ predicate_literal ?p)"
    by code_simp+
  have "''`dish`'' @ '' '' @ ''='' @ '' '' @ predicate_literal ?p =
      ''`dish` = '' @ [CHR 0x27] @ ''salt and pepper'' @ [CHR 0x27]"
    by code_simp
  with row_restriction_roundtrip [OF absl_ref.absl_api_axioms hyp(1,2,3,4,5,5,4) refl, of default_EqualityPredicate] hyp(6)
  show ?thesis by simp
qed

end
