(* ===== verification/Frame_Stack.thy ===== *)
theory Frame_Stack
  imports Prelude
begin

section \<open>Variable frames: \<open>backend/engine/semantic/frame_stack.cc\<close>\<close>

text \<open>
  The environment of script variables and of routine arguments: a stack of frames, each a map from
  a lower-cased name to a value. The vector \<open>frames_\<close> is a list with the innermost frame first, so
  that the reverse iterations of the source are recursions on the list; a frame is a map, because
  the iteration order of \<open>absl::flat_hash_map\<close> is unspecified. The values are those of the
  semantic executor and are a type variable here.

  The locale \<open>variable_scope\<close> states what the users of the stack rely on, without its
  representation: reading, updating and declaring a name, and opening and closing a frame. It is
  interpreted on the model of the class. The lemmas show that running any balanced sequence of
  operations inside a frame changes no outer binding that the sequence does not assign, and that
  the invariant of the stack (at least one frame, lower-cased names) holds at every point.
\<close>

subsection \<open>The class\<close>

type_synonym 'v Frame = "string \<rightharpoonup> 'v"

type_synonym 'v FrameStack = "'v Frame list"

definition Canonicalize :: "string \<Rightarrow> string" where
  "Canonicalize name = AsciiStrToLower name"

definition new_FrameStack :: "'v FrameStack" where
  "new_FrameStack = [Map.empty]"

definition PushFrame :: "'v FrameStack \<Rightarrow> 'v FrameStack" where
  "PushFrame frames = Map.empty # frames"

definition PopFrame :: "'v FrameStack \<Rightarrow> unit StatusOr \<times> 'v FrameStack" where
  "PopFrame frames =
     (if length frames \<le> 1 then
        (Inl (Status kFailedPrecondition
           ''semantic::FrameStack: cannot pop the outer frame; PushFrame / PopFrame must be balanced''),
         frames)
      else (Inr (), tl frames))"

definition Declare :: "'v FrameStack \<Rightarrow> string \<Rightarrow> 'v \<Rightarrow> unit StatusOr \<times> 'v FrameStack" where
  "Declare frames name value =
     (case frames of
        [] \<Rightarrow> (Inl (Status kInternal ''semantic::FrameStack::Declare: no frame on the stack''), frames)
      | innermost # outer \<Rightarrow>
          (let key = Canonicalize name
           in if innermost key \<noteq> None then
                (Inl (Status kAlreadyExists
                   (''semantic::FrameStack: name already declared in this frame: '' @ name)), frames)
              else (Inr (), innermost(key \<mapsto> value) # outer)))"

definition not_declared :: "string \<Rightarrow> Status" where
  "not_declared name = Status kNotFound (''semantic::FrameStack: name not declared: '' @ name)"

fun set_key :: "'v FrameStack \<Rightarrow> string \<Rightarrow> 'v \<Rightarrow> 'v FrameStack option" where
  "set_key [] key value = None"
| "set_key (f # frames) key value =
     (case f key of
        Some old \<Rightarrow> Some (f(key \<mapsto> value) # frames)
      | None \<Rightarrow> map_option (Cons f) (set_key frames key value))"

definition SetVar :: "'v FrameStack \<Rightarrow> string \<Rightarrow> 'v \<Rightarrow> unit StatusOr \<times> 'v FrameStack" where
  "SetVar frames name value =
     (case set_key frames (Canonicalize name) value of
        Some frames' \<Rightarrow> (Inr (), frames')
      | None \<Rightarrow> (Inl (not_declared name), frames))"

fun lookup_key :: "'v FrameStack \<Rightarrow> string \<Rightarrow> 'v option" where
  "lookup_key [] key = None"
| "lookup_key (f # frames) key = (case f key of Some v \<Rightarrow> Some v | None \<Rightarrow> lookup_key frames key)"

definition Lookup :: "'v FrameStack \<Rightarrow> string \<Rightarrow> 'v StatusOr" where
  "Lookup frames name =
     (case lookup_key frames (Canonicalize name) of
        Some v \<Rightarrow> Inr v
      | None \<Rightarrow> Inl (not_declared name))"

definition Has :: "'v FrameStack \<Rightarrow> string \<Rightarrow> bool" where
  "Has frames name = list_ex (\<lambda>f. f (Canonicalize name) \<noteq> None) frames"

text \<open>\<open>try_emplace\<close> keeps the entry that is already there: the entries of \<open>out\<close> win.\<close>

definition VisibleBindings :: "'v FrameStack \<Rightarrow> 'v Frame" where
  "VisibleBindings frames = foldl (\<lambda>out f. f ++ out) Map.empty frames"

subsection \<open>Resolution\<close>

lemma visible_fold: "foldl (\<lambda>out f. f ++ out) out frames key =
    (case out key of Some v \<Rightarrow> Some v | None \<Rightarrow> lookup_key frames key)"
  by (induction frames arbitrary: out) (auto simp: map_add_def split: option.splits)

lemma VisibleBindings_lookup: "VisibleBindings frames key = lookup_key frames key"
  by (simp add: VisibleBindings_def visible_fold)

lemma Has_lookup: "Has frames name \<longleftrightarrow> lookup_key frames (Canonicalize name) \<noteq> None"
  unfolding Has_def by (induction frames) (auto split: option.splits)

lemma lookup_set_key:
  "set_key frames key v = Some frames' \<Longrightarrow>
     lookup_key frames' = (lookup_key frames)(key \<mapsto> v) \<and> map dom frames' = map dom frames"
proof (induction frames arbitrary: frames')
  case (Cons f frames)
  show ?case
  proof (cases "f key")
    case None
    with Cons.prems obtain fs where fs: "set_key frames key v = Some fs" "frames' = f # fs" by auto
    with None Cons.IH [OF fs(1)] show ?thesis by (auto simp: fun_eq_iff split: option.splits)
  next
    case (Some old)
    with Cons.prems show ?thesis by (auto simp: fun_eq_iff split: option.splits)
  qed
qed simp

lemma set_key_None: "set_key frames key v = None \<longleftrightarrow> lookup_key frames key = None"
  by (induction frames) (auto split: option.splits)

lemma Canonicalize_idem [simp]: "Canonicalize (Canonicalize name) = Canonicalize name"
  by (simp add: Canonicalize_def)

text \<open>The innermost frame alone decides a declaration.\<close>

definition declared_here :: "'v FrameStack \<Rightarrow> string \<Rightarrow> bool" where
  "declared_here frames name \<longleftrightarrow> (case frames of [] \<Rightarrow> False | f # _ \<Rightarrow> f (Canonicalize name) \<noteq> None)"

subsection \<open>The scope interface\<close>

locale variable_scope =
  fixes lookup :: "'s \<Rightarrow> string \<Rightarrow> 'v StatusOr"
    and declare_var :: "'s \<Rightarrow> string \<Rightarrow> 'v \<Rightarrow> unit StatusOr \<times> 's"
    and set_var :: "'s \<Rightarrow> string \<Rightarrow> 'v \<Rightarrow> unit StatusOr \<times> 's"
    and canon :: "string \<Rightarrow> string"
  assumes lookup_canon: "canon a = canon b \<Longrightarrow> lookup s a = Inr v \<Longrightarrow> lookup s b = Inr v"
    and set_read: "set_var s a v = (Inr u, s') \<Longrightarrow> lookup s' a = Inr v"
    and set_frame: "set_var s a v = (r, s') \<Longrightarrow> canon a \<noteq> canon b \<Longrightarrow> lookup s' b = lookup s b"
    and set_error: "set_var s a v = (Inl e, s') \<Longrightarrow> s' = s"
    and set_ok_iff: "(\<exists>s'. set_var s a v = (Inr (), s')) \<longleftrightarrow> (\<exists>w. lookup s a = Inr w)"
    and declare_read: "declare_var s a v = (Inr u, s') \<Longrightarrow> lookup s' a = Inr v"
    and declare_frame: "declare_var s a v = (r, s') \<Longrightarrow> canon a \<noteq> canon b \<Longrightarrow> lookup s' b = lookup s b"
    and declare_error: "declare_var s a v = (Inl e, s') \<Longrightarrow> s' = s"
begin

text \<open>Every spelling of a name reads what the last assignment through any spelling wrote.\<close>

lemma set_reads_any_case:
  "set_var s a v = (Inr u, s') \<Longrightarrow> canon a = canon b \<Longrightarrow> lookup s' b = Inr v"
  using lookup_canon set_read by blast

lemma set_after_declare:
  "declare_var s a v = (Inr u, s') \<Longrightarrow> \<exists>s''. set_var s' a w = (Inr (), s'') \<and> lookup s'' a = Inr w"
  using declare_read set_ok_iff set_read by blast

fun assign_all :: "'s \<Rightarrow> (string \<times> 'v) list \<Rightarrow> unit StatusOr \<times> 's" where
  "assign_all s [] = (Inr (), s)"
| "assign_all s ((a, v) # as) =
     (case set_var s a v of (Inl e, s') \<Rightarrow> (Inl e, s') | (Inr _, s') \<Rightarrow> assign_all s' as)"

lemma assign_all_frame:
  "assign_all s as = (r, s') \<Longrightarrow> canon b \<notin> (canon \<circ> fst) ` set as \<Longrightarrow> lookup s' b = lookup s b"
proof (induction s as rule: assign_all.induct)
  case (2 s a v as)
  show ?case
  proof (cases "set_var s a v")
    case (Pair q s1)
    have one: "lookup s1 b = lookup s b" using set_frame [OF Pair] 2(3) by auto
    show ?thesis
    proof (cases q)
      case (Inl e)
      with 2(2) Pair one show ?thesis by simp
    next
      case (Inr u)
      with 2 Pair one show ?thesis by auto
    qed
  qed
qed simp

lemma assign_all_reads:
  "assign_all s as = (Inr u, s') \<Longrightarrow> distinct (map (canon \<circ> fst) as) \<Longrightarrow> (a, v) \<in> set as \<Longrightarrow>
     lookup s' a = Inr v"
proof (induction s as rule: assign_all.induct)
  case (2 s b w as)
  from 2(2) obtain s1 where s1: "set_var s b w = (Inr (), s1)" "assign_all s1 as = (Inr u, s')"
    by (auto split: prod.splits sum.splits)
  show ?case
  proof (cases "(a, v) \<in> set as")
    case True
    with 2 s1 show ?thesis by auto
  next
    case False
    with 2(4) have ab: "a = b" "v = w" by auto
    with 2(3) have "canon a \<notin> (canon \<circ> fst) ` set as" by simp
    from assign_all_frame [OF s1(2) this] set_read [OF s1(1)] ab show ?thesis by simp
  qed
qed simp

end

interpretation fs: variable_scope Lookup Declare SetVar Canonicalize
proof unfold_locales
  fix frames frames' :: "'v FrameStack" and a b :: string and v :: 'v and r u e
  show "Lookup frames b = Inr v" if "Canonicalize a = Canonicalize b" "Lookup frames a = Inr v"
    using that by (auto simp: Lookup_def split: option.splits)
  show "Lookup frames' a = Inr v" if "SetVar frames a v = (Inr u, frames')"
    using that lookup_set_key [of frames "Canonicalize a" v frames']
    by (auto simp: SetVar_def Lookup_def split: option.splits)
  show "Lookup frames' b = Lookup frames b"
    if "SetVar frames a v = (r, frames')" "Canonicalize a \<noteq> Canonicalize b"
    using that lookup_set_key [of frames "Canonicalize a" v frames']
    by (auto simp: SetVar_def Lookup_def split: option.splits)
  show "frames' = frames" if "SetVar frames a v = (Inl e, frames')"
    using that by (auto simp: SetVar_def split: option.splits)
  show "(\<exists>s'. SetVar frames a v = (Inr (), s')) \<longleftrightarrow> (\<exists>w. Lookup frames a = Inr w)"
    using set_key_None [of frames "Canonicalize a" v]
    by (auto simp: SetVar_def Lookup_def split: option.splits)
  show "Lookup frames' a = Inr v" if "Declare frames a v = (Inr u, frames')"
    using that by (auto simp: Declare_def Lookup_def Let_def split: list.splits if_splits)
  show "Lookup frames' b = Lookup frames b"
    if "Declare frames a v = (r, frames')" "Canonicalize a \<noteq> Canonicalize b"
    using that by (auto simp: Declare_def Lookup_def Let_def split: list.splits if_splits)
  show "frames' = frames" if "Declare frames a v = (Inl e, frames')"
    using that by (auto simp: Declare_def Let_def split: list.splits if_splits)
qed

subsection \<open>Blocks\<close>

text \<open>
  The operations a block of statements performs on the stack, with their statuses ignored, and the
  sequences that close exactly the frames they open.
\<close>

datatype 'v FrameOp = OpPush | OpPop | OpDeclare string 'v | OpSet string 'v

fun apply_op :: "'v FrameStack \<Rightarrow> 'v FrameOp \<Rightarrow> 'v FrameStack" where
  "apply_op frames OpPush = PushFrame frames"
| "apply_op frames OpPop = snd (PopFrame frames)"
| "apply_op frames (OpDeclare name v) = snd (Declare frames name v)"
| "apply_op frames (OpSet name v) = snd (SetVar frames name v)"

fun balanced_ops :: "nat \<Rightarrow> 'v FrameOp list \<Rightarrow> bool" where
  "balanced_ops k [] = (k = 0)"
| "balanced_ops k (OpPush # ops) = balanced_ops (Suc k) ops"
| "balanced_ops k (OpPop # ops) = (k > 0 \<and> balanced_ops (k - 1) ops)"
| "balanced_ops k (OpDeclare name v # ops) = balanced_ops k ops"
| "balanced_ops k (OpSet name v # ops) = balanced_ops k ops"

fun assigned :: "'v FrameOp list \<Rightarrow> string set" where
  "assigned [] = {}"
| "assigned (OpSet name v # ops) = insert (Canonicalize name) (assigned ops)"
| "assigned (op # ops) = assigned ops"

text \<open>Frames that bind the same names, and the same values outside \<open>K\<close>.\<close>

definition same_frame :: "string set \<Rightarrow> 'v Frame \<Rightarrow> 'v Frame \<Rightarrow> bool" where
  "same_frame K f g \<longleftrightarrow> dom f = dom g \<and> (\<forall>k. k \<notin> K \<longrightarrow> f k = g k)"

abbreviation same_frames :: "string set \<Rightarrow> 'v FrameStack \<Rightarrow> 'v FrameStack \<Rightarrow> bool" where
  "same_frames K \<equiv> list_all2 (same_frame K)"

lemma same_frames_refl: "same_frames K fs fs"
  by (simp add: list_all2_same same_frame_def)

lemma same_frames_trans:
  assumes "same_frames K fs gs" "same_frames L gs hs" "K \<subseteq> M" "L \<subseteq> M"
  shows "same_frames M fs hs"
proof (rule list_all2_trans [OF _ assms(1,2)])
  fix f g h :: "'a Frame"
  assume "same_frame K f g" "same_frame L g h"
  moreover have "k \<notin> K" "k \<notin> L" if "k \<notin> M" for k using that assms(3,4) by auto
  ultimately show "same_frame M f h" by (simp add: same_frame_def)
qed

lemma same_frames_lookup: "same_frames K fs gs \<Longrightarrow> k \<notin> K \<Longrightarrow> lookup_key fs k = lookup_key gs k"
  by (induction fs gs rule: list_all2_induct) (auto simp: same_frame_def split: option.split)

lemma set_key_same: "set_key fs key v = Some gs \<Longrightarrow> same_frames {key} fs gs"
proof (induction fs arbitrary: gs)
  case (Cons f fs)
  have one: "same_frame {key} f f" "f key = Some w \<Longrightarrow> same_frame {key} f (f(key \<mapsto> v))" for w
    by (auto simp: same_frame_def split: if_splits)
  from Cons one same_frames_refl [of "{key}" fs] show ?case by (cases "f key") auto
qed simp

lemma SetVar_same: "same_frames {Canonicalize name} fs (snd (SetVar fs name v))"
  by (auto simp: SetVar_def same_frames_refl set_key_same split: option.splits)

lemma run_balanced:
  assumes "balanced_ops k ops" "length inner = Suc k"
  shows "\<exists>f frames'. foldl apply_op (inner @ frames) ops = f # frames' \<and> same_frames (assigned ops) frames frames'"
  using assms
proof (induction k ops arbitrary: inner frames rule: balanced_ops.induct)
  case (1 k)
  then show ?case by (cases inner) (auto simp: same_frames_refl)
next
  case (2 k ops)
  then show ?case using "2.IH" [of "Map.empty # inner" frames] by (simp add: PushFrame_def)
next
  case (3 k ops)
  then obtain f g inner' where "inner = f # g # inner'" by (auto simp: length_Suc_conv gr0_conv_Suc)
  with 3 show ?case using "3.IH" [of "g # inner'" frames] by (simp add: PopFrame_def)
next
  case (4 k name v ops)
  then obtain f inner' where "inner = f # inner'" by (cases inner) auto
  with 4 show ?case
    using "4.IH" [of "f # inner'" frames] "4.IH" [of "f(Canonicalize name \<mapsto> v) # inner'" frames]
    by (simp add: Declare_def Let_def)
next
  case (5 k name v ops)
  define fs where "fs = snd (SetVar (inner @ frames) name v)"
  from SetVar_same [of name "inner @ frames" v] obtain inner1 frames1 where
    split: "fs = inner1 @ frames1" "length inner1 = length inner" "same_frames {Canonicalize name} frames frames1"
    unfolding fs_def [symmetric] by (auto simp: list_all2_append1)
  from "5.IH" [of inner1 frames1] "5.prems" split(1,2) obtain f frames' where
    "foldl apply_op fs ops = f # frames'" "same_frames (assigned ops) frames1 frames'"
    by auto
  with split show ?case
    using same_frames_trans [of "{Canonicalize name}" frames frames1 "assigned ops" frames'
        "assigned (OpSet name v # ops)"]
    by (auto simp: fs_def)
qed

text \<open>The invariant of the class: a frame to declare into, and lower-cased names in every frame.\<close>

definition frames_ok :: "'v FrameStack \<Rightarrow> bool" where
  "frames_ok fs \<longleftrightarrow> fs \<noteq> [] \<and> (\<forall>f \<in> set fs. \<forall>k \<in> dom f. Canonicalize k = k)"

lemma frames_ok_new [simp]: "frames_ok new_FrameStack"
  by (simp add: frames_ok_def new_FrameStack_def)

lemma frames_ok_doms: "map dom gs = map dom fs \<Longrightarrow> frames_ok fs \<Longrightarrow> frames_ok gs"
  unfolding frames_ok_def by (metis (no_types, lifting) imageE imageI list.map_disc_iff list.set_map)

lemma frames_ok_op: "frames_ok fs \<Longrightarrow> frames_ok (apply_op fs op)"
proof (cases op)
  case (OpSet name v)
  then show "frames_ok fs \<Longrightarrow> frames_ok (apply_op fs op)"
    using frames_ok_doms lookup_set_key [of fs "Canonicalize name" v]
    by (auto simp: SetVar_def split: option.splits)
next
  case OpPop
  then show "frames_ok fs \<Longrightarrow> frames_ok (apply_op fs op)"
    by (cases fs) (auto simp: PopFrame_def frames_ok_def)
next
  case (OpDeclare name v)
  show "frames_ok fs \<Longrightarrow> frames_ok (apply_op fs op)"
    by (cases fs) (auto simp: OpDeclare Declare_def Let_def frames_ok_def dom_def)
qed (auto simp: PushFrame_def frames_ok_def)

lemma frames_ok_run: "frames_ok fs \<Longrightarrow> frames_ok (foldl apply_op fs ops)"
  by (induction ops arbitrary: fs) (auto simp: frames_ok_op)

subsection \<open>Properties\<close>

text \<open>
  C35 (block scoping). Open a frame, run any sequence of declarations, assignments and balanced
  inner blocks, and close the frame: closing succeeds, every outer frame binds the names it bound
  before, a variable that was not assigned to reads as before, in every spelling of its name, and
  the stack keeps its invariant. Declarations of the block are gone.
\<close>

theorem block_scoping:
  assumes "frames_ok fs" "balanced_ops 0 ops"
  shows "\<exists>fs'. PopFrame (foldl apply_op (PushFrame fs) ops) = (Inr (), fs') \<and> map dom fs' = map dom fs \<and>
     frames_ok fs' \<and> (\<forall>name. Canonicalize name \<notin> assigned ops \<longrightarrow> Lookup fs' name = Lookup fs name)"
proof -
  from run_balanced [OF assms(2), of "[Map.empty]" fs] obtain f fs' where
    run: "foldl apply_op (PushFrame fs) ops = f # fs'" and same: "same_frames (assigned ops) fs fs'"
    by (auto simp: PushFrame_def)
  from same have doms: "map dom fs' = map dom fs"
    by (induction fs fs' rule: list_all2_induct) (auto simp: same_frame_def)
  with assms(1) have "fs' \<noteq> []" by (auto simp: frames_ok_def)
  with run have "PopFrame (foldl apply_op (PushFrame fs) ops) = (Inr (), fs')" by (cases fs') (auto simp: PopFrame_def)
  moreover have "Lookup fs' name = Lookup fs name" if "Canonicalize name \<notin> assigned ops" for name
    using same_frames_lookup [OF same that] by (simp add: Lookup_def)
  ultimately show ?thesis using doms frames_ok_doms [OF doms assms(1)] by blast
qed

theorem block_scoping_witness:
  "\<exists>fs'. PopFrame (foldl apply_op (PushFrame [[''x'' \<mapsto> 1, ''y'' \<mapsto> 2]])
       [OpDeclare ''X'' 5, OpSet ''x'' 6, OpPush, OpSet ''Y'' (7::nat), OpPop]) = (Inr (), fs') \<and>
     map dom fs' = map dom [[''x'' \<mapsto> 1::nat, ''y'' \<mapsto> 2]] \<and> Lookup fs' ''z'' = Lookup [[''x'' \<mapsto> 1, ''y'' \<mapsto> 2]] ''z''"
proof -
  have ok: "frames_ok [[''x'' \<mapsto> 1::nat, ''y'' \<mapsto> 2]]"
    by (simp add: frames_ok_def Canonicalize_def AsciiStrToLower_def)
  show ?thesis
    using block_scoping [OF ok, of "[OpDeclare ''X'' 5, OpSet ''x'' 6, OpPush, OpSet ''Y'' 7, OpPop]"]
    by (auto simp: Canonicalize_def AsciiStrToLower_def)
qed

end
