(* ===== verification/Script_Text.thy ===== *)
theory Script_Text
  imports Prelude
begin

section \<open>Script text: the statement scanners of the script executor\<close>

text \<open>
  The text functions of \<open>backend/engine/coordinator\<close> that cut a script into statements before an
  analyzer sees it: \<open>script_executor.cc\<close> (\<open>SplitSemicolonStatements\<close>),
  \<open>script_executor_internal.cc\<close>, \<open>script_executor_set.cc\<close> and the wrapping of
  \<open>script_googlesql_runner.cc\<close>. Each loop over the characters is a recursion on the rest of the
  text. The lemmas show that splitting undoes joining when every statement closes its quotes, that
  the chunk taken from the front of a script is the statement up to its semicolon, how many bytes
  it consumes, and which texts the functions get wrong.
\<close>

definition StripAsciiWhitespace :: "string \<Rightarrow> string" where
  "StripAsciiWhitespace s = trim_right (trim_left s)"

definition StartsWithIgnoreCase :: "string \<Rightarrow> string \<Rightarrow> bool" where
  "StartsWithIgnoreCase s p \<longleftrightarrow> EqualsIgnoreCase (take (length p) s) p"

definition EndsWithIgnoreCase :: "string \<Rightarrow> string \<Rightarrow> bool" where
  "EndsWithIgnoreCase s p \<longleftrightarrow> length p \<le> length s \<and> EqualsIgnoreCase (drop (length s - length p) s) p"

subsection \<open>Splitting\<close>

definition add_statement :: "string \<Rightarrow> string list \<Rightarrow> string list" where
  "add_statement current out =
     (let stmt = StripAsciiWhitespace current in if stmt = [] then out else stmt # out)"

fun split_statements :: "bool \<Rightarrow> string \<Rightarrow> string \<Rightarrow> string list" where
  "split_statements in_quote current [] = add_statement current []"
| "split_statements in_quote current (c # s) =
     (if c = CHR 0x27 then split_statements (\<not> in_quote) (current @ [c]) s
      else if c = CHR '';'' \<and> \<not> in_quote then add_statement current (split_statements in_quote [] s)
      else split_statements in_quote (current @ [c]) s)"

definition SplitSemicolonStatements :: "string \<Rightarrow> string list" where
  "SplitSemicolonStatements sql = split_statements False [] sql"

text \<open>The position of the first semicolon outside single quotes.\<close>

fun first_semicolon :: "bool \<Rightarrow> string \<Rightarrow> nat option" where
  "first_semicolon in_quote [] = None"
| "first_semicolon in_quote (c # s) =
     (if c = CHR 0x27 then map_option Suc (first_semicolon (\<not> in_quote) s)
      else if c = CHR '';'' \<and> \<not> in_quote then Some 0
      else map_option Suc (first_semicolon in_quote s))"

definition LeadingScriptStatement :: "string \<Rightarrow> string" where
  "LeadingScriptStatement sql =
     (case first_semicolon False sql of
        Some i \<Rightarrow> StripAsciiWhitespace (take i sql)
      | None \<Rightarrow> StripAsciiWhitespace sql)"

record StatementChunk =
  chunk_sql :: string
  consumed_bytes :: nat

definition ExtractFirstStatementChunk :: "string \<Rightarrow> StatementChunk" where
  "ExtractFirstStatementChunk sql =
     (let start = length (takeWhile ascii_isspace sql)
      in case first_semicolon False (drop start sql) of
           Some i \<Rightarrow>
             \<lparr>chunk_sql = StripAsciiWhitespace (take i (drop start sql)), consumed_bytes = start + i + 1\<rparr>
         | None \<Rightarrow>
             \<lparr>chunk_sql = StripAsciiWhitespace (drop start sql), consumed_bytes = length sql - start\<rparr>)"

lemma length_StripAsciiWhitespace: "length (StripAsciiWhitespace s) \<le> length s"
proof -
  have "length (trim_right t) \<le> length t" for t
    unfolding trim_right_def by (metis length_dropWhile_le length_rev)
  moreover have "length (trim_left s) \<le> length s"
    unfolding trim_left_def by (rule length_dropWhile_le)
  ultimately show ?thesis unfolding StripAsciiWhitespace_def using order_trans by blast
qed

function SkipLeadingLineComments :: "string \<Rightarrow> string" where
  "SkipLeadingLineComments sql =
     (let s = StripAsciiWhitespace sql
      in if prefix ''--'' s then
           (if CHR 0x0A \<notin> set s then []
            else SkipLeadingLineComments (tl (dropWhile (\<lambda>c. c \<noteq> CHR 0x0A) s)))
         else s)"
  by auto
termination
proof (relation "measure length")
  fix sql s :: string
  assume s: "s = StripAsciiWhitespace sql" "prefix ''--'' s"
  then obtain r where r: "s = CHR ''-'' # r" by (auto simp: prefix_def)
  have "length (tl (dropWhile (\<lambda>c. c \<noteq> CHR 0x0A) s)) \<le> length r"
    unfolding r using length_dropWhile_le [of "\<lambda>c. c \<noteq> CHR 0x0A" r] by simp
  moreover have "length s \<le> length sql" unfolding s by (rule length_StripAsciiWhitespace)
  ultimately show "(tl (dropWhile (\<lambda>c. c \<noteq> CHR 0x0A) s), sql) \<in> measure length" by (simp add: r)
qed simp

declare SkipLeadingLineComments.simps [simp del]

subsection \<open>Blocks and keywords\<close>

definition ScriptKeywordPresent :: "string \<Rightarrow> string \<Rightarrow> bool" where
  "ScriptKeywordPresent sql keyword = StrContains (AsciiStrToUpper sql) keyword"

definition ScriptUsesCreateConstantLowering :: "string \<Rightarrow> bool" where
  "ScriptUsesCreateConstantLowering sql = ScriptKeywordPresent sql ''CREATE CONSTANT''"

definition StripBeginEnd :: "string \<Rightarrow> string" where
  "StripBeginEnd sql =
     (let trimmed = StripAsciiWhitespace sql;
          body = (if StartsWithIgnoreCase trimmed ''BEGIN'' then StripAsciiWhitespace (drop 5 trimmed) else trimmed)
      in if EndsWithIgnoreCase body ''END'' then
           (let head = rev (dropWhile (\<lambda>c. c = CHR '';'' \<or> c = CHR '' '') (rev body)); pos = length head
            in if pos \<ge> 3 \<and> EqualsIgnoreCase (take 3 (drop (pos - 3) body)) ''END''
               then StripAsciiWhitespace (take (pos - 3) body)
               else body)
         else body)"

definition after_newline :: "string \<Rightarrow> string" where
  "after_newline keyword = CHR 0x0A # keyword"

definition ScriptNeedsGoogleSqlExecutor :: "string \<Rightarrow> bool" where
  "ScriptNeedsGoogleSqlExecutor sql \<longleftrightarrow>
     (let trimmed = StripAsciiWhitespace sql
      in list_ex (StartsWithIgnoreCase trimmed)
           [''IF '', ''WHILE '', ''LOOP '', ''REPEAT'', ''FOR '', ''RAISE '', ''EXECUTE IMMEDIATE'', ''EXCEPTION'']) \<or>
     ScriptKeywordPresent sql '' IF '' \<or> ScriptKeywordPresent sql (after_newline ''IF '') \<or>
     ScriptKeywordPresent sql '' WHILE '' \<or> ScriptKeywordPresent sql (after_newline ''WHILE '') \<or>
     ScriptKeywordPresent sql '' LOOP '' \<or> ScriptKeywordPresent sql (after_newline ''LOOP '') \<or>
     ScriptKeywordPresent sql '' REPEAT'' \<or> ScriptKeywordPresent sql (after_newline ''REPEAT'') \<or>
     (ScriptKeywordPresent sql '' FOR '' \<and> ScriptKeywordPresent sql '' IN '') \<or>
     (ScriptKeywordPresent sql (after_newline ''FOR '') \<and> ScriptKeywordPresent sql '' IN '') \<or>
     ScriptKeywordPresent sql ''EXCEPTION'' \<or>
     ScriptKeywordPresent sql '' RAISE '' \<or> ScriptKeywordPresent sql (after_newline ''RAISE '') \<or>
     ScriptKeywordPresent sql ''EXECUTE IMMEDIATE''"

definition WrapScriptInBeginEnd :: "string \<Rightarrow> string" where
  "WrapScriptInBeginEnd sql =
     (let trimmed = StripAsciiWhitespace sql
      in if StartsWithIgnoreCase trimmed ''BEGIN'' then trimmed
         else if StartsWithIgnoreCase trimmed ''EXECUTE IMMEDIATE'' then trimmed
         else ''BEGIN'' @ [CHR 0x0A] @ trimmed @ [CHR 0x0A] @ ''END;'')"

subsection \<open>Statements that close their quotes\<close>

text \<open>\<open>closed q s\<close>: read from quote state \<open>q\<close>, the text ends outside quotes and has no semicolon outside.\<close>

fun closed :: "bool \<Rightarrow> string \<Rightarrow> bool" where
  "closed q [] = (\<not> q)"
| "closed q (c # s) =
     (if c = CHR 0x27 then closed (\<not> q) s else (c \<noteq> CHR '';'' \<or> q) \<and> closed q s)"

definition statement_text :: "string \<Rightarrow> bool" where
  "statement_text s \<longleftrightarrow>
     s \<noteq> [] \<and> closed False s \<and> \<not> ascii_isspace (hd s) \<and> \<not> ascii_isspace (last s)"

lemma Strip_pad:
  assumes "\<forall>c \<in> set v. ascii_isspace c" "\<forall>c \<in> set w. ascii_isspace c" "m \<noteq> []"
    "\<not> ascii_isspace (hd m)" "\<not> ascii_isspace (last m)"
  shows "StripAsciiWhitespace (v @ m @ w) = m"
proof -
  have "trim_left (v @ m @ w) = m @ w"
    using assms trim_left_spaces [of v "m @ w"] by (simp add: trim_left_id)
  then show ?thesis
    using assms trim_right_spaces [of w m] by (simp add: StripAsciiWhitespace_def trim_right_id)
qed

lemma Strip_statement: "statement_text s \<Longrightarrow> StripAsciiWhitespace s = s"
  using Strip_pad [of "[]" "[]" s] by (simp add: statement_text_def)

lemma first_semicolon_closed:
  "closed q s \<Longrightarrow> first_semicolon q (s @ CHR '';'' # r) = Some (length s)"
  by (induction q s rule: closed.induct) auto

lemma first_semicolon_open: "closed q s \<Longrightarrow> first_semicolon q s = None"
  by (induction q s rule: closed.induct) auto

lemma split_closed:
  "closed q s \<Longrightarrow> split_statements q current (s @ CHR '';'' # r) =
     add_statement (current @ s) (split_statements False [] r)"
  by (induction q s arbitrary: current rule: closed.induct) auto

lemma split_closed_end: "closed q s \<Longrightarrow> split_statements q current s = add_statement (current @ s) []"
  by (induction q s arbitrary: current rule: closed.induct) auto

lemma split_joined:
  "\<forall>s \<in> set stmts. statement_text s \<Longrightarrow>
     SplitSemicolonStatements (concat (map (\<lambda>s. s @ '';'') stmts)) = stmts"
proof (induction stmts)
  case Nil
  then show ?case
    by (simp add: SplitSemicolonStatements_def add_statement_def StripAsciiWhitespace_def trim_left_def
        trim_right_def)
next
  case (Cons s stmts)
  then have "statement_text s" by simp
  with Cons show ?case
    using Strip_statement [of s]
    by (simp add: SplitSemicolonStatements_def split_closed add_statement_def statement_text_def)
qed

text \<open>The chunk at the front of a text, with the white space before it.\<close>

lemma chunk_closed:
  assumes "\<forall>c \<in> set w. ascii_isspace c" "statement_text s"
  shows "ExtractFirstStatementChunk (w @ s @ CHR '';'' # r) =
           \<lparr>chunk_sql = s, consumed_bytes = length w + length s + 1\<rparr>"
    and "ExtractFirstStatementChunk (w @ s) = \<lparr>chunk_sql = s, consumed_bytes = length s\<rparr>"
proof -
  from assms(2) obtain c t where s: "s = c # t" "\<not> ascii_isspace c"
    by (cases s) (auto simp: statement_text_def)
  have lead: "takeWhile ascii_isspace (w @ s @ r') = w" for r'
    using assms(1) s by (simp add: takeWhile_append2)
  have cl: "closed False s" using assms(2) by (simp add: statement_text_def)
  show "ExtractFirstStatementChunk (w @ s @ CHR '';'' # r) =
           \<lparr>chunk_sql = s, consumed_bytes = length w + length s + 1\<rparr>"
    using lead first_semicolon_closed [OF cl, of r] Strip_statement [OF assms(2)]
    by (simp add: ExtractFirstStatementChunk_def Let_def)
  show "ExtractFirstStatementChunk (w @ s) = \<lparr>chunk_sql = s, consumed_bytes = length s\<rparr>"
    using lead [of "[]"] first_semicolon_open [OF cl] Strip_statement [OF assms(2)]
    by (simp add: ExtractFirstStatementChunk_def Let_def)
qed

lemma consumed_le: "consumed_bytes (ExtractFirstStatementChunk sql) \<le> length sql"
proof -
  have semi: "first_semicolon q s = Some i \<Longrightarrow> i < length s" for q s i
    by (induction q s arbitrary: i rule: first_semicolon.induct) (auto split: if_splits)
  show ?thesis
    using semi [of False "drop (length (takeWhile ascii_isspace sql)) sql"] length_takeWhile_le [of ascii_isspace sql]
    by (force simp: ExtractFirstStatementChunk_def Let_def split: option.splits)
qed

lemma consumed_pos:
  assumes "\<exists>c \<in> set sql. \<not> ascii_isspace c"
  shows "0 < consumed_bytes (ExtractFirstStatementChunk sql)"
proof -
  have "length (takeWhile ascii_isspace sql) \<noteq> length sql"
    using assms by (metis takeWhile_eq_take take_all_iff order_refl set_takeWhileD)
  then have "length (takeWhile ascii_isspace sql) < length sql"
    using length_takeWhile_le [of ascii_isspace sql] by linarith
  then show ?thesis by (simp add: ExtractFirstStatementChunk_def Let_def split: option.splits)
qed

text \<open>A block that ends in \<open>END;\<close> keeps its last word: the test for it precedes the skipping of the semicolon.\<close>

lemma StripBeginEnd_semicolon: "StripBeginEnd ''BEGIN SELECT 1; END;'' = ''SELECT 1; END;''"
  by code_simp

lemma StripBeginEnd_plain: "StripBeginEnd ''begin SELECT 1; End'' = ''SELECT 1;''"
  by code_simp

subsection \<open>Leading comments\<close>

lemma trim_right_keeps:
  assumes "m \<noteq> []" "\<not> ascii_isspace (last m)"
  shows "\<exists>r'. trim_right (m @ r) = m @ r'"
proof (cases "\<forall>c \<in> set r. ascii_isspace c")
  case True
  then have "trim_right (m @ r) = m" using trim_right_spaces [of r m] trim_right_id [of m] assms by simp
  then show ?thesis by (metis append_Nil2)
next
  case False
  then obtain c where "c \<in> set (rev r)" "\<not> ascii_isspace c" by auto
  then have "dropWhile ascii_isspace (rev r @ rev m) = dropWhile ascii_isspace (rev r) @ rev m"
    by (rule dropWhile_append1)
  then show ?thesis by (auto simp: trim_right_def)
qed

lemma Skip_statement:
  assumes "\<forall>c \<in> set w. ascii_isspace c" "m \<noteq> []" "\<not> ascii_isspace (hd m)" "\<not> ascii_isspace (last m)"
    "hd m \<noteq> CHR ''-''"
  shows "\<exists>r'. SkipLeadingLineComments (w @ m @ r) = m @ r'"
proof -
  have "trim_left (w @ m @ r) = m @ r"
    using trim_left_spaces [OF assms(1), of "m @ r"] trim_left_id [of "m @ r"] assms(2,3) by simp
  then obtain r' where r': "StripAsciiWhitespace (w @ m @ r) = m @ r'"
    using trim_right_keeps [OF assms(2,4), of r] by (auto simp: StripAsciiWhitespace_def)
  have "\<not> prefix ''--'' (m @ r')" using assms(2,5) by (cases m) auto
  with r' show ?thesis by (simp add: SkipLeadingLineComments.simps [of "w @ m @ r"] Let_def)
qed

lemma Skip_comment:
  assumes "CHR 0x0A \<notin> set c" "m \<noteq> []" "\<not> ascii_isspace (hd m)" "\<not> ascii_isspace (last m)" "hd m \<noteq> CHR ''-''"
  shows "\<exists>r'. SkipLeadingLineComments (''--'' @ c @ [CHR 0x0A] @ m @ r) = m @ r'"
proof -
  let ?text = "''--'' @ c @ [CHR 0x0A] @ m @ r"
  have "trim_left ?text = ?text" by (rule trim_left_id) simp
  then obtain r1 where r1: "StripAsciiWhitespace ?text = ''--'' @ c @ [CHR 0x0A] @ m @ r1"
    using trim_right_keeps [of "''--'' @ c @ [CHR 0x0A] @ m" r] assms(2,4)
    by (auto simp: StripAsciiWhitespace_def)
  have "dropWhile (\<lambda>x. x \<noteq> CHR 0x0A) (''--'' @ c @ [CHR 0x0A] @ m @ r1) = CHR 0x0A # m @ r1"
  proof -
    have "\<forall>x \<in> set c. x \<noteq> CHR 0x0A" using assms(1) by auto
    then show ?thesis
      using dropWhile_append_stop [of c "\<lambda>x. x \<noteq> CHR 0x0A" "CHR 0x0A" "m @ r1"] by simp
  qed
  then have "SkipLeadingLineComments ?text = SkipLeadingLineComments ([] @ m @ r1)"
    using r1 by (subst SkipLeadingLineComments.simps) (simp add: Let_def)
  then show ?thesis using Skip_statement [of "[]" m r1] assms by simp
qed

lemma Skip_nonspace:
  assumes "SkipLeadingLineComments s \<noteq> []"
  shows "\<exists>c \<in> set s. \<not> ascii_isspace c"
proof (rule ccontr)
  assume "\<not> (\<exists>c \<in> set s. \<not> ascii_isspace c)"
  then have "dropWhile ascii_isspace s = []" by simp
  then have "StripAsciiWhitespace s = []"
    by (simp only: StripAsciiWhitespace_def trim_left_def) (simp add: trim_right_def)
  then have "SkipLeadingLineComments s = []" by (subst SkipLeadingLineComments.simps) (simp add: Let_def)
  with assms show False by simp
qed

end
