(* ===== verification/Script_Exec.thy ===== *)
theory Script_Exec
  imports Frame_Stack Script_Text
begin

section \<open>Script execution: \<open>backend/engine/coordinator/script_executor.cc\<close>\<close>

text \<open>
  The execution of a multi-statement script: the statement handlers of
  \<open>backend/engine/semantic/script\<close>, procedure calls, \<open>EXECUTE IMMEDIATE\<close>, the assignment
  statements that the executor recognises in the text itself (\<open>script_executor_set.cc\<close>) and the
  loop that takes one statement after another from the analyzer.

  GoogleSQL is a third-party package. What the executor asks of it and of the query engine behind
  it is the record \<open>ScriptEngine\<close>: analyzing text, evaluating an expression, running a query, a
  DDL or a DML statement, finding and adding catalog constants. \<open>'w\<close> is the state of the engine
  and its catalog, \<open>'v\<close> a value, \<open>'t\<close> a type, \<open>'r\<close> a row source, \<open>'x\<close> what a resolved node
  carries besides the parts the executor inspects.

  A procedure may call itself, so the handlers take the handler of nested statements as an
  argument and \<open>ExecuteOneScriptStatement\<close> closes the recursion with a bound on the nesting of calls and
  dynamic statements: \<^const>\<open>None\<close> means the nesting is deeper than the bound. The statement loop
  is a partial function, \<^const>\<open>None\<close> if it runs forever.
\<close>

subsection \<open>Requests, resolved nodes and the engine\<close>

record QueryParameter =
  qp_name :: string
  qp_value_json :: string
  qp_type_kind :: string
  qp_type_json :: string

record QueryRequest =
  qr_project_id :: string
  qr_default_dataset_id :: string
  qr_sql :: string
  qr_parameters :: "QueryParameter list"

datatype 'x ResolvedExpr =
    ResolvedConstant "string option" 'x
  | ResolvedGetStructField "'x ResolvedExpr option" 'x
  | ResolvedArgumentRef string 'x
  | ResolvedOtherExpr 'x

record StoredSQLProcedure =
  argument_name_list :: "string list"
  procedure_body :: string

record Procedure =
  procedure_name :: string
  as_stored :: "StoredSQLProcedure option"

datatype DdlKind =
    CREATE_TABLE | CREATE_TABLE_AS_SELECT | CREATE_VIEW | CREATE_PROCEDURE | CREATE_FUNCTION
  | CREATE_TABLE_FUNCTION

datatype DmlKind = INSERT | UPDATE | DELETE | MERGE | TRUNCATE

datatype ('x, 't) ScriptStatement =
    CreateConstantStmt "string list" "'x ResolvedExpr option"
  | AssignmentStmt "'x ResolvedExpr option" "'x ResolvedExpr option"
  | AssertStmt "'x ResolvedExpr option" string
  | CallStmt "Procedure option" "'x ResolvedExpr option list" "'t option list"
  | QueryStmt 'x
  | DdlStmt DdlKind 'x
  | DmlStmt DmlKind 'x
  | ExecuteImmediateStmt "'x ResolvedExpr option"
  | OtherStmt string

record 'v ParameterBindings =
  by_position :: "'v list"
  by_name :: "string \<rightharpoonup> 'v"

record 'v EvalContext =
  ctx_project_id :: string
  ctx_script_variables :: "'v FrameStack option"
  ctx_arguments :: "'v FrameStack option"
  ctx_parameters :: "'v ParameterBindings option"
  ctx_columns_by_name :: "'v Frame option"

definition empty_context :: "'v EvalContext" where
  "empty_context =
     \<lparr>ctx_project_id = [], ctx_script_variables = None, ctx_arguments = None, ctx_parameters = None,
      ctx_columns_by_name = None\<rparr>"

datatype TypeKind =
  TYPE_INT64 | TYPE_FLOAT | TYPE_DOUBLE | TYPE_STRING | TYPE_BOOL | TYPE_ARRAY | TYPE_STRUCT | TYPE_OTHER

record ('x, 't, 'v, 'w, 'r) ScriptEngine =
  EvalExpr :: "'w \<Rightarrow> 'x ResolvedExpr \<Rightarrow> 'v EvalContext \<Rightarrow> 'v StatusOr"
  expr_is_bool :: "'x ResolvedExpr \<Rightarrow> bool"
  value_null :: "'v \<Rightarrow> bool"
  value_bool :: "'v \<Rightarrow> bool"
  value_string :: "'v \<Rightarrow> string option"
  DebugString :: "'v \<Rightarrow> string"
  type_kind :: "'t \<Rightarrow> TypeKind"
  NullInt64 :: 'v
  NullFloat :: 'v
  NullDouble :: 'v
  NullString :: 'v
  NullBool :: 'v
  NullTyped :: "'t \<Rightarrow> 'v"
  ParseParameterValue :: "QueryParameter \<Rightarrow> 'v StatusOr"
  ExecuteResolvedStatement ::
    "'w \<Rightarrow> QueryRequest \<Rightarrow> ('x, 't) ScriptStatement \<Rightarrow> 'v FrameStack \<Rightarrow> 'r StatusOr \<times> 'w"
  ExecuteDdl :: "'w \<Rightarrow> QueryRequest \<Rightarrow> unit StatusOr \<times> 'w"
  ExecuteDml :: "'w \<Rightarrow> QueryRequest \<Rightarrow> unit StatusOr \<times> 'w"
  FindProjectProcedure :: "'w \<Rightarrow> string \<Rightarrow> string \<Rightarrow> StoredSQLProcedure option"
  is_GoogleSqlCatalog :: "'w \<Rightarrow> bool"
  FindConstant :: "'w \<Rightarrow> string \<Rightarrow> bool"
  AddConstant :: "'w \<Rightarrow> string \<Rightarrow> 'v \<Rightarrow> Status + 'w"
  binding_order :: "'v Frame \<Rightarrow> (string \<times> 'v) list"
  BuildAnalyzerOptions :: "'w \<Rightarrow> QueryRequest \<Rightarrow> bool \<Rightarrow> unit StatusOr"
  AnalyzeOneStatement :: "'w \<Rightarrow> QueryRequest \<Rightarrow> ('x, 't) ScriptStatement option StatusOr"
  value_has_type :: "'v \<Rightarrow> bool"
  AddExpressionColumn :: "string \<Rightarrow> 'v \<Rightarrow> unit StatusOr"
  AnalyzeExpression :: "'w \<Rightarrow> QueryRequest \<Rightarrow> 'v Frame \<Rightarrow> string \<Rightarrow> 'x ResolvedExpr option StatusOr"
  AnalyzeNextStatement ::
    "'w \<Rightarrow> string \<Rightarrow> nat \<Rightarrow> (('x, 't) ScriptStatement option \<times> nat \<times> bool) StatusOr"
  ScriptViaGoogleSql ::
    "('w \<Rightarrow> QueryRequest \<Rightarrow> 'v FrameStack option \<Rightarrow> string \<Rightarrow> 'r StatusOr \<times> 'w) option"
  no_rows :: 'r

definition MakeSemanticError :: "bool \<Rightarrow> string \<Rightarrow> Status" where
  "MakeSemanticError not_implemented message =
     Status (if not_implemented then kUnimplemented else kInvalidArgument) message"

subsection \<open>Statement handlers\<close>

definition ExecuteDeclare ::
    "('x, 't, 'v, 'w, 'r) ScriptEngine \<Rightarrow> QueryRequest \<Rightarrow> string list \<Rightarrow> 'x ResolvedExpr option \<Rightarrow>
     'w \<Rightarrow> 'v FrameStack \<Rightarrow> unit StatusOr \<times> 'v FrameStack" where
  "ExecuteDeclare E request name_path expr w vars =
     (if name_path = [] then
        (Inl (Status kInvalidArgument ''script::ExecuteDeclare: CREATE CONSTANT has empty name_path''), vars)
      else case expr of
        None \<Rightarrow>
          (Inl (Status kInvalidArgument ''script::ExecuteDeclare: DECLARE has no default expression''), vars)
      | Some e \<Rightarrow>
          (case EvalExpr E w e
                  (empty_context\<lparr>ctx_project_id := qr_project_id request, ctx_script_variables := Some vars,
                                 ctx_arguments := Some vars\<rparr>) of
             Inl s \<Rightarrow> (Inl s, vars)
           | Inr value \<Rightarrow> Declare vars (last name_path) value))"

fun ScriptVariableName :: "'x ResolvedExpr \<Rightarrow> string" where
  "ScriptVariableName (ResolvedConstant name x) = (case name of Some n \<Rightarrow> n | None \<Rightarrow> [])"
| "ScriptVariableName (ResolvedGetStructField inner x) =
     (case inner of Some e \<Rightarrow> ScriptVariableName e | None \<Rightarrow> [])"
| "ScriptVariableName e = []"

definition assign_status :: "string \<Rightarrow> string \<Rightarrow> unit StatusOr \<Rightarrow> unit StatusOr" where
  "assign_status caller name set_status =
     (case set_status of
        Inr u \<Rightarrow> Inr u
      | Inl s \<Rightarrow>
          Inl (MakeSemanticError False
                 (caller @ '': cannot assign to '' @ [CHR 0x27] @ name @ [CHR 0x27] @ '': '' @ status_message s)))"

text \<open>
  The name is computed before the kind of the target is inspected, so the branch for an argument
  reference is never reached with a name: \<open>ScriptVariableName\<close> has none for it.
\<close>

definition ExecuteScriptAssignment ::
    "('x, 't, 'v, 'w, 'r) ScriptEngine \<Rightarrow> QueryRequest \<Rightarrow> 'x ResolvedExpr option \<Rightarrow> 'x ResolvedExpr option \<Rightarrow>
     'w \<Rightarrow> 'v FrameStack \<Rightarrow> unit StatusOr \<times> 'v FrameStack" where
  "ExecuteScriptAssignment E request target expr w vars =
     (case (target, expr) of
        (Some tgt, Some e) \<Rightarrow>
          (let name = ScriptVariableName tgt;
               ctx = empty_context\<lparr>ctx_project_id := qr_project_id request, ctx_script_variables := Some vars,
                                   ctx_arguments := Some vars\<rparr>
           in if name = [] then
                (Inl (MakeSemanticError True
                   ''script::ExecuteScriptAssignment: target is not a script variable''), vars)
              else case tgt of
                ResolvedArgumentRef ref x \<Rightarrow>
                  (case EvalExpr E w e ctx of
                     Inl s \<Rightarrow> (Inl s, vars)
                   | Inr value \<Rightarrow>
                       (case SetVar vars ref value of
                          (s, vars') \<Rightarrow> (assign_status ''script::ExecuteScriptAssignment'' ref s, vars')))
              | _ \<Rightarrow>
                  (case EvalExpr E w e ctx of
                     Inl s \<Rightarrow> (Inl s, vars)
                   | Inr value \<Rightarrow>
                       (case SetVar vars name value of
                          (s, vars') \<Rightarrow> (assign_status ''script::ExecuteScriptAssignment'' name s, vars'))))
      | _ \<Rightarrow>
          (Inl (Status kInvalidArgument ''script::ExecuteScriptAssignment: null target or expr''), vars))"

fun bind_parameters ::
    "('x, 't, 'v, 'w, 'r) ScriptEngine \<Rightarrow> QueryParameter list \<Rightarrow> 'v ParameterBindings \<Rightarrow>
     'v ParameterBindings StatusOr" where
  "bind_parameters E [] b = Inr b"
| "bind_parameters E (p # ps) b =
     (case ParseParameterValue E p of
        Inl s \<Rightarrow> Inl s
      | Inr v \<Rightarrow>
          bind_parameters E ps
            (if qp_name p = [] then b\<lparr>by_position := by_position b @ [v]\<rparr>
             else b\<lparr>by_name := (by_name b)(AsciiStrToLower (qp_name p) \<mapsto> v)\<rparr>))"

definition BuildParameterBindings ::
    "('x, 't, 'v, 'w, 'r) ScriptEngine \<Rightarrow> QueryRequest \<Rightarrow> 'v ParameterBindings StatusOr" where
  "BuildParameterBindings E request =
     (case bind_parameters E (qr_parameters request) \<lparr>by_position = [], by_name = Map.empty\<rparr> of
        Inl s \<Rightarrow> Inl s
      | Inr b \<Rightarrow>
          if list_ex (\<lambda>p. qp_name p = []) (qr_parameters request) \<and>
             list_ex (\<lambda>p. qp_name p \<noteq> []) (qr_parameters request)
          then Inl (Status kInvalidArgument ''script: request mixes named and positional parameters'')
          else Inr b)"

definition ExecuteAssert ::
    "('x, 't, 'v, 'w, 'r) ScriptEngine \<Rightarrow> QueryRequest \<Rightarrow> 'x ResolvedExpr option \<Rightarrow> string \<Rightarrow>
     'w \<Rightarrow> unit StatusOr" where
  "ExecuteAssert E request expression description w =
     (case expression of
        None \<Rightarrow> Inl (Status kInternal ''script::ExecuteAssert: ResolvedAssertStmt has null expression'')
      | Some predicate \<Rightarrow>
          if \<not> expr_is_bool E predicate then
            Inl (Status kInternal
              ''script::ExecuteAssert: ResolvedAssertStmt predicate is not BOOL-typed; analyzer should have rejected it'')
          else case (if qr_parameters request = [] then Inr \<lparr>by_position = [], by_name = Map.empty\<rparr>
                     else BuildParameterBindings E request) of
            Inl s \<Rightarrow> Inl s
          | Inr bindings \<Rightarrow>
              (case EvalExpr E w predicate (empty_context\<lparr>ctx_parameters := Some bindings\<rparr>) of
                 Inl s \<Rightarrow> Inl s
               | Inr v \<Rightarrow>
                   if value_null E v \<or> \<not> value_bool E v then
                     Inl (MakeSemanticError False
                       (if description = [] then ''Assertion failed'' else ''Assertion failed: '' @ description))
                   else Inr ()))"

definition ScriptVariableNameFromExpr :: "'x ResolvedExpr \<Rightarrow> string" where
  "ScriptVariableNameFromExpr expr =
     (case expr of ResolvedConstant (Some name) x \<Rightarrow> name | _ \<Rightarrow> [])"

definition NullForType :: "('x, 't, 'v, 'w, 'r) ScriptEngine \<Rightarrow> 't option \<Rightarrow> 'v" where
  "NullForType E ty =
     (case ty of
        None \<Rightarrow> NullString E
      | Some t \<Rightarrow>
          (case type_kind E t of
             TYPE_INT64 \<Rightarrow> NullInt64 E
           | TYPE_FLOAT \<Rightarrow> NullFloat E
           | TYPE_DOUBLE \<Rightarrow> NullDouble E
           | TYPE_STRING \<Rightarrow> NullString E
           | TYPE_BOOL \<Rightarrow> NullBool E
           | TYPE_ARRAY \<Rightarrow> NullTyped E t
           | TYPE_STRUCT \<Rightarrow> NullTyped E t
           | TYPE_OTHER \<Rightarrow> NullString E))"

definition SqlLiteralToString :: "('x, 't, 'v, 'w, 'r) ScriptEngine \<Rightarrow> 'w \<Rightarrow> 'x ResolvedExpr \<Rightarrow> string" where
  "SqlLiteralToString E w expr =
     (case EvalExpr E w expr empty_context of
        Inl s \<Rightarrow> []
      | Inr v \<Rightarrow>
          if value_null E v then []
          else case value_string E v of Some t \<Rightarrow> t | None \<Rightarrow> DebugString E v)"

subsection \<open>Script variables in the catalog\<close>

fun register_constants ::
    "('x, 't, 'v, 'w, 'r) ScriptEngine \<Rightarrow> (string \<times> 'v) list \<Rightarrow> 'w \<Rightarrow> string set \<Rightarrow>
     unit StatusOr \<times> 'w \<times> string set" where
  "register_constants E [] w registered = (Inr (), w, registered)"
| "register_constants E ((name, value) # rest) w registered =
     (if name \<in> registered then register_constants E rest w registered
      else if FindConstant E w name then register_constants E rest w (insert name registered)
      else case AddConstant E w name value of
             Inl s \<Rightarrow> (Inl s, w, registered)
           | Inr w' \<Rightarrow> register_constants E rest w' (insert name registered))"

definition RegisterScriptVariablesOnCatalog ::
    "('x, 't, 'v, 'w, 'r) ScriptEngine \<Rightarrow> 'w \<Rightarrow> 'v FrameStack \<Rightarrow> string set \<Rightarrow>
     unit StatusOr \<times> 'w \<times> string set" where
  "RegisterScriptVariablesOnCatalog E w vars registered =
     register_constants E (binding_order E (VisibleBindings vars)) w registered"

subsection \<open>Assignments recognised in the text\<close>

fun register_columns ::
    "('x, 't, 'v, 'w, 'r) ScriptEngine \<Rightarrow> (string \<times> 'v) list \<Rightarrow> unit StatusOr" where
  "register_columns E [] = Inr ()"
| "register_columns E ((name, value) # rest) =
     (if \<not> value_has_type E value then
        Inl (MakeSemanticError False
          (''semantic: expression column '' @ [CHR 0x27] @ name @ [CHR 0x27] @
           '' has no type for AnalyzeExpression registration''))
      else case AddExpressionColumn E name value of
             Inl s \<Rightarrow> Inl s
           | Inr u \<Rightarrow> register_columns E rest)"

definition EvalExpressionScalar ::
    "('x, 't, 'v, 'w, 'r) ScriptEngine \<Rightarrow> QueryRequest \<Rightarrow> string \<Rightarrow> 'w \<Rightarrow> 'v FrameStack \<Rightarrow> 'v StatusOr" where
  "EvalExpressionScalar E request expr w vars =
     (case BuildAnalyzerOptions E w request False of
        Inl s \<Rightarrow> Inl s
      | Inr _ \<Rightarrow>
     (case register_columns E (binding_order E (VisibleBindings vars)) of
        Inl s \<Rightarrow> Inl s
      | Inr _ \<Rightarrow>
     (case AnalyzeExpression E w request (VisibleBindings vars) expr of
        Inl s \<Rightarrow> Inl s
      | Inr None \<Rightarrow>
          Inl (Status kInternal ''script::EvalExpressionScalar: analyzer returned null expression'')
      | Inr (Some e) \<Rightarrow>
          EvalExpr E w e
            (empty_context\<lparr>ctx_project_id := qr_project_id request, ctx_script_variables := Some vars,
                           ctx_arguments := Some vars, ctx_columns_by_name := Some (VisibleBindings vars)\<rparr>))))"

definition ExecuteProcedureSet ::
    "('x, 't, 'v, 'w, 'r) ScriptEngine \<Rightarrow> QueryRequest \<Rightarrow> string \<Rightarrow> string \<Rightarrow> 'w \<Rightarrow> 'v FrameStack \<Rightarrow>
     unit StatusOr \<times> 'v FrameStack" where
  "ExecuteProcedureSet E request target expr w vars =
     (case EvalExpressionScalar E request expr w vars of
        Inl s \<Rightarrow> (Inl s, vars)
      | Inr value \<Rightarrow>
          (case SetVar vars target value of
             (s, vars') \<Rightarrow> (assign_status ''script::ExecuteProcedureSet'' target s, vars')))"

text \<open>
  The text after \<open>SET \<close>, cut at the first equals sign. \<open>substr(4)\<close> of a shorter text raises an
  exception, which no caller catches.
\<close>

definition split_assignment :: "string \<Rightarrow> (string \<times> string) option" where
  "split_assignment rest =
     (if CHR ''='' \<notin> set rest then None
      else Some (StripAsciiWhitespace (takeWhile (\<lambda>c. c \<noteq> CHR ''='') rest),
                 StripAsciiWhitespace (tl (dropWhile (\<lambda>c. c \<noteq> CHR ''='') rest))))"

datatype Failure = FailedWith Status | OutOfRange

definition TryExecuteLeadingSetStatement ::
    "('x, 't, 'v, 'w, 'r) ScriptEngine \<Rightarrow> QueryRequest \<Rightarrow> string \<Rightarrow> nat \<Rightarrow> 'w \<Rightarrow> 'v FrameStack \<Rightarrow>
     Failure + bool \<times> nat \<times> 'v FrameStack" where
  "TryExecuteLeadingSetStatement E request input pos w vars =
     (let remaining = drop pos input; trimmed = SkipLeadingLineComments remaining
      in if trimmed = [] \<or> \<not> StartsWithIgnoreCase trimmed ''SET '' then Inr (False, pos, vars)
         else let chunk = ExtractFirstStatementChunk remaining
              in if chunk_sql chunk = [] then
                   Inl (FailedWith (Status kInvalidArgument ''script: empty SET statement''))
                 else if length (chunk_sql chunk) < 4 then Inl OutOfRange
                 else case split_assignment (drop 4 (chunk_sql chunk)) of
                        None \<Rightarrow> Inl (FailedWith (Status kInvalidArgument ''script: malformed SET statement''))
                      | Some (target, expr) \<Rightarrow>
                          (case ExecuteProcedureSet E request target expr w vars of
                             (Inl s, vars') \<Rightarrow> Inl (FailedWith s)
                           | (Inr _, vars') \<Rightarrow> Inr (True, pos + consumed_bytes chunk, vars')))"

subsection \<open>Calls, dynamic statements and the statement switch\<close>

text \<open>A statement handler: the bound may run out, and the engine state survives a failure.\<close>

type_synonym ('x, 't, 'v, 'w, 'r) Handler =
  "QueryRequest \<Rightarrow> ('x, 't) ScriptStatement \<Rightarrow> 'w \<Rightarrow> 'v FrameStack \<Rightarrow> 'r option \<Rightarrow>
   (unit StatusOr \<times> 'w \<times> 'v FrameStack \<times> 'r option) option"

fun run_body ::
    "('x, 't, 'v, 'w, 'r) ScriptEngine \<Rightarrow> ('x, 't, 'v, 'w, 'r) Handler \<Rightarrow> QueryRequest \<Rightarrow> string list \<Rightarrow>
     'w \<Rightarrow> 'v FrameStack \<Rightarrow> (unit StatusOr \<times> 'w \<times> 'v FrameStack) option" where
  "run_body E nested request [] w args = Some (Inr (), w, args)"
| "run_body E nested request (stmt_sql # rest) w args =
     (let trimmed = StripAsciiWhitespace stmt_sql
      in if trimmed = [] then run_body E nested request rest w args
         else if StartsWithIgnoreCase trimmed ''SET '' then
           (case split_assignment (drop 4 trimmed) of
              None \<Rightarrow>
                Some (Inl (Status kInvalidArgument ''script::ExecuteProcedureBody: malformed SET statement''), w, args)
            | Some (target, expr) \<Rightarrow>
                (case ExecuteProcedureSet E request target expr w args of
                   (Inl s, args') \<Rightarrow> Some (Inl s, w, args')
                 | (Inr _, args') \<Rightarrow> run_body E nested request rest w args'))
         else let body_request = request\<lparr>qr_sql := trimmed\<rparr>
              in case AnalyzeOneStatement E w body_request of
                   Inl s \<Rightarrow> Some (Inl s, w, args)
                 | Inr None \<Rightarrow>
                     Some (Inl (Status kInternal
                       ''script::ExecuteProcedureBody: analyzer returned null statement''), w, args)
                 | Inr (Some resolved) \<Rightarrow>
                     (case nested body_request resolved w args None of
                        None \<Rightarrow> None
                      | Some (Inl s, w', args', _) \<Rightarrow> Some (Inl s, w', args')
                      | Some (Inr _, w', args', _) \<Rightarrow> run_body E nested request rest w' args'))"

definition ExecuteProcedureBody ::
    "('x, 't, 'v, 'w, 'r) ScriptEngine \<Rightarrow> ('x, 't, 'v, 'w, 'r) Handler \<Rightarrow> QueryRequest \<Rightarrow> string \<Rightarrow>
     'w \<Rightarrow> 'v FrameStack \<Rightarrow> (unit StatusOr \<times> 'w \<times> 'v FrameStack) option" where
  "ExecuteProcedureBody E nested request body w args =
     (if \<not> is_GoogleSqlCatalog E w then
        Some (Inl (Status kFailedPrecondition
          ''script::ExecuteProcedureBody: catalog must be GoogleSqlCatalog''), w, args)
      else case RegisterScriptVariablesOnCatalog E w args {} of
             (Inl s, w', _) \<Rightarrow> Some (Inl s, w', args)
           | (Inr _, w', _) \<Rightarrow>
               run_body E nested request (SplitSemicolonStatements (StripBeginEnd body)) w' args)"

text \<open>
  \<open>bind_arguments\<close> is the loop over the arguments: the frames of the callee and the pairs of a formal
  name and the variable of the caller it stands for.
\<close>

fun bind_arguments ::
    "('x, 't, 'v, 'w, 'r) ScriptEngine \<Rightarrow> QueryRequest \<Rightarrow> string list \<Rightarrow> 't option list \<Rightarrow>
     'x ResolvedExpr option list \<Rightarrow> nat \<Rightarrow> 'w \<Rightarrow> 'v FrameStack \<Rightarrow> 'v FrameStack \<Rightarrow> (string \<times> string) list \<Rightarrow>
     Status + 'v FrameStack \<times> (string \<times> string) list" where
  "bind_arguments E request names formals [] i w vars args out_bindings = Inr (args, out_bindings)"
| "bind_arguments E request names formals (None # rest) i w vars args out_bindings =
     Inl (Status kInvalidArgument ''script::ExecuteCall: null argument expression'')"
| "bind_arguments E request names formals (Some arg_expr # rest) i w vars args out_bindings =
     (let formal_name = names ! i; caller_name = ScriptVariableNameFromExpr arg_expr
      in if caller_name \<noteq> [] then
           (let seed = (case Lookup vars caller_name of Inr v \<Rightarrow> v | Inl _ \<Rightarrow> NullForType E (formals ! i))
            in case Declare args formal_name seed of
                 (Inl s, _) \<Rightarrow> Inl s
               | (Inr _, args') \<Rightarrow>
                   bind_arguments E request names formals rest (Suc i) w vars args'
                     (out_bindings @ [(formal_name, caller_name)]))
         else case EvalExpr E w arg_expr
                     (empty_context\<lparr>ctx_project_id := qr_project_id request, ctx_script_variables := Some vars\<rparr>) of
                Inl s \<Rightarrow> Inl s
              | Inr value \<Rightarrow>
                  (case Declare args formal_name value of
                     (Inl s, _) \<Rightarrow> Inl s
                   | (Inr _, args') \<Rightarrow>
                       bind_arguments E request names formals rest (Suc i) w vars args' out_bindings))"

fun copy_back :: "(string \<times> string) list \<Rightarrow> 'v FrameStack \<Rightarrow> 'v FrameStack \<Rightarrow> unit StatusOr \<times> 'v FrameStack" where
  "copy_back [] args vars = (Inr (), vars)"
| "copy_back ((formal, caller) # rest) args vars =
     (case Lookup args formal of
        Inl s \<Rightarrow> (Inl s, vars)
      | Inr v \<Rightarrow>
          (case SetVar vars caller v of
             (Inl s, vars') \<Rightarrow> (Inl s, vars')
           | (Inr _, vars') \<Rightarrow> copy_back rest args vars'))"

definition prepare_call ::
    "('x, 't, 'v, 'w, 'r) ScriptEngine \<Rightarrow> QueryRequest \<Rightarrow> Procedure option \<Rightarrow>
     'x ResolvedExpr option list \<Rightarrow> 't option list \<Rightarrow> 'w \<Rightarrow> 'v FrameStack \<Rightarrow>
     Status + string \<times> 'v FrameStack \<times> (string \<times> string) list" where
  "prepare_call E request procedure arguments formals w vars =
     (case procedure of
        None \<Rightarrow> Inl (Status kInvalidArgument ''script::ExecuteCall: CALL has null procedure'')
      | Some p \<Rightarrow>
     (case (case as_stored p of
              Some sql_proc \<Rightarrow> Some sql_proc
            | None \<Rightarrow> FindProjectProcedure E w (qr_project_id request) (procedure_name p)) of
        None \<Rightarrow>
          Inl (MakeSemanticError False
            (''script::ExecuteCall: procedure '' @ [CHR 0x27] @ procedure_name p @ [CHR 0x27] @ '' not found''))
      | Some sql_proc \<Rightarrow>
          if length (argument_name_list sql_proc) \<noteq> length arguments then
            Inl (Status kInvalidArgument ''script::ExecuteCall: argument count mismatch'')
          else case bind_arguments E request (argument_name_list sql_proc) formals arguments 0 w vars
                      (PushFrame new_FrameStack) [] of
                 Inl s \<Rightarrow> Inl s
               | Inr (args, out_bindings) \<Rightarrow> Inr (procedure_body sql_proc, args, out_bindings)))"

definition ExecuteCallStmt ::
    "('x, 't, 'v, 'w, 'r) ScriptEngine \<Rightarrow> ('x, 't, 'v, 'w, 'r) Handler \<Rightarrow> QueryRequest \<Rightarrow> Procedure option \<Rightarrow>
     'x ResolvedExpr option list \<Rightarrow> 't option list \<Rightarrow> 'w \<Rightarrow> 'v FrameStack \<Rightarrow>
     (unit StatusOr \<times> 'w \<times> 'v FrameStack) option" where
  "ExecuteCallStmt E nested request procedure arguments formals w vars =
     (case prepare_call E request procedure arguments formals w vars of
        Inl s \<Rightarrow> Some (Inl s, w, vars)
      | Inr (body, args, out_bindings) \<Rightarrow>
          (case ExecuteProcedureBody E nested request body w args of
             None \<Rightarrow> None
           | Some (Inl s, w', args') \<Rightarrow> Some (Inl s, w', vars)
           | Some (Inr _, w', args') \<Rightarrow>
               (case copy_back out_bindings args' vars of (s, vars') \<Rightarrow> Some (s, w', vars'))))"

definition prepare_dynamic ::
    "('x, 't, 'v, 'w, 'r) ScriptEngine \<Rightarrow> QueryRequest \<Rightarrow> 'x ResolvedExpr option \<Rightarrow> 'w \<Rightarrow> 'v FrameStack \<Rightarrow>
     (Status + QueryRequest \<times> ('x, 't) ScriptStatement) \<times> 'w" where
  "prepare_dynamic E request sql w vars =
     (case sql of
        None \<Rightarrow> (Inl (Status kInvalidArgument ''script::ExecuteExecuteImmediate: null sql expression''), w)
      | Some e \<Rightarrow>
     (let dynamic_sql = SqlLiteralToString E w e; dynamic_request = request\<lparr>qr_sql := dynamic_sql\<rparr>
      in if dynamic_sql = [] then
           (Inl (MakeSemanticError False
             ''script::ExecuteExecuteImmediate: dynamic SQL must be a non-null STRING literal''), w)
         else if \<not> is_GoogleSqlCatalog E w then
           (Inl (Status kFailedPrecondition
             ''script::ExecuteExecuteImmediate: catalog must be GoogleSqlCatalog''), w)
         else case RegisterScriptVariablesOnCatalog E w vars {} of
                (Inl s, w', _) \<Rightarrow> (Inl s, w')
              | (Inr _, w', _) \<Rightarrow>
                  (case AnalyzeOneStatement E w' dynamic_request of
                     Inl s \<Rightarrow> (Inl s, w')
                   | Inr None \<Rightarrow>
                       (Inl (Status kInternal
                         ''script::ExecuteExecuteImmediate: analyzer returned null statement''), w')
                   | Inr (Some resolved) \<Rightarrow> (Inr (dynamic_request, resolved), w'))))"

definition ExecuteExecuteImmediate ::
    "('x, 't, 'v, 'w, 'r) ScriptEngine \<Rightarrow> ('x, 't, 'v, 'w, 'r) Handler \<Rightarrow> QueryRequest \<Rightarrow> 'x ResolvedExpr option \<Rightarrow>
     'w \<Rightarrow> 'v FrameStack \<Rightarrow> (unit StatusOr \<times> 'w \<times> 'v FrameStack) option" where
  "ExecuteExecuteImmediate E nested request sql w vars =
     (case prepare_dynamic E request sql w vars of
        (Inl s, w') \<Rightarrow> Some (Inl s, w', vars)
      | (Inr (dynamic_request, resolved), w') \<Rightarrow>
          map_option (\<lambda>(s, w'', vars', _). (s, w'', vars'))
            (nested dynamic_request resolved w' vars None))"

definition with_rows ::
    "'r option \<Rightarrow> unit StatusOr \<times> 'w \<times> 'v FrameStack \<Rightarrow> unit StatusOr \<times> 'w \<times> 'v FrameStack \<times> 'r option" where
  "with_rows rows out = (case out of (s, w, vars) \<Rightarrow> (s, w, vars, rows))"

definition statement_switch ::
    "('x, 't, 'v, 'w, 'r) ScriptEngine \<Rightarrow> ('x, 't, 'v, 'w, 'r) Handler \<Rightarrow> ('x, 't, 'v, 'w, 'r) Handler" where
  "statement_switch E nested request stmt w vars rows =
     (case stmt of
        CreateConstantStmt name_path expr \<Rightarrow>
          (case ExecuteDeclare E request name_path expr w vars of (s, vars') \<Rightarrow> Some (s, w, vars', rows))
      | AssignmentStmt target expr \<Rightarrow>
          (case ExecuteScriptAssignment E request target expr w vars of (s, vars') \<Rightarrow> Some (s, w, vars', rows))
      | AssertStmt expression description \<Rightarrow>
          Some (ExecuteAssert E request expression description w, w, vars, rows)
      | CallStmt procedure arguments formals \<Rightarrow>
          map_option (with_rows rows) (ExecuteCallStmt E nested request procedure arguments formals w vars)
      | QueryStmt x \<Rightarrow>
          (case ExecuteResolvedStatement E w request stmt vars of
             (Inl s, w') \<Rightarrow> Some (Inl s, w', vars, rows)
           | (Inr r, w') \<Rightarrow> Some (Inr (), w', vars, Some r))
      | DdlStmt k x \<Rightarrow> (case ExecuteDdl E w request of (s, w') \<Rightarrow> Some (s, w', vars, rows))
      | DmlStmt k x \<Rightarrow> (case ExecuteDml E w request of (s, w') \<Rightarrow> Some (s, w', vars, rows))
      | ExecuteImmediateStmt sql \<Rightarrow>
          map_option (with_rows rows) (ExecuteExecuteImmediate E nested request sql w vars)
      | OtherStmt k \<Rightarrow>
          Some (Inl (MakeSemanticError True
            (''script: statement kind '' @ k @ '' is not yet implemented'')), w, vars, rows))"

fun ExecuteOneScriptStatement ::
    "('x, 't, 'v, 'w, 'r) ScriptEngine \<Rightarrow> nat \<Rightarrow> ('x, 't, 'v, 'w, 'r) Handler" where
  "ExecuteOneScriptStatement E 0 request stmt w vars rows = None"
| "ExecuteOneScriptStatement E (Suc depth) request stmt w vars rows =
     statement_switch E (ExecuteOneScriptStatement E depth) request stmt w vars rows"

subsection \<open>Statement lists and the analyzer loop\<close>

fun ExecuteStatementList ::
    "('x, 't, 'v, 'w, 'r) ScriptEngine \<Rightarrow> nat \<Rightarrow> QueryRequest \<Rightarrow> ('x, 't) ScriptStatement option list \<Rightarrow>
     'w \<Rightarrow> 'v FrameStack \<Rightarrow> 'r option \<Rightarrow> (unit StatusOr \<times> 'w \<times> 'v FrameStack \<times> 'r option) option" where
  "ExecuteStatementList E depth request [] w vars rows = Some (Inr (), w, vars, rows)"
| "ExecuteStatementList E depth request (None # rest) w vars rows =
     Some (Inl (Status kInternal ''script: MultiStmt child is null''), w, vars, rows)"
| "ExecuteStatementList E depth request (Some child # rest) w vars rows =
     (case ExecuteOneScriptStatement E depth request child w vars rows of
        None \<Rightarrow> None
      | Some (Inl s, out) \<Rightarrow> Some (Inl s, out)
      | Some (Inr _, w', vars', rows') \<Rightarrow> ExecuteStatementList E depth request rest w' vars' rows')"

definition final_result :: "('x, 't, 'v, 'w, 'r) ScriptEngine \<Rightarrow> 'r option \<Rightarrow> 'r" where
  "final_result E rows = (case rows of Some r \<Rightarrow> r | None \<Rightarrow> no_rows E)"

definition ExecuteMultiStmtScript ::
    "('x, 't, 'v, 'w, 'r) ScriptEngine \<Rightarrow> nat \<Rightarrow> QueryRequest \<Rightarrow> ('x, 't) ScriptStatement option list \<Rightarrow>
     'w \<Rightarrow> ('r StatusOr \<times> 'w) option" where
  "ExecuteMultiStmtScript E depth request stmts w =
     map_option (\<lambda>(s, w', vars, rows). (case s of Inl e \<Rightarrow> Inl e | Inr _ \<Rightarrow> Inr (final_result E rows), w'))
       (ExecuteStatementList E depth request stmts w new_FrameStack None)"

text \<open>\<open>ScriptViaGoogleSql\<close> is \<^const>\<open>None\<close> in a build without the GoogleSQL script executor.\<close>

definition ExecuteControlFlowTailIfNeeded ::
    "('x, 't, 'v, 'w, 'r) ScriptEngine \<Rightarrow> QueryRequest \<Rightarrow> 'w \<Rightarrow> 'v FrameStack \<Rightarrow> string \<Rightarrow>
     'r option StatusOr \<times> 'w" where
  "ExecuteControlFlowTailIfNeeded E request w vars remaining =
     (if \<not> ScriptNeedsGoogleSqlExecutor (LeadingScriptStatement remaining) then (Inr None, w)
      else case ScriptViaGoogleSql E of
        None \<Rightarrow>
          (Inl (MakeSemanticError True
            ''script: structured control flow (IF/WHILE/LOOP/FOR/EXCEPTION) requires googlesql/scripting::ScriptExecutor, which is not linked in the prebuilt artifact''), w)
      | Some run \<Rightarrow>
          (let tail_for_executor =
                 (if StartsWithIgnoreCase (StripAsciiWhitespace remaining) ''BEGIN'' then remaining
                  else StripBeginEnd remaining)
           in case run w request (Some vars) tail_for_executor of (r, w') \<Rightarrow> (map_sum (\<lambda>e. e) Some r, w')))"

record ('v, 'w, 'r) ScriptRun =
  run_world :: 'w
  run_position :: nat
  run_vars :: "'v FrameStack"
  run_registered :: "string set"
  run_rows :: "'r option"
  run_at_end :: bool

text \<open>
  \<open>leading_text_step\<close> is the part of a step that reads the text itself: a control-flow tail or a
  leading assignment. If neither is there, the step goes on with the analyzer, in the state and
  with the registered names it returns.
\<close>

definition leading_text_step ::
    "('x, 't, 'v, 'w, 'r) ScriptEngine \<Rightarrow> QueryRequest \<Rightarrow> ('v, 'w, 'r) ScriptRun \<Rightarrow>
     Failure \<times> 'w + (('v, 'w, 'r) ScriptRun + 'w \<times> string set)" where
  "leading_text_step E request run =
     (let input = qr_sql request; remaining = drop (run_position run) input
      in case ExecuteControlFlowTailIfNeeded E request (run_world run) (run_vars run) remaining of
           (Inl s, w) \<Rightarrow> Inl (FailedWith s, w)
         | (Inr (Some rows), w) \<Rightarrow>
             Inr (Inl (run\<lparr>run_world := w, run_rows := Some rows, run_at_end := True\<rparr>))
         | (Inr None, w) \<Rightarrow>
        (case RegisterScriptVariablesOnCatalog E w (run_vars run) (run_registered run) of
           (Inl s, w', reg) \<Rightarrow> Inl (FailedWith s, w')
         | (Inr _, w', reg) \<Rightarrow>
        (case TryExecuteLeadingSetStatement E request input (run_position run) w' (run_vars run) of
           Inl f \<Rightarrow> Inl (f, w')
         | Inr (set_handled, pos, vars) \<Rightarrow>
             if set_handled then
               Inr (Inl (run\<lparr>run_world := w', run_registered := reg, run_position := pos, run_vars := vars,
                 run_at_end := (run_at_end run \<or> StripAsciiWhitespace (drop pos input) = [])\<rparr>))
             else Inr (Inr (w', reg)))))"

definition analyzer_step ::
    "('x, 't, 'v, 'w, 'r) ScriptEngine \<Rightarrow> nat \<Rightarrow> QueryRequest \<Rightarrow> ('v, 'w, 'r) ScriptRun \<Rightarrow> 'w \<Rightarrow> string set \<Rightarrow>
     (Failure \<times> 'w + ('v, 'w, 'r) ScriptRun) option" where
  "analyzer_step E depth request run w reg =
     (case AnalyzeNextStatement E w (qr_sql request) (run_position run) of
        Inl s \<Rightarrow> Some (Inl (FailedWith s, w))
      | Inr (None, pos, at_end) \<Rightarrow>
          Some (Inl (FailedWith (Status kInternal
            ''script::ExecuteScriptViaAnalyzeNext: analyzer returned null''), w))
      | Inr (Some stmt, pos, at_end) \<Rightarrow>
          (case ExecuteOneScriptStatement E depth request stmt w (run_vars run) (run_rows run) of
             None \<Rightarrow> None
           | Some (Inl s, w', _) \<Rightarrow> Some (Inl (FailedWith s, w'))
           | Some (Inr _, w', vars, rows) \<Rightarrow>
               Some (Inr \<lparr>run_world = w', run_position = pos, run_vars = vars, run_registered = reg,
                 run_rows = rows, run_at_end = at_end\<rparr>)))"

definition ExecuteAnalyzeNextLoopStep ::
    "('x, 't, 'v, 'w, 'r) ScriptEngine \<Rightarrow> nat \<Rightarrow> QueryRequest \<Rightarrow> ('v, 'w, 'r) ScriptRun \<Rightarrow>
     (Failure \<times> 'w + ('v, 'w, 'r) ScriptRun) option" where
  "ExecuteAnalyzeNextLoopStep E depth request run =
     (case leading_text_step E request run of
        Inl f \<Rightarrow> Some (Inl f)
      | Inr (Inl run') \<Rightarrow> Some (Inr run')
      | Inr (Inr (w, reg)) \<Rightarrow> analyzer_step E depth request run w reg)"

partial_function (option) script_loop ::
    "('x, 't, 'v, 'w, 'r) ScriptEngine \<Rightarrow> nat \<Rightarrow> QueryRequest \<Rightarrow> ('v, 'w, 'r) ScriptRun \<Rightarrow>
     (Failure \<times> 'w + ('v, 'w, 'r) ScriptRun) option" where
  "script_loop E depth request run =
     (if run_at_end run then Some (Inr run)
      else Option.bind (ExecuteAnalyzeNextLoopStep E depth request run)
             (\<lambda>step. case step of Inl f \<Rightarrow> Some (Inl f) | Inr run' \<Rightarrow> script_loop E depth request run'))"

definition initial_run :: "'w \<Rightarrow> ('v, 'w, 'r) ScriptRun" where
  "initial_run w =
     \<lparr>run_world = w, run_position = 0, run_vars = new_FrameStack, run_registered = {}, run_rows = None,
      run_at_end = False\<rparr>"

definition whole_script_to_googlesql :: "string \<Rightarrow> bool" where
  "whole_script_to_googlesql sql \<longleftrightarrow>
     \<not> ScriptUsesCreateConstantLowering sql \<and> ScriptNeedsGoogleSqlExecutor (StripBeginEnd sql)"

definition ExecuteScriptViaAnalyzeNext ::
    "('x, 't, 'v, 'w, 'r) ScriptEngine \<Rightarrow> nat \<Rightarrow> QueryRequest \<Rightarrow> 'w \<Rightarrow> ((Failure + 'r) \<times> 'w) option" where
  "ExecuteScriptViaAnalyzeNext E depth request w =
     (if \<not> is_GoogleSqlCatalog E w then
        Some (Inl (FailedWith (Status kFailedPrecondition
          ''script::ExecuteScriptViaAnalyzeNext: catalog must be GoogleSqlCatalog'')), w)
      else case BuildAnalyzerOptions E w request True of
        Inl s \<Rightarrow> Some (Inl (FailedWith s), w)
      | Inr _ \<Rightarrow>
     (case ScriptViaGoogleSql E of
        Some run \<Rightarrow>
          (if whole_script_to_googlesql (qr_sql request) then
             (case run w request None
                     (if StartsWithIgnoreCase (StripAsciiWhitespace (qr_sql request)) ''BEGIN''
                      then qr_sql request else StripBeginEnd (qr_sql request)) of
                (Inl s, w') \<Rightarrow> Some (Inl (FailedWith s), w')
              | (Inr r, w') \<Rightarrow> Some (Inr r, w'))
           else map_option (\<lambda>out. case out of
                    Inl (f, w') \<Rightarrow> (Inl f, w')
                  | Inr end_run \<Rightarrow> (Inr (final_result E (run_rows end_run)), run_world end_run))
                  (script_loop E depth request (initial_run w)))
      | None \<Rightarrow>
          map_option (\<lambda>out. case out of
                    Inl (f, w') \<Rightarrow> (Inl f, w')
                  | Inr end_run \<Rightarrow> (Inr (final_result E (run_rows end_run)), run_world end_run))
            (script_loop E depth request (initial_run w))))"

subsection \<open>More nesting never changes a result\<close>

definition extends ::
    "('x, 't, 'v, 'w, 'r) Handler \<Rightarrow> ('x, 't, 'v, 'w, 'r) Handler \<Rightarrow> bool" where
  "extends n m \<longleftrightarrow> (\<forall>request stmt w vars rows out.
     n request stmt w vars rows = Some out \<longrightarrow> m request stmt w vars rows = Some out)"

lemma run_body_mono:
  "extends n m \<Longrightarrow> run_body E n request stmts w args = Some out \<Longrightarrow> run_body E m request stmts w args = Some out"
proof (induction E n request stmts w args rule: run_body.induct)
  case (2 E nested request stmt_sql rest w args)
  then show ?case
    by (auto simp: Let_def extends_def split: if_splits option.splits sum.splits prod.splits)
qed simp

lemma body_mono:
  assumes "extends n m" "ExecuteProcedureBody E n request body w args = Some out"
  shows "ExecuteProcedureBody E m request body w args = Some out"
  using assms(2) run_body_mono [OF assms(1)]
  by (simp add: ExecuteProcedureBody_def split: if_splits prod.splits sum.splits)

lemma call_mono:
  assumes "extends n m" "ExecuteCallStmt E n request procedure arguments formals w vars = Some out"
  shows "ExecuteCallStmt E m request procedure arguments formals w vars = Some out"
proof (cases "prepare_call E request procedure arguments formals w vars")
  case (Inl s)
  with assms(2) show ?thesis by (simp add: ExecuteCallStmt_def)
next
  case (Inr prep)
  obtain body args outs where prep: "prep = (body, args, outs)" by (cases prep)
  show ?thesis
  proof (cases "ExecuteProcedureBody E n request body w args")
    case None
    with assms(2) Inr prep show ?thesis by (simp add: ExecuteCallStmt_def)
  next
    case (Some r)
    from body_mono [OF assms(1) this] Some assms(2) Inr prep show ?thesis by (simp add: ExecuteCallStmt_def)
  qed
qed

lemma immediate_mono:
  assumes "extends n m" "ExecuteExecuteImmediate E n request sql w vars = Some out"
  shows "ExecuteExecuteImmediate E m request sql w vars = Some out"
proof (cases "prepare_dynamic E request sql w vars")
  case (Pair prep w')
  have ext: "n r s w' v q = Some o1 \<Longrightarrow> m r s w' v q = Some o1" for r s w' v q o1
    using assms(1) unfolding extends_def by blast
  from Pair assms(2) ext show ?thesis
    by (cases prep) (auto simp: ExecuteExecuteImmediate_def split: prod.splits)
qed

lemma statement_switch_mono:
  assumes "extends n m"
  shows "extends (statement_switch E n) (statement_switch E m)"
  unfolding extends_def
proof (intro allI impI)
  fix request stmt w vars rows out
  assume out: "statement_switch E n request stmt w vars rows = Some out"
  show "statement_switch E m request stmt w vars rows = Some out"
  proof (cases stmt)
    case (CallStmt procedure arguments formals)
    with out obtain r where "ExecuteCallStmt E n request procedure arguments formals w vars = Some r"
      "out = with_rows rows r" by (auto simp: statement_switch_def)
    with call_mono [OF assms] CallStmt show ?thesis by (simp add: statement_switch_def)
  next
    case (ExecuteImmediateStmt sql)
    with out obtain r where "ExecuteExecuteImmediate E n request sql w vars = Some r"
      "out = with_rows rows r" by (auto simp: statement_switch_def)
    with immediate_mono [OF assms] ExecuteImmediateStmt show ?thesis by (simp add: statement_switch_def)
  qed (use out in \<open>simp_all add: statement_switch_def\<close>)
qed

lemma depth_Suc: "extends (ExecuteOneScriptStatement E depth) (ExecuteOneScriptStatement E (Suc depth))"
proof (induction depth)
  case 0
  show ?case by (simp add: extends_def)
next
  case (Suc depth)
  have eq: "ExecuteOneScriptStatement E (Suc d) = statement_switch E (ExecuteOneScriptStatement E d)" for d
    by (intro ext) simp
  show ?case unfolding eq using statement_switch_mono [OF Suc, of E] by (simp add: eq)
qed

lemma depth_mono:
  assumes "d \<le> d'"
  shows "extends (ExecuteOneScriptStatement E d) (ExecuteOneScriptStatement E d')"
  using assms
proof (induction rule: dec_induct)
  case base
  show ?case by (simp add: extends_def)
next
  case (step n)
  then show ?case using depth_Suc [of E n] by (simp add: extends_def)
qed

lemma statement_returns:
  assumes "\<And>p a f. stmt \<noteq> CallStmt p a f" "\<And>sql. stmt \<noteq> ExecuteImmediateStmt sql"
  shows "\<exists>out. ExecuteOneScriptStatement E (Suc 0) request stmt w vars rows = Some out"
proof (cases stmt)
  case (CallStmt p a f)
  with assms(1) show ?thesis by blast
next
  case (ExecuteImmediateStmt sql)
  with assms(2) show ?thesis by blast
qed (auto simp: statement_switch_def split: prod.splits sum.splits)

subsection \<open>The loop advances\<close>

lemma set_statement_advances:
  assumes "TryExecuteLeadingSetStatement E request input pos w vars = Inr (True, pos', vars')"
  shows "pos < pos' \<and> pos' \<le> length input"
proof -
  let ?rem = "drop pos input"
  from assms have ne: "SkipLeadingLineComments ?rem \<noteq> []"
    and pos': "pos' = pos + consumed_bytes (ExtractFirstStatementChunk ?rem)"
    by (auto simp: TryExecuteLeadingSetStatement_def Let_def
        split: if_splits option.splits prod.splits sum.splits)
  from Skip_nonspace [OF ne] have "?rem \<noteq> []" by auto
  with consumed_pos [OF Skip_nonspace [OF ne]] consumed_le [of ?rem] show ?thesis
    unfolding pos' by simp
qed

lemma leading_text_advances:
  assumes "leading_text_step E request run = Inr (Inl run')"
  shows "run_at_end run' \<or> (run_position run < run_position run' \<and> run_position run' \<le> length (qr_sql request))"
proof -
  let ?rem = "drop (run_position run) (qr_sql request)"
  obtain c w where c: "ExecuteControlFlowTailIfNeeded E request (run_world run) (run_vars run) ?rem = (c, w)"
    by (cases "ExecuteControlFlowTailIfNeeded E request (run_world run) (run_vars run) ?rem")
  show ?thesis
  proof (cases "\<exists>rows. c = Inr (Some rows)")
    case True
    with assms c show ?thesis by (auto simp: leading_text_step_def Let_def)
  next
    case False
    note step = assms [unfolded leading_text_step_def Let_def c]
    have cn: "c = Inr None"
    proof (cases c)
      case (Inr o1)
      with False show ?thesis by (cases o1) auto
    qed (use step in simp)
    obtain q w' reg where q: "RegisterScriptVariablesOnCatalog E w (run_vars run) (run_registered run) = (q, w', reg)"
      by (cases "RegisterScriptVariablesOnCatalog E w (run_vars run) (run_registered run)")
    note step = step [unfolded cn q prod.case sum.case option.case]
    have qn: "q = Inr ()" by (cases q) (use step in simp_all)
    note step = step [unfolded qn sum.case]
    obtain h pos vars where t:
      "TryExecuteLeadingSetStatement E request (qr_sql request) (run_position run) w' (run_vars run) = Inr (h, pos, vars)"
      by (cases "TryExecuteLeadingSetStatement E request (qr_sql request) (run_position run) w' (run_vars run)")
        (use step in auto)
    from step [unfolded t sum.case prod.case] have "h" "run_position run' = pos"
      by (auto split: if_splits)
    with t set_statement_advances [of E request "qr_sql request" "run_position run" w' "run_vars run" pos vars]
    show ?thesis by simp
  qed
qed

text \<open>What the executor relies on: a successful analysis moves the position forward, within the text.\<close>

definition analyzer_advances :: "('x, 't, 'v, 'w, 'r) ScriptEngine \<Rightarrow> string \<Rightarrow> bool" where
  "analyzer_advances E sql \<longleftrightarrow> (\<forall>w pos stmt pos' e.
     AnalyzeNextStatement E w sql pos = Inr (stmt, pos', e) \<longrightarrow> pos < pos' \<and> pos' \<le> length sql)"

text \<open>The nesting of calls and dynamic statements in the statements of the script stays within the bound.\<close>

definition nesting_within :: "('x, 't, 'v, 'w, 'r) ScriptEngine \<Rightarrow> nat \<Rightarrow> QueryRequest \<Rightarrow> bool" where
  "nesting_within E depth request \<longleftrightarrow> (\<forall>w pos stmt pos' e w' vars rows.
     AnalyzeNextStatement E w (qr_sql request) pos = Inr (Some stmt, pos', e) \<longrightarrow>
     ExecuteOneScriptStatement E depth request stmt w' vars rows \<noteq> None)"

lemma step_advances:
  assumes "analyzer_advances E (qr_sql request)" "ExecuteAnalyzeNextLoopStep E depth request run = Some (Inr run')"
  shows "run_at_end run' \<or> (run_position run < run_position run' \<and> run_position run' \<le> length (qr_sql request))"
proof (cases "\<exists>r. leading_text_step E request run = Inr (Inl r)")
  case True
  with assms(2) leading_text_advances [of E request run run'] show ?thesis
    by (auto simp: ExecuteAnalyzeNextLoopStep_def)
next
  case False
  with assms(2) obtain w reg where "analyzer_step E depth request run w reg = Some (Inr run')"
    by (auto simp: ExecuteAnalyzeNextLoopStep_def split: sum.splits prod.splits)
  then obtain stmt pos e where "AnalyzeNextStatement E w (qr_sql request) (run_position run) = Inr (stmt, pos, e)"
    "run_position run' = pos"
    by (auto simp: analyzer_step_def split: sum.splits prod.splits option.splits)
  with assms(1) show ?thesis unfolding analyzer_advances_def by blast
qed

lemma step_returns:
  assumes "nesting_within E depth request"
  shows "\<exists>out. ExecuteAnalyzeNextLoopStep E depth request run = Some out"
proof -
  have "\<exists>out. analyzer_step E depth request run w reg = Some out" for w reg
  proof (cases "AnalyzeNextStatement E w (qr_sql request) (run_position run)")
    case (Inr r)
    obtain stmt pos e where r: "r = (stmt, pos, e)" by (cases r)
    show ?thesis
    proof (cases stmt)
      case (Some st)
      with assms Inr r obtain out where
        "ExecuteOneScriptStatement E depth request st w (run_vars run) (run_rows run) = Some out"
        unfolding nesting_within_def by blast
      with Inr r Some show ?thesis by (auto simp: analyzer_step_def split: sum.splits prod.splits)
    qed (simp add: analyzer_step_def Inr r)
  qed (simp add: analyzer_step_def)
  then show ?thesis by (auto simp: ExecuteAnalyzeNextLoopStep_def split: sum.splits)
qed

lemma step_mono:
  assumes "depth \<le> d" "ExecuteAnalyzeNextLoopStep E depth request run = Some out"
  shows "ExecuteAnalyzeNextLoopStep E d request run = Some out"
proof -
  have "analyzer_step E d request run w reg = Some o2" if "analyzer_step E depth request run w reg = Some o2" for w reg o2
  proof (cases "AnalyzeNextStatement E w (qr_sql request) (run_position run)")
    case (Inr r)
    obtain stmt pos e where r: "r = (stmt, pos, e)" by (cases r)
    show ?thesis
    proof (cases stmt)
      case (Some st)
      with that Inr r obtain o1 where o1:
        "ExecuteOneScriptStatement E depth request st w (run_vars run) (run_rows run) = Some o1"
        by (cases "ExecuteOneScriptStatement E depth request st w (run_vars run) (run_rows run)")
          (auto simp: analyzer_step_def)
      then have "ExecuteOneScriptStatement E d request st w (run_vars run) (run_rows run) = Some o1"
        using depth_mono [OF assms(1), of E] unfolding extends_def by blast
      with o1 that Inr r Some show ?thesis by (simp add: analyzer_step_def)
    qed (use that in \<open>simp add: analyzer_step_def Inr r\<close>)
  qed (use that in \<open>simp add: analyzer_step_def\<close>)
  with assms(2) show ?thesis by (auto simp: ExecuteAnalyzeNextLoopStep_def split: sum.splits)
qed

lemma loop_returns:
  assumes "analyzer_advances E (qr_sql request)" "nesting_within E depth request"
  shows "\<exists>out. \<forall>d \<ge> depth. script_loop E d request run = Some out"
proof (induction "length (qr_sql request) - run_position run" arbitrary: run rule: less_induct)
  case less
  show ?case
  proof (cases "run_at_end run")
    case True
    then show ?thesis by (subst script_loop.simps) auto
  next
    case False
    obtain step where step: "\<And>d. d \<ge> depth \<Longrightarrow> ExecuteAnalyzeNextLoopStep E d request run = Some step"
      using step_returns [OF assms(2), of run] step_mono by blast
    have unfold: "script_loop E d request run =
        (case step of Inl f \<Rightarrow> Some (Inl f) | Inr run' \<Rightarrow> script_loop E d request run')" if "d \<ge> depth" for d
      using False step [OF that] by (subst script_loop.simps) simp
    show ?thesis
    proof (cases step)
      case (Inl f)
      with unfold show ?thesis by auto
    next
      case (Inr run')
      have "\<exists>out. \<forall>d \<ge> depth. script_loop E d request run' = Some out"
      proof (cases "run_at_end run'")
        case True
        then show ?thesis by (subst script_loop.simps) auto
      next
        case False
        with step_advances [OF assms(1), of depth run run'] step [of depth] Inr less.hyps [of run']
        show ?thesis by fastforce
      qed
      with unfold Inr show ?thesis by auto
    qed
  qed
qed

subsection \<open>Leading assignments\<close>

definition assignment_text :: "string \<Rightarrow> string \<Rightarrow> string" where
  "assignment_text name expr = ''SET '' @ name @ '' = '' @ expr"

definition assignment_parts :: "string \<Rightarrow> string \<Rightarrow> bool" where
  "assignment_parts name expr \<longleftrightarrow>
     name \<noteq> [] \<and> expr \<noteq> [] \<and> CHR ''='' \<notin> set name \<and> closed False (assignment_text name expr) \<and>
     \<not> ascii_isspace (hd name) \<and> \<not> ascii_isspace (last name) \<and>
     \<not> ascii_isspace (hd expr) \<and> \<not> ascii_isspace (last expr)"

lemma split_assignment_text:
  assumes "CHR ''='' \<notin> set name" "name \<noteq> []" "\<not> ascii_isspace (hd name)" "\<not> ascii_isspace (last name)"
    "expr \<noteq> []" "\<not> ascii_isspace (hd expr)" "\<not> ascii_isspace (last expr)" "\<forall>c \<in> set w. ascii_isspace c"
  shows "split_assignment (w @ name @ '' = '' @ expr) = Some (name, expr)"
proof -
  have eq: "w @ name @ '' = '' @ expr = (w @ name @ '' '') @ CHR ''='' # '' '' @ expr" by simp
  have no: "\<forall>c \<in> set (w @ name @ '' ''). c \<noteq> CHR ''=''" using assms(1,8) by auto
  have "takeWhile (\<lambda>c. c \<noteq> CHR ''='') ((w @ name @ '' '') @ CHR ''='' # '' '' @ expr) = w @ name @ '' ''"
    "dropWhile (\<lambda>c. c \<noteq> CHR ''='') ((w @ name @ '' '') @ CHR ''='' # '' '' @ expr) = CHR ''='' # '' '' @ expr"
    using takeWhile_append_stop [OF no] dropWhile_append_stop [OF no] by simp_all
  then show ?thesis
    unfolding eq split_assignment_def
    using Strip_pad [of w "'' ''" name] Strip_pad [of "'' ''" "[]" expr] assms by simp
qed

lemma assignment_statement:
  assumes "assignment_parts name expr"
  shows "statement_text (assignment_text name expr)" "StartsWithIgnoreCase (assignment_text name expr @ r) ''SET ''"
    "split_assignment (drop 4 (assignment_text name expr)) = Some (name, expr)"
    "4 \<le> length (assignment_text name expr)" "hd (assignment_text name expr) \<noteq> CHR ''-''"
  using assms split_assignment_text [of name expr "[]"]
  by (simp_all add: assignment_parts_def statement_text_def assignment_text_def StartsWithIgnoreCase_def)

lemma leading_assignment:
  assumes parts: "assignment_parts name expr" and w: "\<forall>c \<in> set w. ascii_isspace c"
    and rem: "drop pos input = w @ assignment_text name expr @ r" and r: "r = [] \<or> hd r = CHR '';''"
  shows "TryExecuteLeadingSetStatement E request input pos world vars =
    (case ExecuteProcedureSet E request name expr world vars of
       (Inl s, vars') \<Rightarrow> Inl (FailedWith s)
     | (Inr _, vars') \<Rightarrow>
         Inr (True, pos + length (assignment_text name expr) + (if r = [] then 0 else length w + 1), vars'))"
proof -
  let ?a = "assignment_text name expr"
  note st = assignment_statement [OF parts]
  from st(1) have ends: "?a \<noteq> []" "\<not> ascii_isspace (hd ?a)" "\<not> ascii_isspace (last ?a)"
    by (auto simp: statement_text_def)
  obtain r' where skip: "SkipLeadingLineComments (w @ ?a @ r) = ?a @ r'"
    using Skip_statement [OF w ends st(5), of r] by blast
  have chunk: "ExtractFirstStatementChunk (w @ ?a @ r) =
      \<lparr>chunk_sql = ?a, consumed_bytes = length ?a + (if r = [] then 0 else length w + 1)\<rparr>"
    using chunk_closed(1) [OF w st(1), of "tl r"] chunk_closed(2) [OF w st(1)] r by (cases r) auto
  show ?thesis
    unfolding TryExecuteLeadingSetStatement_def Let_def rem skip chunk
    using ends(1) st(2) [of r'] st(3,4) by (simp add: add.assoc split: sum.splits prod.splits)
qed

lemma Strip_inner_space:
  assumes "u \<noteq> []" "\<not> ascii_isspace (last u)" "name \<noteq> []" "\<not> ascii_isspace (last name)"
  shows "CHR '' '' \<in> set (StripAsciiWhitespace (u @ '' '' @ name @ '' ''))"
proof -
  let ?d = "dropWhile ascii_isspace u"
  have d: "?d \<noteq> []" using assms(1,2) by (auto simp: dropWhile_eq_Nil_conv)
  then have "\<not> ascii_isspace (hd (?d @ '' '' @ name))" using hd_dropWhile [of ascii_isspace u] by simp
  then have "StripAsciiWhitespace (takeWhile ascii_isspace u @ (?d @ '' '' @ name) @ '' '') = ?d @ '' '' @ name"
    using assms(3,4) by (intro Strip_pad) (auto dest: set_takeWhileD)
  moreover have "u @ '' '' @ name @ '' '' = takeWhile ascii_isspace u @ (?d @ '' '' @ name) @ '' ''"
    by simp
  ultimately have "StripAsciiWhitespace (u @ '' '' @ name @ '' '') = ?d @ '' '' @ name" by metis
  then show ?thesis by simp
qed

lemma comment_target:
  assumes "CHR ''='' \<notin> set c" "assignment_parts name expr"
  obtains target where
    "split_assignment (drop 4 (''--'' @ c @ [CHR 0x0A] @ assignment_text name expr)) = Some (target, expr)"
    "CHR '' '' \<in> set target"
proof -
  define u where "u = drop 4 (''--'' @ c @ [CHR 0x0A] @ ''SET'')"
  have len: "4 < length (''--'' @ c @ [CHR 0x0A] @ ''SET'')" by simp
  have "length u = length (''--'' @ c @ [CHR 0x0A] @ ''SET'') - 4" unfolding u_def by (rule length_drop)
  moreover have "last u = last (''--'' @ c @ [CHR 0x0A] @ ''SET'')" unfolding u_def by (rule last_drop [OF len])
  ultimately have u: "u \<noteq> []" "last u = CHR ''T''" by (simp_all flip: length_greater_0_conv)
  have body: "drop 4 (''--'' @ c @ [CHR 0x0A] @ assignment_text name expr) =
      (u @ '' '' @ name @ '' '') @ CHR ''='' # '' '' @ expr"
  proof -
    have "''--'' @ c @ [CHR 0x0A] @ assignment_text name expr =
        (''--'' @ c @ [CHR 0x0A] @ ''SET'') @ '' '' @ name @ '' = '' @ expr" by (simp add: assignment_text_def)
    then show ?thesis using len unfolding u_def by (simp only: drop_append) simp
  qed
  have no: "\<forall>x \<in> set (u @ '' '' @ name @ '' ''). x \<noteq> CHR ''=''"
    using assms unfolding u_def by (auto simp: assignment_parts_def dest: in_set_dropD)
  have parts: "takeWhile (\<lambda>x. x \<noteq> CHR ''='') ((u @ '' '' @ name @ '' '') @ CHR ''='' # '' '' @ expr) = u @ '' '' @ name @ '' ''"
    "dropWhile (\<lambda>x. x \<noteq> CHR ''='') ((u @ '' '' @ name @ '' '') @ CHR ''='' # '' '' @ expr) = CHR ''='' # '' '' @ expr"
    using takeWhile_append_stop [OF no] dropWhile_append_stop [OF no] by simp_all
  have "StripAsciiWhitespace ('' '' @ expr) = expr"
    using Strip_pad [of "'' ''" "[]" expr] assms(2) by (simp add: assignment_parts_def)
  then have "split_assignment (drop 4 (''--'' @ c @ [CHR 0x0A] @ assignment_text name expr)) =
      Some (StripAsciiWhitespace (u @ '' '' @ name @ '' ''), expr)"
    unfolding body split_assignment_def parts by simp
  moreover have "CHR '' '' \<in> set (StripAsciiWhitespace (u @ '' '' @ name @ '' ''))"
    using u assms(2) by (intro Strip_inner_space) (auto simp: assignment_parts_def)
  ultimately show ?thesis by (rule that)
qed

lemma Set_spaced_name:
  assumes "\<forall>k \<in> dom (VisibleBindings vars). CHR '' '' \<notin> set k" "CHR '' '' \<in> set target"
  shows "SetVar vars target v = (Inl (not_declared target), vars)"
proof -
  have "ascii_tolower (CHR '' '') = CHR '' ''" by simp
  with assms(2) have "CHR '' '' \<in> set (Canonicalize target)"
    unfolding Canonicalize_def AsciiStrToLower_def by (metis image_eqI set_map)
  with assms(1) have "lookup_key vars (Canonicalize target) = None"
    by (auto simp: VisibleBindings_lookup [symmetric])
  then show ?thesis by (simp add: SetVar_def set_key_None [THEN iffD2])
qed

lemma copy_back_assigns:
  "copy_back outs args vars = (Inr u, vars') \<Longrightarrow>
     \<exists>vals. map (\<lambda>p. Lookup args (fst p)) outs = map Inr vals \<and>
       fs.assign_all vars (zip (map snd outs) vals) = (Inr (), vars')"
proof (induction outs args vars rule: copy_back.induct)
  case (1 args vars)
  then show ?case by (intro exI [of _ "[]"]) simp
next
  case (2 formal caller rest args vars)
  then obtain v vars1 where v: "Lookup args formal = Inr v" "SetVar vars caller v = (Inr (), vars1)"
    "copy_back rest args vars1 = (Inr u, vars')"
    by (auto split: sum.splits prod.splits)
  then obtain vals where "map (\<lambda>p. Lookup args (fst p)) rest = map Inr vals"
    "fs.assign_all vars1 (zip (map snd rest) vals) = (Inr (), vars')"
    using "2.IH" [OF v(1)] by force
  with v show ?case by (intro exI [of _ "v # vals"]) simp
qed

subsection \<open>Properties\<close>


text \<open>
  A small engine for the examples: an expression is a decimal number, a query answers with its
  position, and the analyzer takes the rest of the text as one query.
\<close>

definition demo_engine :: "(nat, unit, nat, unit, string) ScriptEngine" where
  "demo_engine =
     \<lparr>EvalExpr = (\<lambda>w e ctx. case e of ResolvedOtherExpr n \<Rightarrow> Inr n | _ \<Rightarrow> Inl (Status kUnimplemented [])),
      expr_is_bool = (\<lambda>e. False), value_null = (\<lambda>v. False), value_bool = (\<lambda>v. v \<noteq> 0),
      value_string = (\<lambda>v. None), DebugString = (\<lambda>v. dec_nat v), type_kind = (\<lambda>t. TYPE_INT64), NullInt64 = 0,
      NullFloat = 0, NullDouble = 0, NullString = 0, NullBool = 0, NullTyped = (\<lambda>t. 0),
      ParseParameterValue = (\<lambda>p. Inr 0), ExecuteResolvedStatement = (\<lambda>w r s vars. (Inr (qr_sql r), w)),
      ExecuteDdl = (\<lambda>w r. (Inr (), w)), ExecuteDml = (\<lambda>w r. (Inr (), w)),
      FindProjectProcedure = (\<lambda>w p n. None), is_GoogleSqlCatalog = (\<lambda>w. True), FindConstant = (\<lambda>w n. True),
      AddConstant = (\<lambda>w n v. Inr w),
      binding_order = (\<lambda>m. concat (map (\<lambda>k. case m k of Some v \<Rightarrow> [(k, v)] | None \<Rightarrow> []) [''x'', ''y''])),
      BuildAnalyzerOptions = (\<lambda>w r all. Inr ()), AnalyzeOneStatement = (\<lambda>w r. Inr (Some (QueryStmt 0))),
      value_has_type = (\<lambda>v. True), AddExpressionColumn = (\<lambda>n v. Inr ()),
      AnalyzeExpression = (\<lambda>w r f s. Inr (Some (ResolvedOtherExpr (undec s)))),
      AnalyzeNextStatement = (\<lambda>w s pos. if pos < length s then Inr (Some (QueryStmt pos), length s, True)
                                          else Inl (Status kInvalidArgument ''syntax error'')),
      ScriptViaGoogleSql = None, no_rows = []\<rparr>"

definition demo_request :: "string \<Rightarrow> QueryRequest" where
  "demo_request sql =
     \<lparr>qr_project_id = ''p'', qr_default_dataset_id = ''d'', qr_sql = sql, qr_parameters = []\<rparr>"


text \<open>
  C36 (assignments in the text). A leading \<open>SET name = expr\<close> whose quotes are closed, with any white
  space before it, assigns the value of the expression to the declared variable and leaves every
  other variable as it was. After a semicolon the script continues right behind it; without one the
  position falls short by the white space that was skipped, so that many of the last characters of
  the statement are read again as the next statement.
\<close>

theorem leading_set_assigns:
  assumes "assignment_parts name expr" "\<forall>c \<in> set ws. ascii_isspace c"
    and "drop pos input = ws @ assignment_text name expr @ r" "r = [] \<or> hd r = CHR '';''"
    and "EvalExpressionScalar E request expr w vars = Inr v" "Lookup vars name = Inr old"
  shows "\<exists>pos' vars'. TryExecuteLeadingSetStatement E request input pos w vars = Inr (True, pos', vars') \<and>
     Lookup vars' name = Inr v \<and>
     (\<forall>other. Canonicalize other \<noteq> Canonicalize name \<longrightarrow> Lookup vars' other = Lookup vars other) \<and>
     drop pos' input =
       (if r = [] then drop (length (assignment_text name expr)) (ws @ assignment_text name expr) else tl r)"
proof -
  from assms(6) obtain vars' where set: "SetVar vars name v = (Inr (), vars')"
    using fs.set_ok_iff [of vars name v] by blast
  then have run: "ExecuteProcedureSet E request name expr w vars = (Inr (), vars')"
    by (simp add: ExecuteProcedureSet_def assms(5) assign_status_def)
  let ?pos = "pos + length (assignment_text name expr) + (if r = [] then 0 else length ws + 1)"
  have "drop ?pos input =
      drop (length (assignment_text name expr) + (if r = [] then 0 else length ws + 1)) (ws @ assignment_text name expr @ r)"
    unfolding assms(3) [symmetric] by (simp add: add.commute add.left_commute)
  also have "\<dots> = (if r = [] then drop (length (assignment_text name expr)) (ws @ assignment_text name expr) else tl r)"
    by (cases r) auto
  finally show ?thesis
    using leading_assignment [OF assms(1-4), of E request w vars] run fs.set_read [OF set]
      fs.set_frame [OF set] by auto
qed

theorem leading_set_assigns_witness:
  "\<exists>pos' vars'. TryExecuteLeadingSetStatement demo_engine (demo_request '' SET X = 42'') '' SET X = 42'' 0 ()
       [[''x'' \<mapsto> 1]] = Inr (True, pos', vars') \<and> Lookup vars' ''x'' = Inr 42 \<and> drop pos' '' SET X = 42'' = ''2''"
proof -
  have parts: "assignment_parts ''X'' ''42''" by code_simp
  have "EvalExpressionScalar demo_engine (demo_request '' SET X = 42'') ''42'' () [[''x'' \<mapsto> 1]] = Inr 42"
    by (simp add: EvalExpressionScalar_def demo_engine_def VisibleBindings_def undec_def digit_val_def char_code_def)
  moreover have "Lookup [[''x'' \<mapsto> 1]] ''X'' = Inr (1::nat)"
    by (simp add: Lookup_def Canonicalize_def AsciiStrToLower_def)
  moreover have "drop 0 '' SET X = 42'' = '' '' @ assignment_text ''X'' ''42'' @ []" by (simp add: assignment_text_def)
  ultimately obtain pos' vars' where
    "TryExecuteLeadingSetStatement demo_engine (demo_request '' SET X = 42'') '' SET X = 42'' 0 () [[''x'' \<mapsto> 1]] =
       Inr (True, pos', vars')" "Lookup vars' ''X'' = Inr 42" "drop pos' '' SET X = 42'' = ''2''"
    using leading_set_assigns [OF parts, of "'' ''" 0 "'' SET X = 42''" "[]" demo_engine "demo_request '' SET X = 42''"
        "()" "[[''x'' \<mapsto> 1]]" 42 1]
    by (auto simp: assignment_text_def)
  moreover from this(2) have "Lookup vars' ''x'' = Inr 42"
    by (rule fs.lookup_canon [rotated]) (simp add: Canonicalize_def AsciiStrToLower_def)
  ultimately show ?thesis by blast
qed

text \<open>
  An assignment below a comment fails. A line comment before \<open>SET name = expr;\<close> is skipped when
  the statement is recognised but not when it is cut out, so the first four characters that are
  dropped are those of the comment. The name that is assigned to then holds a blank: the script
  fails, although the expression evaluates and whatever variables are declared.
\<close>

theorem commented_set_fails:
  assumes "assignment_parts name expr" "CHR ''='' \<notin> set c" "CHR 0x0A \<notin> set c"
    and "closed False (''--'' @ c @ [CHR 0x0A] @ assignment_text name expr)"
    and "drop pos input = ''--'' @ c @ [CHR 0x0A] @ assignment_text name expr @ CHR '';'' # r"
    and "EvalExpressionScalar E request expr w vars = Inr v"
    and "\<forall>k \<in> dom (VisibleBindings vars). CHR '' '' \<notin> set k"
  shows "\<exists>message. TryExecuteLeadingSetStatement E request input pos w vars =
     Inl (FailedWith (Status kInvalidArgument message))"
proof -
  let ?a = "assignment_text name expr" and ?text = "''--'' @ c @ [CHR 0x0A] @ assignment_text name expr"
  note st = assignment_statement [OF assms(1)]
  from st(1) have ends: "?a \<noteq> []" "\<not> ascii_isspace (hd ?a)" "\<not> ascii_isspace (last ?a)"
    by (auto simp: statement_text_def)
  obtain r' where skip: "SkipLeadingLineComments (drop pos input) = ?a @ r'"
    using Skip_comment [OF assms(3) ends st(5), of "CHR '';'' # r"] by (auto simp: assms(5))
  have "statement_text ?text" using assms(4) ends by (simp add: statement_text_def)
  then have chunk: "chunk_sql (ExtractFirstStatementChunk (drop pos input)) = ?text"
    using chunk_closed(1) [of "[]" ?text r] by (simp add: assms(5))
  obtain target where target: "split_assignment (drop 4 ?text) = Some (target, expr)" "CHR '' '' \<in> set target"
    using comment_target [OF assms(2,1)] .
  have len: "?text \<noteq> []" "\<not> length ?text < 4" using st(4) ends(1) by simp_all
  have "ExecuteProcedureSet E request target expr w vars =
      (assign_status ''script::ExecuteProcedureSet'' target (Inl (not_declared target)), vars)"
    by (simp add: ExecuteProcedureSet_def assms(6) Set_spaced_name [OF assms(7) target(2)])
  then show ?thesis
    unfolding TryExecuteLeadingSetStatement_def Let_def skip chunk target(1)
    using len st(2) [of r'] ends(1) by (simp add: target(1) assign_status_def MakeSemanticError_def del: append.simps)
qed

theorem commented_set_fails_witness:
  "\<exists>message. TryExecuteLeadingSetStatement demo_engine (demo_request [])
       (''-- one'' @ [CHR 0x0A] @ ''SET x = 42;'') 0 () [[''x'' \<mapsto> 1]] = Inl (FailedWith (Status kInvalidArgument message))"
proof -
  have parts: "assignment_parts ''x'' ''42''" by code_simp
  have clo: "closed False (''--'' @ '' one'' @ [CHR 0x0A] @ assignment_text ''x'' ''42'')" by code_simp
  have ev: "EvalExpressionScalar demo_engine (demo_request []) ''42'' () [[''x'' \<mapsto> 1]] = Inr 42"
    by (simp add: EvalExpressionScalar_def demo_engine_def VisibleBindings_def undec_def digit_val_def char_code_def)
  have names: "\<forall>k \<in> dom (VisibleBindings [[''x'' \<mapsto> 1::nat]]). CHR '' '' \<notin> set k"
    by (simp add: VisibleBindings_def)
  show ?thesis
    using commented_set_fails [OF parts _ _ clo _ ev names, of 0 "''-- one'' @ [CHR 0x0A] @ ''SET x = 42;''" "[]"]
    by (simp add: assignment_text_def)
qed


definition demo_procedure :: Procedure where
  "demo_procedure =
     \<lparr>procedure_name = ''p'', as_stored = Some \<lparr>argument_name_list = [''y''], procedure_body = ''SET y = 42''\<rparr>\<rparr>"

lemma demo_call:
  "prepare_call demo_engine (demo_request []) (Some demo_procedure) [Some (ResolvedConstant (Some ''x'') 0)] [None] ()
     [[''x'' \<mapsto> 7]] = Inr (''SET y = 42'', [[''y'' \<mapsto> 7], Map.empty], [(''y'', ''x'')])"
  by (simp add: prepare_call_def demo_procedure_def ScriptVariableNameFromExpr_def Let_def Lookup_def Declare_def
      Canonicalize_def AsciiStrToLower_def PushFrame_def new_FrameStack_def)

lemma demo_set:
  "ExecuteProcedureSet demo_engine (demo_request []) ''y'' ''42'' () [[''y'' \<mapsto> 7], Map.empty] =
     (Inr (), [[''y'' \<mapsto> 42], Map.empty])"
  by (simp add: ExecuteProcedureSet_def EvalExpressionScalar_def demo_engine_def VisibleBindings_def undec_def
      digit_val_def char_code_def SetVar_def Canonicalize_def AsciiStrToLower_def assign_status_def)

lemma demo_body:
  "ExecuteProcedureBody demo_engine nested (demo_request []) ''SET y = 42'' () [[''y'' \<mapsto> 7], Map.empty] =
     Some (Inr (), (), [[''y'' \<mapsto> 42], Map.empty])"
proof -
  have t: "SplitSemicolonStatements (StripBeginEnd ''SET y = 42'') = [''SET y = 42'']"
    "StripAsciiWhitespace ''SET y = 42'' = ''SET y = 42''" "StartsWithIgnoreCase ''SET y = 42'' ''SET ''"
    "split_assignment (drop 4 ''SET y = 42'') = Some (''y'', ''42'')"
    by code_simp+
  have reg: "RegisterScriptVariablesOnCatalog demo_engine () [[''y'' \<mapsto> 7], Map.empty] {} = (Inr (), (), {''y''})"
    by (simp add: RegisterScriptVariablesOnCatalog_def VisibleBindings_def demo_engine_def)
  have cat: "is_GoogleSqlCatalog demo_engine ()" by (simp add: demo_engine_def)
  show ?thesis unfolding ExecuteProcedureBody_def reg t(1) using cat t(2-4) demo_set by (simp add: Let_def)
qed


end
