(* ===== verification/Googlesql_Type.thy ===== *)
theory Googlesql_Type
  imports Schema
begin

section \<open>GoogleSQL types and column schemas\<close>

text \<open>
  The two directions between the types of the query analyzer and column schemas:
  \<open>backend/schema/googlesql_to_bq.cc\<close> reflects an analyzed type as a \<open>v1::FieldSchema\<close>, and
  \<open>GoogleSqlCatalog::ToGoogleSqlType\<close> with its helper \<open>ScalarOrStructType\<close>
  (\<open>backend/catalog/googlesql_catalog.cc\<close>, \<open>googlesql_catalog_find_helpers.cc\<close>) builds the
  analyzed type of a stored column. GoogleSQL is a third-party package: \<open>GType\<close> has the type
  kinds the sources distinguish (\<open>GT_BOOL\<close> for \<open>googlesql::TYPE_BOOL\<close> and so on), the printer \<open>Type::DebugString\<close> is a parameter, and the two
  constructors of \<open>TypeFactory\<close> that can fail are fields of the record \<open>TypeFactory\<close>. The
  element types of arrays, ranges and struct fields are never null in GoogleSQL; a null pointer
  can only reach the entry points, where a type is an option.

  The lemmas show what the reflection accepts and which error it reports, and that a stored
  column survives the trip to its analyzed type and back up to what the analyzed type does not
  carry.
\<close>

subsection \<open>Types\<close>

datatype GType =
    GT_BOOL | GT_INT64 | GT_DOUBLE | GT_STRING | GT_BYTES | GT_DATE | GT_TIME
  | GT_DATETIME | GT_TIMESTAMP | GT_NUMERIC | GT_BIGNUMERIC | GT_JSON | GT_GEOGRAPHY
  | GT_INTERVAL | GT_UUID | GT_PROTO string | GT_OTHER string
  | GT_ARRAY GType
  | GT_RANGE GType
  | GT_STRUCT "StructField list"
  and StructField = StructField (sf_name: string) (sf_type: GType)

fun IsArray :: "GType \<Rightarrow> bool" where
  "IsArray (GT_ARRAY e) = True"
| "IsArray _ = False"

fun IsStruct :: "GType \<Rightarrow> bool" where
  "IsStruct (GT_STRUCT fs) = True"
| "IsStruct _ = False"

record TypeFactory =
  MakeArrayType :: "GType \<Rightarrow> GType StatusOr"
  MakeStructType :: "StructField list \<Rightarrow> GType StatusOr"

subsection \<open>\<open>googlesql_to_bq.cc\<close>\<close>

fun BqScalarName :: "GType \<Rightarrow> string" where
  "BqScalarName GT_BOOL = ''BOOL''"
| "BqScalarName GT_INT64 = ''INT64''"
| "BqScalarName GT_DOUBLE = ''FLOAT64''"
| "BqScalarName GT_STRING = ''STRING''"
| "BqScalarName GT_BYTES = ''BYTES''"
| "BqScalarName GT_DATE = ''DATE''"
| "BqScalarName GT_TIME = ''TIME''"
| "BqScalarName GT_DATETIME = ''DATETIME''"
| "BqScalarName GT_TIMESTAMP = ''TIMESTAMP''"
| "BqScalarName GT_NUMERIC = ''NUMERIC''"
| "BqScalarName GT_BIGNUMERIC = ''BIGNUMERIC''"
| "BqScalarName GT_JSON = ''JSON''"
| "BqScalarName GT_GEOGRAPHY = ''GEOGRAPHY''"
| "BqScalarName _ = []"

definition set_type :: "string \<Rightarrow> FieldSchema \<Rightarrow> FieldSchema" where
  "set_type ty out = FieldSchema (fs_name out) ty (fs_mode out) (fs_description out) (fs_fields out)"

definition set_mode :: "string \<Rightarrow> FieldSchema \<Rightarrow> FieldSchema" where
  "set_mode m out = FieldSchema (fs_name out) (fs_type out) m (fs_description out) (fs_fields out)"

definition add_field :: "FieldSchema \<Rightarrow> FieldSchema \<Rightarrow> FieldSchema" where
  "add_field f out =
     FieldSchema (fs_name out) (fs_type out) (fs_mode out) (fs_description out) (fs_fields out @ [f])"

definition named_field :: "string \<Rightarrow> FieldSchema" where
  "named_field name = FieldSchema name [] [] [] []"

lemmas field_setters = set_type_def set_mode_def add_field_def named_field_def

definition field_error :: "string \<Rightarrow> string \<Rightarrow> Status" where
  "field_error path what = Status kInvalidArgument (''field '' @ [CHR 0x27] @ path @ [CHR 0x27] @ '': '' @ what)"

definition nested_array_error :: string where
  "nested_array_error = ''ARRAY<ARRAY<...>> is not representable in BigQuery''"

definition unsupported_error :: string where
  "unsupported_error = ''unsupported GoogleSQL type for BigQuery reflection: ''"

definition unnamed_error :: "nat \<Rightarrow> string" where
  "unnamed_error i =
     ''STRUCT field #'' @ dec_nat i @
     '' has no name; BigQuery requires a name for every nested field''"

definition child_path :: "string \<Rightarrow> string \<Rightarrow> string" where
  "child_path nested_path name = (if nested_path = [] then name else nested_path @ ''.'' @ name)"

fun FillScalarOrStruct ::
    "(GType \<Rightarrow> string) \<Rightarrow> GType \<Rightarrow> string \<Rightarrow> FieldSchema \<Rightarrow> FieldSchema StatusOr"
  and FillArrayField ::
    "(GType \<Rightarrow> string) \<Rightarrow> GType \<Rightarrow> string \<Rightarrow> FieldSchema \<Rightarrow> FieldSchema StatusOr"
  and FillStructFields ::
    "(GType \<Rightarrow> string) \<Rightarrow> StructField list \<Rightarrow> nat \<Rightarrow> string \<Rightarrow> FieldSchema \<Rightarrow> FieldSchema StatusOr"
  where
  "FillScalarOrStruct DebugString type nested_path out =
     (if BqScalarName type \<noteq> [] then Inr (set_type (BqScalarName type) out)
      else case type of
        GT_STRUCT st \<Rightarrow> FillStructFields DebugString st 0 nested_path (set_type ''STRUCT'' out)
      | GT_RANGE element \<Rightarrow>
          (case FillScalarOrStruct DebugString element (nested_path @ ''.range_element_type'')
                  (named_field ''range_element_type'') of
             Inl s \<Rightarrow> Inl s
           | Inr field \<Rightarrow> Inr (add_field field (set_type ''RANGE'' out)))
      | _ \<Rightarrow> Inl (field_error nested_path (unsupported_error @ DebugString type)))"
| "FillArrayField DebugString array_type path nested =
     (case array_type of
        GT_ARRAY element \<Rightarrow>
          (if IsArray element then Inl (field_error path nested_array_error)
           else case FillScalarOrStruct DebugString element path nested of
                  Inl s \<Rightarrow> Inl s
                | Inr nested' \<Rightarrow> Inr (set_mode ''REPEATED'' nested'))
      | _ \<Rightarrow> Inr nested)"
| "FillStructFields DebugString [] i nested_path out = Inr out"
| "FillStructFields DebugString (StructField name type # rest) i nested_path out =
     (if name = [] then Inl (field_error nested_path (unnamed_error i))
      else case (if IsArray type
                 then FillArrayField DebugString type (child_path nested_path name)
                        (named_field name)
                 else FillScalarOrStruct DebugString type (child_path nested_path name)
                        (named_field name)) of
             Inl s \<Rightarrow> Inl s
           | Inr nested \<Rightarrow>
               FillStructFields DebugString rest (Suc i) nested_path (add_field nested out))"

declare FillScalarOrStruct.simps [simp del]
declare FillArrayField.simps [simp del]

definition column_error :: "string \<Rightarrow> string \<Rightarrow> Status" where
  "column_error name what =
     Status kInvalidArgument
       (''TypeToFieldSchema: column '' @ [CHR 0x27] @ name @ [CHR 0x27] @ what)"

definition TypeToFieldSchema ::
    "(GType \<Rightarrow> string) \<Rightarrow> GType option \<Rightarrow> string \<Rightarrow> FieldSchema StatusOr" where
  "TypeToFieldSchema DebugString type name =
     (case type of
        None \<Rightarrow> Inl (column_error name '' has null type'')
      | Some (GT_ARRAY element) \<Rightarrow>
          (if IsArray element then Inl (column_error name ('': '' @ nested_array_error))
           else case FillScalarOrStruct DebugString element name (named_field name) of
                  Inl s \<Rightarrow> Inl s
                | Inr out \<Rightarrow> Inr (set_mode ''REPEATED'' out))
      | Some t \<Rightarrow> FillScalarOrStruct DebugString t name (named_field name))"

record OutputColumn =
  oc_name :: string
  oc_type :: "GType option"

fun OutputColumnListToTableSchema ::
    "(GType \<Rightarrow> string) \<Rightarrow> OutputColumn option list \<Rightarrow> TableSchemaProto StatusOr" where
  "OutputColumnListToTableSchema DebugString [] = Inr \<lparr>proto_fields = []\<rparr>"
| "OutputColumnListToTableSchema DebugString (None # rest) =
     Inl (Status kInvalidArgument
            ''OutputColumnListToTableSchema: null ResolvedOutputColumn entry'')"
| "OutputColumnListToTableSchema DebugString (Some column # rest) =
     (case TypeToFieldSchema DebugString (oc_type column) (oc_name column) of
        Inl s \<Rightarrow> Inl s
      | Inr field \<Rightarrow>
          (case OutputColumnListToTableSchema DebugString rest of
             Inl s \<Rightarrow> Inl s
           | Inr out \<Rightarrow> Inr \<lparr>proto_fields = field # proto_fields out\<rparr>))"

subsection \<open>From a stored column to its type\<close>

definition no_element_error :: "string \<Rightarrow> Status" where
  "no_element_error name =
     Status kInvalidArgument
       (''column '' @ [CHR 0x27] @ name @ [CHR 0x27] @
        '' has type ARRAY but no nested element schema; use ColumnMode REPEATED on the inner type instead'')"

definition unknown_type_error :: "string \<Rightarrow> string \<Rightarrow> Status" where
  "unknown_type_error name raw =
     Status kInvalidArgument
       (''column '' @ [CHR 0x27] @ name @ [CHR 0x27] @ '' has unknown type (raw '' @ [CHR 0x27] @
        raw @ [CHR 0x27] @ ''); the analyzer cannot resolve it'')"

fun ToGoogleSqlType :: "TypeFactory \<Rightarrow> ColumnSchema \<Rightarrow> GType StatusOr"
  and ScalarOrStructType :: "TypeFactory \<Rightarrow> ColumnSchema \<Rightarrow> GType StatusOr"
  and struct_fields_of :: "TypeFactory \<Rightarrow> ColumnSchema list \<Rightarrow> StructField list StatusOr" where
  "ToGoogleSqlType F column =
     (case ScalarOrStructType F column of
        Inl s \<Rightarrow> Inl s
      | Inr scalar \<Rightarrow> if col_mode column = kRepeated then MakeArrayType F scalar else Inr scalar)"
| "ScalarOrStructType F (ColumnSchema name ty mode desc raw flds) =
     (case ty of
        kBool \<Rightarrow> Inr GT_BOOL
      | kInt64 \<Rightarrow> Inr GT_INT64
      | kFloat64 \<Rightarrow> Inr GT_DOUBLE
      | kString \<Rightarrow> Inr GT_STRING
      | kBytes \<Rightarrow> Inr GT_BYTES
      | kDate \<Rightarrow> Inr GT_DATE
      | kTime \<Rightarrow> Inr GT_TIME
      | kDatetime \<Rightarrow> Inr GT_DATETIME
      | kTimestamp \<Rightarrow> Inr GT_TIMESTAMP
      | kNumeric \<Rightarrow> Inr GT_NUMERIC
      | kBignumeric \<Rightarrow> Inr GT_BIGNUMERIC
      | kJson \<Rightarrow> Inr GT_JSON
      | kStruct \<Rightarrow>
          (case struct_fields_of F flds of
             Inl s \<Rightarrow> Inl s
           | Inr members \<Rightarrow> MakeStructType F members)
      | kArray \<Rightarrow> Inl (no_element_error name)
      | kGeography \<Rightarrow> Inr GT_GEOGRAPHY
      | kUnknown \<Rightarrow> Inl (unknown_type_error name raw))"
| "struct_fields_of F [] = Inr []"
| "struct_fields_of F (field # rest) =
     (case ToGoogleSqlType F field of
        Inl s \<Rightarrow> Inl s
      | Inr t \<Rightarrow>
          (case struct_fields_of F rest of
             Inl s \<Rightarrow> Inl s
           | Inr members \<Rightarrow> Inr (StructField (col_name field) t # members)))"

subsection \<open>What the reflection produces\<close>

text \<open>
  \<open>field_of\<close> is the wire field of a type without the error paths and \<open>reflectable\<close> the types
  that have one: scalars with a BigQuery name, structs of named fields, ranges and arrays whose
  element is not itself an array.
\<close>

lemma size_member_type [termination_simp]:
  "f \<in> set fs \<Longrightarrow> size (sf_type f) < Suc (size_list size fs)"
  by (induction fs) (auto, case_tac f, auto)

fun field_of :: "string \<Rightarrow> GType \<Rightarrow> FieldSchema" where
  "field_of name (GT_ARRAY e) = set_mode ''REPEATED'' (field_of name e)"
| "field_of name (GT_STRUCT fs) =
     FieldSchema name ''STRUCT'' [] [] (map (\<lambda>f. field_of (sf_name f) (sf_type f)) fs)"
| "field_of name (GT_RANGE e) =
     FieldSchema name ''RANGE'' [] [] [field_of ''range_element_type'' e]"
| "field_of name t = FieldSchema name (BqScalarName t) [] [] []"

fun reflectable :: "GType \<Rightarrow> bool" where
  "reflectable (GT_ARRAY e) \<longleftrightarrow> \<not> IsArray e \<and> reflectable e"
| "reflectable (GT_STRUCT fs) \<longleftrightarrow>
     list_all (\<lambda>f. sf_name f \<noteq> [] \<and> reflectable (sf_type f)) fs"
| "reflectable (GT_RANGE e) \<longleftrightarrow> \<not> IsArray e \<and> reflectable e"
| "reflectable t \<longleftrightarrow> BqScalarName t \<noteq> []"

definition is_invalid :: "'a StatusOr \<Rightarrow> bool" where
  "is_invalid r \<longleftrightarrow> (\<exists>m. r = Inl (Status kInvalidArgument m))"

lemma is_invalid_simps [simp]:
  "is_invalid (Inl (Status c m)) \<longleftrightarrow> c = kInvalidArgument" "\<not> is_invalid (Inr x)"
  "is_invalid (Inl (field_error p w))" "is_invalid (Inl (column_error p w))"
  by (simp_all add: is_invalid_def field_error_def column_error_def)

lemma scalar_not_container:
  "BqScalarName t \<noteq> [] \<Longrightarrow> \<not> IsArray t \<and> field_of n t = FieldSchema n (BqScalarName t) [] [] [] \<and> reflectable t"
  by (cases t) simp_all

lemma named_field_sel [simp]:
  "fs_name (named_field n) = n" "fs_type (named_field n) = []" "fs_mode (named_field n) = []"
  "fs_description (named_field n) = []" "fs_fields (named_field n) = []"
  by (simp_all add: named_field_def)

lemma Fill_eqs [simp]:
  "FillScalarOrStruct D (GT_STRUCT st) path out =
     FillStructFields D st 0 path (set_type ''STRUCT'' out)"
  "FillScalarOrStruct D (GT_RANGE e) path out =
     (case FillScalarOrStruct D e (path @ ''.range_element_type'')
             (named_field ''range_element_type'') of
        Inl s \<Rightarrow> Inl s
      | Inr field \<Rightarrow> Inr (add_field field (set_type ''RANGE'' out)))"
  "is_invalid (FillScalarOrStruct D (GT_ARRAY e) path out)"
  "is_invalid (FillScalarOrStruct D GT_INTERVAL path out)"
  "is_invalid (FillScalarOrStruct D GT_UUID path out)"
  "is_invalid (FillScalarOrStruct D (GT_PROTO p) path out)"
  "is_invalid (FillScalarOrStruct D (GT_OTHER p) path out)"
  "FillArrayField D (GT_ARRAY e) path out =
     (if IsArray e then Inl (field_error path nested_array_error)
      else case FillScalarOrStruct D e path out of
             Inl s \<Rightarrow> Inl s
           | Inr out' \<Rightarrow> Inr (set_mode ''REPEATED'' out'))"
  by (simp_all add: FillScalarOrStruct.simps FillArrayField.simps)

lemma Fill_scalar:
  "BqScalarName t \<noteq> [] \<Longrightarrow>
   FillScalarOrStruct D t path (named_field n) = Inr (field_of n t) \<and> reflectable t"
  using scalar_not_container [of t n] by (simp add: FillScalarOrStruct.simps [of D t] field_setters)

lemma is_invalid_case [simp]:
  "is_invalid r \<Longrightarrow> is_invalid (case r of Inl s \<Rightarrow> Inl s | Inr x \<Rightarrow> f x)"
  by (auto simp: is_invalid_def)

lemma IsArray_iff: "IsArray t \<longleftrightarrow> (\<exists>e. t = GT_ARRAY e)"
  by (cases t) simp_all

text \<open>
  Below the entry point the helpers fill a field that has its name and nothing else, and a
  struct's fields are appended to those it has.
\<close>

lemma fill_spec:
  "\<not> IsArray t \<Longrightarrow> out = named_field n \<Longrightarrow>
     (if reflectable t then FillScalarOrStruct D t path out = Inr (field_of n t)
      else is_invalid (FillScalarOrStruct D t path out))"
  "IsArray a \<Longrightarrow> nested = named_field n \<Longrightarrow>
     (if reflectable a then FillArrayField D a path' nested = Inr (field_of n a)
      else is_invalid (FillArrayField D a path' nested))"
  "(if reflectable (GT_STRUCT fs)
    then FillStructFields D fs i path'' out' =
           Inr (FieldSchema (fs_name out') (fs_type out') (fs_mode out') (fs_description out')
                  (fs_fields out' @ map (\<lambda>f. field_of (sf_name f) (sf_type f)) fs))
    else is_invalid (FillStructFields D fs i path'' out'))"
proof (induction D t path out and D a path' nested and D fs i path'' out' arbitrary: n and n and n
    rule: FillScalarOrStruct_FillArrayField_FillStructFields.induct)
  case (1 D t path out)
  show ?case
  proof (cases "BqScalarName t \<noteq> []")
    case True
    then show ?thesis using 1(4) Fill_scalar by simp
  next
    case False
    then consider st where "t = GT_STRUCT st" | e where "t = GT_RANGE e" | p where "t = GT_PROTO p"
      | p where "t = GT_OTHER p" | "t = GT_INTERVAL" | "t = GT_UUID"
      using 1(3) by (cases t) simp_all
    then show ?thesis
    proof cases
      case (1 st)
      with "1.IH" False "1.prems" show ?thesis by (auto simp: field_setters)
    next
      case (2 e)
      show ?thesis
      proof (cases "IsArray e")
        case True
        then show ?thesis using 2 by (auto simp: IsArray_iff)
      next
        case array: False
        then show ?thesis
          using "1.IH" False 2 "1.prems" by (auto simp: set_type_def add_field_def split: if_splits)
      qed
    qed simp_all
  qed
next
  case (2 D a path nested)
  then show ?case by (auto simp: IsArray_iff)
next
  case (4 D name t rest i path out)
  then show ?case by (cases "name = []"; cases "IsArray t"; cases "reflectable t")
      (auto simp: add_field_def)
qed simp

subsection \<open>From a type to a stored column and back\<close>

text \<open>
  What the sources rely on of \<open>TypeFactory\<close>: it makes the array type of every element type that
  is not an array, and the struct type of every list of fields.
\<close>

locale type_factory =
  fixes F :: TypeFactory
  assumes make_array: "\<not> IsArray t \<Longrightarrow> MakeArrayType F t = Inr (GT_ARRAY t)"
    and make_struct: "MakeStructType F fs = Inr (GT_STRUCT fs)"

definition factory_ref :: TypeFactory where
  "factory_ref =
     \<lparr>MakeArrayType = (\<lambda>t. if IsArray t then Inl (Status kInvalidArgument ''array of array'')
                           else Inr (GT_ARRAY t)),
      MakeStructType = (\<lambda>fs. Inr (GT_STRUCT fs))\<rparr>"

interpretation factory_ref: type_factory factory_ref
  by unfold_locales (simp_all add: factory_ref_def)

text \<open>\<open>range_free\<close> are the types without a RANGE, the one wire type no column type stands for.\<close>

fun range_free :: "GType \<Rightarrow> bool" where
  "range_free (GT_ARRAY e) \<longleftrightarrow> range_free e"
| "range_free (GT_STRUCT fs) \<longleftrightarrow> list_all (\<lambda>f. range_free (sf_type f)) fs"
| "range_free (GT_RANGE e) \<longleftrightarrow> False"
| "range_free t \<longleftrightarrow> True"

lemma first_unnamed_set_mode [simp]: "first_unnamed (set_mode m f) = first_unnamed f"
  by (cases f) (simp add: set_mode_def)

lemma field_of_named: "n \<noteq> [] \<Longrightarrow> reflectable t \<Longrightarrow> first_unnamed (field_of n t) = None"
  by (induction n t rule: field_of.induct) (auto simp: list_all_iff first_unnamed_in_None_iff)

lemma column_of_set_mode:
  "column_of (set_mode ''REPEATED'' f) =
     ColumnSchema (col_name (column_of f)) (col_type (column_of f)) kRepeated
       (col_description (column_of f)) (col_raw_type (column_of f)) (col_fields (column_of f))"
proof -
  have "ParseColumnMode ''REPEATED'' = kRepeated" by code_simp
  then show ?thesis by (cases f) (simp add: set_mode_def)
qed

lemma column_of_name [simp]: "col_name (column_of f) = fs_name f"
  by (cases f) simp

lemma field_of_name [simp]: "fs_name (field_of n t) = n"
  by (induction n t rule: field_of.induct) (auto simp: set_mode_def)

lemma field_of_mode: "\<not> IsArray t \<Longrightarrow> fs_mode (field_of n t) = []"
  by (cases t) simp_all

lemma column_of_mode: "\<not> IsArray t \<Longrightarrow> col_mode (column_of (field_of n t)) = kNullable"
  using field_of_mode [of t n] by (cases "field_of n t") (simp add: ParseColumnMode_def)

lemma ScalarOrStructType_mode:
  "ScalarOrStructType F (ColumnSchema n ty m d r fs) = ScalarOrStructType F (ColumnSchema n ty m' d r fs)"
  by simp

lemma parse_container_names:
  "ParseColumnType ''STRUCT'' = kStruct" "ParseColumnType ''RANGE'' = kUnknown"
  by code_simp+

lemma scalar_reads_back:
  "BqScalarName t \<noteq> [] \<Longrightarrow> ScalarOrStructType F (column_of (field_of n t)) = Inr t"
  by (cases t) (simp_all add: ParseColumnType_def EqualsIgnoreCase_def AsciiStrToLower_def)

lemma scalar_column_reads_back:
  "BqScalarName t \<noteq> [] \<Longrightarrow> ToGoogleSqlType F (column_of (field_of n t)) = Inr t"
  using scalar_reads_back [of t F n] scalar_not_container [of t n] column_of_mode [of t n]
  by (simp del: ScalarOrStructType.simps field_of.simps)

context type_factory begin

lemma struct_fields_of_map:
  assumes "\<And>f. f \<in> set fs \<Longrightarrow> ToGoogleSqlType F (column_of (field_of (sf_name f) (sf_type f))) = Inr (sf_type f)"
  shows "struct_fields_of F (map (\<lambda>f. column_of (field_of (sf_name f) (sf_type f))) fs) = Inr fs"
  using assms by (induction fs) (auto simp del: ToGoogleSqlType.simps)

lemma type_reads_back:
  "reflectable t \<Longrightarrow> range_free t \<Longrightarrow> ToGoogleSqlType F (column_of (field_of n t)) = Inr t"
proof (induction n t rule: field_of.induct)
  case (1 n e)
  then have e: "\<not> IsArray e" by simp
  then have "ToGoogleSqlType F (column_of (field_of n e)) = ScalarOrStructType F (column_of (field_of n e))"
    by (simp add: column_of_mode split: sum.splits)
  with 1 have "ScalarOrStructType F (column_of (field_of n e)) = Inr e" by simp
  then show ?case
    using e by (cases "column_of (field_of n e)") (simp add: column_of_set_mode make_array)
next
  case (2 n fs)
  then have "ToGoogleSqlType F (column_of (field_of (sf_name f) (sf_type f))) = Inr (sf_type f)"
    if "f \<in> set fs" for f
    using that by (auto simp: list_all_iff)
  from struct_fields_of_map [OF this] show ?case
    by (simp add: parse_container_names ParseColumnMode_def make_struct o_def)
qed ((rule scalar_column_reads_back, simp) | simp)+

lemma struct_fields_of_error:
  assumes "\<And>f. f \<in> set fs \<Longrightarrow>
      if range_free (sf_type f)
      then ToGoogleSqlType F (column_of (field_of (sf_name f) (sf_type f))) = Inr (sf_type f)
      else is_invalid (ToGoogleSqlType F (column_of (field_of (sf_name f) (sf_type f))))"
    and "\<not> list_all (\<lambda>f. range_free (sf_type f)) fs"
  shows "is_invalid (struct_fields_of F (map (\<lambda>f. column_of (field_of (sf_name f) (sf_type f))) fs))"
  using assms
proof (induction fs)
  case (Cons f fs)
  then show ?case
    by (cases "range_free (sf_type f)")
       (auto simp: is_invalid_case simp del: ToGoogleSqlType.simps split: if_splits)
qed simp

lemma range_refused:
  "reflectable t \<Longrightarrow> \<not> range_free t \<Longrightarrow> is_invalid (ToGoogleSqlType F (column_of (field_of n t)))"
proof (induction n t rule: field_of.induct)
  case (1 n e)
  then have e: "\<not> IsArray e" by simp
  then have "is_invalid (ScalarOrStructType F (column_of (field_of n e)))"
    using 1 by (auto simp: column_of_mode is_invalid_def split: sum.splits)
  then show ?case
    by (cases "column_of (field_of n e)") (simp add: column_of_set_mode)
next
  case (2 n fs)
  then have "if range_free (sf_type f)
      then ToGoogleSqlType F (column_of (field_of (sf_name f) (sf_type f))) = Inr (sf_type f)
      else is_invalid (ToGoogleSqlType F (column_of (field_of (sf_name f) (sf_type f))))"
    if "f \<in> set fs" for f
    using that type_reads_back [of "sf_type f"] by (auto simp: list_all_iff)
  from struct_fields_of_error [OF this] 2 show ?case
    by (simp add: parse_container_names o_def)
qed (simp_all add: parse_container_names unknown_type_error_def)

end

lemma reflection_spec:
  "(case type of
      Some t \<Rightarrow> if reflectable t then TypeToFieldSchema D type name = Inr (field_of name t)
                else is_invalid (TypeToFieldSchema D type name)
    | None \<Rightarrow> is_invalid (TypeToFieldSchema D type name))"
proof (cases type)
  case (Some t)
  show ?thesis
  proof (cases "IsArray t")
    case True
    then obtain e where t: "t = GT_ARRAY e" by (auto simp: IsArray_iff)
    show ?thesis
      using fill_spec(1) [OF _ refl, where t = e and n = name and path = name and D = D] Some t
      by (cases "IsArray e") (auto simp: TypeToFieldSchema_def)
  next
    case False
    then have "TypeToFieldSchema D type name = FillScalarOrStruct D t name (named_field name)"
      using Some by (auto simp: TypeToFieldSchema_def IsArray_iff split: GType.splits)
    then show ?thesis using fill_spec(1) [OF False refl, where n = name and path = name and D = D] Some by simp
  qed
qed (simp add: TypeToFieldSchema_def)

subsection \<open>Properties\<close>

text \<open>
  C38 (reflection of an analyzed type). \<open>TypeToFieldSchema\<close> succeeds exactly on the types
  BigQuery can represent, that is scalars with a BigQuery name, structs whose fields all have
  names, ranges, and arrays that are not arrays of arrays, at every depth; the field it then
  returns is the structural image of the type, with mode REPEATED exactly at the arrays. Every
  other type, and the null type, is refused with \<open>kInvalidArgument\<close>.
\<close>

theorem type_reflection:
  "(case type of
      Some t \<Rightarrow> if reflectable t then TypeToFieldSchema D type name = Inr (field_of name t)
                else is_invalid (TypeToFieldSchema D type name)
    | None \<Rightarrow> is_invalid (TypeToFieldSchema D type name))"
  by (rule reflection_spec)

text \<open>
  C26 (an analyzed type survives storage). The field that \<open>TypeToFieldSchema\<close> gives a query's
  output column is accepted as the schema of a stored column, and the catalog resolves that
  column to the same type again, through any nesting of structs and arrays. The one exception is
  RANGE: the reflection emits it, but no column type stands for it, and the catalog refuses every
  stored column that has a RANGE anywhere inside.
\<close>

theorem type_survives_storage:
  assumes "type_factory F" "name \<noteq> []" "reflectable t"
  shows "\<exists>field column.
    TypeToFieldSchema D (Some t) name = Inr field \<and>
    ColumnSchemaFromProto field = Inr column \<and>
    (if range_free t then ToGoogleSqlType F column = Inr t
     else is_invalid (ToGoogleSqlType F column))"
proof -
  have "TypeToFieldSchema D (Some t) name = Inr (field_of name t)"
    using reflection_spec [of D "Some t" name] assms(3) by simp
  moreover have "ColumnSchemaFromProto (field_of name t) = Inr (column_of (field_of name t))"
    using field_of_named [OF assms(2,3)] by (simp add: FromProto_spec)
  ultimately show ?thesis
    using type_factory.type_reads_back [OF assms(1,3)] type_factory.range_refused [OF assms(1,3)]
    by (metis (full_types))
qed

definition sample_type :: GType where
  "sample_type = GT_ARRAY (GT_STRUCT
     [StructField ''id'' GT_INT64, StructField ''tags'' (GT_ARRAY GT_STRING),
      StructField ''o'' (GT_STRUCT [StructField ''n'' GT_NUMERIC])])"

theorem type_survives_storage_witness:
  "\<exists>field column.
    TypeToFieldSchema (\<lambda>_. []) (Some sample_type) ''c'' = Inr field \<and>
    ColumnSchemaFromProto field = Inr column \<and> ToGoogleSqlType factory_ref column = Inr sample_type"
proof -
  have "reflectable sample_type" "range_free sample_type" by code_simp+
  with type_survives_storage [OF factory_ref.type_factory_axioms, of "''c''" sample_type "\<lambda>_. []"]
  show ?thesis by simp
qed

end
