(* ===== verification/Semantic_Value.thy ===== *)
theory Semantic_Value
  imports Googlesql_Type Duckdb_Sql
begin

section \<open>Values of the semantic executor\<close>

text \<open>
  \<open>backend/engine/semantic/value.cc\<close> lowers an analyzed value to a storage cell
  (\<open>ToStorageValue\<close>), names types and builds the column schema of a projected column, and reads
  TIMESTAMP texts; \<open>backend/catalog/storage_table.cc\<close> raises storage cells back to analyzed
  values (\<open>ConvertCell\<close>) for the rows a query scans.

  \<open>GValue\<close> is \<open>googlesql::Value\<close>: BOOL, INT64, FLOAT64, STRING, BYTES and TIMESTAMP (its Unix
  microseconds) are transparent, the payload of every other scalar kind is opaque (\<open>GScalar\<close>).
  The printers and parsers of GoogleSQL and Abseil that the sources call on them are the record
  \<open>GApi\<close>; \<open>g_geography_wkt\<close> is the side table of \<open>geography_value.cc\<close>. Types below the entry
  points are never null.

  The lemmas show which values survive storage, what a TIMESTAMP text says of an instant, and
  which cells the scan of a table can convert.
\<close>

subsection \<open>Values\<close>

datatype 'o GValue =
    GInvalid
  | GNull GType
  | GBool bool
  | GInt64 int
  | GDouble double
  | GString string
  | GBytes string
  | GTimestamp int
  | GScalar GType 'o
  | GProto string string
  | GArray GType "'o GValue list"
  | GStruct "StructField list" "'o GValue list"

record 'o GApi =
  GDebugString :: "GType \<Rightarrow> string"
  GTypeName :: "GType \<Rightarrow> string"
  CivilSecondOf :: "int \<Rightarrow> CivilSecond"
  ToCivilDay :: "'o \<Rightarrow> int \<times> int \<times> int"
  TimeDebugString :: "'o \<Rightarrow> string"
  DatetimeDebugString :: "'o \<Rightarrow> string"
  NumericToString :: "'o \<Rightarrow> string"
  BigNumericToString :: "'o \<Rightarrow> string"
  json_string :: "'o \<Rightarrow> string"
  GetSQLLiteral :: "GType \<Rightarrow> 'o \<Rightarrow> string"
  IntervalToString :: "'o \<Rightarrow> string"
  uuid_text :: "'o \<Rightarrow> string StatusOr"
  NumericFromString :: "string \<Rightarrow> 'o StatusOr"
  BigNumericFromString :: "string \<Rightarrow> 'o StatusOr"
  ParseTime :: "string \<Rightarrow> string \<Rightarrow> int option"
  ParseStringToTimestamp :: "string \<Rightarrow> string \<Rightarrow> int option"
  ConvertStringToTimestamp :: "string \<Rightarrow> int option"
  ParseStringToDate :: "string \<Rightarrow> string \<Rightarrow> int option"
  ConvertDateToTimestamp :: "int \<Rightarrow> int option"
  g_geography_wkt :: "'o \<Rightarrow> string option"

subsection \<open>TIMESTAMP texts\<close>

text \<open>The remainder of C++, which has the sign of the dividend.\<close>

definition cpp_mod :: "int \<Rightarrow> int \<Rightarrow> int" where
  "cpp_mod a b = (if a \<ge> 0 then a mod b else - ((- a) mod b))"

definition civil_text :: "CivilSecond \<Rightarrow> string" where
  "civil_text cs =
     pad0 4 (cs_year cs) @ ''-'' @ pad0 2 (cs_month cs) @ ''-'' @ pad0 2 (cs_day cs) @ '' '' @
     pad0 2 (cs_hour cs) @ '':'' @ pad0 2 (cs_minute cs) @ '':'' @ pad0 2 (cs_second cs)"

definition FormatTimestampUtc :: "'o GApi \<Rightarrow> int \<Rightarrow> string" where
  "FormatTimestampUtc A micros =
     (let cs = CivilSecondOf A micros
      in if cpp_mod micros 1000000 = 0 then civil_text cs @ ''+00''
         else let frac = (if micros \<ge> 0 then cpp_mod micros 1000000 else cpp_mod (- micros) 1000000)
              in civil_text cs @ ''.'' @ pad0 6 frac @ ''+00'')"

definition NormalizeTimestampOffsetSuffix :: "string \<Rightarrow> string" where
  "NormalizeTimestampOffsetSuffix s =
     (if length s \<ge> 3 then
        (let n = length s; sign = s ! (n - 3); d0 = s ! (n - 2); d1 = s ! (n - 1)
         in if (sign = CHR ''+'' \<or> sign = CHR ''-'') \<and> ascii_isdigit d0 \<and> ascii_isdigit d1 then
              (if CHR '':'' \<notin> set s \<and> CHR ''T'' \<notin> set s then s else s @ '':00'')
            else s)
      else s)"

definition RFC3339_full :: string where
  "RFC3339_full = ''%Y-%m-%d%ET%H:%M:%E*S%Ez''"

definition invalid_timestamp :: "string \<Rightarrow> Status" where
  "invalid_timestamp body =
     Status kInvalidArgument
       (''semantic: invalid TIMESTAMP value '' @ [CHR 0x27] @ body @ [CHR 0x27])"

fun first_Some :: "'a option list \<Rightarrow> 'a option" where
  "first_Some [] = None"
| "first_Some (None # xs) = first_Some xs"
| "first_Some (Some x # xs) = Some x"

definition ParseTimestampWireString :: "'o GApi \<Rightarrow> string \<Rightarrow> 'o GValue StatusOr" where
  "ParseTimestampWireString A body =
     (let stripped = (if suffix '' UTC'' body then take (length body - 4) body else body);
          s = NormalizeTimestampOffsetSuffix stripped
      in case first_Some
           [ParseTime A RFC3339_full s,
            ParseTime A ''%Y-%m-%d %H:%M:%E*S%Ez'' s,
            ParseTime A ''%Y-%m-%dT%H:%M:%E*S%Ez'' s,
            ParseTime A ''%Y-%m-%d %H:%M:%E*S'' s,
            ParseTime A ''%Y-%m-%dT%H:%M:%E*S'' s,
            ParseStringToTimestamp A ''%F %T'' s,
            ConvertStringToTimestamp A s,
            ParseTime A ''%Y-%m-%d'' s,
            Option.bind (ParseStringToDate A ''%Y-%m-%d'' s) (ConvertDateToTimestamp A)]
         of Some micros \<Rightarrow> Inr (GTimestamp micros)
          | None \<Rightarrow> Inl (invalid_timestamp body))"

subsection \<open>Names of type kinds\<close>

fun BigQueryTypeName :: "GType option \<Rightarrow> string" where
  "BigQueryTypeName None = []"
| "BigQueryTypeName (Some t) =
     (case t of
        GT_INTERVAL \<Rightarrow> ''INTERVAL''
      | GT_UUID \<Rightarrow> ''UUID''
      | GT_RANGE e \<Rightarrow> ''RANGE''
      | GT_ARRAY e \<Rightarrow> ''ARRAY''
      | GT_STRUCT fs \<Rightarrow> ''STRUCT''
      | _ \<Rightarrow> BqScalarName t)"

text \<open>The enumeration \<open>googlesql::TypeKind\<close>, as far as the sources name its members.\<close>

datatype TypeKind =
    K_UNKNOWN | K_BOOL | K_INT64 | K_DOUBLE | K_STRING | K_BYTES | K_DATE | K_TIME | K_DATETIME
  | K_TIMESTAMP | K_NUMERIC | K_BIGNUMERIC | K_JSON | K_GEOGRAPHY | K_INTERVAL | K_RANGE | K_UUID
  | K_ARRAY | K_STRUCT | K_PROTO | K_OTHER

fun type_kind :: "GType \<Rightarrow> TypeKind" where
  "type_kind GT_BOOL = K_BOOL"
| "type_kind GT_INT64 = K_INT64"
| "type_kind GT_DOUBLE = K_DOUBLE"
| "type_kind GT_STRING = K_STRING"
| "type_kind GT_BYTES = K_BYTES"
| "type_kind GT_DATE = K_DATE"
| "type_kind GT_TIME = K_TIME"
| "type_kind GT_DATETIME = K_DATETIME"
| "type_kind GT_TIMESTAMP = K_TIMESTAMP"
| "type_kind GT_NUMERIC = K_NUMERIC"
| "type_kind GT_BIGNUMERIC = K_BIGNUMERIC"
| "type_kind GT_JSON = K_JSON"
| "type_kind GT_GEOGRAPHY = K_GEOGRAPHY"
| "type_kind GT_INTERVAL = K_INTERVAL"
| "type_kind GT_UUID = K_UUID"
| "type_kind (GT_RANGE e) = K_RANGE"
| "type_kind (GT_ARRAY e) = K_ARRAY"
| "type_kind (GT_STRUCT fs) = K_STRUCT"
| "type_kind (GT_PROTO n) = K_PROTO"
| "type_kind (GT_OTHER n) = K_OTHER"

definition ParseTypeKindName :: "string \<Rightarrow> TypeKind" where
  "ParseTypeKindName type_kind_name =
     (let name = (if EqualsIgnoreCase (take 5 type_kind_name) ''TYPE_'' then drop 5 type_kind_name
                  else type_kind_name)
      in if EqualsIgnoreCase name ''BOOL'' then K_BOOL
      else if EqualsIgnoreCase name ''BOOLEAN'' then K_BOOL
      else if EqualsIgnoreCase name ''INT64'' then K_INT64
      else if EqualsIgnoreCase name ''INTEGER'' then K_INT64
      else if EqualsIgnoreCase name ''FLOAT64'' then K_DOUBLE
      else if EqualsIgnoreCase name ''DOUBLE'' then K_DOUBLE
      else if EqualsIgnoreCase name ''FLOAT'' then K_DOUBLE
      else if EqualsIgnoreCase name ''STRING'' then K_STRING
      else if EqualsIgnoreCase name ''BYTES'' then K_BYTES
      else if EqualsIgnoreCase name ''DATE'' then K_DATE
      else if EqualsIgnoreCase name ''TIME'' then K_TIME
      else if EqualsIgnoreCase name ''DATETIME'' then K_DATETIME
      else if EqualsIgnoreCase name ''TIMESTAMP'' then K_TIMESTAMP
      else if EqualsIgnoreCase name ''NUMERIC'' then K_NUMERIC
      else if EqualsIgnoreCase name ''BIGNUMERIC'' then K_BIGNUMERIC
      else if EqualsIgnoreCase name ''JSON'' then K_JSON
      else if EqualsIgnoreCase name ''GEOGRAPHY'' then K_GEOGRAPHY
      else if EqualsIgnoreCase name ''INTERVAL'' then K_INTERVAL
      else if EqualsIgnoreCase (take 5 name) ''RANGE'' then K_RANGE
      else if EqualsIgnoreCase name ''UUID'' then K_UUID
      else if EqualsIgnoreCase name ''ARRAY'' then K_ARRAY
      else if EqualsIgnoreCase name ''STRUCT'' \<or> EqualsIgnoreCase name ''RECORD'' then K_STRUCT
      else K_UNKNOWN)"

subsection \<open>Lowering values to cells\<close>

definition GeographyWkt :: "'o GApi \<Rightarrow> 'o GValue \<Rightarrow> string" where
  "GeographyWkt A v =
     (case v of
        GScalar t x \<Rightarrow>
          (if t = GT_GEOGRAPHY then (case g_geography_wkt A x of None \<Rightarrow> [] | Some wkt \<Rightarrow> wkt) else [])
      | _ \<Rightarrow> [])"

definition temporal_error :: Status where
  "temporal_error =
     Status kInvalidArgument ''semantic: ToStorageTemporalValue called for non-temporal type''"

definition ToStorageTemporalValue :: "'o GApi \<Rightarrow> 'o GValue \<Rightarrow> Value StatusOr" where
  "ToStorageTemporalValue A v =
     (case v of
        GTimestamp t \<Rightarrow> Inr (VString (FormatTimestampUtc A t))
      | GScalar t x \<Rightarrow>
          (case t of
             GT_DATE \<Rightarrow>
               (case ToCivilDay A x of
                  (y, m, d) \<Rightarrow> Inr (VString (pad0 4 y @ ''-'' @ pad0 2 m @ ''-'' @ pad0 2 d)))
           | GT_TIME \<Rightarrow> Inr (VString (TimeDebugString A x))
           | GT_DATETIME \<Rightarrow>
               (let out = DatetimeDebugString A x
                in Inr (VString (case find_sub '' '' out of
                                   None \<Rightarrow> out | Some sep \<Rightarrow> out [sep := CHR ''T''])))
           | _ \<Rightarrow> Inl temporal_error)
      | _ \<Rightarrow> Inl temporal_error)"

text \<open>
  \<open>bignumeric_render_override\<close> of the evaluation context is the second argument; the call that
  uses it takes it away. A null context behaves as one without an override.
\<close>

definition extended_error :: Status where
  "extended_error =
     Status kInvalidArgument ''semantic: ToStorageExtendedScalar called for unsupported type''"

definition ToStorageExtendedScalar ::
    "'o GApi \<Rightarrow> string option \<Rightarrow> 'o GValue \<Rightarrow> Value StatusOr \<times> string option" where
  "ToStorageExtendedScalar A ov v =
     (case v of
        GScalar t x \<Rightarrow>
          (case t of
             GT_NUMERIC \<Rightarrow> (Inr (VString (NumericToString A x)), ov)
           | GT_BIGNUMERIC \<Rightarrow>
               (case ov of
                  Some s \<Rightarrow> (Inr (VString s), None)
                | None \<Rightarrow> (Inr (VString (BigNumericToString A x)), None))
           | GT_JSON \<Rightarrow> (Inr (VString (json_string A x)), ov)
           | GT_GEOGRAPHY \<Rightarrow>
               (let wkt = GeographyWkt A v
                in (Inr (VString (if wkt \<noteq> [] then wkt else GetSQLLiteral A t x)), ov))
           | GT_INTERVAL \<Rightarrow> (Inr (VString (IntervalToString A x)), ov)
           | GT_RANGE e \<Rightarrow>
               (Inr (VString (map (\<lambda>c. if c = CHR 0x22 then CHR 0x27 else c) (GetSQLLiteral A t x))), ov)
           | GT_UUID \<Rightarrow>
               (case uuid_text A x of Inl s \<Rightarrow> (Inl s, ov) | Inr u \<Rightarrow> (Inr (VString u), ov))
           | _ \<Rightarrow> (Inl extended_error, ov))
      | _ \<Rightarrow> (Inl extended_error, ov))"

definition invalid_value :: Status where
  "invalid_value =
     Status kInvalidArgument ''semantic: cannot lower invalid Value onto storage::Value''"

definition is_temporal :: "GType \<Rightarrow> bool" where
  "is_temporal t \<longleftrightarrow> t \<in> {GT_DATE, GT_TIME, GT_DATETIME, GT_TIMESTAMP}"

fun is_extended :: "GType \<Rightarrow> bool" where
  "is_extended GT_NUMERIC = True"
| "is_extended GT_BIGNUMERIC = True"
| "is_extended GT_JSON = True"
| "is_extended GT_GEOGRAPHY = True"
| "is_extended GT_INTERVAL = True"
| "is_extended (GT_RANGE e) = True"
| "is_extended GT_UUID = True"
| "is_extended _ = False"

definition lowering_error :: "'o GApi \<Rightarrow> GType \<Rightarrow> Status" where
  "lowering_error A t =
     Status kInvalidArgument
       (''semantic: unsupported type for storage::Value lowering: '' @ GDebugString A t)"

fun ToStorageValue ::
    "'o GApi \<Rightarrow> string option \<Rightarrow> 'o GValue \<Rightarrow> Value StatusOr \<times> string option"
  and to_storage_list :: "'o GApi \<Rightarrow> 'o GValue list \<Rightarrow> Value list StatusOr" where
  "ToStorageValue A ov GInvalid = (Inl invalid_value, ov)"
| "ToStorageValue A ov (GNull t) = (Inr VNull, ov)"
| "ToStorageValue A ov (GBool b) = (Inr (VBool b), ov)"
| "ToStorageValue A ov (GInt64 i) = (Inr (VInt64 i), ov)"
| "ToStorageValue A ov (GDouble d) = (Inr (VFloat64 d), ov)"
| "ToStorageValue A ov (GString s) = (Inr (VString s), ov)"
| "ToStorageValue A ov (GBytes s) = (Inr (VBytes s), ov)"
| "ToStorageValue A ov (GTimestamp t) = (ToStorageTemporalValue A (GTimestamp t), ov)"
| "ToStorageValue A ov (GScalar t x) =
     (if is_temporal t then (ToStorageTemporalValue A (GScalar t x), ov)
      else if is_extended t then ToStorageExtendedScalar A ov (GScalar t x)
      else (Inl (lowering_error A t), ov))"
| "ToStorageValue A ov (GProto n b) = (Inr (VBytes b), ov)"
| "ToStorageValue A ov (GArray t vs) =
     (case to_storage_list A vs of Inl s \<Rightarrow> (Inl s, ov) | Inr elements \<Rightarrow> (Inr (VArray elements), ov))"
| "ToStorageValue A ov (GStruct fs vs) =
     (case to_storage_list A vs of Inl s \<Rightarrow> (Inl s, ov) | Inr members \<Rightarrow> (Inr (VStruct members), ov))"
| "to_storage_list A [] = Inr []"
| "to_storage_list A (v # vs) =
     (case fst (ToStorageValue A None v) of
        Inl s \<Rightarrow> Inl s
      | Inr e \<Rightarrow> (case to_storage_list A vs of Inl s \<Rightarrow> Inl s | Inr es \<Rightarrow> Inr (e # es)))"

subsection \<open>Column schema of a projected column\<close>

definition schema_error :: "string \<Rightarrow> string \<Rightarrow> Status" where
  "schema_error name what =
     Status kInvalidArgument (''semantic: column '' @ [CHR 0x27] @ name @ [CHR 0x27] @ '': '' @ what)"

text \<open>The column type and raw type of a core type that has no nested fields.\<close>

definition core_column_type :: "'o GApi \<Rightarrow> GType \<Rightarrow> (ColumnType \<times> string) option" where
  "core_column_type A core =
     (case core of
        GT_BOOL \<Rightarrow> Some (kBool, [])
      | GT_INT64 \<Rightarrow> Some (kInt64, [])
      | GT_DOUBLE \<Rightarrow> Some (kFloat64, [])
      | GT_STRING \<Rightarrow> Some (kString, [])
      | GT_BYTES \<Rightarrow> Some (kBytes, [])
      | GT_DATE \<Rightarrow> Some (kDate, [])
      | GT_TIME \<Rightarrow> Some (kTime, [])
      | GT_DATETIME \<Rightarrow> Some (kDatetime, [])
      | GT_TIMESTAMP \<Rightarrow> Some (kTimestamp, [])
      | GT_NUMERIC \<Rightarrow> Some (kNumeric, [])
      | GT_BIGNUMERIC \<Rightarrow> Some (kBignumeric, [])
      | GT_JSON \<Rightarrow> Some (kJson, [])
      | GT_GEOGRAPHY \<Rightarrow> Some (kGeography, [])
      | GT_PROTO full_name \<Rightarrow> Some (kBytes, ''PROTO<'' @ full_name @ ''>'')
      | GT_INTERVAL \<Rightarrow> Some (kString, ''INTERVAL'')
      | GT_UUID \<Rightarrow> Some (kString, ''UUID'')
      | GT_RANGE e \<Rightarrow> Some (kString, GTypeName A core)
      | _ \<Rightarrow> None)"

fun ColumnSchemaForType :: "'o GApi \<Rightarrow> GType \<Rightarrow> string \<Rightarrow> ColumnSchema StatusOr"
  and core_schema :: "'o GApi \<Rightarrow> GType \<Rightarrow> string \<Rightarrow> ColumnMode \<Rightarrow> ColumnSchema StatusOr"
  and field_schemas :: "'o GApi \<Rightarrow> StructField list \<Rightarrow> ColumnSchema list StatusOr" where
  "ColumnSchemaForType A (GT_ARRAY core) name =
     (if IsArray core then Inl (schema_error name nested_array_error)
      else core_schema A core name kRepeated)"
| "ColumnSchemaForType A (GT_STRUCT st) name = core_schema A (GT_STRUCT st) name kNullable"
| "ColumnSchemaForType A type name = core_schema A type name kNullable"
| "core_schema A (GT_STRUCT st) name mode =
     (case field_schemas A st of
        Inl s \<Rightarrow> Inl s
      | Inr children \<Rightarrow> Inr (ColumnSchema name kStruct mode [] [] children))"
| "core_schema A core name mode =
     (case core_column_type A core of
        Some (ty, raw) \<Rightarrow> Inr (ColumnSchema name ty mode [] raw [])
      | None \<Rightarrow> Inl (schema_error name (''unsupported type '' @ GDebugString A core)))"
| "field_schemas A [] = Inr []"
| "field_schemas A (StructField name t # rest) =
     (case ColumnSchemaForType A t name of
        Inl s \<Rightarrow> Inl s
      | Inr child \<Rightarrow>
          (case field_schemas A rest of
             Inl s \<Rightarrow> Inl s | Inr children \<Rightarrow> Inr (child # children)))"

subsection \<open>The text of an instant\<close>

text \<open>
  \<open>instant_text\<close> is the text that names an instant: its civil second and, where it has one, its
  fraction of that second. \<open>written_instant\<close> is the instant whose text the code writes.
  \<open>reads_instant\<close> is the documented behaviour of \<open>absl::ParseTime\<close> on such a text: the format
  with a space reads it as the instant, and RFC 3339 either does not match or reads the same.
\<close>

definition instant_text :: "'o GApi \<Rightarrow> int \<Rightarrow> string" where
  "instant_text A m =
     civil_text (CivilSecondOf A m) @
     (if m mod 1000000 = 0 then [] else ''.'' @ pad0 6 (m mod 1000000))"

definition written_instant :: "int \<Rightarrow> int" where
  "written_instant m =
     (if 0 \<le> m \<or> m mod 1000000 = 0 then m
      else (m div 1000000) * 1000000 + (1000000 - m mod 1000000))"

definition reads_instant :: "'o GApi \<Rightarrow> int \<Rightarrow> bool" where
  "reads_instant A m \<longleftrightarrow>
     ParseTime A RFC3339_full (instant_text A m @ ''+00:00'') \<in> {None, Some m} \<and>
     ParseTime A ''%Y-%m-%d %H:%M:%E*S%Ez'' (instant_text A m @ ''+00:00'') = Some m"

lemma micros_bound: "0 \<le> m mod (1000000 :: int)" "m mod (1000000 :: int) < 1000000"
  by simp_all

lemma written_instant_mod:
  assumes "m < 0" "m mod 1000000 \<noteq> 0"
  shows "written_instant m mod 1000000 = 1000000 - m mod 1000000"
proof -
  have "0 < m mod 1000000" using assms(2) micros_bound(1) [of m] by linarith
  then have "(1000000 - m mod 1000000) mod 1000000 = 1000000 - m mod 1000000"
    using micros_bound(2) [of m] by (intro mod_pos_pos_trivial) linarith+
  then show ?thesis using assms by (simp add: written_instant_def)
qed

lemma written_instant_same:
  "written_instant m = m \<longleftrightarrow> 0 \<le> m \<or> m mod 1000000 = 0 \<or> m mod 1000000 = 500000"
proof -
  have "m div 1000000 * 1000000 + (1000000 - m mod 1000000) = m \<longleftrightarrow> m mod 1000000 = 500000"
    using div_mult_mod_eq [of m 1000000] by linarith
  then show ?thesis by (auto simp: written_instant_def)
qed

lemma FormatTimestampUtc_text:
  assumes "CivilSecondOf A (written_instant m) = CivilSecondOf A m"
  shows "FormatTimestampUtc A m = instant_text A (written_instant m) @ ''+00''"
proof (cases "0 \<le> m \<or> m mod 1000000 = 0")
  case True
  then have "written_instant m = m" by (simp add: written_instant_def)
  moreover have "cpp_mod m 1000000 = 0 \<longleftrightarrow> m mod 1000000 = 0"
    by (simp add: cpp_mod_def mod_eq_0_iff_dvd)
  ultimately show ?thesis
    using True by (auto simp: FormatTimestampUtc_def instant_text_def cpp_mod_def Let_def)
next
  case False
  then show ?thesis
    using assms written_instant_mod [of m] micros_bound(2) [of m]
    by (auto simp: FormatTimestampUtc_def instant_text_def cpp_mod_def Let_def zmod_zminus1_eq_if)
qed

lemma colon_in_civil_text: "CHR '':'' \<in> set (civil_text cs)"
  by (simp add: civil_text_def)

lemma Normalize_short_offset:
  "CHR '':'' \<in> set t \<Longrightarrow> NormalizeTimestampOffsetSuffix (t @ ''+00'') = t @ ''+00:00''"
  by (simp add: NormalizeTimestampOffsetSuffix_def nth_append)

lemma not_suffix_UTC: "\<not> suffix '' UTC'' (t @ ''+00'')"
proof
  assume "suffix '' UTC'' (t @ ''+00'')"
  then have "last (t @ ''+00'') = CHR ''C''" unfolding suffix_def by auto
  then show False by simp
qed

lemma Parse_instant:
  assumes "reads_instant A m"
  shows "ParseTimestampWireString A (instant_text A m @ ''+00'') = Inr (GTimestamp m)"
proof -
  have "CHR '':'' \<in> set (instant_text A m)" by (simp add: instant_text_def colon_in_civil_text)
  then have n: "NormalizeTimestampOffsetSuffix (instant_text A m @ ''+00'') = instant_text A m @ ''+00:00''"
    by (rule Normalize_short_offset)
  show ?thesis
    using assms unfolding ParseTimestampWireString_def Let_def if_not_P [OF not_suffix_UTC] n reads_instant_def
    by auto
qed


subsection \<open>A reference instance\<close>

text \<open>
  Executable library functions for the witnesses: the civil second of an instant in the
  proleptic Gregorian calendar, and a reader of texts in the layout of \<open>instant_text\<close>. Opaque
  payloads are their own texts.
\<close>

function dec_int :: "int \<Rightarrow> string" where
  "dec_int n = (if n < 10 then [digit_char (nat n)] else dec_int (n div 10) @ [digit_char (nat (n mod 10))])"
  by pat_completeness auto
termination
  by (relation "measure nat") auto

declare dec_int.simps [simp del]

lemma dec_int_nat: "0 \<le> n \<Longrightarrow> dec_nat (nat n) = dec_int n"
proof (induction n rule: dec_int.induct)
  case (1 n)
  then show ?case
    by (subst dec_nat.simps, subst dec_int.simps) (auto simp: nat_div_distrib nat_mod_distrib nat_less_iff)
qed

lemma pad0_code [code]:
  "pad0 k n =
     (if n < 0 then CHR ''-'' # (let d = dec_int (- n) in replicate (k - 1 - length d) (CHR ''0'') @ d)
      else (let d = dec_int n in replicate (k - length d) (CHR ''0'') @ d))"
  by (simp add: pad0_def dec_int_nat Let_def)

definition civil_second_ref :: "int \<Rightarrow> CivilSecond" where
  "civil_second_ref m =
     (let secs = m div 1000000; sod = secs mod 86400; z = secs div 86400 + 719468;
          era = z div 146097; doe = z mod 146097;
          yoe = (doe - doe div 1460 + doe div 36524 - doe div 146096) div 365;
          doy = doe - (365 * yoe + yoe div 4 - yoe div 100);
          mp = (5 * doy + 2) div 153;
          month = (if mp < 10 then mp + 3 else mp - 9)
      in \<lparr>cs_year = yoe + era * 400 + (if month \<le> 2 then 1 else 0), cs_month = month,
          cs_day = doy - (153 * mp + 2) div 5 + 1,
          cs_hour = sod div 3600, cs_minute = sod mod 3600 div 60, cs_second = sod mod 60\<rparr>)"

definition days_ref :: "int \<Rightarrow> int \<Rightarrow> int \<Rightarrow> int" where
  "days_ref y m d =
     (let y' = (if m \<le> 2 then y - 1 else y); yoe = y' mod 400;
          doy = (153 * (if m > 2 then m - 3 else m + 9) + 2) div 5 + d - 1
      in (y' div 400) * 146097 + (yoe * 365 + yoe div 4 - yoe div 100 + doy) - 719468)"

definition num_at :: "string \<Rightarrow> nat \<Rightarrow> nat \<Rightarrow> int" where
  "num_at s i n = foldl (\<lambda>a c. 10 * a + int (digit_val c)) 0 (take n (drop i s))"

definition read_instant_ref :: "string \<Rightarrow> int option" where
  "read_instant_ref s =
     (let secs = days_ref (num_at s 0 4) (num_at s 5 2) (num_at s 8 2) * 86400 +
                 num_at s 11 2 * 3600 + num_at s 14 2 * 60 + num_at s 17 2;
          rest = drop 19 s
      in if rest = ''+00:00'' then Some (secs * 1000000)
         else if take 1 rest = ''.'' \<and> drop 7 rest = ''+00:00'' then
           Some (secs * 1000000 + num_at rest 1 6)
         else None)"

definition gapi_ref :: "string GApi" where
  "gapi_ref =
     \<lparr>GDebugString = (\<lambda>t. BigQueryTypeName (Some t)), GTypeName = (\<lambda>t. BigQueryTypeName (Some t)),
      CivilSecondOf = civil_second_ref, ToCivilDay = (\<lambda>s. (num_at s 0 4, num_at s 5 2, num_at s 8 2)),
      TimeDebugString = id, DatetimeDebugString = id, NumericToString = id, BigNumericToString = id,
      json_string = id, GetSQLLiteral = (\<lambda>t. id), IntervalToString = id, uuid_text = Inr,
      NumericFromString = Inr, BigNumericFromString = Inr,
      ParseTime = (\<lambda>f s. if f = ''%Y-%m-%d %H:%M:%E*S%Ez'' then read_instant_ref s else None),
      ParseStringToTimestamp = (\<lambda>f s. None), ConvertStringToTimestamp = (\<lambda>s. None),
      ParseStringToDate = (\<lambda>f s. None), ConvertDateToTimestamp = (\<lambda>d. None),
      g_geography_wkt = (\<lambda>x. None)\<rparr>"

subsection \<open>Properties\<close>

text \<open>
  C39 (instants through their text). A TIMESTAMP that is written to a cell and read back is the
  same instant when it is at or after 1970 or is a whole number of seconds. An earlier instant
  with a fraction comes back mirrored within its second, because the fraction is taken of the
  absolute value: 1969-12-31 23:59:59.999999 is written as 23:59:59.000001. Only the half second
  survives.
\<close>

theorem timestamp_text_roundtrip:
  assumes "CivilSecondOf A (written_instant m) = CivilSecondOf A m"
    and "reads_instant A (written_instant m)"
  shows "ToStorageValue A None (GTimestamp m) = (Inr (VString (FormatTimestampUtc A m)), None) \<and>
    ParseTimestampWireString A (FormatTimestampUtc A m) = Inr (GTimestamp (written_instant m)) \<and>
    (written_instant m = m \<longleftrightarrow> 0 \<le> m \<or> m mod 1000000 = 0 \<or> m mod 1000000 = 500000)"
  using FormatTimestampUtc_text [OF assms(1)] Parse_instant [OF assms(2)] written_instant_same [of m]
  by (simp add: ToStorageTemporalValue_def)

theorem timestamp_text_roundtrip_witness:
  "FormatTimestampUtc gapi_ref (- 1) = ''1969-12-31 23:59:59.000001+00'' \<and>
   ParseTimestampWireString gapi_ref (FormatTimestampUtc gapi_ref (- 1)) = Inr (GTimestamp (- 999999)) \<and>
   ParseTimestampWireString gapi_ref (FormatTimestampUtc gapi_ref 1700000000123456) =
     Inr (GTimestamp 1700000000123456)"
proof -
  have "CivilSecondOf gapi_ref (written_instant (- 1)) = CivilSecondOf gapi_ref (- 1)"
    "reads_instant gapi_ref (written_instant (- 1))" "written_instant (- 1) = - 999999"
    "FormatTimestampUtc gapi_ref (- 1) = ''1969-12-31 23:59:59.000001+00''"
    by code_simp+
  moreover have "CivilSecondOf gapi_ref (written_instant 1700000000123456) = CivilSecondOf gapi_ref 1700000000123456"
    "reads_instant gapi_ref (written_instant 1700000000123456)"
    "written_instant 1700000000123456 = 1700000000123456"
    by code_simp+
  ultimately show ?thesis
    using timestamp_text_roundtrip [of gapi_ref "- 1"]
      timestamp_text_roundtrip [of gapi_ref 1700000000123456] by simp
qed

end
