(* ===== verification/Storage_Table.thy ===== *)
theory Storage_Table
  imports Semantic_Value
begin

section \<open>Scanning a stored table\<close>

text \<open>
  \<open>backend/catalog/storage_table.cc\<close>: the table adapter whose iterator walks the rows of
  \<open>Storage::ScanRows\<close>, projects the columns the evaluator asked for and converts each cell to a
  value of the column's analyzed type (\<open>ConvertCell\<close>). The iterator's state is a record; the
  result of \<open>ScanRows\<close> is the list of rows its iterator yields. \<open>Storage_Table\<close> shows which
  values written with \<open>ToStorageValue\<close> come back unchanged and what the conversion does with the
  others.
\<close>

subsection \<open>Converting a cell\<close>

definition iterator_error :: "string \<Rightarrow> string \<Rightarrow> Status" where
  "iterator_error column what =
     Status kInvalidArgument
       (''StorageTable iterator: column '' @ [CHR 0x27] @ column @ [CHR 0x27] @ what)"

definition ConvertStringTypedScalar ::
    "'o GApi \<Rightarrow> string \<Rightarrow> GType \<Rightarrow> string \<Rightarrow> 'o GValue StatusOr" where
  "ConvertStringTypedScalar A s type column_name =
     (case type of
        GT_NUMERIC \<Rightarrow>
          (case NumericFromString A s of
             Inl e \<Rightarrow> Inl (iterator_error column_name
                       ('': invalid NUMERIC value '' @ [CHR 0x27] @ s @ [CHR 0x27] @ '': '' @ status_message e))
           | Inr n \<Rightarrow> Inr (GScalar GT_NUMERIC n))
      | GT_BIGNUMERIC \<Rightarrow>
          (case BigNumericFromString A s of
             Inl e \<Rightarrow> Inl (iterator_error column_name
                       ('': invalid BIGNUMERIC value '' @ [CHR 0x27] @ s @ [CHR 0x27] @ '': '' @ status_message e))
           | Inr n \<Rightarrow> Inr (GScalar GT_BIGNUMERIC n))
      | GT_TIMESTAMP \<Rightarrow> ParseTimestampWireString A s
      | _ \<Rightarrow> Inr (GString s))"

definition element_schema :: "ColumnSchema \<Rightarrow> ColumnSchema" where
  "element_schema column =
     (if col_fields column \<noteq> [] then hd (col_fields column)
      else ColumnSchema (col_name column) (col_type column) kNullable (col_description column)
             (col_raw_type column) [])"

definition struct_size_error :: "string \<Rightarrow> nat \<Rightarrow> nat \<Rightarrow> nat \<Rightarrow> Status" where
  "struct_size_error name cell_fields schema_fields type_fields =
     iterator_error name
       ('' STRUCT has '' @ dec_nat cell_fields @ '' field(s) but schema has '' @
        dec_nat schema_fields @ '' and analyzer Type has '' @ dec_nat type_fields)"

fun element_type :: "GType \<Rightarrow> GType" where
  "element_type (GT_ARRAY e) = e"
| "element_type t = t"

fun AsStruct :: "GType \<Rightarrow> StructField list" where
  "AsStruct (GT_STRUCT st) = st"
| "AsStruct t = []"

lemma size_array_value [simp]: "5 * size_list size (array_value v) < 5 * size v + 4"
  by (cases v) simp_all

lemma size_struct_value [simp]: "size_list size (struct_value v) \<le> size v"
  by (cases v) simp_all

function (sequential) ConvertCell ::
    "'o GApi \<Rightarrow> Value \<Rightarrow> GType option \<Rightarrow> ColumnSchema \<Rightarrow> 'o GValue StatusOr"
  and ConvertScalar :: "'o GApi \<Rightarrow> Value \<Rightarrow> GType \<Rightarrow> ColumnSchema \<Rightarrow> 'o GValue StatusOr"
  and ConvertSimpleScalarKind ::
    "'o GApi \<Rightarrow> Value \<Rightarrow> GType \<Rightarrow> ColumnSchema \<Rightarrow> 'o GValue StatusOr"
  and ConvertStructScalar ::
    "'o GApi \<Rightarrow> Value \<Rightarrow> GType \<Rightarrow> ColumnSchema \<Rightarrow> 'o GValue StatusOr"
  and convert_elements ::
    "'o GApi \<Rightarrow> Value list \<Rightarrow> GType \<Rightarrow> ColumnSchema \<Rightarrow> 'o GValue list StatusOr"
  and convert_fields ::
    "'o GApi \<Rightarrow> Value list \<Rightarrow> StructField list \<Rightarrow> ColumnSchema list \<Rightarrow> 'o GValue list StatusOr"
  where
  "ConvertCell A v None column = Inl (iterator_error (col_name column) '': null target type'')"
| "ConvertCell A v (Some type) column =
     (if IsArray type then
        (if kind v = KNull then Inr (GNull type)
         else if kind v \<noteq> KArray then
           Inl (iterator_error (col_name column) ('' is ARRAY but cell kind is '' @ dec_nat (kind_number (kind v))))
         else case convert_elements A (array_value v) (element_type type) (element_schema column) of
                Inl s \<Rightarrow> Inl s
              | Inr converted \<Rightarrow> Inr (GArray (element_type type) converted))
      else ConvertScalar A v type column)"
| "ConvertScalar A v type column =
     (if kind v = KString then ConvertStringTypedScalar A (string_value v) type (col_name column)
      else ConvertSimpleScalarKind A v type column)"
| "ConvertSimpleScalarKind A VNull type column = Inr (GNull type)"
| "ConvertSimpleScalarKind A (VBool b) type column = Inr (GBool b)"
| "ConvertSimpleScalarKind A (VInt64 i) type column = Inr (GInt64 i)"
| "ConvertSimpleScalarKind A (VFloat64 d) type column = Inr (GDouble d)"
| "ConvertSimpleScalarKind A (VString s) type column = Inr (GString s)"
| "ConvertSimpleScalarKind A (VBytes s) type column =
     (case type of GT_PROTO n \<Rightarrow> Inr (GProto n s) | _ \<Rightarrow> Inr (GBytes s))"
| "ConvertSimpleScalarKind A (VStruct vs) type column = ConvertStructScalar A (VStruct vs) type column"
| "ConvertSimpleScalarKind A (VArray vs) type column =
     Inl (iterator_error (col_name column)
            ('': unexpected ARRAY cell while converting scalar type '' @ GDebugString A type))"
| "ConvertStructScalar A v type column =
     (if \<not> IsStruct type then
        Inl (iterator_error (col_name column)
               ('' carries a STRUCT cell but the GoogleSQL type is '' @ GDebugString A type))
      else if length (struct_value v) \<noteq> length (AsStruct type) \<or>
              length (struct_value v) \<noteq> length (col_fields column) then
        Inl (struct_size_error (col_name column) (length (struct_value v))
               (length (col_fields column)) (length (AsStruct type)))
      else case convert_fields A (struct_value v) (AsStruct type) (col_fields column) of
             Inl s \<Rightarrow> Inl s
           | Inr converted \<Rightarrow> Inr (GStruct (AsStruct type) converted))"
| "convert_elements A [] e column = Inr []"
| "convert_elements A (v # vs) e column =
     (case ConvertCell A v (Some e) column of
        Inl s \<Rightarrow> Inl s
      | Inr x \<Rightarrow> (case convert_elements A vs e column of Inl s \<Rightarrow> Inl s | Inr xs \<Rightarrow> Inr (x # xs)))"
| "convert_fields A (v # vs) (f # fs) (c # cs) =
     (case ConvertCell A v (Some (sf_type f)) c of
        Inl s \<Rightarrow> Inl s
      | Inr x \<Rightarrow> (case convert_fields A vs fs cs of Inl s \<Rightarrow> Inl s | Inr xs \<Rightarrow> Inr (x # xs)))"
| "convert_fields A vs fs cs = Inr []"
  by pat_completeness auto
termination
  by (relation "measure (\<lambda>x. case x of
        Inl (Inl (A, v, t, c)) \<Rightarrow> 5 * size v + 4
      | Inl (Inr (Inl (A, v, t, c))) \<Rightarrow> 5 * size v + 3
      | Inl (Inr (Inr (A, v, t, c))) \<Rightarrow> 5 * size v + 2
      | Inr (Inl (A, v, t, c)) \<Rightarrow> 5 * size v + 1
      | Inr (Inr (Inl (A, vs, t, c))) \<Rightarrow> 5 * size_list size vs
      | Inr (Inr (Inr (A, vs, fs, cs))) \<Rightarrow> 5 * size_list size vs)")
     (auto simp: less_Suc_eq_le)

declare ConvertCell.simps(2) [simp del]
declare ConvertScalar.simps [simp del]
declare ConvertStructScalar.simps [simp del]

lemma ConvertCell_array [simp]:
  "ConvertCell A VNull (Some (GT_ARRAY e)) c = Inr (GNull (GT_ARRAY e))"
  "ConvertCell A (VArray vs) (Some (GT_ARRAY e)) c =
     (case convert_elements A vs e (element_schema c) of
        Inl s \<Rightarrow> Inl s | Inr converted \<Rightarrow> Inr (GArray e converted))"
  by (simp_all add: ConvertCell.simps(2) split: sum.splits)

lemma ConvertCell_scalar:
  "\<not> IsArray t \<Longrightarrow> kind v \<noteq> KString \<Longrightarrow> ConvertCell A v (Some t) c = ConvertSimpleScalarKind A v t c"
  "\<not> IsArray t \<Longrightarrow> ConvertCell A (VString s) (Some t) c = ConvertStringTypedScalar A s t (col_name c)"
  by (simp_all add: ConvertCell.simps(2) ConvertScalar.simps)

lemma ConvertCell_struct:
  "ConvertCell A (VStruct vs) (Some (GT_STRUCT st)) c =
     (if length vs \<noteq> length st \<or> length vs \<noteq> length (col_fields c) then
        Inl (struct_size_error (col_name c) (length vs) (length (col_fields c)) (length st))
      else case convert_fields A vs st (col_fields c) of
             Inl s \<Rightarrow> Inl s | Inr converted \<Rightarrow> Inr (GStruct st converted))"
  by (simp add: ConvertCell_scalar ConvertStructScalar.simps split: sum.splits)

text \<open>The two entry points for callers outside the iterator; the first has a synthetic column.\<close>

definition StorageValueToGoogleSqlValue :: "'o GApi \<Rightarrow> Value \<Rightarrow> GType option \<Rightarrow> 'o GValue StatusOr" where
  "StorageValueToGoogleSqlValue A v t = ConvertCell A v t (ColumnSchema ''<value>'' kUnknown kNullable [] [] [])"

definition StorageValueToGoogleSqlValueWith ::
    "'o GApi \<Rightarrow> Value \<Rightarrow> GType option \<Rightarrow> ColumnSchema \<Rightarrow> 'o GValue StatusOr" where
  "StorageValueToGoogleSqlValueWith A v t column = ConvertCell A v t column"

subsection \<open>The iterator\<close>

fun ProjectRowCells ::
    "'o GApi \<Rightarrow> Row \<Rightarrow> TableSchema \<Rightarrow> int list \<Rightarrow> GType list \<Rightarrow> 'o GValue list StatusOr" where
  "ProjectRowCells A row schema (idx # idxs) (t # types) =
     (if idx < 0 \<or> nat idx \<ge> length (cells row) then
        Inl (Status kInvalidArgument
               (''StorageTable iterator: requested column index '' @ dec idx @
                '' is outside the row'' @ [CHR 0x27] @ ''s '' @ dec_nat (length (cells row)) @ '' cells''))
      else case ConvertCell A (cells row ! nat idx) (Some t) (columns schema ! nat idx) of
             Inl s \<Rightarrow> Inl s
           | Inr converted \<Rightarrow>
               (case ProjectRowCells A row schema idxs types of
                  Inl s \<Rightarrow> Inl s | Inr out \<Rightarrow> Inr (converted # out)))"
| "ProjectRowCells A row schema _ _ = Inr []"

record 'o EvaluatorIterator =
  rows_iter :: "Row list"
  it_schema :: TableSchema
  it_column_idxs :: "int list"
  it_column_types :: "GType list"
  current_row :: "'o GValue list"
  it_status :: "unit StatusOr"

definition NextRow :: "'o GApi \<Rightarrow> 'o EvaluatorIterator \<Rightarrow> bool \<times> 'o EvaluatorIterator" where
  "NextRow A it =
     (case rows_iter it of
        [] \<Rightarrow> (False, it\<lparr>current_row := []\<rparr>)
      | row # rest \<Rightarrow>
          (case ProjectRowCells A row (it_schema it) (it_column_idxs it) (it_column_types it) of
             Inl s \<Rightarrow> (False, it\<lparr>rows_iter := rest, it_status := Inl s, current_row := []\<rparr>)
           | Inr out \<Rightarrow> (True, it\<lparr>rows_iter := rest, current_row := out\<rparr>)))"


record StorageTable =
  st_name :: string
  st_full_name :: string
  st_columns :: "(string \<times> GType) list"
  bq_schema :: TableSchema
  st_table_id :: TableId
  st_primary_key :: "nat list"

definition make_StorageTable ::
    "string \<Rightarrow> string \<Rightarrow> (string \<times> GType) list \<Rightarrow> TableSchema \<Rightarrow> TableId \<Rightarrow> StorageTable" where
  "make_StorageTable name full_name cols schema tid =
     \<lparr>st_name = name, st_full_name = full_name, st_columns = cols, bq_schema = schema,
      st_table_id = tid, st_primary_key = (if length cols > 0 then [0] else [])\<rparr>"

definition bad_index :: "StorageTable \<Rightarrow> int \<Rightarrow> Status" where
  "bad_index T idx =
     Status kInvalidArgument
       (''StorageTable '' @ [CHR 0x27] @ st_full_name T @ [CHR 0x27] @ '': column index '' @ dec idx @
        '' is outside [0, '' @ dec_nat (length (st_columns T)) @ '')'')"

fun column_types_of :: "StorageTable \<Rightarrow> int list \<Rightarrow> GType list StatusOr" where
  "column_types_of T [] = Inr []"
| "column_types_of T (idx # rest) =
     (if idx < 0 \<or> idx \<ge> int (length (st_columns T)) then Inl (bad_index T idx)
      else case column_types_of T rest of
             Inl s \<Rightarrow> Inl s
           | Inr types \<Rightarrow> Inr (snd (st_columns T ! nat idx) # types))"

text \<open>\<open>ScanRows\<close> is the storage method; \<open>None\<close> is the null storage pointer.\<close>

definition CreateEvaluatorTableIterator ::
    "(TableId \<Rightarrow> Row list StatusOr) option \<Rightarrow> StorageTable \<Rightarrow> int list \<Rightarrow>
     'o EvaluatorIterator StatusOr" where
  "CreateEvaluatorTableIterator storage T column_idxs =
     (case storage of
        None \<Rightarrow>
          Inl (Status kFailedPrecondition
                 (''StorageTable '' @ [CHR 0x27] @ st_full_name T @ [CHR 0x27] @
                  '': storage backend is not configured''))
      | Some ScanAll \<Rightarrow>
          (case column_types_of T column_idxs of
             Inl s \<Rightarrow> Inl s
           | Inr types \<Rightarrow>
               (case ScanAll (st_table_id T) of
                  Inl s \<Rightarrow> Inl s
                | Inr rows \<Rightarrow>
                    Inr \<lparr>rows_iter = rows, it_schema = bq_schema T, it_column_idxs = column_idxs,
                         it_column_types = types, current_row = [], it_status = Inr ()\<rparr>)))"

subsection \<open>Materializing a table scan\<close>

text \<open>
  \<open>MaterializeTableScan\<close> of \<open>backend/engine/semantic/scan_eval_materialize.cc\<close>: a scan lists the
  ids of its output columns and their positions in the table. A row binds column ids to values;
  \<open>emplace\<close> keeps the first binding of an id.
\<close>

type_synonym 'o ColumnBindings = "int \<rightharpoonup> 'o GValue"

definition bind_row :: "int list \<Rightarrow> 'o GValue list \<Rightarrow> 'o ColumnBindings" where
  "bind_row ids vs = fold (\<lambda>(i, v) row. if row i = None then row (i \<mapsto> v) else row) (zip ids vs) Map.empty"

lemma NextRow_shrinks: "NextRow A it = (True, it') \<Longrightarrow> length (rows_iter it') < length (rows_iter it)"
  by (auto simp: NextRow_def split: list.splits sum.splits)

function collect_rows ::
    "'o GApi \<Rightarrow> int list \<Rightarrow> 'o EvaluatorIterator \<Rightarrow> 'o ColumnBindings list \<Rightarrow> 'o ColumnBindings list StatusOr" where
  "collect_rows A ids it out =
     (case NextRow A it of
        (True, it') \<Rightarrow>
          (case it_status it' of
             Inl s \<Rightarrow> Inl s
           | Inr u \<Rightarrow> collect_rows A ids it' (out @ [bind_row ids (current_row it')]))
      | (False, it') \<Rightarrow> (case it_status it' of Inl s \<Rightarrow> Inl s | Inr u \<Rightarrow> Inr out))"
  by pat_completeness auto
termination
  by (relation "measure (\<lambda>(A, ids, it, out). length (rows_iter it))") (auto dest: NextRow_shrinks [OF sym])

declare collect_rows.simps [simp del]

definition MaterializeTableScan ::
    "'o GApi \<Rightarrow> (TableId \<Rightarrow> Row list StatusOr) option \<Rightarrow> StorageTable \<Rightarrow> int list \<Rightarrow> int list \<Rightarrow>
     'o ColumnBindings list StatusOr" where
  "MaterializeTableScan A storage T column_ids column_index_list =
     (if length column_ids \<noteq> length column_index_list then
        Inl (Status kInternal ''semantic: TableScan column_list / column_index_list size mismatch'')
      else case CreateEvaluatorTableIterator storage T column_index_list of
             Inl s \<Rightarrow> Inl s
           | Inr it \<Rightarrow> collect_rows A column_ids it [])"

subsection \<open>What a scan returns\<close>

text \<open>\<open>convert_rows\<close> is the scan without the iterator: every row projected, the first error wins.\<close>

fun convert_rows ::
    "'o GApi \<Rightarrow> TableSchema \<Rightarrow> int list \<Rightarrow> GType list \<Rightarrow> int list \<Rightarrow> Row list \<Rightarrow> 'o ColumnBindings list StatusOr" where
  "convert_rows A schema idxs types ids [] = Inr []"
| "convert_rows A schema idxs types ids (row # rest) =
     (case ProjectRowCells A row schema idxs types of
        Inl s \<Rightarrow> Inl s
      | Inr out \<Rightarrow>
          (case convert_rows A schema idxs types ids rest of
             Inl s \<Rightarrow> Inl s | Inr bs \<Rightarrow> Inr (bind_row ids out # bs)))"

lemma collect_rows_spec:
  assumes "it_status it = Inr ()"
  shows "collect_rows A ids it out =
    (case convert_rows A (it_schema it) (it_column_idxs it) (it_column_types it) ids (rows_iter it) of
       Inl s \<Rightarrow> Inl s | Inr bs \<Rightarrow> Inr (out @ bs))"
  using assms
proof (induction "rows_iter it" arbitrary: it out)
  case Nil
  then show ?case by (subst collect_rows.simps) (simp add: NextRow_def split: list.splits)
next
  case (Cons row rest)
  show ?case
  proof (cases "ProjectRowCells A row (it_schema it) (it_column_idxs it) (it_column_types it)")
    case (Inl s)
    then show ?thesis
      using Cons(2) by (subst collect_rows.simps) (simp add: NextRow_def Cons(2) [symmetric])
  next
    case (Inr vs)
    define it' where "it' = it\<lparr>rows_iter := rest, current_row := vs\<rparr>"
    have "NextRow A it = (True, it')"
      using Inr by (simp add: NextRow_def Cons(2) [symmetric] it'_def)
    then have "collect_rows A ids it out = collect_rows A ids it' (out @ [bind_row ids vs])"
      using Cons.prems by (subst collect_rows.simps) (simp add: it'_def)
    also have "\<dots> = (case convert_rows A (it_schema it) (it_column_idxs it) (it_column_types it) ids rest of
       Inl s \<Rightarrow> Inl s | Inr bs \<Rightarrow> Inr ((out @ [bind_row ids vs]) @ bs))"
      using Cons(1) [of it' "out @ [bind_row ids vs]"] Cons.prems by (simp add: it'_def)
    finally show ?thesis
      using Inr by (simp add: Cons(2) [symmetric] split: sum.splits)
  qed
qed

subsection \<open>Values that survive storage\<close>

text \<open>
  \<open>survives A t v\<close>: the values of type \<open>t\<close> whose stored cell converts back to them. Decimals
  need their printer and parser to agree, instants must be ones the text names, and the elements
  of an array must not be structs.
\<close>

fun survives :: "'o GApi \<Rightarrow> GType \<Rightarrow> 'o GValue \<Rightarrow> bool"
  and survives_fields :: "'o GApi \<Rightarrow> StructField list \<Rightarrow> 'o GValue list \<Rightarrow> bool" where
  "survives A t GInvalid \<longleftrightarrow> False"
| "survives A t (GNull t') \<longleftrightarrow> t' = t"
| "survives A t (GBool b) \<longleftrightarrow> t = GT_BOOL"
| "survives A t (GInt64 i) \<longleftrightarrow> t = GT_INT64"
| "survives A t (GDouble d) \<longleftrightarrow> t = GT_DOUBLE"
| "survives A t (GString s) \<longleftrightarrow> t = GT_STRING"
| "survives A t (GBytes s) \<longleftrightarrow> t = GT_BYTES"
| "survives A t (GTimestamp m) \<longleftrightarrow> t = GT_TIMESTAMP \<and> written_instant m = m \<and> reads_instant A m"
| "survives A t (GScalar t' x) \<longleftrightarrow>
     t' = t \<and>
     (t = GT_NUMERIC \<and> NumericFromString A (NumericToString A x) = Inr x \<or>
      t = GT_BIGNUMERIC \<and> BigNumericFromString A (BigNumericToString A x) = Inr x)"
| "survives A t (GProto n b) \<longleftrightarrow> t = GT_PROTO n"
| "survives A t (GArray e vs) \<longleftrightarrow>
     t = GT_ARRAY e \<and> \<not> IsArray e \<and> \<not> IsStruct e \<and> list_all (survives A e) vs"
| "survives A t (GStruct fs vs) \<longleftrightarrow> t = GT_STRUCT fs \<and> survives_fields A fs vs"
| "survives_fields A [] [] \<longleftrightarrow> True"
| "survives_fields A (f # fs) (v # vs) \<longleftrightarrow> survives A (sf_type f) v \<and> survives_fields A fs vs"
| "survives_fields A _ _ \<longleftrightarrow> False"

definition comes_back :: "'o GApi \<Rightarrow> GType \<Rightarrow> ColumnSchema \<Rightarrow> 'o GValue \<Rightarrow> bool" where
  "comes_back A t c v \<longleftrightarrow>
     (\<exists>cell. ToStorageValue A None v = (Inr cell, None) \<and> ConvertCell A cell (Some t) c = Inr v)"

lemma timestamp_comes_back:
  assumes "written_instant m = m" "reads_instant A m"
  shows "comes_back A GT_TIMESTAMP c (GTimestamp m)"
  using FormatTimestampUtc_text [of A m] Parse_instant [of A m] assms
  by (simp add: comes_back_def ToStorageTemporalValue_def ConvertCell_scalar ConvertStringTypedScalar_def)

lemma null_comes_back: "comes_back A t c (GNull t)"
  by (cases "IsArray t") (auto simp: comes_back_def ConvertCell_scalar IsArray_iff)

lemma scalar_comes_back:
  assumes "survives A t v" "\<not> IsArray t" "\<not> IsStruct t"
  shows "comes_back A t c v"
  using assms timestamp_comes_back [of _ A c] null_comes_back [of A t c]
  by (cases v)
     (auto simp: comes_back_def ConvertCell_scalar ConvertStringTypedScalar_def is_temporal_def
       ToStorageExtendedScalar_def)

lemma elements_come_back:
  assumes "list_all (survives A e) vs" "\<not> IsArray e" "\<not> IsStruct e"
  shows "\<exists>cells. to_storage_list A vs = Inr cells \<and> convert_elements A cells e c = Inr vs"
  using assms(1)
proof (induction vs)
  case (Cons v vs)
  with scalar_comes_back [OF _ assms(2,3), of A v c] show ?case by (auto simp: comes_back_def)
qed simp

lemma survives_comes_back:
  "survives A t v \<Longrightarrow> ColumnSchemaForType A t name = Inr c \<Longrightarrow> comes_back A t c v"
  "survives_fields A fs vs \<Longrightarrow> field_schemas A fs = Inr cs \<Longrightarrow>
   \<exists>cells. to_storage_list A vs = Inr cells \<and> convert_fields A cells fs cs = Inr vs \<and>
     length cells = length fs \<and> length cells = length cs"
proof (induction A t v and A fs vs arbitrary: name c and cs rule: survives_survives_fields.induct)
  case (11 A t e vs)
  then show ?case
    using elements_come_back [of A e vs "element_schema c"] by (auto simp: comes_back_def)
next
  case (12 A t fs vs)
  then show ?case
    by (auto simp: comes_back_def ConvertCell_struct split: sum.splits)
next
  case (14 A f fs v vs)
  then show ?case
    by (cases f) (fastforce simp: comes_back_def split: sum.splits)
qed (auto intro: null_comes_back timestamp_comes_back scalar_comes_back)

subsection \<open>Scanning what was written\<close>

lemma convert_fields_nth:
  "convert_fields A xs fs cs = Inr vs \<Longrightarrow> length xs = length fs \<Longrightarrow> length xs = length cs \<Longrightarrow>
   length vs = length fs \<and>
   (\<forall>i < length fs. ConvertCell A (xs ! i) (Some (sf_type (fs ! i))) (cs ! i) = Inr (vs ! i))"
proof (induction xs arbitrary: fs cs vs)
  case (Cons x xs)
  then obtain f fs' c cs' where eq: "fs = f # fs'" "cs = c # cs'"
    by (cases fs; cases cs) auto
  with Cons.prems obtain y ys where y: "ConvertCell A x (Some (sf_type f)) c = Inr y"
      "convert_fields A xs fs' cs' = Inr ys" "vs = y # ys"
    by (auto split: sum.splits)
  with Cons.IH [OF y(2)] Cons.prems eq show ?case by (auto simp: nth_Cons split: nat.splits)
qed simp

definition valid_idxs :: "'a list \<Rightarrow> int list \<Rightarrow> bool" where
  "valid_idxs xs idxs \<longleftrightarrow> list_all (\<lambda>i. 0 \<le> i \<and> nat i < length xs) idxs"

lemma ProjectRowCells_written:
  assumes "valid_idxs fs idxs" "length (cells row) = length fs"
    and "\<forall>i < length fs. ConvertCell A (cells row ! i) (Some (sf_type (fs ! i))) (columns schema ! i) = Inr (vs ! i)"
  shows "ProjectRowCells A row schema idxs (map (\<lambda>i. sf_type (fs ! nat i)) idxs) =
    Inr (map (\<lambda>i. vs ! nat i) idxs)"
  using assms(1) by (induction idxs) (auto simp: valid_idxs_def assms(2,3))

lemma convert_rows_written:
  assumes "valid_idxs fs idxs" "field_schemas A fs = Inr cs"
    and "list_all (survives_fields A fs) written"
    and "list_all2 (\<lambda>vs row. to_storage_list A vs = Inr (cells row)) written rows"
  shows "convert_rows A \<lparr>columns = cs\<rparr> idxs (map (\<lambda>i. sf_type (fs ! nat i)) idxs) ids rows =
    Inr (map (\<lambda>vs. bind_row ids (map (\<lambda>i. vs ! nat i) idxs)) written)"
  using assms(3,4)
proof (induction written arbitrary: rows)
  case (Cons vs written)
  then obtain row rest where rows: "rows = row # rest" "to_storage_list A vs = Inr (cells row)"
      "list_all2 (\<lambda>vs row. to_storage_list A vs = Inr (cells row)) written rest"
    by (cases rows) auto
  have "survives_fields A fs vs" using Cons.prems by simp
  from survives_comes_back(2) [OF this assms(2)] rows(2)
  have conv: "convert_fields A (cells row) fs cs = Inr vs" "length (cells row) = length fs"
      "length (cells row) = length cs"
    by auto
  have "ProjectRowCells A row \<lparr>columns = cs\<rparr> idxs (map (\<lambda>i. sf_type (fs ! nat i)) idxs) =
      Inr (map (\<lambda>i. vs ! nat i) idxs)"
    using convert_fields_nth [OF conv] conv(2) by (intro ProjectRowCells_written assms(1)) auto
  then show ?case using Cons.IH [OF _ rows(3)] Cons.prems rows(1) by simp
qed simp

lemma column_types_of_valid:
  "st_columns T = map (\<lambda>f. (sf_name f, sf_type f)) fs \<Longrightarrow> valid_idxs fs idxs \<Longrightarrow>
   column_types_of T idxs = Inr (map (\<lambda>i. sf_type (fs ! nat i)) idxs)"
  by (induction idxs) (auto simp: valid_idxs_def)

lemma scalar_schema:
  "\<not> IsStruct (element_type t) \<Longrightarrow> ColumnSchemaForType A t n = Inr child \<Longrightarrow>
   col_name child = n \<and> col_fields child = []"
proof -
  assume a: "\<not> IsStruct (element_type t)" "ColumnSchemaForType A t n = Inr child"
  have core: "col_name child = n \<and> col_fields child = []"
    if "core_schema A e n mode = Inr child" "\<not> IsStruct e" for e mode
    using that by (cases e) (auto split: option.splits)
  show ?thesis
    using a core by (cases t) (auto split: if_splits simp del: core_schema.simps)
qed

subsection \<open>Properties\<close>

text \<open>
  C11 (a scan returns the written values). When the rows of a table were lowered with
  \<open>ToStorageValue\<close> from values of the column types that survive storage (scalars other than the
  date and time kinds and JSON, decimals, instants from 1970 on, arrays of such, structs), scanning
  any selection of columns returns one binding per row, in order, with exactly the written values.
\<close>

theorem scan_returns_written:
  assumes "field_schemas A fs = Inr cs"
    and "T = make_StorageTable name full_name (map (\<lambda>f. (sf_name f, sf_type f)) fs) \<lparr>columns = cs\<rparr> tid"
    and "list_all (survives_fields A fs) written"
    and "list_all2 (\<lambda>vs row. to_storage_list A vs = Inr (cells row)) written rows"
    and "ScanAll tid = Inr rows"
    and "valid_idxs fs idxs" "length ids = length idxs"
  shows "MaterializeTableScan A (Some ScanAll) T ids idxs =
    Inr (map (\<lambda>vs. bind_row ids (map (\<lambda>i. vs ! nat i) idxs)) written)"
proof -
  have "column_types_of T idxs = Inr (map (\<lambda>i. sf_type (fs ! nat i)) idxs)"
    using assms(2,6) by (intro column_types_of_valid) (simp_all add: make_StorageTable_def)
  then show ?thesis
    using convert_rows_written [OF assms(6,1,3,4), of ids] assms(2,5,7)
    by (simp add: MaterializeTableScan_def CreateEvaluatorTableIterator_def collect_rows_spec
        make_StorageTable_def)
qed

definition sample_fields :: "StructField list" where
  "sample_fields =
     [StructField ''n'' GT_NUMERIC, StructField ''tags'' (GT_ARRAY GT_STRING),
      StructField ''o'' (GT_STRUCT [StructField ''b'' GT_BOOL])]"

definition sample_values :: "string GValue list" where
  "sample_values =
     [GScalar GT_NUMERIC ''1.5'', GArray GT_STRING [GString ''x'', GNull GT_STRING],
      GStruct [StructField ''b'' GT_BOOL] [GBool True]]"

definition sample_columns :: "ColumnSchema list" where
  "sample_columns =
     [ColumnSchema ''n'' kNumeric kNullable [] [] [], ColumnSchema ''tags'' kString kRepeated [] [] [],
      ColumnSchema ''o'' kStruct kNullable [] [] [ColumnSchema ''b'' kBool kNullable [] [] []]]"

definition sample_cells :: Row where
  "sample_cells = \<lparr>cells = [VString ''1.5'', VArray [VString ''x'', VNull], VStruct [VBool True]]\<rparr>"

lemmas sample_scan =
  sample_fields_def sample_values_def sample_columns_def sample_cells_def gapi_ref_def

theorem scan_returns_written_witness:
  "MaterializeTableScan gapi_ref (Some (\<lambda>t. Inr [sample_cells]))
     (make_StorageTable ''t'' ''p.d.t'' (map (\<lambda>f. (sf_name f, sf_type f)) sample_fields)
        \<lparr>columns = sample_columns\<rparr> \<lparr>project_id = ''p'', dataset_id = ''d'', table_id = ''t''\<rparr>) [7, 9] [2, 0] =
   Inr [bind_row [7, 9] [GStruct [StructField ''b'' GT_BOOL] [GBool True], GScalar GT_NUMERIC ''1.5'']]"
proof -
  have "field_schemas gapi_ref sample_fields = Inr sample_columns"
    by (simp add: sample_scan core_column_type_def)
  moreover have "list_all (survives_fields gapi_ref sample_fields) [sample_values]"
    by (simp add: sample_scan)
  moreover have "list_all2 (\<lambda>vs row. to_storage_list gapi_ref vs = Inr (cells row)) [sample_values] [sample_cells]"
    by (simp add: sample_scan is_temporal_def ToStorageExtendedScalar_def)
  moreover have "valid_idxs sample_fields [2, 0]"
    by (simp add: sample_scan valid_idxs_def)
  ultimately show ?thesis
    using scan_returns_written [of gapi_ref sample_fields sample_columns _ _ _ _ "[sample_values]"
        "[sample_cells]" "\<lambda>t. Inr [sample_cells]" "[2, 0]" "[7, 9]"]
    by (simp add: sample_values_def)
qed

text \<open>
  C40 (repeated structs cannot be scanned). For an array of structs the conversion takes the
  schema of the first field of the struct as the schema of an element, so a cell of a REPEATED
  STRUCT column whose first field is not itself a struct is refused as soon as its first element
  is a struct, although the cell has the shape the column asks for.
\<close>

theorem repeated_struct_unreadable:
  assumes "ColumnSchemaForType A (GT_ARRAY (GT_STRUCT (f # fs))) name = Inr c"
    and "\<not> IsStruct (element_type (sf_type f))" "length ms = Suc (length fs)"
  shows "ConvertCell A (VArray (VStruct ms # rest)) (Some (GT_ARRAY (GT_STRUCT (f # fs)))) c =
    Inl (struct_size_error (sf_name f) (Suc (length fs)) 0 (Suc (length fs)))"
proof -
  obtain n t where f: "f = StructField n t" by (cases f)
  from assms(1) f obtain child children where c: "ColumnSchemaForType A t n = Inr child"
      "c = ColumnSchema name kStruct kRepeated [] [] (child # children)"
    by (auto split: sum.splits)
  have "\<not> IsStruct (element_type t)" using assms(2) f by simp
  then have "col_name child = n \<and> col_fields child = []"
    using c(1) by (rule scalar_schema)
  then show ?thesis
    using assms(3) f c(2) by (simp add: element_schema_def ConvertCell_struct)
qed

theorem repeated_struct_unreadable_witness:
  "ConvertCell gapi_ref (VArray [VStruct [VInt64 7, VString ''x'']])
     (Some (GT_ARRAY (GT_STRUCT [StructField ''a'' GT_INT64, StructField ''b'' GT_STRING])))
     (ColumnSchema ''r'' kStruct kRepeated [] []
        [ColumnSchema ''a'' kInt64 kNullable [] [] [], ColumnSchema ''b'' kString kNullable [] [] []]) =
   Inl (struct_size_error ''a'' (Suc 1) 0 (Suc 1))"
  using repeated_struct_unreadable [of gapi_ref "StructField ''a'' GT_INT64"
      "[StructField ''b'' GT_STRING]" "''r''" _ "[VInt64 7, VString ''x'']" "[]"]
  by (simp add: core_column_type_def)



end
