(* ===== verification/Wildcard_Table.thy ===== *)
theory Wildcard_Table
  imports Storage_Table "HOL-Library.List_Lexorder" "HOL-Library.Char_ord"
begin

section \<open>Wildcard tables\<close>

text \<open>
  A table name that ends in a star stands for the union of all tables of the dataset that share
  the prefix, with the pseudo column \<open>_TABLE_SUFFIX\<close>. \<open>wildcard_table_util.cc\<close> unifies the
  schemas, \<open>googlesql_catalog_wildcard.cc\<close> builds the table, \<open>wildcard_table.cc\<close> collects and
  renders its rows, and \<open>wildcard_table_suffix_filter.cc\<close> derives from a query's filter which
  suffixes have to be read at all.

  The storage methods the component calls on one state of the store are the record
  \<open>CatalogStorage\<close>. The unified columns that the newest table does not have are appended in the
  iteration order of a hash map: \<open>hash_order\<close> is that order, a permutation. Strings are compared
  as in C++, byte by byte.

  The lemmas show that a union row has every column's cell by name, that the unified schema
  covers every matched table, and when the suffix pruning is sound.
\<close>

record CatalogStorage =
  cat_GetSchema :: "TableId \<Rightarrow> TableSchema StatusOr"
  cat_ScanRows :: "TableId \<Rightarrow> Row list StatusOr"
  cat_ListTables :: "DatasetId \<Rightarrow> TableId list StatusOr"

subsection \<open>Names\<close>

definition kTableSuffixColumnName :: string where
  "kTableSuffixColumnName = ''_TABLE_SUFFIX''"

definition IsWildcardTableId :: "string \<Rightarrow> bool" where
  "IsWildcardTableId t \<longleftrightarrow> t \<noteq> [] \<and> last t = CHR ''*''"

definition WildcardTablePrefix :: "string \<Rightarrow> string" where
  "WildcardTablePrefix w = (if w = [] \<or> last w \<noteq> CHR ''*'' then w else take (length w - 1) w)"

definition TableMatchesWildcard :: "string \<Rightarrow> string \<Rightarrow> bool" where
  "TableMatchesWildcard t w \<longleftrightarrow> IsWildcardTableId w \<and> prefix (WildcardTablePrefix w) t"

definition TableSuffixFor :: "string \<Rightarrow> string \<Rightarrow> string" where
  "TableSuffixFor t pre =
     (if pre = [] then t else if \<not> prefix pre t then t else drop (length pre) t)"

subsection \<open>The unified schema\<close>

lemma size_zip_left [termination_simp]:
  "(a, b) \<in> set (zip xs ys) \<Longrightarrow> size a < Suc (size_list size xs)"
  by (auto dest!: set_zip_leftD simp: less_Suc_eq_le intro: size_list_estimation')

fun ColumnTypesCompatible :: "ColumnSchema \<Rightarrow> ColumnSchema \<Rightarrow> bool" where
  "ColumnTypesCompatible (ColumnSchema n1 t1 m1 d1 r1 fs1) (ColumnSchema n2 t2 m2 d2 r2 fs2) \<longleftrightarrow>
     t1 = t2 \<and> m1 = m2 \<and>
     (t1 = kStruct \<longrightarrow>
        length fs1 = length fs2 \<and> list_all (\<lambda>(f, g). ColumnTypesCompatible f g) (zip fs1 fs2))"

definition TableSuffixColumn :: ColumnSchema where
  "TableSuffixColumn = ColumnSchema kTableSuffixColumnName kString kRequired [] [] []"

definition IsDataColumn :: "string \<Rightarrow> bool" where
  "IsDataColumn name \<longleftrightarrow> name \<noteq> kTableSuffixColumnName"

definition SchemaHasColumn :: "string \<Rightarrow> ColumnSchema list \<Rightarrow> bool" where
  "SchemaHasColumn name cols \<longleftrightarrow> list_ex (\<lambda>c. col_name c = name) cols"

text \<open>\<open>by_name\<close> is kept in insertion order, with unique keys.\<close>

definition incompatible_field :: "ColumnSchema \<Rightarrow> ColumnSchema \<Rightarrow> Status" where
  "incompatible_field col seen =
     Status kInvalidArgument
       (''Cannot read field of type '' @ ColumnTypeName (col_type col) @ '' as '' @
        ColumnTypeName (col_type seen) @ '' Field: '' @ col_name col)"

fun merge_columns ::
    "ColumnSchema list \<Rightarrow> (string \<times> ColumnSchema) list \<Rightarrow> (string \<times> ColumnSchema) list StatusOr" where
  "merge_columns [] by_name = Inr by_name"
| "merge_columns (col # rest) by_name =
     (case map_of by_name (col_name col) of
        None \<Rightarrow> merge_columns rest (by_name @ [(col_name col, col)])
      | Some seen \<Rightarrow>
          (if ColumnTypesCompatible seen col then merge_columns rest by_name
           else Inl (incompatible_field col seen)))"

fun merge_tables ::
    "CatalogStorage \<Rightarrow> TableId list \<Rightarrow> (string \<times> ColumnSchema) list \<Rightarrow>
     (string \<times> ColumnSchema) list StatusOr" where
  "merge_tables S [] by_name = Inr by_name"
| "merge_tables S (tid # rest) by_name =
     (case cat_GetSchema S tid of
        Inl s \<Rightarrow> Inl s
      | Inr schema \<Rightarrow>
          (case merge_columns (columns schema) by_name of
             Inl s \<Rightarrow> Inl s
           | Inr merged \<Rightarrow> merge_tables S rest merged))"

fun unified_newest ::
    "string \<Rightarrow> (string \<times> ColumnSchema) list \<Rightarrow> ColumnSchema list \<Rightarrow> ColumnSchema list StatusOr" where
  "unified_newest tbl by_name [] = Inr []"
| "unified_newest tbl by_name (col # rest) =
     (case map_of by_name (col_name col) of
        None \<Rightarrow>
          Inl (Status kInternal
                 (''UnifyWildcardTableSchemas: missing unified column '' @ [CHR 0x27] @ col_name col @
                  [CHR 0x27] @ '' for table '' @ tbl))
      | Some seen \<Rightarrow>
          (case unified_newest tbl by_name rest of
             Inl s \<Rightarrow> Inl s | Inr cols \<Rightarrow> Inr (seen # cols)))"

definition UnifyWildcardTableSchemas ::
    "((string \<times> ColumnSchema) list \<Rightarrow> (string \<times> ColumnSchema) list) \<Rightarrow> CatalogStorage option \<Rightarrow>
     TableId list \<Rightarrow> TableSchema StatusOr" where
  "UnifyWildcardTableSchemas hash_order storage matched =
     (case storage of
        None \<Rightarrow> Inl (Status kFailedPrecondition ''UnifyWildcardTableSchemas: storage is null'')
      | Some S \<Rightarrow>
          (if matched = [] then
             Inl (Status kInvalidArgument ''UnifyWildcardTableSchemas: matched table set is empty'')
           else case merge_tables S matched [] of
             Inl s \<Rightarrow> Inl s
           | Inr by_name \<Rightarrow>
               (case cat_GetSchema S (last matched) of
                  Inl s \<Rightarrow> Inl s
                | Inr newest \<Rightarrow>
                    (case unified_newest (table_id (last matched)) by_name (columns newest) of
                       Inl s \<Rightarrow> Inl s
                     | Inr newest_cols \<Rightarrow>
                         Inr \<lparr>columns = newest_cols @
                           map snd (filter (\<lambda>(n, c). \<not> SchemaHasColumn n (columns newest)) (hash_order by_name)) @
                           [TableSuffixColumn]\<rparr>))))"

subsection \<open>Column maps\<close>

record WildcardColumnMap =
  wm_table_id :: TableId
  wm_schema :: TableSchema
  union_to_physical :: "int list"

fun first_index :: "string \<Rightarrow> ColumnSchema list \<Rightarrow> int" where
  "first_index name [] = -1"
| "first_index name (c # cs) =
     (if col_name c = name then 0
      else let i = first_index name cs in if i < 0 then -1 else i + 1)"

definition column_map :: "TableId \<Rightarrow> TableSchema \<Rightarrow> TableSchema \<Rightarrow> WildcardColumnMap" where
  "column_map tid schema union_schema =
     \<lparr>wm_table_id = tid, wm_schema = schema,
      union_to_physical =
        map (\<lambda>u. if \<not> IsDataColumn (col_name u) then -1 else first_index (col_name u) (columns schema))
          (columns union_schema)\<rparr>"

fun column_maps ::
    "CatalogStorage \<Rightarrow> TableId list \<Rightarrow> TableSchema \<Rightarrow> WildcardColumnMap list StatusOr" where
  "column_maps S [] union_schema = Inr []"
| "column_maps S (tid # rest) union_schema =
     (case cat_GetSchema S tid of
        Inl s \<Rightarrow> Inl s
      | Inr schema \<Rightarrow>
          (case column_maps S rest union_schema of
             Inl s \<Rightarrow> Inl s | Inr maps \<Rightarrow> Inr (column_map tid schema union_schema # maps)))"

definition BuildWildcardColumnMaps ::
    "CatalogStorage option \<Rightarrow> TableId list \<Rightarrow> TableSchema \<Rightarrow> WildcardColumnMap list StatusOr" where
  "BuildWildcardColumnMaps storage matched union_schema =
     (case storage of
        None \<Rightarrow> Inl (Status kFailedPrecondition ''BuildWildcardColumnMaps: storage is null'')
      | Some S \<Rightarrow> column_maps S matched union_schema)"

subsection \<open>Rows of the union\<close>

definition SuffixMatchesAllowList :: "string \<Rightarrow> string list \<Rightarrow> bool" where
  "SuffixMatchesAllowList s allowlist =
     (if allowlist = [] then False
      else if length allowlist = 2 \<and> allowlist ! 0 \<le> allowlist ! 1 then
        allowlist ! 0 \<le> s \<and> s \<le> allowlist ! 1
      else s \<in> set allowlist)"

definition union_cell :: "Row \<Rightarrow> string \<Rightarrow> ColumnSchema \<Rightarrow> int \<Rightarrow> Value" where
  "union_cell physical table_suffix col physical_idx =
     (if col_name col = kTableSuffixColumnName then VString table_suffix
      else if physical_idx < 0 \<or> nat physical_idx \<ge> length (cells physical) then VNull
      else cells physical ! nat physical_idx)"

definition BuildUnionRow :: "Row \<Rightarrow> WildcardColumnMap \<Rightarrow> TableSchema \<Rightarrow> string \<Rightarrow> Row" where
  "BuildUnionRow physical m union_schema table_suffix =
     \<lparr>cells = map (\<lambda>(col, idx). union_cell physical table_suffix col idx)
                (zip (columns union_schema) (union_to_physical m))\<rparr>"

record WildcardTable =
  wt_name :: string
  wt_full_name :: string
  wildcard_id :: TableId
  table_prefix :: string
  matched_tables :: "WildcardColumnMap list"
  union_schema :: TableSchema
  wt_columns :: "(string \<times> GType) list"

fun union_rows ::
    "CatalogStorage \<Rightarrow> string \<Rightarrow> TableSchema \<Rightarrow> string list option \<Rightarrow> WildcardColumnMap list \<Rightarrow>
     Row list StatusOr" where
  "union_rows S pre schema allow [] = Inr []"
| "union_rows S pre schema allow (m # rest) =
     (let sfx = TableSuffixFor (table_id (wm_table_id m)) pre
      in if (case allow of None \<Rightarrow> False | Some l \<Rightarrow> \<not> SuffixMatchesAllowList sfx l)
         then union_rows S pre schema allow rest
         else case cat_ScanRows S (wm_table_id m) of
                Inl s \<Rightarrow> Inl s
              | Inr rows \<Rightarrow>
                  (case union_rows S pre schema allow rest of
                     Inl s \<Rightarrow> Inl s
                   | Inr others \<Rightarrow> Inr (map (\<lambda>r. BuildUnionRow r m schema sfx) rows @ others)))"

definition not_configured :: Status where
  "not_configured = Status kFailedPrecondition ''WildcardTable: storage backend is not configured''"

definition CollectUnionRows ::
    "CatalogStorage option \<Rightarrow> WildcardTable \<Rightarrow> string list option \<Rightarrow> Row list StatusOr" where
  "CollectUnionRows storage T suffix_allowlist =
     (case storage of
        None \<Rightarrow> Inl not_configured
      | Some S \<Rightarrow> union_rows S (table_prefix T) (union_schema T) suffix_allowlist (matched_tables T))"

text \<open>The iterator over a wildcard table; its rows were collected when it was created.\<close>

record 'o WildcardIterator =
  wi_rows :: "Row list"
  wi_column_idxs :: "int list"
  wi_column_types :: "GType list"
  wi_current_row :: "'o GValue list"
  wi_status :: "unit StatusOr"

fun wildcard_row ::
    "'o GApi \<Rightarrow> Row \<Rightarrow> int list \<Rightarrow> GType list \<Rightarrow> 'o GValue list StatusOr" where
  "wildcard_row A row (idx # idxs) (t # types) =
     (let cell = cells row ! nat idx
      in case (if is_null cell then Inr (GNull t) else StorageValueToGoogleSqlValue A cell (Some t)) of
           Inl s \<Rightarrow> Inl s
         | Inr v \<Rightarrow>
             (case wildcard_row A row idxs types of Inl s \<Rightarrow> Inl s | Inr vs \<Rightarrow> Inr (v # vs)))"
| "wildcard_row A row _ _ = Inr []"

definition WildcardNextRow :: "'o GApi \<Rightarrow> 'o WildcardIterator \<Rightarrow> bool \<times> 'o WildcardIterator" where
  "WildcardNextRow A it =
     (case wi_rows it of
        [] \<Rightarrow> (False, it\<lparr>wi_current_row := []\<rparr>)
      | row # rest \<Rightarrow>
          (case wildcard_row A row (wi_column_idxs it) (wi_column_types it) of
             Inl s \<Rightarrow> (False, it\<lparr>wi_rows := rest, wi_status := Inl s, wi_current_row := []\<rparr>)
           | Inr vs \<Rightarrow> (True, it\<lparr>wi_rows := rest, wi_current_row := vs\<rparr>)))"

definition WildcardCreateIterator ::
    "CatalogStorage option \<Rightarrow> WildcardTable \<Rightarrow> int list \<Rightarrow> 'o WildcardIterator StatusOr" where
  "WildcardCreateIterator storage T column_idxs =
     (case CollectUnionRows storage T None of
        Inl s \<Rightarrow> Inl s
      | Inr rows \<Rightarrow>
          (let idxs = (if column_idxs = [] then map int [0..<length (columns (union_schema T))]
                       else column_idxs)
           in if list_ex (\<lambda>i. i < 0 \<or> i \<ge> int (length (wt_columns T))) idxs then
                Inl (Status kInvalidArgument ''WildcardTable: bad column index'')
              else Inr \<lparr>wi_rows = rows, wi_column_idxs = idxs,
                        wi_column_types = map (\<lambda>i. snd (wt_columns T ! nat i)) idxs,
                        wi_current_row = [], wi_status = Inr ()\<rparr>))"

subsection \<open>Copying the union into DuckDB\<close>

definition RenderUnionCell :: "(double \<Rightarrow> string) \<Rightarrow> Value \<Rightarrow> ColumnSchema \<Rightarrow> string" where
  "RenderUnionCell StrCatDouble cell column =
     (if is_null cell then ''NULL''
      else case col_type column of
             kBool \<Rightarrow> (if bool_value cell then ''TRUE'' else ''FALSE'')
           | kInt64 \<Rightarrow> dec (int64_value cell)
           | kFloat64 \<Rightarrow> StrCatDouble (float64_value cell)
           | kString \<Rightarrow> quoted (string_value cell)
           | kBytes \<Rightarrow> quoted (string_value cell)
           | kNumeric \<Rightarrow> quoted (string_value cell)
           | kBignumeric \<Rightarrow> quoted (string_value cell)
           | _ \<Rightarrow> ''NULL'')"

definition DuckDbTypeForColumn :: "ColumnSchema \<Rightarrow> string" where
  "DuckDbTypeForColumn column =
     (case col_type column of
        kBool \<Rightarrow> ''BOOLEAN'' | kInt64 \<Rightarrow> ''BIGINT'' | kFloat64 \<Rightarrow> ''DOUBLE'' | _ \<Rightarrow> ''VARCHAR'')"

definition RenderUnionColumnList :: "TableSchema \<Rightarrow> string" where
  "RenderUnionColumnList schema =
     ''('' @ join_str '', '' (map (\<lambda>c. QuoteIdent (col_name c) @ '' '' @ DuckDbTypeForColumn c) (columns schema)) @ '')''"

definition union_tuple :: "(double \<Rightarrow> string) \<Rightarrow> TableSchema \<Rightarrow> Row \<Rightarrow> string" where
  "union_tuple fmt schema row =
     ''('' @ join_str '', ''
       (map (\<lambda>(cell, c). RenderUnionCell fmt cell c) (zip (cells row) (columns schema))) @ '')''"

text \<open>\<open>run\<close> is \<open>duckdb_query\<close> on the connection, with the error text it reports.\<close>

definition RunSqlNoResult ::
    "('w \<Rightarrow> string \<Rightarrow> string option \<times> 'w) \<Rightarrow> 'w \<Rightarrow> string \<Rightarrow> unit StatusOr \<times> 'w" where
  "RunSqlNoResult run conn sql =
     (case run conn sql of
        (Some detail, conn') \<Rightarrow>
          (Inl (Status kInternal (''WildcardTable: DuckDB rejected SQL: '' @ detail)), conn')
      | (None, conn') \<Rightarrow> (Inr (), conn'))"

definition MaterializeInDuckDBWithSuffixAllowList ::
    "('w \<Rightarrow> string \<Rightarrow> string option \<times> 'w) \<Rightarrow> (double \<Rightarrow> string) \<Rightarrow> 'w \<Rightarrow> CatalogStorage option \<Rightarrow>
     WildcardTable \<Rightarrow> string \<Rightarrow> string list option \<Rightarrow> unit StatusOr \<times> 'w" where
  "MaterializeInDuckDBWithSuffixAllowList run fmt conn storage T table_name suffix_allowlist =
     (if storage = None then (Inl not_configured, conn)
      else case RunSqlNoResult run conn
                  (''CREATE OR REPLACE TABLE '' @ table_name @ '' '' @ RenderUnionColumnList (union_schema T)) of
        (Inl s, conn1) \<Rightarrow> (Inl s, conn1)
      | (Inr u, conn1) \<Rightarrow>
          (case CollectUnionRows storage T suffix_allowlist of
             Inl s \<Rightarrow> (Inl s, conn1)
           | Inr rows \<Rightarrow>
               (if rows = [] then (Inr (), conn1)
                else RunSqlNoResult run conn1
                       (''INSERT INTO '' @ table_name @ '' VALUES '' @
                        join_str '', '' (map (union_tuple fmt (union_schema T)) rows)))))"

definition MaterializeInDuckDB ::
    "('w \<Rightarrow> string \<Rightarrow> string option \<times> 'w) \<Rightarrow> (double \<Rightarrow> string) \<Rightarrow> 'w \<Rightarrow> CatalogStorage option \<Rightarrow>
     WildcardTable \<Rightarrow> string \<Rightarrow> unit StatusOr \<times> 'w" where
  "MaterializeInDuckDB run fmt conn storage T table_name =
     MaterializeInDuckDBWithSuffixAllowList run fmt conn storage T table_name None"

subsection \<open>Building the table\<close>

fun union_types :: "TypeFactory \<Rightarrow> ColumnSchema list \<Rightarrow> (string \<times> GType) list StatusOr" where
  "union_types F [] = Inr []"
| "union_types F (c # cs) =
     (case ToGoogleSqlType F c of
        Inl s \<Rightarrow> Inl s
      | Inr t \<Rightarrow> (case union_types F cs of Inl s \<Rightarrow> Inl s | Inr ts \<Rightarrow> Inr ((col_name c, t) # ts)))"

text \<open>\<open>MaterializeWildcardTable\<close> from the listing of the dataset on; the cache of built tables in front of it is not modelled.\<close>

definition build_wildcard_table ::
    "((string \<times> ColumnSchema) list \<Rightarrow> (string \<times> ColumnSchema) list) \<Rightarrow> TypeFactory \<Rightarrow>
     CatalogStorage \<Rightarrow> string \<Rightarrow> string \<Rightarrow> string \<Rightarrow> WildcardTable StatusOr" where
  "build_wildcard_table hash_order F S project dataset wildcard_table_id =
     (case cat_ListTables S \<lparr>ds_project_id = project, ds_dataset_id = dataset\<rparr> of
        Inl s \<Rightarrow> Inl s
      | Inr listed \<Rightarrow>
          (let matched = filter (\<lambda>i. TableMatchesWildcard (table_id i) wildcard_table_id) listed
           in if matched = [] then
                Inl (Status kNotFound
                       (''No tables match wildcard '' @ [CHR 0x27] @ wildcard_table_id @ [CHR 0x27] @
                        '' in dataset '' @ dataset))
              else let sorted_ids = sort_key table_id matched
                   in case UnifyWildcardTableSchemas hash_order (Some S) sorted_ids of
                        Inl s \<Rightarrow> Inl s
                      | Inr schema \<Rightarrow>
                          (case BuildWildcardColumnMaps (Some S) sorted_ids schema of
                             Inl s \<Rightarrow> Inl s
                           | Inr maps \<Rightarrow>
                               (case union_types F (columns schema) of
                                  Inl s \<Rightarrow> Inl s
                                | Inr cols \<Rightarrow>
                                    Inr \<lparr>wt_name = wildcard_table_id,
                                      wt_full_name = project @ ''.'' @ dataset @ ''.'' @ wildcard_table_id,
                                      wildcard_id = \<lparr>project_id = project, dataset_id = dataset,
                                                     table_id = wildcard_table_id\<rparr>,
                                      table_prefix = WildcardTablePrefix wildcard_table_id,
                                      matched_tables = maps, union_schema = schema, wt_columns = cols\<rparr>))))"

subsection \<open>Suffixes a filter allows\<close>

text \<open>
  The resolved expressions as far as the pruning looks at them: column references, literals and
  function calls. A literal is a string, a null, an array or something else.
\<close>

datatype SLiteral = LString string | LNull | LArray "SLiteral list" | LOther

datatype SExpr =
    ColumnRef string
  | Literal SLiteral
  | FunctionCall string "SExpr list"
  | OtherExpr nat

definition IsTableSuffixColumnRef :: "SExpr \<Rightarrow> bool" where
  "IsTableSuffixColumnRef e \<longleftrightarrow> e = ColumnRef kTableSuffixColumnName"

fun StringFromLiteral :: "SExpr \<Rightarrow> string option" where
  "StringFromLiteral (Literal (LString s)) = Some s"
| "StringFromLiteral _ = None"

definition IntersectAllowLists :: "string list option \<Rightarrow> string list option \<Rightarrow> string list option" where
  "IntersectAllowLists a b =
     (case (a, b) of
        (Some xs, Some ys) \<Rightarrow> Some (filter (\<lambda>s. s \<in> set ys) xs)
      | _ \<Rightarrow> None)"

fun literal_strings :: "SLiteral list \<Rightarrow> string list option" where
  "literal_strings [] = Some []"
| "literal_strings (LString s # rest) = map_option ((#) s) (literal_strings rest)"
| "literal_strings (_ # rest) = None"

fun ExtractFromInCall :: "SExpr list \<Rightarrow> string list option" where
  "ExtractFromInCall [left, Literal (LArray elems)] =
     (if IsTableSuffixColumnRef left then literal_strings elems else None)"
| "ExtractFromInCall _ = None"

fun ExtractFromBetweenCall :: "SExpr list \<Rightarrow> string list option" where
  "ExtractFromBetweenCall [x, low, high] =
     (if \<not> IsTableSuffixColumnRef x then None
      else case (StringFromLiteral low, StringFromLiteral high) of
             (Some l, Some h) \<Rightarrow> Some [l, h]
           | _ \<Rightarrow> None)"
| "ExtractFromBetweenCall _ = None"

fun ExtractFromEqualCall :: "SExpr list \<Rightarrow> string list option" where
  "ExtractFromEqualCall [left, right] =
     (if IsTableSuffixColumnRef left then map_option (\<lambda>s. [s]) (StringFromLiteral right)
      else if IsTableSuffixColumnRef right then map_option (\<lambda>s. [s]) (StringFromLiteral left)
      else None)"
| "ExtractFromEqualCall _ = None"

fun ExtractFromExpr :: "SExpr \<Rightarrow> string list option"
  and extract_and :: "string list option \<Rightarrow> SExpr list \<Rightarrow> string list option" where
  "ExtractFromExpr (FunctionCall name args) =
     (let fn = AsciiStrToLower name
      in if fn = ''$equal'' then ExtractFromEqualCall args
         else if fn = ''$in'' then ExtractFromInCall args
         else if fn = ''$between'' then ExtractFromBetweenCall args
         else if fn = ''$and'' then extract_and None args
         else None)"
| "ExtractFromExpr (ColumnRef c) = None"
| "ExtractFromExpr (Literal l) = None"
| "ExtractFromExpr (OtherExpr n) = None"
| "extract_and acc [] = acc"
| "extract_and acc (e # rest) =
     (case ExtractFromExpr e of
        None \<Rightarrow> None
      | Some part \<Rightarrow>
          (case acc of
             None \<Rightarrow> extract_and (Some part) rest
           | Some xs \<Rightarrow>
               (let both = IntersectAllowLists (Some xs) (Some part)
                in if both = Some [] then both else extract_and both rest)))"

datatype SScan =
    TableScan string
  | FilterScan SExpr SScan
  | ProjectScan SScan
  | OtherScan "SScan list"

fun UnwrapToTableScan :: "SScan \<Rightarrow> string option" where
  "UnwrapToTableScan (ProjectScan input) = UnwrapToTableScan input"
| "UnwrapToTableScan (FilterScan e input) = UnwrapToTableScan input"
| "UnwrapToTableScan (TableScan t) = Some t"
| "UnwrapToTableScan (OtherScan inputs) = None"

definition FindTableSuffixAllowListForWildcardScan :: "SScan \<Rightarrow> string \<Rightarrow> string list option" where
  "FindTableSuffixAllowListForWildcardScan scn wildcard_table_id =
     (case scn of
        FilterScan filter_expr input \<Rightarrow>
          (case UnwrapToTableScan input of
             None \<Rightarrow> None
           | Some t \<Rightarrow> if t \<noteq> wildcard_table_id then None else ExtractFromExpr filter_expr)
      | _ \<Rightarrow> None)"


text \<open>
  The scan visitor of \<open>duckdb_executor_internal.h\<close> keeps one allow list per table; the catalog
  hands out one table object per name, so the key is the name.
\<close>

fun collect_allowlists :: "SScan \<Rightarrow> (string \<rightharpoonup> string list) \<Rightarrow> (string \<rightharpoonup> string list)" where
  "collect_allowlists (TableScan t) m = m"
| "collect_allowlists (ProjectScan input) m = collect_allowlists input m"
| "collect_allowlists (FilterScan e input) m =
     collect_allowlists input
       (case input of
          TableScan t \<Rightarrow>
            (case FindTableSuffixAllowListForWildcardScan (FilterScan e input) t of
               Some allow \<Rightarrow> m (t \<mapsto> allow)
             | None \<Rightarrow> m)
        | _ \<Rightarrow> m)"
| "collect_allowlists (OtherScan inputs) m = fold collect_allowlists inputs m"

subsection \<open>Soundness of the pruning\<close>

text \<open>
  \<open>holds other s e\<close>: the filter is true on a row of suffix \<open>s\<close>; \<open>other\<close> is the truth of the
  conditions that are not about the suffix alone. \<open>prunable\<close> excludes a BETWEEN below an AND.
\<close>

fun suffix_test :: "SExpr \<Rightarrow> (string \<Rightarrow> bool) option" where
  "suffix_test (FunctionCall name args) =
     (let fn = AsciiStrToLower name
      in if fn = ''$equal'' then map_option (\<lambda>xs s. s \<in> set xs) (ExtractFromEqualCall args)
         else if fn = ''$in'' then map_option (\<lambda>xs s. s \<in> set xs) (ExtractFromInCall args)
         else if fn = ''$between'' then
           map_option (\<lambda>xs s. xs ! 0 \<le> s \<and> s \<le> xs ! 1) (ExtractFromBetweenCall args)
         else None)"
| "suffix_test _ = None"

fun holds :: "(SExpr \<Rightarrow> bool) \<Rightarrow> string \<Rightarrow> SExpr \<Rightarrow> bool" where
  "holds other s (FunctionCall name args) =
     (if AsciiStrToLower name = ''$and'' then list_all (holds other s) args
      else case suffix_test (FunctionCall name args) of
             Some test \<Rightarrow> test s
           | None \<Rightarrow> other (FunctionCall name args))"
| "holds other s e = other e"

fun between_free :: "SExpr \<Rightarrow> bool" where
  "between_free (FunctionCall name args) \<longleftrightarrow>
     AsciiStrToLower name \<noteq> ''$between'' \<and> list_all between_free args"
| "between_free e \<longleftrightarrow> True"

fun prunable :: "SExpr \<Rightarrow> bool" where
  "prunable (FunctionCall name args) \<longleftrightarrow>
     AsciiStrToLower name = ''$between'' \<or> between_free (FunctionCall name args)"
| "prunable e \<longleftrightarrow> True"

lemma extract_exact:
  "ExtractFromExpr e = Some allow \<Longrightarrow> between_free e \<Longrightarrow> holds other s e \<Longrightarrow> s \<in> set allow"
  "extract_and acc es = Some allow \<Longrightarrow> list_all between_free es \<Longrightarrow> list_all (holds other s) es \<Longrightarrow>
   (\<forall>xs. acc = Some xs \<longrightarrow> s \<in> set xs) \<Longrightarrow> s \<in> set allow"
proof (induction e and acc es arbitrary: allow and allow rule: ExtractFromExpr_extract_and.induct)
  case (1 name args)
  then show ?case by (auto simp: Let_def split: if_splits)
next
  case (6 acc e rest)
  then show ?case
    by (auto simp: IntersectAllowLists_def Let_def filter_empty_conv split: option.splits if_splits)
qed auto

lemma member_matches: "s \<in> set allow \<Longrightarrow> SuffixMatchesAllowList s allow"
proof -
  assume s: "s \<in> set allow"
  show ?thesis
  proof (cases "length allow = 2 \<and> allow ! 0 \<le> allow ! 1")
    case True
    then obtain x y where "allow = [x, y]"
      by (metis (no_types) One_nat_def Suc_length_conv length_0_conv numeral_2_eq_2)
    with s True show ?thesis by (auto simp: SuffixMatchesAllowList_def)
  next
    case False
    with s show ?thesis by (auto simp: SuffixMatchesAllowList_def)
  qed
qed

lemma between_matches:
  "ExtractFromBetweenCall args = Some allow \<Longrightarrow> allow ! 0 \<le> s \<Longrightarrow> s \<le> allow ! 1 \<Longrightarrow>
   SuffixMatchesAllowList s allow"
  by (cases args rule: ExtractFromBetweenCall.cases)
     (auto simp: SuffixMatchesAllowList_def split: if_splits option.splits)

lemma pruning_keeps:
  assumes "ExtractFromExpr e = Some allow" "prunable e" "holds other s e"
  shows "SuffixMatchesAllowList s allow"
proof (cases e)
  case (FunctionCall name args)
  show ?thesis
  proof (cases "AsciiStrToLower name = ''$between''")
    case True
    then show ?thesis
      using assms between_matches [of args allow s] by (auto simp: FunctionCall)
  next
    case False
    then show ?thesis
      using assms extract_exact(1) [of e allow other s] member_matches by (auto simp: FunctionCall)
  qed
qed (use assms in auto)


subsection \<open>What a built wildcard table is\<close>

definition matched_ids :: "TableId list \<Rightarrow> string \<Rightarrow> TableId list" where
  "matched_ids listed w = sort_key table_id (filter (\<lambda>i. TableMatchesWildcard (table_id i) w) listed)"

lemma unify_last: "UnifyWildcardTableSchemas ho st ms = Inr U \<Longrightarrow> last (columns U) = TableSuffixColumn \<and> columns U \<noteq> []"
  by (auto simp: UnifyWildcardTableSchemas_def split: option.splits if_splits sum.splits)

lemma column_maps_eq:
  "column_maps S ids U = Inr maps \<Longrightarrow>
   maps = map (\<lambda>i. column_map i (projr (cat_GetSchema S i)) U) ids"
  by (induction ids arbitrary: maps) (auto split: sum.splits)

lemma built_wildcard_table:
  assumes "build_wildcard_table ho F S p d w = Inr T"
    and "cat_ListTables S \<lparr>ds_project_id = p, ds_dataset_id = d\<rparr> = Inr listed"
  shows "matched_tables T = map (\<lambda>i. column_map i (projr (cat_GetSchema S i)) (union_schema T)) (matched_ids listed w)"
    "UnifyWildcardTableSchemas ho (Some S) (matched_ids listed w) = Inr (union_schema T)"
    "table_prefix T = WildcardTablePrefix w"
  using assms column_maps_eq
  by (auto simp: build_wildcard_table_def BuildWildcardColumnMaps_def matched_ids_def Let_def
      split: sum.splits if_splits)

lemma built_lists:
  "build_wildcard_table ho F S p d w = Inr T \<Longrightarrow>
   \<exists>listed. cat_ListTables S \<lparr>ds_project_id = p, ds_dataset_id = d\<rparr> = Inr listed"
  by (auto simp: build_wildcard_table_def split: sum.splits)

subsection \<open>Rows by column name\<close>

definition named_cell :: "TableSchema \<Rightarrow> Row \<Rightarrow> string \<Rightarrow> ColumnSchema \<Rightarrow> Value" where
  "named_cell schema r sfx col =
     (if col_name col = kTableSuffixColumnName then VString sfx
      else case map_of (zip (map col_name (columns schema)) (cells r)) (col_name col) of
             Some v \<Rightarrow> v | None \<Rightarrow> VNull)"

lemma first_index_map_of:
  "(if first_index n cs < 0 \<or> nat (first_index n cs) \<ge> length vs then VNull else vs ! nat (first_index n cs)) =
   (case map_of (zip (map col_name cs) vs) n of Some v \<Rightarrow> v | None \<Rightarrow> VNull)"
proof (induction cs arbitrary: vs)
  case (Cons c cs)
  show ?case
  proof (cases vs)
    case Nil
    then show ?thesis by (simp add: Let_def)
  next
    case (Cons v vs')
    then show ?thesis
      using Cons.IH [of vs'] by (auto simp: Let_def nat_add_distrib)
  qed
qed simp

lemma BuildUnionRow_named:
  "BuildUnionRow r (column_map i schema U) U sfx = \<lparr>cells = map (named_cell schema r sfx) (columns U)\<rparr>"
proof -
  define g where
    "g u = (if \<not> IsDataColumn (col_name u) then -1 else first_index (col_name u) (columns schema))" for u
  have "union_cell r sfx u (g u) = named_cell schema r sfx u" for u
    by (simp add: g_def union_cell_def named_cell_def IsDataColumn_def first_index_map_of [symmetric])
  moreover have "union_to_physical (column_map i schema U) = map g (columns U)"
    by (simp add: column_map_def g_def)
  ultimately show ?thesis
    by (simp add: BuildUnionRow_def zip_map2 zip_same_conv_map o_def case_prod_unfold)
qed

lemma last_named_cell:
  "columns U \<noteq> [] \<Longrightarrow> last (columns U) = TableSuffixColumn \<Longrightarrow>
   last (map (named_cell schema r sfx) (columns U)) = VString sfx"
  by (simp add: last_map named_cell_def TableSuffixColumn_def)

lemma wm_table_id_column_map [simp]: "wm_table_id (column_map i schema U) = i"
  by (simp add: column_map_def)

lemma union_rows_all:
  "union_rows S pre U None (map (\<lambda>i. column_map i (sch i) U) ids) = Inr rows \<Longrightarrow>
   (\<forall>i \<in> set ids. \<exists>rs. cat_ScanRows S i = Inr rs) \<and>
   rows = concat (map (\<lambda>i. map (\<lambda>r. \<lparr>cells = map (named_cell (sch i) r (TableSuffixFor (table_id i) pre)) (columns U)\<rparr>)
                        (projr (cat_ScanRows S i))) ids)"
  by (induction ids arbitrary: rows)
     (auto simp: Let_def BuildUnionRow_named split: sum.splits)

lemma union_rows_pruned:
  assumes "union_rows S pre U None (map (\<lambda>i. column_map i (sch i) U) ids) = Inr rows"
    and "columns U \<noteq> []" "last (columns U) = TableSuffixColumn"
    and "\<And>r s. last (cells r) = VString s \<Longrightarrow> P r \<Longrightarrow> SuffixMatchesAllowList s allow"
  shows "\<exists>kept. union_rows S pre U (Some allow) (map (\<lambda>i. column_map i (sch i) U) ids) = Inr kept \<and>
    filter P kept = filter P rows"
  using assms(1)
proof (induction ids arbitrary: rows)
  case (Cons i ids)
  define sfx where "sfx = TableSuffixFor (table_id i) pre"
  from Cons.prems obtain rs others where rs: "cat_ScanRows S i = Inr rs"
      "union_rows S pre U None (map (\<lambda>i. column_map i (sch i) U) ids) = Inr others"
      "rows = map (\<lambda>r. BuildUnionRow r (column_map i (sch i) U) U sfx) rs @ others"
    by (auto simp: Let_def sfx_def split: sum.splits)
  from Cons.IH [OF rs(2)] obtain kept where kept:
      "union_rows S pre U (Some allow) (map (\<lambda>i. column_map i (sch i) U) ids) = Inr kept"
      "filter P kept = filter P others"
    by blast
  show ?case
  proof (cases "SuffixMatchesAllowList sfx allow")
    case True
    with rs kept show ?thesis by (auto simp: Let_def sfx_def)
  next
    case False
    have "\<not> P \<lparr>cells = map (named_cell (sch i) r sfx) (columns U)\<rparr>" for r
      using False assms(4) [of "\<lparr>cells = map (named_cell (sch i) r sfx) (columns U)\<rparr>" sfx]
        last_named_cell [OF assms(2,3), of "sch i" r sfx] by auto
    then have "filter P (map (\<lambda>r. BuildUnionRow r (column_map i (sch i) U) U sfx) rs) = []"
      by (simp add: filter_empty_conv BuildUnionRow_named)
    with False rs kept show ?thesis by (auto simp: Let_def sfx_def)
  qed
qed simp


subsection \<open>The unified schema covers the tables\<close>

lemma ColumnTypesCompatible_refl: "ColumnTypesCompatible c c"
proof (induction c)
  case (ColumnSchema n t m d r fs)
  then show ?case by (auto simp: list_all_iff zip_same)
qed

definition covers :: "(string \<times> ColumnSchema) list \<Rightarrow> ColumnSchema \<Rightarrow> bool" where
  "covers by_name c \<longleftrightarrow> (\<exists>u. map_of by_name (col_name c) = Some u \<and> ColumnTypesCompatible u c)"

definition keyed :: "(string \<times> ColumnSchema) list \<Rightarrow> bool" where
  "keyed by_name \<longleftrightarrow> (\<forall>(n, c) \<in> set by_name. col_name c = n)"

lemma merge_columns_keeps:
  "merge_columns cs by_name = Inr merged \<Longrightarrow> map_of by_name n = Some u \<Longrightarrow> map_of merged n = Some u"
  by (induction cs by_name rule: merge_columns.induct)
     (auto simp: map_add_def split: option.splits if_splits)

lemma merge_columns_covers:
  "merge_columns cs by_name = Inr merged \<Longrightarrow> c \<in> set cs \<Longrightarrow> covers merged c"
proof (induction cs by_name rule: merge_columns.induct)
  case (2 col rest by_name)
  show ?case
  proof (cases "map_of by_name (col_name col)")
    case None
    with 2 have m: "merge_columns rest (by_name @ [(col_name col, col)]) = Inr merged" by simp
    have "map_of (by_name @ [(col_name col, col)]) (col_name col) = Some col"
      using None by (simp add: map_add_def)
    from merge_columns_keeps [OF m this] have "covers merged col"
      by (simp add: covers_def ColumnTypesCompatible_refl)
    with 2 None m show ?thesis by auto
  next
    case (Some seen)
    with "2.prems" have m: "merge_columns rest by_name = Inr merged" "ColumnTypesCompatible seen col"
      by (auto split: if_splits)
    from merge_columns_keeps [OF m(1) Some] m(2) have "covers merged col" by (simp add: covers_def)
    with 2 Some m show ?thesis by auto
  qed
qed simp

lemma merge_columns_keyed:
  "merge_columns cs by_name = Inr merged \<Longrightarrow> keyed by_name \<Longrightarrow> keyed merged"
  by (induction cs by_name rule: merge_columns.induct)
     (auto simp: keyed_def split: option.splits if_splits)

lemma merge_tables_keyed: "merge_tables S ids by_name = Inr merged \<Longrightarrow> keyed by_name \<Longrightarrow> keyed merged"
  by (induction ids arbitrary: by_name) (auto split: sum.splits dest: merge_columns_keyed)

lemma merge_tables_keeps:
  "merge_tables S ids by_name = Inr merged \<Longrightarrow> map_of by_name n = Some u \<Longrightarrow> map_of merged n = Some u"
  by (induction ids arbitrary: by_name) (auto split: sum.splits dest: merge_columns_keeps)

lemma merge_tables_covers:
  "merge_tables S ids by_name = Inr merged \<Longrightarrow> i \<in> set ids \<Longrightarrow> cat_GetSchema S i = Inr sch \<Longrightarrow>
   c \<in> set (columns sch) \<Longrightarrow> covers merged c"
proof (induction ids arbitrary: by_name)
  case (Cons j ids)
  then obtain sj m where m: "cat_GetSchema S j = Inr sj" "merge_columns (columns sj) by_name = Inr m"
      "merge_tables S ids m = Inr merged"
    by (auto split: sum.splits)
  show ?case
  proof (cases "i = j")
    case True
    with m Cons.prems have "covers m c" by (auto dest: merge_columns_covers)
    then show ?thesis using merge_tables_keeps [OF m(3)] by (auto simp: covers_def)
  next
    case False
    with Cons m show ?thesis by auto
  qed
qed simp

lemma unified_newest_member:
  "unified_newest t by_name cs = Inr out \<Longrightarrow> c \<in> set cs \<Longrightarrow>
   \<exists>u \<in> set out. map_of by_name (col_name c) = Some u"
  by (induction cs arbitrary: out) (auto split: option.splits sum.splits)

lemma unified_covers:
  assumes "UnifyWildcardTableSchemas ho (Some S) ids = Inr U" "set (ho by_name) = set by_name"
    and "merge_tables S ids [] = Inr by_name"
    and "map_of by_name n = Some u" "col_name u = n"
  shows "u \<in> set (columns U)"
proof -
  from assms(1,3) obtain newest cols where n: "cat_GetSchema S (last ids) = Inr newest"
      "unified_newest (table_id (last ids)) by_name (columns newest) = Inr cols"
      "columns U = cols @ map snd (filter (\<lambda>(n, c). \<not> SchemaHasColumn n (columns newest)) (ho by_name)) @
         [TableSuffixColumn]"
    by (auto simp: UnifyWildcardTableSchemas_def split: if_splits sum.splits)
  show ?thesis
  proof (cases "SchemaHasColumn n (columns newest)")
    case True
    then obtain c where "c \<in> set (columns newest)" "col_name c = n"
      by (auto simp: SchemaHasColumn_def list_ex_iff)
    with unified_newest_member [OF n(2)] assms(4) n(3) show ?thesis by fastforce
  next
    case False
    have "(n, u) \<in> set (ho by_name)" using assms(2,4) by (simp add: map_of_SomeD)
    with False n(3) show ?thesis by force
  qed
qed


subsection \<open>Sample data for the witnesses\<close>

definition events_id :: "string \<Rightarrow> TableId" where
  "events_id t = \<lparr>project_id = ''p'', dataset_id = ''d'', table_id = t\<rparr>"

definition int_column :: "string \<Rightarrow> ColumnSchema" where
  "int_column n = ColumnSchema n kInt64 kNullable [] [] []"

definition sample_store :: CatalogStorage where
  "sample_store =
     \<lparr>cat_GetSchema = (\<lambda>i. if table_id i = ''e_b'' then Inr \<lparr>columns = [int_column ''y'', int_column ''x'']\<rparr>
                           else Inr \<lparr>columns = [int_column ''x'']\<rparr>),
      cat_ScanRows = (\<lambda>i. if table_id i = ''e_b'' then Inr [\<lparr>cells = [VInt64 5, VInt64 6]\<rparr>]
                          else Inr [\<lparr>cells = [VInt64 4]\<rparr>]),
      cat_ListTables = (\<lambda>d. Inr [events_id ''e_b'', events_id ''other'', events_id ''e_a''])\<rparr>"

definition sample_wildcard :: WildcardTable where
  "sample_wildcard =
     \<lparr>wt_name = ''e_*'', wt_full_name = ''p.d.e_*'', wildcard_id = events_id ''e_*'', table_prefix = ''e_'',
      matched_tables =
        [\<lparr>wm_table_id = events_id ''e_a'', wm_schema = \<lparr>columns = [int_column ''x'']\<rparr>,
          union_to_physical = [-1, 0, -1]\<rparr>,
         \<lparr>wm_table_id = events_id ''e_b'', wm_schema = \<lparr>columns = [int_column ''y'', int_column ''x'']\<rparr>,
          union_to_physical = [0, 1, -1]\<rparr>],
      union_schema = \<lparr>columns = [int_column ''y'', int_column ''x'', TableSuffixColumn]\<rparr>,
      wt_columns = [(''y'', GT_INT64), (''x'', GT_INT64), (kTableSuffixColumnName, GT_STRING)]\<rparr>"

lemma sample_wildcard_built:
  "build_wildcard_table id factory_ref sample_store ''p'' ''d'' ''e_*'' = Inr sample_wildcard"
  by code_simp

definition sample_rows :: "Row list" where
  "sample_rows =
     [\<lparr>cells = [VNull, VInt64 4, VString ''a'']\<rparr>, \<lparr>cells = [VInt64 5, VInt64 6, VString ''b'']\<rparr>]"

lemma sample_wildcard_rows: "CollectUnionRows (Some sample_store) sample_wildcard None = Inr sample_rows"
  by code_simp

definition suffix_call :: "string \<Rightarrow> string list \<Rightarrow> SExpr" where
  "suffix_call f xs = FunctionCall f (ColumnRef kTableSuffixColumnName # map (\<lambda>x. Literal (LString x)) xs)"

subsection \<open>Properties\<close>

text \<open>
  C12 (a wildcard scan is the union by name). The rows of a wildcard table are those of every
  table of the dataset whose name has the prefix, in the order of the names; each row has, for
  every unified column, the cell of its own table's first column of that name or NULL where it
  has none, and in \<open>_TABLE_SUFFIX\<close> the rest of its table's name.
\<close>

theorem wildcard_rows_by_name:
  assumes "build_wildcard_table ho F S p d w = Inr T"
    and "cat_ListTables S \<lparr>ds_project_id = p, ds_dataset_id = d\<rparr> = Inr listed"
    and "CollectUnionRows (Some S) T None = Inr rows"
  shows "rows = concat (map (\<lambda>i. map (\<lambda>r. \<lparr>cells = map (named_cell (projr (cat_GetSchema S i)) r
               (TableSuffixFor (table_id i) (WildcardTablePrefix w))) (columns (union_schema T))\<rparr>)
             (projr (cat_ScanRows S i))) (matched_ids listed w))"
  using union_rows_all assms(3) built_wildcard_table [OF assms(1,2)]
  by (fastforce simp: CollectUnionRows_def)

theorem wildcard_rows_by_name_witness:
  "sample_rows = concat (map (\<lambda>i. map (\<lambda>r. \<lparr>cells = map (named_cell (projr (cat_GetSchema sample_store i)) r
               (TableSuffixFor (table_id i) (WildcardTablePrefix ''e_*''))) (columns (union_schema sample_wildcard))\<rparr>)
             (projr (cat_ScanRows sample_store i)))
           (matched_ids [events_id ''e_b'', events_id ''other'', events_id ''e_a''] ''e_*''))"
  by (rule wildcard_rows_by_name [OF sample_wildcard_built _ sample_wildcard_rows])
     (simp add: sample_store_def)

text \<open>
  The unified schema covers the tables. When the schemas unify, every column of every
  matched table has a column of its name in the unified schema with the same type and mode, at
  every level of nested fields, and the last unified column is \<open>_TABLE_SUFFIX\<close>, in whatever
  order the hash map is walked.
\<close>

theorem unified_schema_covers:
  assumes "UnifyWildcardTableSchemas ho (Some S) ids = Inr U" "\<forall>xs. set (ho xs) = set xs"
    and "i \<in> set ids" "cat_GetSchema S i = Inr sch" "c \<in> set (columns sch)"
  shows "(\<exists>u \<in> set (columns U). col_name u = col_name c \<and> ColumnTypesCompatible u c) \<and>
    last (columns U) = TableSuffixColumn"
proof -
  from assms(1) obtain by_name where m: "merge_tables S ids [] = Inr by_name"
    by (auto simp: UnifyWildcardTableSchemas_def split: if_splits sum.splits)
  from merge_tables_covers [OF m assms(3-5)] obtain u where u:
      "map_of by_name (col_name c) = Some u" "ColumnTypesCompatible u c"
    by (auto simp: covers_def)
  have "col_name u = col_name c"
    using merge_tables_keyed [OF m] map_of_SomeD [OF u(1)] by (auto simp: keyed_def)
  with unified_covers [OF assms(1) spec [OF assms(2)] m u(1)] u(2) unify_last [OF assms(1)]
  show ?thesis by auto
qed

theorem unified_schema_covers_witness:
  "\<exists>u \<in> set (columns (union_schema sample_wildcard)). col_name u = ''y'' \<and> ColumnTypesCompatible u (int_column ''y'')"
proof -
  have "UnifyWildcardTableSchemas id (Some sample_store) [events_id ''e_a'', events_id ''e_b''] =
      Inr (union_schema sample_wildcard)"
    by code_simp
  from unified_schema_covers [OF this, of "events_id ''e_b''" "\<lparr>columns = [int_column ''y'', int_column ''x'']\<rparr>"
      "int_column ''y''"]
  show ?thesis by (simp add: sample_store_def events_id_def) (simp add: int_column_def)
qed



text \<open>
  A conjunction with a BETWEEN reads nothing. For a filter that bounds the suffix by BETWEEN
  and also fixes it to a value strictly inside the bounds, the two bounds are intersected with
  the value as if they were a list of suffixes: the allow list is empty and no table at all is
  read, although the rows of the table with that suffix satisfy the filter.
\<close>

theorem between_and_reads_nothing:
  assumes "lo < x" "x < hi"
  shows "holds other x (FunctionCall ''$and'' [suffix_call ''$between'' [lo, hi], suffix_call ''$equal'' [x]]) \<and>
    ExtractFromExpr (FunctionCall ''$and'' [suffix_call ''$between'' [lo, hi], suffix_call ''$equal'' [x]]) = Some [] \<and>
    CollectUnionRows (Some S) T (Some []) = Inr []"
proof -
  have names: "AsciiStrToLower ''$and'' = ''$and''" "AsciiStrToLower ''$between'' = ''$between''"
      "AsciiStrToLower ''$equal'' = ''$equal''"
    by code_simp+
  have "union_rows S pre U (Some []) ms = Inr []" for pre U ms
    by (induction ms) (simp_all add: Let_def SuffixMatchesAllowList_def)
  with assms show ?thesis
    by (auto simp: names suffix_call_def IsTableSuffixColumnRef_def IntersectAllowLists_def Let_def
        CollectUnionRows_def less_imp_le)
qed

theorem between_and_reads_nothing_witness:
  "holds (\<lambda>e. False) ''15'' (FunctionCall ''$and'' [suffix_call ''$between'' [''01'', ''31''], suffix_call ''$equal'' [''15'']]) \<and>
   ExtractFromExpr (FunctionCall ''$and'' [suffix_call ''$between'' [''01'', ''31''], suffix_call ''$equal'' [''15'']]) = Some []"
proof -
  have "''01'' < ''15''" "''15'' < ''31''" by code_simp+
  from between_and_reads_nothing [OF this, of "\<lambda>e. False"] show ?thesis by blast
qed

text \<open>
  The allow list of the last filter is used for every scan of a table: in a union of two scans of
  one wildcard table with different suffixes, the first scan's tables are not read.
\<close>

lemma last_allowlist_wins:
  "a \<noteq> b \<Longrightarrow>
   collect_allowlists (OtherScan [FilterScan (suffix_call ''$equal'' [a]) (TableScan t),
       FilterScan (suffix_call ''$equal'' [b]) (TableScan t)]) Map.empty t = Some [b] \<and>
   \<not> SuffixMatchesAllowList a [b]"
proof -
  have "AsciiStrToLower ''$equal'' = ''$equal''" by code_simp
  then show "a \<noteq> b \<Longrightarrow> ?thesis"
    by (simp add: suffix_call_def IsTableSuffixColumnRef_def FindTableSuffixAllowListForWildcardScan_def
        SuffixMatchesAllowList_def)
qed

text \<open>
  Copied into DuckDB, a cell of a type other than the seven the renderer knows is written as
  NULL, and an array of strings as the empty string.
\<close>

lemma union_copy_loses:
  "col_type c \<in> {kDate, kTime, kDatetime, kTimestamp, kJson, kGeography, kStruct, kArray, kUnknown} \<Longrightarrow>
   RenderUnionCell fmt v c = ''NULL''"
  "RenderUnionCell fmt (VArray vs) (ColumnSchema n kString kRepeated d r fs) = quoted []"
  by (auto simp: RenderUnionCell_def is_null_def)

end
