(* ===== verification/Project_Registry.thy ===== *)
theory Project_Registry
  imports Googlesql_Type "HOL-Library.List_Lexorder" "HOL-Library.Char_ord"
begin

section \<open>Registries of views, functions, table functions and procedures\<close>

text \<open>
  \<open>view_registry.cc\<close>, \<open>udf_registry.cc\<close>, \<open>tvf_registry.cc\<close> and \<open>procedure_registry.cc\<close> of
  \<open>backend/catalog\<close> keep, per project, the objects that CREATE statements made, and
  \<open>js_udf_registry.cc\<close> and \<open>python_udf_registry.cc\<close> the bodies of foreign-language functions.
  Catalogs hold raw pointers to the registered objects, so a replaced or dropped object is moved
  to a retired list and never destroyed.

  An object is an address, its name and its contents; a pointer is the object with its address.
  The static map \<open>by_project\<close> of each file is a partial map from projects to buckets, passed and
  returned explicitly; the mutex makes each operation one step. Objects are built by GoogleSQL
  from the statement: the constructors that can fail are parameters.

  The locale \<open>object_registry\<close> has the ownership argument once: if no operation gives up an
  object, no sequence of operations does, so a pointer handed out stays valid. It is interpreted
  on each of the four registries. The locale \<open>simple_catalog\<close> states what the replay relies on of
  \<open>googlesql::SimpleCatalog\<close>; it is interpreted on an executable catalog.
\<close>

datatype 'x Obj = Obj (addr: nat) (Name: string) (contents: 'x)

record ('e, 'r) Bucket =
  analyzer_outputs :: "nat list"
  live :: "'e list"
  retired :: "'r list"

type_synonym ('e, 'r) Registry = "string \<rightharpoonup> ('e, 'r) Bucket"

definition empty_bucket :: "('e, 'r) Bucket" where
  "empty_bucket = \<lparr>analyzer_outputs = [], live = [], retired = []\<rparr>"

text \<open>\<open>by_project[project]\<close>, which creates the bucket.\<close>

definition bucket_of :: "('e, 'r) Registry \<Rightarrow> string \<Rightarrow> ('e, 'r) Bucket" where
  "bucket_of R project = (case R project of None \<Rightarrow> empty_bucket | Some b \<Rightarrow> b)"

text \<open>
  The loop every registry has: the first live entry that satisfies a condition is moved to the
  retired list.
\<close>

fun take_first :: "('a \<Rightarrow> bool) \<Rightarrow> 'a list \<Rightarrow> ('a \<times> 'a list) option" where
  "take_first P [] = None"
| "take_first P (x # xs) =
     (if P x then Some (x, xs) else map_option (\<lambda>(y, ys). (y, x # ys)) (take_first P xs))"

definition retire_first ::
    "('e \<Rightarrow> bool) \<Rightarrow> ('e \<Rightarrow> 'r) \<Rightarrow> ('e, 'r) Bucket \<Rightarrow> ('e, 'r) Bucket option" where
  "retire_first P f b =
     map_option (\<lambda>(x, rest). b\<lparr>live := rest, retired := retired b @ [f x]\<rparr>) (take_first P (live b))"

definition add_output :: "nat option \<Rightarrow> ('e, 'r) Bucket \<Rightarrow> ('e, 'r) Bucket" where
  "add_output out b =
     (case out of None \<Rightarrow> b | Some x \<Rightarrow> b\<lparr>analyzer_outputs := analyzer_outputs b @ [x]\<rparr>)"

definition push_live :: "'e \<Rightarrow> ('e, 'r) Bucket \<Rightarrow> ('e, 'r) Bucket" where
  "push_live e b = b\<lparr>live := live b @ [e]\<rparr>"

definition register_entry ::
    "('e \<Rightarrow> bool) \<Rightarrow> ('e \<Rightarrow> 'r) \<Rightarrow> nat option \<Rightarrow> 'e \<Rightarrow> ('e, 'r) Bucket \<Rightarrow> ('e, 'r) Bucket" where
  "register_entry P f out e b =
     push_live e (add_output out (case retire_first P f b of None \<Rightarrow> b | Some b' \<Rightarrow> b'))"

definition registry_error :: "string \<Rightarrow> Status" where
  "registry_error m = Status kInvalidArgument m"

definition missing_object :: "string \<Rightarrow> string \<Rightarrow> Status" where
  "missing_object what name = Status kNotFound (what @ '' not found: '' @ name)"

definition drop_entry ::
    "('e \<Rightarrow> bool) \<Rightarrow> ('e \<Rightarrow> 'r) \<Rightarrow> Status \<Rightarrow> string \<Rightarrow> ('e, 'r) Registry \<Rightarrow>
     unit StatusOr \<times> ('e, 'r) Registry" where
  "drop_entry P f missing project R =
     (case R project of
        None \<Rightarrow> (Inl missing, R)
      | Some b \<Rightarrow>
          (case retire_first P f b of
             None \<Rightarrow> (Inl missing, R)
           | Some b' \<Rightarrow> (Inr (), R (project \<mapsto> b'))))"

subsection \<open>Views\<close>

record ViewId =
  v_project_id :: string
  v_dataset_id :: string
  v_view_id :: string

definition ViewIdFromNamePath :: "absl \<Rightarrow> string list \<Rightarrow> string \<Rightarrow> string \<Rightarrow> ViewId" where
  "ViewIdFromNamePath A name_path project default_dataset =
     (let segments = (if length name_path = 1 \<and> CHR ''.'' \<in> set (name_path ! 0)
                      then StrSplit A (name_path ! 0) (CHR ''.'') else name_path)
      in case segments of
           [v] \<Rightarrow> \<lparr>v_project_id = project, v_dataset_id = default_dataset, v_view_id = v\<rparr>
         | [d, v] \<Rightarrow> \<lparr>v_project_id = project, v_dataset_id = d, v_view_id = v\<rparr>
         | p # d # v # rest \<Rightarrow> \<lparr>v_project_id = p, v_dataset_id = d, v_view_id = last (v # rest)\<rparr>
         | [] \<Rightarrow> \<lparr>v_project_id = [], v_dataset_id = [], v_view_id = []\<rparr>)"

definition ViewIdIsComplete :: "ViewId \<Rightarrow> bool" where
  "ViewIdIsComplete vid \<longleftrightarrow> v_project_id vid \<noteq> [] \<and> v_dataset_id vid \<noteq> [] \<and> v_view_id vid \<noteq> []"

datatype SqlSecurity = SQL_SECURITY_UNSPECIFIED | SQL_SECURITY_DEFINER | SQL_SECURITY_INVOKER

record 'q CreateViewStmt =
  cv_name_path :: "string list"
  cv_sql :: string
  cv_query :: "'q option"
  cv_columns :: "(string \<times> GType option) option list"
  cv_sql_security :: SqlSecurity
  cv_is_value_table :: bool

record 'q SQLView =
  sv_columns :: "(string \<times> GType) list"
  sv_security :: SqlSecurity
  sv_is_value_table :: bool
  sv_query :: 'q

text \<open>\<open>Create\<close> is \<open>SimpleSQLView::Create\<close>; \<open>new\<close> the address the allocation returns.\<close>

definition null_column_type :: Status where
  "null_column_type = registry_error ''create_view_util: CREATE VIEW column has null type''"

fun view_columns :: "(string \<times> GType option) option list \<Rightarrow> (string \<times> GType) list StatusOr" where
  "view_columns [] = Inr []"
| "view_columns (Some (n, Some t) # rest) =
     (case view_columns rest of Inl s \<Rightarrow> Inl s | Inr cols \<Rightarrow> Inr ((n, t) # cols))"
| "view_columns (_ # rest) = Inl null_column_type"

definition MakeViewFromCreateView ::
    "(string \<Rightarrow> 'q SQLView \<Rightarrow> 'q SQLView StatusOr) \<Rightarrow> nat \<Rightarrow> 'q CreateViewStmt \<Rightarrow> string \<Rightarrow>
     'q SQLView Obj StatusOr" where
  "MakeViewFromCreateView Create new stmt view_table_name =
     (case cv_query stmt of
        None \<Rightarrow> Inl (registry_error ''create_view_util: CREATE VIEW has null query'')
      | Some query \<Rightarrow>
          (if cv_name_path stmt = [] then
             Inl (registry_error ''create_view_util: CREATE VIEW has empty name_path'')
           else case view_columns (cv_columns stmt) of
             Inl s \<Rightarrow> Inl s
           | Inr cols \<Rightarrow>
               (let view_name = (if view_table_name = [] then last (cv_name_path stmt) else view_table_name);
                    security = (if cv_sql_security stmt = SQL_SECURITY_UNSPECIFIED then SQL_SECURITY_INVOKER
                                else cv_sql_security stmt)
                in case Create view_name \<lparr>sv_columns = cols, sv_security = security,
                          sv_is_value_table = cv_is_value_table stmt, sv_query = query\<rparr> of
                     Inl s \<Rightarrow> Inl s
                   | Inr v \<Rightarrow> Inr (Obj new view_name v))))"

record 'q RegisteredViewEntry =
  ve_dataset_id :: string
  ve_definition :: string
  ve_view :: "'q SQLView Obj"

type_synonym 'q Views = "('q RegisteredViewEntry, 'q RegisteredViewEntry) Registry"

definition view_replaced_by :: "string \<Rightarrow> string \<Rightarrow> 'q RegisteredViewEntry \<Rightarrow> bool" where
  "view_replaced_by dataset view_name e \<longleftrightarrow>
     EqualsIgnoreCase (Name (ve_view e)) view_name \<and>
     (dataset = [] \<or> EqualsIgnoreCase (ve_dataset_id e) dataset)"

definition view_answers :: "string \<Rightarrow> string \<Rightarrow> 'q RegisteredViewEntry \<Rightarrow> bool" where
  "view_answers dataset view_name e \<longleftrightarrow>
     EqualsIgnoreCase (Name (ve_view e)) view_name \<and>
     \<not> (dataset \<noteq> [] \<and> ve_dataset_id e \<noteq> [] \<and> \<not> EqualsIgnoreCase (ve_dataset_id e) dataset)"

definition RegisterProjectView ::
    "absl \<Rightarrow> (string \<Rightarrow> 'q SQLView \<Rightarrow> 'q SQLView StatusOr) \<Rightarrow> nat \<Rightarrow> string \<Rightarrow> string \<Rightarrow>
     'q CreateViewStmt \<Rightarrow> nat option \<Rightarrow> 'q Views \<Rightarrow> unit StatusOr \<times> 'q Views" where
  "RegisterProjectView A Create new project default_dataset stmt output R =
     (if project = [] then (Inl (registry_error ''view_registry: project_id must be non-empty''), R)
      else let vid = ViewIdFromNamePath A (cv_name_path stmt) project default_dataset
           in if v_view_id vid = [] then
                (Inl (registry_error ''view_registry: CREATE VIEW has empty view name''), R)
              else case MakeViewFromCreateView Create new stmt (v_view_id vid) of
                     Inl s \<Rightarrow> (Inl s, R)
                   | Inr view \<Rightarrow>
                       (Inr (), R (project \<mapsto>
                          register_entry (view_replaced_by (v_dataset_id vid) (v_view_id vid)) id output
                            \<lparr>ve_dataset_id = v_dataset_id vid, ve_definition = cv_sql stmt, ve_view = view\<rparr>
                            (bucket_of R project))))"

definition FindProjectView :: "'q Views \<Rightarrow> string \<Rightarrow> string \<Rightarrow> string \<Rightarrow> 'q SQLView Obj option" where
  "FindProjectView R project dataset view_name =
     (if project = [] \<or> view_name = [] then None
      else case R project of
             None \<Rightarrow> None
           | Some b \<Rightarrow> map_option ve_view (find (view_answers dataset view_name) (live b)))"

record RegisteredViewInfo =
  vi_dataset_id :: string
  vi_view_name :: string
  vi_definition :: string
  vi_use_standard_sql :: bool

definition view_info :: "'q RegisteredViewEntry \<Rightarrow> RegisteredViewInfo" where
  "view_info e =
     \<lparr>vi_dataset_id = ve_dataset_id e, vi_view_name = Name (ve_view e), vi_definition = ve_definition e,
      vi_use_standard_sql = True\<rparr>"

definition FindRegisteredViewInfo :: "'q Views \<Rightarrow> string \<Rightarrow> string \<Rightarrow> string \<Rightarrow> RegisteredViewInfo option" where
  "FindRegisteredViewInfo R project dataset view_name =
     (if project = [] \<or> view_name = [] then None
      else case R project of
             None \<Rightarrow> None
           | Some b \<Rightarrow> map_option view_info (find (view_answers dataset view_name) (live b)))"

definition ListProjectViews :: "'q Views \<Rightarrow> string \<Rightarrow> string \<Rightarrow> RegisteredViewInfo list" where
  "ListProjectViews R project dataset =
     (if project = [] then []
      else case R project of
             None \<Rightarrow> []
           | Some b \<Rightarrow>
               (let all_datasets = (dataset = [] \<or> prefix ''region-'' dataset)
                in sort_key (\<lambda>v. [vi_dataset_id v, vi_view_name v])
                     (map view_info
                        (filter (\<lambda>e. all_datasets \<or> EqualsIgnoreCase (ve_dataset_id e) dataset) (live b)))))"

definition DropProjectView :: "string \<Rightarrow> string \<Rightarrow> 'q Views \<Rightarrow> unit StatusOr \<times> 'q Views" where
  "DropProjectView project view_name R =
     (if project = [] \<or> view_name = [] then
        (Inl (registry_error ''view_registry: project_id and view_name must be non-empty''), R)
      else drop_entry (\<lambda>e. EqualsIgnoreCase (Name (ve_view e)) view_name) id
             (missing_object ''view'' view_name) project R)"

subsection \<open>Functions\<close>

type_synonym 'f FunctionEntry = "string \<times> 'f Obj"

type_synonym 'f Functions = "('f FunctionEntry, 'f Obj) Registry"

definition function_answers :: "string \<Rightarrow> string \<Rightarrow> 'f FunctionEntry \<Rightarrow> bool" where
  "function_answers dataset name e \<longleftrightarrow>
     EqualsIgnoreCase (Name (snd e)) name \<and>
     \<not> (dataset \<noteq> [] \<and> fst e \<noteq> [] \<and> \<not> EqualsIgnoreCase (fst e) dataset)"

definition RegisterProjectFunction ::
    "string \<Rightarrow> string \<Rightarrow> nat option \<Rightarrow> 'f Obj option \<Rightarrow> 'f Functions \<Rightarrow> unit StatusOr \<times> 'f Functions" where
  "RegisterProjectFunction project dataset output fn R =
     (if project = [] then (Inl (registry_error ''udf_registry: project_id must be non-empty''), R)
      else case fn of
             None \<Rightarrow> (Inl (registry_error ''udf_registry: function must be non-null''), R)
           | Some f \<Rightarrow>
               (Inr (), R (project \<mapsto>
                  register_entry (function_answers dataset (Name f)) snd output (dataset, f)
                    (bucket_of R project))))"

definition FindProjectFunction :: "'f Functions \<Rightarrow> string \<Rightarrow> string \<Rightarrow> string \<Rightarrow> 'f Obj option" where
  "FindProjectFunction R project dataset name =
     (if project = [] \<or> name = [] then None
      else case R project of
             None \<Rightarrow> None
           | Some b \<Rightarrow> map_option snd (find (function_answers dataset name) (live b)))"

text \<open>A single path segment is cut at its first two dots, as \<open>ParseFindTablePath\<close> does.\<close>

definition split_first_dot :: "string \<Rightarrow> (string \<times> string) option" where
  "split_first_dot s =
     (if CHR ''.'' \<in> set s
      then Some (takeWhile (\<lambda>c. c \<noteq> CHR ''.'') s, tl (dropWhile (\<lambda>c. c \<noteq> CHR ''.'') s))
      else None)"

definition ParseRoutinePath :: "string list \<Rightarrow> string \<Rightarrow> (string \<times> string \<times> string) option" where
  "ParseRoutinePath path catalog_project =
     (case path of
        [single] \<Rightarrow>
          (case split_first_dot single of
             None \<Rightarrow> None
           | Some (a, rest) \<Rightarrow>
               (case split_first_dot rest of
                  Some (b, c) \<Rightarrow> Some (a, b, c)
                | None \<Rightarrow> Some (catalog_project, a, rest)))
      | [d, r] \<Rightarrow> Some (catalog_project, d, r)
      | [p, d, r] \<Rightarrow> Some (p, d, r)
      | _ \<Rightarrow> None)"

definition FindProjectFunctionFromPath :: "'f Functions \<Rightarrow> string list \<Rightarrow> string \<Rightarrow> 'f Obj option" where
  "FindProjectFunctionFromPath R path catalog_project =
     (case ParseRoutinePath path catalog_project of
        None \<Rightarrow> None
      | Some (p, d, r) \<Rightarrow> FindProjectFunction R p d r)"

definition IsProjectRegisteredFunction :: "'f Functions \<Rightarrow> string \<Rightarrow> string \<Rightarrow> bool" where
  "IsProjectRegisteredFunction R project name \<longleftrightarrow>
     project \<noteq> [] \<and> name \<noteq> [] \<and>
     (case R project of
        None \<Rightarrow> False
      | Some b \<Rightarrow> list_ex (\<lambda>e. EqualsIgnoreCase (Name (snd e)) name) (live b))"

subsection \<open>Bodies of foreign-language functions\<close>

text \<open>
  The JavaScript and Python registries map lower-cased names to definitions; the definition is
  opaque here.
\<close>

type_synonym 'd Bodies = "string \<rightharpoonup> (string \<rightharpoonup> 'd)"

definition NormalizeFnKey :: "string \<Rightarrow> string" where
  "NormalizeFnKey fn_name = AsciiStrToLower fn_name"

definition by_name_of :: "'d Bodies \<Rightarrow> string \<Rightarrow> (string \<rightharpoonup> 'd)" where
  "by_name_of B project = (case B project of None \<Rightarrow> Map.empty | Some m \<Rightarrow> m)"

definition RegisterProjectUdfBody ::
    "string \<Rightarrow> string \<Rightarrow> ('d \<Rightarrow> string) \<Rightarrow> string \<Rightarrow> string \<Rightarrow> 'd \<Rightarrow> 'd Bodies \<Rightarrow>
     unit StatusOr \<times> 'd Bodies" where
  "RegisterProjectUdfBody registry language body project fn_name def B =
     (if project = [] \<or> fn_name = [] then
        (Inl (registry_error (registry @ '': project_id and fn_name must be non-empty'')), B)
      else if body def = [] then
        (Inl (registry_error (registry @ '': '' @ language @ '' UDF body is empty'')), B)
      else (Inr (), B (project \<mapsto> (by_name_of B project) (NormalizeFnKey fn_name \<mapsto> def))))"

definition LookupProjectUdfBody :: "'d Bodies \<Rightarrow> string \<Rightarrow> string \<Rightarrow> 'd option" where
  "LookupProjectUdfBody B project fn_name =
     (if project = [] \<or> fn_name = [] then None
      else case B project of None \<Rightarrow> None | Some m \<Rightarrow> m (NormalizeFnKey fn_name))"

definition DropProjectUdfBody :: "string \<Rightarrow> string \<Rightarrow> 'd Bodies \<Rightarrow> 'd Bodies" where
  "DropProjectUdfBody project fn_name B =
     (if project = [] \<or> fn_name = [] then B
      else case B project of
             None \<Rightarrow> B
           | Some m \<Rightarrow> B (project \<mapsto> m (NormalizeFnKey fn_name := None)))"

record ('f, 'j, 'p) UdfState =
  udf_functions :: "'f Functions"
  js_bodies :: "'j Bodies"
  python_bodies :: "'p Bodies"

definition DropProjectFunction ::
    "string \<Rightarrow> string \<Rightarrow> ('f, 'j, 'p) UdfState \<Rightarrow> unit StatusOr \<times> ('f, 'j, 'p) UdfState" where
  "DropProjectFunction project fn_name st =
     (if project = [] \<or> fn_name = [] then
        (Inl (registry_error ''udf_registry: project_id and fn_name must be non-empty''), st)
      else case drop_entry (\<lambda>e. EqualsIgnoreCase (Name (snd e)) fn_name) snd
                  (missing_object ''function'' fn_name) project (udf_functions st) of
             (Inl s, R) \<Rightarrow> (Inl s, st\<lparr>udf_functions := R\<rparr>)
           | (Inr u, R) \<Rightarrow>
               (Inr (), st\<lparr>udf_functions := R,
                  js_bodies := DropProjectUdfBody project fn_name (js_bodies st),
                  python_bodies := DropProjectUdfBody project fn_name (python_bodies st)\<rparr>))"

subsection \<open>Table functions and procedures\<close>

type_synonym 'x Named = "('x Obj, 'x Obj) Registry"

definition name_is :: "string \<Rightarrow> 'x Obj \<Rightarrow> bool" where
  "name_is n x \<longleftrightarrow> EqualsIgnoreCase (Name x) n"

text \<open>\<open>Make\<close> builds the object from the statement; its last path segment is its name.\<close>

definition RegisterProjectTvf ::
    "('s \<Rightarrow> 'x StatusOr) \<Rightarrow> nat \<Rightarrow> string \<Rightarrow> string list \<Rightarrow> 's \<Rightarrow> nat option \<Rightarrow> 'x Named \<Rightarrow>
     unit StatusOr \<times> 'x Named" where
  "RegisterProjectTvf Make new project name_path stmt output R =
     (if project = [] then (Inl (registry_error ''tvf_registry: project_id must be non-empty''), R)
      else case Make stmt of
             Inl s \<Rightarrow> (Inl s, R)
           | Inr x \<Rightarrow>
               (Inr (), R (project \<mapsto>
                  register_entry (name_is (last name_path)) id output (Obj new (last name_path) x)
                    (bucket_of R project))))"

definition DropProjectTvf :: "string \<Rightarrow> string \<Rightarrow> 'x Named \<Rightarrow> unit StatusOr \<times> 'x Named" where
  "DropProjectTvf project tvf_name R =
     (if project = [] \<or> tvf_name = [] then
        (Inl (registry_error ''tvf_registry: project_id and tvf_name must be non-empty''), R)
      else drop_entry (name_is tvf_name) id (missing_object ''TVF'' tvf_name) project R)"

definition RegisterProjectProcedure ::
    "('s \<Rightarrow> 'x StatusOr) \<Rightarrow> nat \<Rightarrow> string \<Rightarrow> string list \<Rightarrow> 's \<Rightarrow> nat option \<Rightarrow> 'x Named \<Rightarrow>
     unit StatusOr \<times> 'x Named" where
  "RegisterProjectProcedure Make new project name_path stmt output R =
     (if project = [] then (Inl (registry_error ''procedure_registry: project_id must be non-empty''), R)
      else case Make stmt of
             Inl s \<Rightarrow> (Inl s, R)
           | Inr x \<Rightarrow>
               (Inr (), R (project \<mapsto>
                  register_entry (name_is (last name_path)) id output (Obj new (last name_path) x)
                    (bucket_of R project))))"

definition DropProjectProcedure :: "string \<Rightarrow> string \<Rightarrow> 'x Named \<Rightarrow> unit StatusOr \<times> 'x Named" where
  "DropProjectProcedure project procedure_name R =
     (if project = [] \<or> procedure_name = [] then
        (Inl (registry_error ''procedure_registry: project_id and procedure_name must be non-empty''), R)
      else drop_entry (name_is procedure_name) id
             (missing_object ''procedure'' procedure_name) project R)"

definition FindProjectProcedure :: "'x Named \<Rightarrow> string \<Rightarrow> string \<Rightarrow> 'x Obj option" where
  "FindProjectProcedure R project procedure_name =
     (if project = [] \<or> procedure_name = [] then None
      else case R project of None \<Rightarrow> None | Some b \<Rightarrow> find (name_is procedure_name) (live b))"

subsection \<open>Replay into a catalog\<close>

text \<open>
  The functions of \<open>googlesql::SimpleCatalog\<close> the replay calls: lookup by name, removal of all
  entries that satisfy a condition, and insertion, which aborts the process (\<open>None\<close>) when the name
  is taken.
\<close>

record ('c, 'o) SimpleCatalog =
  CatGet :: "'c \<Rightarrow> string \<Rightarrow> 'o option"
  CatRemove :: "'c \<Rightarrow> ('o \<Rightarrow> bool) \<Rightarrow> 'c"
  CatAdd :: "'c \<Rightarrow> 'o \<Rightarrow> 'c option"

fun replay_shadowing :: "('c, 'x Obj) SimpleCatalog \<Rightarrow> 'x Obj list \<Rightarrow> 'c \<Rightarrow> 'c option" where
  "replay_shadowing K [] c = Some c"
| "replay_shadowing K (f # fs) c =
     (if CatGet K c (Name f) = Some f then replay_shadowing K fs c
      else case CatAdd K (CatRemove K c (name_is (Name f))) f of
             None \<Rightarrow> None
           | Some c' \<Rightarrow> replay_shadowing K fs c')"

definition purge :: "('c, 'x Obj) SimpleCatalog \<Rightarrow> 'x Obj list \<Rightarrow> 'c \<Rightarrow> 'c" where
  "purge K gone c = (if gone \<noteq> [] then CatRemove K c (\<lambda>f. f \<in> set gone) else c)"

definition ReplayFunctionsIntoCatalog ::
    "('c, 'f Obj) SimpleCatalog \<Rightarrow> 'f Functions \<Rightarrow> string \<Rightarrow> 'c \<Rightarrow> 'c option" where
  "ReplayFunctionsIntoCatalog K R project c =
     (case R project of
        None \<Rightarrow> Some c
      | Some b \<Rightarrow> replay_shadowing K (map snd (live b)) (purge K (retired b) c))"

definition ReplayTvfsIntoCatalog ::
    "('c, 'x Obj) SimpleCatalog \<Rightarrow> 'x Named \<Rightarrow> string \<Rightarrow> 'c \<Rightarrow> 'c option" where
  "ReplayTvfsIntoCatalog K R project c =
     (case R project of
        None \<Rightarrow> Some c
      | Some b \<Rightarrow> replay_shadowing K (live b) (purge K (retired b) c))"

fun replay_missing :: "('c, 'x Obj) SimpleCatalog \<Rightarrow> 'x Obj list \<Rightarrow> 'c \<Rightarrow> 'c option" where
  "replay_missing K [] c = Some c"
| "replay_missing K (f # fs) c =
     (case CatGet K c (Name f) of
        Some existing \<Rightarrow> replay_missing K fs c
      | None \<Rightarrow> (case CatAdd K c f of None \<Rightarrow> None | Some c' \<Rightarrow> replay_missing K fs c'))"

definition ReplayProceduresIntoCatalog ::
    "('c, 'x Obj) SimpleCatalog \<Rightarrow> 'x Named \<Rightarrow> string \<Rightarrow> 'c \<Rightarrow> 'c option" where
  "ReplayProceduresIntoCatalog K R project c =
     (case R project of None \<Rightarrow> Some c | Some b \<Rightarrow> replay_missing K (live b) c)"

subsection \<open>Ownership\<close>

locale object_registry =
  fixes owned :: "'st \<Rightarrow> 'ptr set"
    and perform :: "'op \<Rightarrow> 'st \<Rightarrow> 'st"
  assumes keeps: "owned st \<subseteq> owned (perform op st)"
begin

lemma run_keeps: "owned st \<subseteq> owned (fold perform ops st)"
proof (induction ops arbitrary: st)
  case (Cons op ops)
  show ?case using keeps [of st op] Cons [of "perform op st"] by simp
qed simp

end

definition objects :: "('e \<Rightarrow> 'o) \<Rightarrow> ('r \<Rightarrow> 'o) \<Rightarrow> ('e, 'r) Registry \<Rightarrow> 'o set" where
  "objects ev rv R = (\<Union>b \<in> ran R. ev ` set (live b) \<union> rv ` set (retired b))"

lemma take_first_SomeD:
  "take_first P xs = Some (x, rest) \<Longrightarrow> set xs = insert x (set rest) \<and> P x"
  by (induction xs arbitrary: rest) (auto split: if_splits)

lemma objectsI:
  "R p = Some b \<Longrightarrow> x \<in> ev ` set (live b) \<union> rv ` set (retired b) \<Longrightarrow> x \<in> objects ev rv R"
  by (auto simp: objects_def ran_def)

lemma objects_upd:
  assumes "ev ` set (live (bucket_of R p)) \<union> rv ` set (retired (bucket_of R p)) \<subseteq>
      ev ` set (live b) \<union> rv ` set (retired b)"
  shows "objects ev rv R \<subseteq> objects ev rv (R (p \<mapsto> b))"
proof
  fix x assume "x \<in> objects ev rv R"
  then obtain q b' where q: "R q = Some b'" "x \<in> ev ` set (live b') \<union> rv ` set (retired b')"
    by (auto simp: objects_def ran_def)
  show "x \<in> objects ev rv (R (p \<mapsto> b))"
  proof (cases "q = p")
    case True
    with q have "x \<in> ev ` set (live b) \<union> rv ` set (retired b)"
      using assms by (auto simp: bucket_of_def)
    then show ?thesis by (intro objectsI [of _ p b]) auto
  next
    case False
    with q show ?thesis by (intro objectsI [of _ q b']) auto
  qed
qed

lemma retire_first_keeps:
  assumes "retire_first P f b = Some b'" "\<And>x. rv (f x) = ev x"
  shows "ev ` set (live b) \<union> rv ` set (retired b) \<subseteq> ev ` set (live b') \<union> rv ` set (retired b')"
  using assms by (auto simp: retire_first_def dest!: take_first_SomeD)

lemma register_entry_keeps:
  assumes "\<And>x. rv (f x) = ev x"
  shows "ev ` set (live b) \<union> rv ` set (retired b) \<subseteq>
    ev ` set (live (register_entry P f out e b)) \<union> rv ` set (retired (register_entry P f out e b))"
  using retire_first_keeps [of P f b _ rv ev, OF _ assms]
  by (auto simp: register_entry_def push_live_def add_output_def split: option.splits) blast+

lemma drop_entry_keeps:
  assumes "\<And>x. rv (f x) = ev x"
  shows "objects ev rv R \<subseteq> objects ev rv (snd (drop_entry P f missing p R))"
proof (cases "R p")
  case (Some b)
  show ?thesis
  proof (cases "retire_first P f b")
    case (Some b')
    from retire_first_keeps [of P f b b' rv ev, OF Some] assms
    have "objects ev rv R \<subseteq> objects ev rv (R (p \<mapsto> b'))"
      using \<open>R p = Some b\<close> by (intro objects_upd) (simp add: bucket_of_def)
    with Some \<open>R p = Some b\<close> show ?thesis by (simp add: drop_entry_def)
  qed (simp add: drop_entry_def Some)
qed (simp add: drop_entry_def)

text \<open>The operations of each registry, as one step.\<close>

datatype 'q ViewOp =
    RegisterView nat string string "'q CreateViewStmt" "nat option"
  | DropView string string

fun view_step ::
    "absl \<Rightarrow> (string \<Rightarrow> 'q SQLView \<Rightarrow> 'q SQLView StatusOr) \<Rightarrow> 'q ViewOp \<Rightarrow> 'q Views \<Rightarrow> 'q Views" where
  "view_step A Create (RegisterView new p d stmt out) R = snd (RegisterProjectView A Create new p d stmt out R)"
| "view_step A Create (DropView p v) R = snd (DropProjectView p v R)"

datatype 'f FunctionOp =
    RegisterFunction string string "nat option" "'f Obj option"
  | DropFunction string string

fun function_step :: "'f FunctionOp \<Rightarrow> ('f, 'j, 'p) UdfState \<Rightarrow> ('f, 'j, 'p) UdfState" where
  "function_step (RegisterFunction p d out f) st =
     st\<lparr>udf_functions := snd (RegisterProjectFunction p d out f (udf_functions st))\<rparr>"
| "function_step (DropFunction p f) st = snd (DropProjectFunction p f st)"

datatype 's NamedOp =
    RegisterNamed nat string "string list" 's "nat option"
  | DropNamed string string

fun tvf_step :: "('s \<Rightarrow> 'x StatusOr) \<Rightarrow> 's NamedOp \<Rightarrow> 'x Named \<Rightarrow> 'x Named" where
  "tvf_step Make (RegisterNamed new p path stmt out) R = snd (RegisterProjectTvf Make new p path stmt out R)"
| "tvf_step Make (DropNamed p n) R = snd (DropProjectTvf p n R)"

fun procedure_step :: "('s \<Rightarrow> 'x StatusOr) \<Rightarrow> 's NamedOp \<Rightarrow> 'x Named \<Rightarrow> 'x Named" where
  "procedure_step Make (RegisterNamed new p path stmt out) R =
     snd (RegisterProjectProcedure Make new p path stmt out R)"
| "procedure_step Make (DropNamed p n) R = snd (DropProjectProcedure p n R)"

lemma register_keeps:
  assumes "\<And>x. rv (f x) = ev x"
  shows "objects ev rv R \<subseteq> objects ev rv (R (p \<mapsto> register_entry P f out e (bucket_of R p)))"
  by (intro objects_upd register_entry_keeps assms)

lemma keeps_id:
  "objects ev ev R \<subseteq> objects ev ev (R (p \<mapsto> register_entry P id out e (bucket_of R p)))"
  "objects ev ev R \<subseteq> objects ev ev (snd (drop_entry P id missing p R))"
  by (intro register_keeps drop_entry_keeps; simp)+

interpretation sql_views: object_registry "objects ve_view ve_view" "view_step A Create"
proof
  show "objects ve_view ve_view R \<subseteq> objects ve_view ve_view (view_step A Create op R)" for R op
    by (cases op) (simp_all add: keeps_id RegisterProjectView_def DropProjectView_def Let_def split: sum.splits)
qed

lemma DropProjectFunction_keeps:
  "objects snd id (udf_functions st) \<subseteq> objects snd id (udf_functions (snd (DropProjectFunction p f st)))"
proof -
  let ?drop = "drop_entry (\<lambda>e. EqualsIgnoreCase (Name (snd e)) f) snd
    (missing_object ''function'' f) p (udf_functions st)"
  obtain r R where d: "?drop = (r, R)" by (cases ?drop)
  have "objects snd id (udf_functions st) \<subseteq> objects snd id R"
    using drop_entry_keeps [of id snd snd "udf_functions st"] d by (metis id_apply snd_conv)
  then show ?thesis by (cases r) (simp_all add: DropProjectFunction_def d)
qed

interpretation udfs: object_registry "\<lambda>st. objects snd id (udf_functions st)" function_step
proof
  show "objects snd id (udf_functions st) \<subseteq> objects snd id (udf_functions (function_step op st))"
    for st :: "('f, 'j, 'p) UdfState" and op
    using register_keeps [of id snd snd "udf_functions st"] DropProjectFunction_keeps [of st]
    by (cases op) (simp_all add: RegisterProjectFunction_def split: option.splits)
qed

interpretation tvfs: object_registry "objects id id" "tvf_step Make"
proof
  show "objects id id R \<subseteq> objects id id (tvf_step Make op R)" for R op
    by (cases op) (simp_all add: keeps_id RegisterProjectTvf_def DropProjectTvf_def split: sum.splits)
qed

interpretation procedures: object_registry "objects id id" "procedure_step Make"
proof
  show "objects id id R \<subseteq> objects id id (procedure_step Make op R)" for R op
    by (cases op) (simp_all add: keeps_id RegisterProjectProcedure_def DropProjectProcedure_def split: sum.splits)
qed

subsection \<open>Replay\<close>

lemma EqualsIgnoreCase_equiv:
  "EqualsIgnoreCase a b \<Longrightarrow> EqualsIgnoreCase b a"
  "EqualsIgnoreCase a b \<Longrightarrow> EqualsIgnoreCase b c \<Longrightarrow> EqualsIgnoreCase a c"
  by (simp_all add: EqualsIgnoreCase_def)

lemma name_is_self [simp]: "name_is (Name f) f"
  by (simp add: name_is_def)

lemma find_append:
  "find P (xs @ ys) = (case find P xs of None \<Rightarrow> find P ys | Some x \<Rightarrow> Some x)"
  by (induction xs) auto

locale simple_catalog =
  fixes K :: "('c, 'x Obj) SimpleCatalog" and valid :: "'c \<Rightarrow> bool"
  assumes get_named: "valid c \<Longrightarrow> CatGet K c n = Some f \<Longrightarrow> name_is n f"
    and get_cong: "valid c \<Longrightarrow> EqualsIgnoreCase m n \<Longrightarrow> CatGet K c m = CatGet K c n"
    and valid_remove: "valid c \<Longrightarrow> valid (CatRemove K c P)"
    and get_remove: "valid c \<Longrightarrow> CatGet K (CatRemove K c P) n =
      (case CatGet K c n of None \<Rightarrow> None | Some f \<Rightarrow> if P f then None else Some f)"
    and add_new: "valid c \<Longrightarrow> CatGet K c (Name f) = None \<Longrightarrow>
      \<exists>c'. CatAdd K c f = Some c' \<and> valid c' \<and> (\<forall>n. CatGet K c' n = (if name_is n f then Some f else CatGet K c n))"
begin

lemma removed_name: "valid c \<Longrightarrow> CatGet K (CatRemove K c (name_is (Name f))) (Name f) = None"
  using get_named [of c "Name f"] by (auto simp: get_remove split: option.splits)

lemma removed_other:
  "valid c \<Longrightarrow> \<not> name_is n f \<Longrightarrow> CatGet K (CatRemove K c (name_is (Name f))) n = CatGet K c n"
  using get_named [of c n]
  by (auto simp: get_remove name_is_def EqualsIgnoreCase_def split: option.splits)

lemma shadow_step:
  assumes "valid c" "CatGet K c (Name f) \<noteq> Some f"
  shows "\<exists>c'. CatAdd K (CatRemove K c (name_is (Name f))) f = Some c' \<and> valid c' \<and>
    (\<forall>n. CatGet K c' n = (if name_is n f then Some f else CatGet K c n))"
  using add_new [OF valid_remove [OF assms(1)] removed_name [OF assms(1)]] removed_other [OF assms(1)]
  by fastforce

lemma replay_shadowing_get:
  "valid c \<Longrightarrow> \<exists>c'. replay_shadowing K fs c = Some c' \<and> valid c' \<and>
    (\<forall>n. CatGet K c' n = (case find (name_is n) (rev fs) of Some f \<Rightarrow> Some f | None \<Rightarrow> CatGet K c n))"
proof (induction fs arbitrary: c)
  case (Cons f fs)
  obtain c1 where c1: "replay_shadowing K (f # fs) c = replay_shadowing K fs c1" "valid c1"
      "\<And>n. CatGet K c1 n = (if name_is n f then Some f else CatGet K c n)"
  proof (cases "CatGet K c (Name f) = Some f")
    case True
    have "CatGet K c n = Some f" if "name_is n f" for n
      using get_cong [OF Cons.prems, of n "Name f"] that True
      by (auto simp: name_is_def EqualsIgnoreCase_def)
    with True Cons.prems that [of c] show ?thesis by simp
  next
    case False
    with shadow_step [OF Cons.prems] that show ?thesis by fastforce
  qed
  from Cons.IH [OF c1(2)] obtain c' where "replay_shadowing K fs c1 = Some c'" "valid c'"
      "\<forall>n. CatGet K c' n = (case find (name_is n) (rev fs) of Some f \<Rightarrow> Some f | None \<Rightarrow> CatGet K c1 n)"
    by blast
  with c1 show ?case
    by (auto simp: find_append split: option.splits)
qed simp

lemma purge_get:
  "valid c \<Longrightarrow> valid (purge K gone c) \<and>
   CatGet K (purge K gone c) n =
     (case CatGet K c n of None \<Rightarrow> None | Some f \<Rightarrow> if f \<in> set gone then None else Some f)"
  by (auto simp: purge_def valid_remove get_remove split: option.splits)

lemma replay_missing_get:
  "valid c \<Longrightarrow> \<exists>c'. replay_missing K fs c = Some c' \<and> valid c' \<and>
    (\<forall>n. CatGet K c' n = (case CatGet K c n of Some f \<Rightarrow> Some f | None \<Rightarrow> find (name_is n) fs))"
proof (induction fs arbitrary: c)
  case (Cons f fs)
  show ?case
  proof (cases "CatGet K c (Name f)")
    case None
    from add_new [OF Cons.prems None] obtain c1 where c1: "CatAdd K c f = Some c1" "valid c1"
        "\<forall>n. CatGet K c1 n = (if name_is n f then Some f else CatGet K c n)"
      by blast
    have "CatGet K c n = None" if "name_is n f" for n
      using get_cong [OF Cons.prems, of n "Name f"] that None
      by (auto simp: name_is_def EqualsIgnoreCase_def)
    with Cons.IH [OF c1(2)] c1 None show ?thesis by (force split: option.splits)
  next
    case (Some g)
    have "CatGet K c n = Some g" if "name_is n f" for n
      using get_cong [OF Cons.prems, of n "Name f"] that Some
      by (auto simp: name_is_def EqualsIgnoreCase_def)
    with Cons.IH [OF Cons.prems] Some show ?thesis by (force split: option.splits)
  qed
qed (auto split: option.splits)

end

text \<open>An executable catalog: the objects in a list, with unique names.\<close>

definition catalog_ref :: "('x Obj list, 'x Obj) SimpleCatalog" where
  "catalog_ref =
     \<lparr>CatGet = (\<lambda>c n. find (name_is n) c), CatRemove = (\<lambda>c P. filter (\<lambda>f. \<not> P f) c),
      CatAdd = (\<lambda>c f. if find (name_is (Name f)) c = None then Some (f # c) else None)\<rparr>"

definition unique_names :: "'x Obj list \<Rightarrow> bool" where
  "unique_names c \<longleftrightarrow> distinct (map (\<lambda>f. AsciiStrToLower (Name f)) c)"

lemma find_unique:
  "unique_names c \<Longrightarrow> find (name_is n) (filter (\<lambda>f. \<not> P f) c) =
     (case find (name_is n) c of None \<Rightarrow> None | Some f \<Rightarrow> if P f then None else Some f)"
proof (induction c)
  case (Cons f c)
  have "find (name_is n) (filter (\<lambda>f. \<not> P f) c) = None" if "name_is n f"
    using that Cons.prems
    by (auto simp: find_None_iff unique_names_def name_is_def EqualsIgnoreCase_def image_iff)
  with Cons show ?case by (auto simp: unique_names_def)
qed simp

lemma unique_names_filter: "unique_names c \<Longrightarrow> unique_names (filter P c)"
  unfolding unique_names_def by (induction c) auto

interpretation catalog_ref: simple_catalog catalog_ref unique_names
proof
  show "name_is n f" if "CatGet catalog_ref c n = Some f" for c n and f :: "'x Obj"
    using that by (auto simp: catalog_ref_def find_Some_iff)
  show "CatGet catalog_ref c m = CatGet catalog_ref c n" if "EqualsIgnoreCase m n" for c :: "'x Obj list" and m n
    using that by (simp add: catalog_ref_def name_is_def [abs_def] EqualsIgnoreCase_def)
  show "unique_names (CatRemove catalog_ref c P)" if "unique_names c" for c :: "'x Obj list" and P
    using that by (simp add: catalog_ref_def unique_names_filter)
  show "CatGet catalog_ref (CatRemove catalog_ref c P) n =
      (case CatGet catalog_ref c n of None \<Rightarrow> None | Some f \<Rightarrow> if P f then None else Some f)"
    if "unique_names c" for c :: "'x Obj list" and P n
    using find_unique [OF that] by (simp add: catalog_ref_def)
  show "\<exists>c'. CatAdd catalog_ref c f = Some c' \<and> unique_names c' \<and>
      (\<forall>n. CatGet catalog_ref c' n = (if name_is n f then Some f else CatGet catalog_ref c n))"
    if "unique_names c" "CatGet catalog_ref c (Name f) = None" for c and f :: "'x Obj"
    using that by (auto simp: catalog_ref_def find_None_iff unique_names_def name_is_def EqualsIgnoreCase_def)
qed


subsection \<open>Lookup after registration\<close>

text \<open>
  \<open>scoped\<close>: every live view of a bucket has a dataset, and no two have the same dataset and name
  up to case.
\<close>

definition view_key :: "'q RegisteredViewEntry \<Rightarrow> string \<times> string" where
  "view_key e = (AsciiStrToLower (ve_dataset_id e), AsciiStrToLower (Name (ve_view e)))"

definition scoped :: "('q RegisteredViewEntry, 'r) Bucket \<Rightarrow> bool" where
  "scoped b \<longleftrightarrow> (\<forall>e \<in> set (live b). ve_dataset_id e \<noteq> []) \<and> distinct (map view_key (live b))"

lemma take_first_None: "take_first P xs = None \<longleftrightarrow> (\<forall>x \<in> set xs. \<not> P x)"
  by (induction xs) auto

lemma take_first_split:
  "take_first P xs = Some (x, rest) \<Longrightarrow> \<exists>us vs. xs = us @ x # vs \<and> rest = us @ vs \<and> P x \<and> (\<forall>u \<in> set us. \<not> P u)"
proof (induction xs arbitrary: rest)
  case (Cons y ys)
  show ?case
  proof (cases "P y")
    case True
    with Cons.prems show ?thesis by (intro exI [of _ "[]"] exI [of _ ys]) auto
  next
    case False
    with Cons.prems obtain r where "take_first P ys = Some (x, r)" "rest = y # r" by auto
    with Cons.IH [of r] False obtain us vs where "ys = us @ x # vs" "r = us @ vs" "P x" "\<forall>u \<in> set us. \<not> P u"
      by blast
    with False \<open>rest = y # r\<close> show ?thesis by (intro exI [of _ "y # us"] exI [of _ vs]) auto
  qed
qed simp

lemma register_live:
  "live (register_entry P f out e b) =
     (case take_first P (live b) of None \<Rightarrow> live b | Some (x, rest) \<Rightarrow> rest) @ [e]"
  by (simp add: register_entry_def push_live_def add_output_def retire_first_def split: option.splits prod.splits)

lemma ascii_lower_Nil [simp]: "AsciiStrToLower s = [] \<longleftrightarrow> s = []"
  by (simp add: AsciiStrToLower_def)

lemma scoped_key:
  assumes "d \<noteq> []" "ve_dataset_id e \<noteq> []"
  shows "view_answers d v e \<longleftrightarrow> view_key e = (AsciiStrToLower d, AsciiStrToLower v)"
    "view_replaced_by d v e \<longleftrightarrow> view_key e = (AsciiStrToLower d, AsciiStrToLower v)"
  using assms by (auto simp: view_answers_def view_replaced_by_def view_key_def EqualsIgnoreCase_def)

lemma find_key_cong: "(\<And>x. x \<in> set xs \<Longrightarrow> P x = Q x) \<Longrightarrow> find P xs = find Q xs"
  by (induction xs) auto

text \<open>Replacing by key and appending: what a lookup by key then finds.\<close>

lemma register_by_key:
  fixes g :: "'e \<Rightarrow> 'k"
  assumes "distinct (map g xs)" "g e = k"
  defines "ys \<equiv> (case take_first (\<lambda>x. g x = k) xs of None \<Rightarrow> xs | Some (x, rest) \<Rightarrow> rest) @ [e]"
  shows "distinct (map g ys) \<and> set ys \<subseteq> insert e (set xs) \<and>
    find (\<lambda>x. g x = k') ys = (if k' = k then Some e else find (\<lambda>x. g x = k') xs)"
proof (cases "take_first (\<lambda>x. g x = k) xs")
  case None
  then have "\<forall>x \<in> set xs. g x \<noteq> k" by (simp add: take_first_None)
  then have "find (\<lambda>x. g x = k) xs = None" by (simp add: find_None_iff)
  with None assms \<open>\<forall>x \<in> set xs. g x \<noteq> k\<close> show ?thesis
    by (auto simp: ys_def find_append split: option.splits)
next
  case (Some p)
  obtain x rest where p: "p = (x, rest)" by (cases p)
  from take_first_split [OF Some [unfolded p]] obtain us vs where
    s: "xs = us @ x # vs" "rest = us @ vs" "g x = k" "\<forall>u \<in> set us. g u \<noteq> k"
    by blast
  have "g x \<notin> g ` set vs" using assms(1) s(1) by simp
  then have "\<forall>v \<in> set vs. g v \<noteq> k" using s(3) by (metis image_eqI)
  then have "find (\<lambda>x. g x = k) us = None" "find (\<lambda>x. g x = k) vs = None"
    using s by (simp_all add: find_None_iff)
  with Some p s assms \<open>\<forall>v \<in> set vs. g v \<noteq> k\<close> show ?thesis
    by (auto simp: ys_def find_append split: option.splits)
qed

lemma scoped_register:
  fixes b b' :: "('q RegisteredViewEntry, 'q RegisteredViewEntry) Bucket"
  assumes "scoped b" "ve_dataset_id e \<noteq> []" "Name (ve_view e) = v"
    and b'_def: "b' = register_entry (view_replaced_by (ve_dataset_id e) v) id out e b"
  shows "scoped b' \<and>
    (\<forall>d n. d \<noteq> [] \<longrightarrow> find (view_answers d n) (live b') =
       (if EqualsIgnoreCase d (ve_dataset_id e) \<and> EqualsIgnoreCase n v then Some e
        else find (view_answers d n) (live b)))"
proof -
  let ?k = "view_key e"
  have ne: "\<forall>x \<in> set (live b). ve_dataset_id x \<noteq> []" and di: "distinct (map view_key (live b))"
    using assms(1) by (auto simp: scoped_def)
  have "take_first (view_replaced_by (ve_dataset_id e) v) xs = take_first (\<lambda>x. view_key x = ?k) xs"
    if "\<forall>x \<in> set xs. ve_dataset_id x \<noteq> []" for xs
    using that by (induction xs)
      (auto simp: scoped_key(2) [OF assms(2)] view_key_def [of e] assms(3))
  from this [OF ne] have live: "live b' =
      (case take_first (\<lambda>x. view_key x = ?k) (live b) of None \<Rightarrow> live b | Some (x, rest) \<Rightarrow> rest) @ [e]"
    by (simp add: b'_def register_live)
  note r = register_by_key [OF di refl [of ?k], folded live]
  have ne': "\<forall>x \<in> set (live b'). ve_dataset_id x \<noteq> []" using r [of ?k] ne assms(2) by auto
  have f: "find (view_answers d n) ys = find (\<lambda>x. view_key x = (AsciiStrToLower d, AsciiStrToLower n)) ys"
    if "d \<noteq> []" "\<forall>x \<in> set ys. ve_dataset_id x \<noteq> []" for d n and ys :: "'q RegisteredViewEntry list"
    using that by (intro find_key_cong) (simp add: scoped_key)
  show ?thesis
    using r ne' f [OF _ ne] f [OF _ ne']
    by (auto simp: scoped_def view_key_def [of e] assms(3) EqualsIgnoreCase_def)
qed

lemma find_SomeD: "find P xs = Some x \<Longrightarrow> x \<in> set xs \<and> P x"
  by (induction xs) (auto split: if_splits)

lemma MakeView_obj:
  "MakeViewFromCreateView Create new stmt v = Inr x \<Longrightarrow> v \<noteq> [] \<Longrightarrow> addr x = new \<and> Name x = v"
  by (auto simp: MakeViewFromCreateView_def Let_def split: option.splits if_splits sum.splits)

subsection \<open>Sample data for the witnesses\<close>

definition sample_create :: "string \<Rightarrow> string \<Rightarrow> nat CreateViewStmt" where
  "sample_create dataset v =
     \<lparr>cv_name_path = [dataset, v], cv_sql = ''SELECT 1'', cv_query = Some 0,
      cv_columns = [Some (''x'', Some GT_INT64)], cv_sql_security = SQL_SECURITY_UNSPECIFIED,
      cv_is_value_table = False\<rparr>"

definition create_ref :: "string \<Rightarrow> 'q SQLView \<Rightarrow> 'q SQLView StatusOr" where
  "create_ref name v = Inr v"

definition sample_view :: "nat \<Rightarrow> string \<Rightarrow> nat SQLView Obj" where
  "sample_view a v =
     Obj a v \<lparr>sv_columns = [(''x'', GT_INT64)], sv_security = SQL_SECURITY_INVOKER,
              sv_is_value_table = False, sv_query = 0\<rparr>"

definition sample_entry :: "nat \<Rightarrow> string \<Rightarrow> string \<Rightarrow> nat RegisteredViewEntry" where
  "sample_entry a dataset v =
     \<lparr>ve_dataset_id = dataset, ve_definition = ''SELECT 1'', ve_view = sample_view a v\<rparr>"

definition sample_views :: "nat Views" where
  "sample_views =
     [''p'' \<mapsto> \<lparr>analyzer_outputs = [], live = [sample_entry 3 ''d1'' ''v'', sample_entry 4 ''d2'' ''v''], retired = []\<rparr>]"

lemmas sample_view_defs =
  sample_create_def create_ref_def sample_view_def sample_entry_def sample_views_def

subsection \<open>Properties\<close>

text \<open>
  C23 (registered objects are never destroyed). A view, function, table function or procedure that
  a registry holds, live or retired, is still held after any sequence of registrations and drops,
  successful or not; in particular the pointer a lookup returned stays valid.
\<close>

theorem registered_objects_stay:
  "objects ve_view ve_view V \<subseteq> objects ve_view ve_view (fold (view_step A Create) vops V) \<and>
   objects snd id (udf_functions st) \<subseteq> objects snd id (udf_functions (fold function_step fops st)) \<and>
   objects id id T \<subseteq> objects id id (fold (tvf_step MakeTvf) tops T) \<and>
   objects id id P \<subseteq> objects id id (fold (procedure_step MakeProc) pops P) \<and>
   set_option (FindProjectView V p d v) \<subseteq> objects ve_view ve_view V \<and>
   set_option (FindProjectFunction (udf_functions st) p d f) \<subseteq> objects snd id (udf_functions st) \<and>
   set_option (FindProjectProcedure P p n) \<subseteq> objects id id P"
proof (intro conjI)
  show "set_option (FindProjectView V p d v) \<subseteq> objects ve_view ve_view V"
    by (auto simp: FindProjectView_def split: if_splits option.splits dest!: find_SomeD intro!: objectsI)
  show "set_option (FindProjectFunction (udf_functions st) p d f) \<subseteq> objects snd id (udf_functions st)"
    by (auto simp: FindProjectFunction_def image_iff Bex_def split: if_splits option.splits dest!: find_SomeD intro!: objectsI)
  show "set_option (FindProjectProcedure P p n) \<subseteq> objects id id P"
    by (auto simp: FindProjectProcedure_def split: if_splits option.splits dest!: find_SomeD intro!: objectsI)
qed (rule sql_views.run_keeps udfs.run_keeps tvfs.run_keeps procedures.run_keeps)+

text \<open>
  C24 (a registered view is found). In a project whose live views all have a dataset, registering a
  view in a dataset makes the lookup of its dataset and name, in any case, return the new object;
  every other view of a dataset and every other project is answered as before, and the project
  keeps one view per dataset and name.
\<close>

theorem registered_view_is_found:
  assumes "scoped (bucket_of V p)"
    and "RegisterProjectView A Create new p dd stmt out V = (Inr (), V')"
    and "vid = ViewIdFromNamePath A (cv_name_path stmt) p dd" "v_dataset_id vid \<noteq> []"
  shows "scoped (bucket_of V' p) \<and>
    (\<exists>view. addr view = new \<and>
       (\<forall>d n. EqualsIgnoreCase d (v_dataset_id vid) \<and> EqualsIgnoreCase n (v_view_id vid) \<longrightarrow>
          FindProjectView V' p d n = Some view)) \<and>
    (\<forall>d n. d \<noteq> [] \<and> \<not> (EqualsIgnoreCase d (v_dataset_id vid) \<and> EqualsIgnoreCase n (v_view_id vid)) \<longrightarrow>
       FindProjectView V' p d n = FindProjectView V p d n) \<and>
    (\<forall>q. q \<noteq> p \<longrightarrow> FindProjectView V' q = FindProjectView V q)"
proof -
  from assms(2) have p: "p \<noteq> []" and v: "v_view_id vid \<noteq> []"
    by (auto simp: RegisterProjectView_def assms(3) [symmetric] Let_def split: if_splits)
  from assms(2) p v obtain x where x: "MakeViewFromCreateView Create new stmt (v_view_id vid) = Inr x"
      and V': "V' = V (p \<mapsto> register_entry (view_replaced_by (v_dataset_id vid) (v_view_id vid)) id out
        \<lparr>ve_dataset_id = v_dataset_id vid, ve_definition = cv_sql stmt, ve_view = x\<rparr> (bucket_of V p))"
    by (auto simp: RegisterProjectView_def assms(3) [symmetric] Let_def split: if_splits sum.splits)
  let ?e = "\<lparr>ve_dataset_id = v_dataset_id vid, ve_definition = cv_sql stmt, ve_view = x\<rparr>"
  let ?b = "register_entry (view_replaced_by (v_dataset_id vid) (v_view_id vid)) id out ?e (bucket_of V p)"
  have "addr x = new" "Name x = v_view_id vid" using MakeView_obj [OF x v] by auto
  then have r: "scoped ?b \<and> (\<forall>d n. d \<noteq> [] \<longrightarrow> find (view_answers d n) (live ?b) =
      (if EqualsIgnoreCase d (v_dataset_id vid) \<and> EqualsIgnoreCase n (v_view_id vid) then Some ?e
       else find (view_answers d n) (live (bucket_of V p))))"
    using scoped_register [OF assms(1), of ?e "v_view_id vid" ?b out] assms(4) by simp
  have old: "FindProjectView V p d n =
      (if n = [] then None else map_option ve_view (find (view_answers d n) (live (bucket_of V p))))" for d n
    using p by (auto simp: FindProjectView_def bucket_of_def empty_bucket_def split: option.splits)
  have new: "FindProjectView V' p d n =
      (if n = [] then None else map_option ve_view (find (view_answers d n) (live ?b)))" for d n
    using p by (simp add: FindProjectView_def V')
  have ne: "d \<noteq> []" if "EqualsIgnoreCase d e" "e \<noteq> []" for d e
    using that ascii_lower_Nil [of e] by (auto simp: EqualsIgnoreCase_def AsciiStrToLower_def)
  have "FindProjectView V' p d n = Some x"
    if "EqualsIgnoreCase d (v_dataset_id vid)" "EqualsIgnoreCase n (v_view_id vid)" for d n
    using r that ne [OF that(1) assms(4)] ne [OF that(2) v] by (simp add: new)
  moreover have "FindProjectView V' p d n = FindProjectView V p d n"
    if "d \<noteq> []" "\<not> (EqualsIgnoreCase d (v_dataset_id vid) \<and> EqualsIgnoreCase n (v_view_id vid))" for d n
    using r that by (auto simp: new old)
  moreover have "FindProjectView V' q = FindProjectView V q" if "q \<noteq> p" for q
    using that by (intro ext) (simp add: FindProjectView_def V')
  ultimately show ?thesis using r \<open>addr x = new\<close> by (auto simp: V' bucket_of_def)
qed

theorem registered_view_is_found_witness:
  "\<exists>view. addr view = 7 \<and>
     FindProjectView (snd (RegisterProjectView absl_ref create_ref 7 ''p'' [] (sample_create ''D1'' ''V'') None sample_views))
       ''p'' ''d1'' ''v'' = Some view"
proof -
  let ?r = "RegisterProjectView absl_ref create_ref 7 ''p'' [] (sample_create ''D1'' ''V'') None sample_views"
  have vid: "\<lparr>v_project_id = ''p'', v_dataset_id = ''D1'', v_view_id = ''V''\<rparr> =
      ViewIdFromNamePath absl_ref (cv_name_path (sample_create ''D1'' ''V'')) ''p'' []"
    by code_simp
  have sc: "scoped (bucket_of sample_views ''p'')"
    by (simp add: scoped_def bucket_of_def sample_view_defs view_key_def AsciiStrToLower_def)
  have "fst ?r = Inr ()" by code_simp
  then have r: "?r = (Inr (), snd ?r)"
    by (intro prod_eqI) (simp_all only: fst_conv snd_conv)
  have "v_dataset_id \<lparr>v_project_id = ''p'', v_dataset_id = ''D1'', v_view_id = ''V''\<rparr> \<noteq> []" by simp
  from registered_view_is_found [OF sc r vid this, THEN conjunct2, THEN conjunct1]
  obtain view where "addr view = 7"
      "\<forall>d n. EqualsIgnoreCase d ''D1'' \<and> EqualsIgnoreCase n ''V'' \<longrightarrow> FindProjectView (snd ?r) ''p'' d n = Some view"
    unfolding ViewId.simps by blast
  moreover have "EqualsIgnoreCase ''d1'' ''D1'' \<and> EqualsIgnoreCase ''v'' ''V''" by code_simp
  ultimately show ?thesis by blast
qed



text \<open>
  The replay of procedures has no purge: a catalog that resolved a name before the replay resolves
  it to the same procedure after it, also when that procedure was replaced or dropped since.
\<close>

lemma replay_procedures_keeps_stale:
  assumes "simple_catalog K valid" "valid c" "CatGet K c n = Some old"
  shows "\<exists>c'. ReplayProceduresIntoCatalog K R project c = Some c' \<and> CatGet K c' n = Some old"
proof (cases "R project")
  case (Some b)
  with simple_catalog.replay_missing_get [OF assms(1,2), of "live b"] assms(3) show ?thesis
    by (auto simp: ReplayProceduresIntoCatalog_def)
qed (use assms(3) in \<open>simp add: ReplayProceduresIntoCatalog_def\<close>)

text \<open>
  \<open>DropProjectView\<close> knows no dataset. When two datasets have a view of one name, DROP VIEW of the
  second one removes the first.
\<close>

lemma drop_view_ignores_dataset:
  assumes "V p = Some b" "live b = [e1, e2]" "p \<noteq> []" "v \<noteq> []"
    and "EqualsIgnoreCase (Name (ve_view e1)) v" "EqualsIgnoreCase (Name (ve_view e2)) v"
    and "ve_dataset_id e1 \<noteq> []" "ve_dataset_id e2 \<noteq> []"
    and "\<not> EqualsIgnoreCase (ve_dataset_id e2) (ve_dataset_id e1)"
  shows "\<exists>V'. DropProjectView p v V = (Inr (), V') \<and> FindProjectView V' p (ve_dataset_id e1) v = None \<and>
    FindProjectView V' p (ve_dataset_id e2) v = Some (ve_view e2)"
  using assms
  by (simp add: DropProjectView_def drop_entry_def retire_first_def FindProjectView_def view_answers_def)

end
