(* ===== verification/Spec2Isabelle.thy ===== *)
theory Spec2Isabelle
  imports Storage_Write_Rows Duckdb_Read Duckdb_Registry Row_Restriction Script_Exec
    Wildcard_Table Project_Registry
begin

text \<open>
  This library verifies parts of the C++ backend of the BigQuery emulator.

  \<^bold>\<open>The program.\<close> A Go gateway (\<open>gateway/\<close>) speaks BigQuery's REST and gRPC interfaces and calls
  the C++ process (\<open>binaries/emulator_main\<close>) over gRPC. Its handlers (\<open>frontend/handlers\<close>) are the
  catalog, query, Storage Read and Storage Write services. They keep their own state under a mutex
  and use the interface \<open>Storage\<close> (\<open>backend/storage/storage.h\<close>), which \<open>DuckDBStorage\<close>
  (\<open>backend/storage/duckdb\<close>) implements with a directory of Parquet files and JSON sidecars and one
  DuckDB connection. A query is analyzed by GoogleSQL against a catalog (\<open>backend/catalog\<close>) whose
  tables read from the store, and is run by one of the executors under \<open>backend/engine\<close>: the
  DuckDB executor, the semantic evaluator, the control executor for DDL and the script executor.

  \<^bold>\<open>The theories, and the sources each models.\<close>
  \<^item> \<open>Prelude\<close>: status values, character and decimal text, search in strings, lemmas on lists;
    \<open>Absl\<close>: the Abseil routines the sources call, as a record with the locale \<open>absl_api\<close>.
  \<^item> \<open>Schema\<close>: \<open>backend/schema/schema.cc\<close>, columns to and from the wire message and DuckDB types.
    \<open>Googlesql_Type\<close>: \<open>googlesql_to_bq.cc\<close> and \<open>ToGoogleSqlType\<close> of the catalog.
  \<^item> \<open>Storage_Value\<close>: \<open>storage.h\<close>, \<open>storage.cc\<close>, \<open>handler_common.cc\<close>; the locale
    \<open>storage_contract\<close>, what a service may rely on of any store.
  \<^item> \<open>Storage_Write\<close> and \<open>Storage_Write_Rows\<close>: \<open>frontend/handlers/storage_write*.cc\<close>. The record
    \<open>Service\<close> is the object's state, every handler a function on it, and \<open>svc_step\<close> has one
    transition per locked section, so that its reachable states are those of all interleavings.
  \<^item> \<open>Storage_Read\<close>: \<open>storage_read*.cc\<close> and \<open>storage_row_restriction_analyze.cc\<close>, in the same way,
    with \<open>read_step\<close> and the locale \<open>read_contract\<close>.
  \<^item> \<open>Fs_World\<close>, \<open>Duckdb_Sql\<close>, \<open>Duckdb_List\<close>, \<open>Duckdb_Meta\<close>, \<open>Version_Log\<close>, \<open>Duckdb_Storage\<close>,
    \<open>Duckdb_Tombstone\<close>, \<open>Registry_Json\<close>, \<open>Duckdb_Registry\<close>: the files
    \<open>backend/storage/duckdb/duckdb_storage*.cc\<close>. The record \<open>World\<close> is the directory, the temporary
    tables of the connection and the clock; each method holds the store's lock and is one function.
    \<open>Duckdb_Read\<close> interprets the read contract on the store.
  \<^item> \<open>Row_Restriction\<close>: \<open>backend/storage/row_restriction.cc\<close>.
  \<^item> \<open>Semantic_Value\<close>, \<open>Storage_Table\<close>, \<open>Wildcard_Table\<close>: \<open>engine/semantic/value.cc\<close>,
    \<open>catalog/storage_table.cc\<close>, \<open>MaterializeTableScan\<close> of \<open>scan_eval_materialize.cc\<close>,
    \<open>catalog/wildcard_table*.cc\<close> and \<open>googlesql_catalog_wildcard.cc\<close>: how a query reads a table.
  \<^item> \<open>Project_Registry\<close>: \<open>view_registry.cc\<close>, \<open>udf_registry.cc\<close>, \<open>tvf_registry.cc\<close>,
    \<open>procedure_registry.cc\<close> and the name maps of the JavaScript and Python functions.
  \<^item> \<open>Frame_Stack\<close>, \<open>Script_Text\<close>, \<open>Script_Exec\<close>: \<open>engine/semantic/frame_stack.cc\<close>,
    \<open>engine/semantic/script\<close> and \<open>engine/coordinator/script_*.cc\<close>.
  \<^item> This theory puts the write service on top of the DuckDB store.

  Definitions keep the names of the source; a definition in lower case with underscores models a
  part of the function that uses it, such as the body of a loop or an error value.

  \<^bold>\<open>What the lemmas show.\<close>
  \<^item> Write path: every interleaving of handlers keeps the stream invariant and is a run of the
    locked sections; a finalized stream takes no rows; an append call, a flush and a batch commit
    on the DuckDB store make exactly the accepted rows visible, once and in order.
  \<^item> Store: appends and overwrites are all or nothing whatever operation fails, and are one step of
    the table's history; time travel resolves to the snapshot that was live; INSERT text reads back
    as its rows; sidecar, version index, LIST and STRUCT text and registry snapshots read back; a
    dropped table can be restored file by file.
  \<^item> Read path: the streams of a session tile the table, a split divides its stream, and reading
    all streams of a session on the DuckDB store gives every row of the table once and in order.
  \<^item> Query side: analyzed types and values survive storage, with the exceptions stated; a scan
    returns what was written; a wildcard scan is the union by column name, and pruning by suffix
    loses no row under the stated condition; registries never give up an object that a catalog may
    point to, and lookups and replays resolve to the latest one.
  \<^item> Scripts: blocks do not change outer variables they do not assign, calls write back their
    arguments, and a script ends when the analyzer advances.
  Where the code does something its comments or callers do not expect, a theorem says what it does.

  \<^bold>\<open>Third-party code.\<close> Abseil, protobuf, GoogleSQL, DuckDB and the operating system are arguments:
  the records \<open>absl\<close>, \<open>DuckEnv\<close>, \<open>ReadEnv\<close>, \<open>LitFns\<close>, \<open>GApi\<close>, \<open>TypeFactory\<close>, \<open>SimpleCatalog\<close> and
  \<open>ScriptEngine\<close>. What a theorem needs of them is a hypothesis or a locale with an executable
  instance. Every operation of the file system or of the connection may fail, as the parameter
  \<open>io_fault\<close> decides.

  \<^bold>\<open>Bounds.\<close> Loops are structural or have a termination proof, with three exceptions. The loop over
  the statements of a script, \<open>script_loop\<close>, is partial, and the nesting of procedure calls is
  bounded by the argument \<open>depth\<close>: theory \<open>Script_Exec\<close> proves that a script returns, and with
  the same result for every larger bound. The reader of DuckDB types in \<open>Schema\<close> is part of a
  specification and has fuel, of which the length of the text is enough. Stream offsets, row
  counts, identifiers and times in milliseconds are mathematical integers: the counters start at
  zero and grow by the rows of a request, far from the limit of 64 bits. Numbers read from text
  are limited to 64 bits by the parsers, and doubles are their bits.

  \<^bold>\<open>Not modelled.\<close> The DuckDB executor and its SQL transpiler, the evaluator of expressions and of
  scans other than table scans, the function library, DML, the control executor, the routing of
  statements and the rewriting of SQL text, INFORMATION_SCHEMA tables, the catalog's name lookup
  and its cache, the rebuilding of views and routines after a restart, the catalog and query
  handlers, the editor support in \<open>backend/sqltools\<close>, the main programs and the Go gateway. Most of
  these walk GoogleSQL's resolved syntax tree, whose classes are not part of the repository; the
  runtimes of JavaScript and Python functions embed or start other interpreters. Also outside: concurrency
  inside a locked section, memory management, logging and timing.
\<close>

section \<open>The write service on the DuckDB store\<close>

text \<open>
  The lemmas of \<open>Storage_Write_Rows\<close> hold for every store with the storage contract; the
  interpretation \<open>duck\<close> of that contract makes them statements about the write handlers running
  on the DuckDB store. A batch is fit for a table when the store can take its rows: the store is
  in order and no cell is raw STRUCT text.
\<close>

lemmas duck_append_rows = storage_contract.AppendRowsLoop_rows [OF duck.storage_contract_axioms]
lemmas duck_flush_ok = storage_contract.FlushRows_ok [OF duck.storage_contract_axioms]
lemmas duck_flush_error = storage_contract.FlushRows_error [OF duck.storage_contract_axioms]
lemmas duck_batch_again = storage_contract.BatchCommit_again [OF duck.storage_contract_axioms]
lemmas duck_batch_commit = storage_contract.BatchCommitWriteStreams_rows [OF duck.storage_contract_axioms]

abbreviation duck_rows_ok :: "DuckEnv \<Rightarrow> World \<Rightarrow> TableId \<Rightarrow> Row list \<Rightarrow> bool" where
  "duck_rows_ok E \<equiv> ok_rows (duck_ok_row E)"

subsection \<open>Sample data for the witnesses\<close>

definition duck_stream :: string where
  "duck_stream = ''projects/p/datasets/d/tables/t/streams/s1''"

definition duck_request :: AppendRowsRequest where
  "duck_request =
     \<lparr>ar_write_stream = duck_stream, ar_rows = [\<lparr>dr_cells = [CellString ''b'']\<rparr>], ar_trace_id = ''x''\<rparr>"

definition duck_message :: ClientMessage where
  "duck_message = \<lparr>cm_request = duck_request, cm_now = 0, cm_delivered = True\<rparr>"

definition duck_state :: "WriteStreamType \<Rightarrow> StreamState" where
  "duck_state ty = new_StreamState sample_tid id_schema ty []"

definition duck_service :: "StreamState \<Rightarrow> World Service" where
  "duck_service s = \<lparr>next_stream_id = 2, streams = [duck_stream \<mapsto> s], store = json_world\<rparr>"

definition full_state :: "WriteStreamType \<Rightarrow> StreamState" where
  "full_state ty = (duck_state ty)\<lparr>committed_rows := 1, buffered_rows := [id_row ''b''], finalized := (ty = PENDING)\<rparr>"

lemma duck_rows_fit: "duck_rows_ok json_env json_world sample_tid [id_row ''b'']"
  using json_store_ok json_rows_fit by (simp add: ok_rows_def duck_ok_row_def rows_fit_def)

lemma json_rows: "rows_of_duck json_env json_world sample_tid = [id_row ''a'']"
  by (simp add: rows_of_duck_def parquet_rows_def json_world_def)

lemma duck_state_simps:
  "st_table (duck_state ty) = sample_tid" "st_type (duck_state ty) = ty" "st_table (full_state ty) = sample_tid"
  "st_type (full_state ty) = ty" "buffered_rows (full_state ty) = [id_row ''b'']" "flushed_rows (full_state ty) = 0"
  "streams (duck_service s) duck_stream = Some s" "store (duck_service s) = json_world"
  "committed_rows (duck_state ty) = 0"
  by (simp_all add: duck_state_def full_state_def new_StreamState_def duck_service_def)

definition duck_commit :: BatchCommitRequest where
  "duck_commit = \<lparr>bc_parent = [], bc_write_streams = [duck_stream]\<rparr>"

lemma duck_commit_fits:
  "\<lbrakk>name \<in> set (bc_write_streams duck_commit); streams (duck_service (full_state PENDING)) name = Some s\<rbrakk> \<Longrightarrow>
     duck_rows_ok json_env (store (duck_service (full_state PENDING))) (st_table s) (buffered_rows s)"
  using duck_rows_fit by (auto simp: duck_commit_def duck_state_simps)

lemma duck_commit_runs:
  "\<exists>t v1. BatchCommitWriteStreams absl_ref (Some (duckdb_storage json_env)) 0 (Some duck_commit)
     (duck_service (full_state PENDING)) = (Inr t, v1)"
proof -
  have "\<not> isl (fst (BatchCommitWriteStreams absl_ref (Some (duckdb_storage json_env)) 0 (Some duck_commit)
     (duck_service (full_state PENDING))))" by code_simp
  then show ?thesis by (metis prod.collapse sum.collapse(2))
qed

text \<open>A batch with a cell for each column of a table with a measure column.\<close>

definition measure_service :: "World Service" where
  "measure_service =
     \<lparr>next_stream_id = 2, streams = [duck_stream \<mapsto> new_StreamState sample_tid measure_schema COMMITTED []],
      store = measure_world\<rparr>"

definition measure_request :: AppendRowsRequest where
  "measure_request =
     \<lparr>ar_write_stream = duck_stream, ar_rows = [\<lparr>dr_cells = [CellString ''b'', CellString ''1'']\<rparr>], ar_trace_id = []\<rparr>"

subsection \<open>Properties\<close>







text \<open>
  Committing a batch twice publishes its rows twice. Nothing marks a stream as committed:
  after a successful batch commit the same request passes every check again, so unless the store
  itself fails, each of its rows is in its table a second time.
\<close>

theorem batch_commit_twice_duplicates:
  assumes "BatchCommitWriteStreams A (Some (duckdb_storage E)) now (Some req) v = (Inr t, v1)"
    and "BatchCommitWriteStreams A (Some (duckdb_storage E)) now2 (Some req) v1 = (r2, v2)"
    and "\<And>name s. name \<in> set (bc_write_streams req) \<Longrightarrow> streams v name = Some s \<Longrightarrow>
      duck_rows_ok E (store v) (st_table s) (buffered_rows s)"
  shows "(\<exists>e. r2 = Inl (StorageFailed e)) \<or>
    (\<exists>t2. r2 = Inr t2) \<and> rows_of_duck E (store v2) =
      append_commits (named_commits (streams v) (bc_write_streams req))
        (append_commits (named_commits (streams v) (bc_write_streams req)) (rows_of_duck E (store v)))"
  using duck_batch_again [OF assms] .

theorem batch_commit_twice_duplicates_witness:
  "\<exists>t v1 r2 v2. BatchCommitWriteStreams absl_ref (Some (duckdb_storage json_env)) 0
       (Some duck_commit) (duck_service (full_state PENDING)) = (Inr t, v1) \<and>
     BatchCommitWriteStreams absl_ref (Some (duckdb_storage json_env)) 0 (Some duck_commit) v1 = (r2, v2) \<and>
     \<not> isl r2 \<and> rows_of_duck json_env (store v2) sample_tid = [id_row ''a'', id_row ''b'', id_row ''b'']"
proof -
  let ?commit = "BatchCommitWriteStreams absl_ref (Some (duckdb_storage json_env)) 0 (Some duck_commit)"
  obtain t v1 where run: "?commit (duck_service (full_state PENDING)) = (Inr t, v1)" using duck_commit_runs by blast
  obtain r2 v2 where two: "?commit v1 = (r2, v2)" by (metis surj_pair)
  have "\<not> isl (fst (?commit (snd (?commit (duck_service (full_state PENDING))))))" by code_simp
  then have "\<not> isl r2" using run two by simp
  moreover have "(\<exists>e. r2 = Inl (StorageFailed e)) \<or>
      (\<exists>t2. r2 = Inr t2) \<and> rows_of_duck json_env (store v2) =
        append_commits (named_commits (streams (duck_service (full_state PENDING))) (bc_write_streams duck_commit))
          (append_commits (named_commits (streams (duck_service (full_state PENDING))) (bc_write_streams duck_commit))
            (rows_of_duck json_env (store (duck_service (full_state PENDING)))))"
    by (rule batch_commit_twice_duplicates [OF run two]) (rule duck_commit_fits)
  ultimately show ?thesis
    using run two json_rows by (auto simp: duck_state_simps duck_commit_def named_commits_def append_commits_def)
qed

text \<open>
  No batch fits a table with a measure column. A stream validates a batch against all
  columns of the table, the store against the stored columns only. When the table has a measure
  column, a non-empty batch that the stream accepts is refused by the store: no batch with rows
  is answered with an append result, and nothing is written.
\<close>

theorem measure_table_takes_no_batch:
  assumes "ProcessAppendRowsRequest (duckdb_storage E) req True name v = ((r, out), v')"
    and "streams v name = Some s" "st_type s = COMMITTED" "ar_rows req \<noteq> []"
    and "ReadTableSchema E (st_table s) (store v) = Inr (st_schema s)"
    and "column \<in> set (columns (st_schema s))" "ParseMeasureColumnSpec (absl_fns E) column \<noteq> None"
  shows "(\<forall>resp \<in> set out. \<forall>off. resp_outcome resp \<noteq> AppendResult off) \<and> store v' = store v"
proof -
  have fewer: "length (columns (ParquetStorageSchema (absl_fns E) (st_schema s))) < length (columns (st_schema s))"
    using assms(6,7) by (auto simp: ParquetStorageSchema_def StripMeasureColumns_def intro: length_filter_less)
  have "\<exists>e. AppendRows_duck E (store v) (st_table s) rows = (Inl e, store v)"
    if "DecodeAppendRowBatch req (st_schema s) = Inr rows" for rows
  proof -
    have "rows \<noteq> []" "length (cells (hd rows)) = length (columns (st_schema s))"
      using that assms(4) by (auto simp: DecodeAppendRowBatch_def neq_Nil_conv split: if_splits sum.splits)
    then obtain row rest where row: "rows = row # rest" "length (cells row) = length (columns (st_schema s))"
      by (cases rows) auto
    show ?thesis
    proof (cases "EnsureTableMetaExists E (st_table s) (store v)")
      case (Inr u)
      have "\<exists>e. ValidateRowsShape ''AppendRows'' (st_table s) rows
          (length (columns (ParquetStorageSchema (absl_fns E) (st_schema s)))) 0 = Inl e"
        using row fewer by simp
      with Inr row(1) assms(5) show ?thesis by (auto simp: AppendRows_duck_def OpenStage_def Let_def)
    qed (simp add: AppendRows_duck_def)
  qed
  then show ?thesis
    using assms(1-4) DecodeAppendRowBatch_Inr [of req "st_schema s"]
    by (auto simp: ProcessAppendRowsRequest_def LoadStreamSessionForAppend_def WriteAppendResponse_def decoded_rows_def
        CommitImmediateAppendRows_def duckdb_storage_def split: if_splits sum.splits)
qed

theorem measure_table_takes_no_batch_witness:
  "\<exists>r out v'. ProcessAppendRowsRequest (duckdb_storage measure_env) measure_request True duck_stream measure_service = ((r, out), v') \<and>
     (\<forall>resp \<in> set out. \<forall>off. resp_outcome resp \<noteq> AppendResult off) \<and> store v' = store measure_service"
proof -
  let ?s = "new_StreamState sample_tid measure_schema COMMITTED []"
  obtain r out v' where run: "ProcessAppendRowsRequest (duckdb_storage measure_env) measure_request True duck_stream measure_service = ((r, out), v')"
    by (metis surj_pair)
  have s: "streams measure_service duck_stream = Some ?s" by (simp add: measure_service_def)
  have "ReadTableSchema measure_env sample_tid (store measure_service) = Inr measure_schema" by code_simp
  moreover have "ParseMeasureColumnSpec (absl_fns measure_env) (columns measure_schema ! 1) \<noteq> None" by code_simp
  ultimately show ?thesis
    using measure_table_takes_no_batch [OF run s, of "columns measure_schema ! 1"] run
    by (simp add: new_StreamState_def measure_request_def measure_schema_def)
qed

end
